(* ===== verification/GoBase.thy ===== *)
theory GoBase
  imports Main "HOL-Library.Word" "HOL-Library.Char_ord"
begin

text \<open>
  The parts of Go and of its standard library that the components share.

  A Go \<open>string\<close> and a \<open>[]byte\<close> are both sequences of bytes; both are \<^typ>\<open>string\<close> here
  (a HOL \<^typ>\<open>char\<close> is a byte). An instant (\<open>time.Time\<close>) is an \<^typ>\<open>int\<close>: the nanoseconds since
  Go's zero time (1 January of year 1, UTC), so that \<open>IsZero\<close> is equality with \<open>0\<close> and the
  comparisons \<open>Before\<close> and \<open>After\<close> are those of \<^typ>\<open>int\<close>; a \<open>time.Duration\<close> is an \<^typ>\<open>int\<close>
  of nanoseconds. Reading the clock is nondeterministic, so every operation that calls
  \<open>time.Now\<close> takes the instant as an argument. A signed 64-bit sum that may overflow is
  written with \<open>wrap64\<close>.
\<close>

named_theorems go_string \<open>facts about the string operations of package strings\<close>

type_synonym bytes = string
type_synonym gotime = int

abbreviation (input) second :: int where "second \<equiv> 1000000000"

definition is_zero :: "gotime \<Rightarrow> bool" where
  "is_zero t \<longleftrightarrow> t = 0"

text \<open>\<open>Time.Unix\<close>: seconds since 1970; the constant is the Unix epoch in seconds after year 1.\<close>

definition unix :: "gotime \<Rightarrow> int" where
  "unix t = t div second - 62135596800"

lemma unix_mono: "s \<le> t \<Longrightarrow> unix s \<le> unix t"
  by (simp add: unix_def zdiv_mono1)

subsection \<open>Signed 64-bit arithmetic\<close>

definition wrap64 :: "int \<Rightarrow> int" where
  "wrap64 x = (x + 2 ^ 63) mod 2 ^ 64 - 2 ^ 63"

definition in_int64 :: "int \<Rightarrow> bool" where
  "in_int64 x \<longleftrightarrow> - (2 ^ 63) \<le> x \<and> x < 2 ^ 63"

lemma wrap64_id [simp]: "in_int64 x \<Longrightarrow> wrap64 x = x"
  by (simp add: wrap64_def in_int64_def)

lemma wrap64_in [simp]: "in_int64 (wrap64 x)"
proof -
  have "0 \<le> (x + 2 ^ 63) mod 2 ^ 64" and "(x + 2 ^ 63) mod 2 ^ 64 < 2 ^ 64"
    by simp_all
  then show ?thesis by (simp add: wrap64_def in_int64_def)
qed

text \<open>A HOL \<^typ>\<open>64 word\<close> read as a signed number adds the way \<^const>\<open>wrap64\<close> says.\<close>

lemma sint_add_wrap64: "sint (a + b :: 64 word) = wrap64 (sint a + sint b)"
  by (simp add: wrap64_def sint_word_ariths(1) signed_take_bit_eq_take_bit_shift take_bit_eq_mod)

subsection \<open>Package strings\<close>

definition has_prefix :: "string \<Rightarrow> string \<Rightarrow> bool" where
  "has_prefix s p \<longleftrightarrow> take (length p) s = p"

definition has_suffix :: "string \<Rightarrow> string \<Rightarrow> bool" where
  "has_suffix s p \<longleftrightarrow> has_prefix (rev s) (rev p)"

lemma has_prefix_iff [go_string]: "has_prefix s p \<longleftrightarrow> (\<exists>r. s = p @ r)"
  unfolding has_prefix_def by (metis append_eq_conv_conj)

lemma has_suffix_iff [go_string]: "has_suffix s p \<longleftrightarrow> (\<exists>r. s = r @ p)"
  unfolding has_suffix_def has_prefix_iff
  by (metis rev_append rev_rev_ident)

lemma has_prefix_append [simp]: "has_prefix (p @ s) p"
  by (simp add: has_prefix_def)

lemma has_prefix_Nil [simp]: "has_prefix s []"
  by (simp add: has_prefix_def)

text \<open>
  \<open>strings.TrimSpace\<close>. White space is the six ASCII characters and the UTF-8 encodings of the
  other code points of \<open>unicode.IsSpace\<close>: U+0085, U+00A0, U+1680, U+2000 to U+200A, U+2028,
  U+2029, U+202F, U+205F and U+3000. Each encoding starts with a lead byte, so decoding the last
  rune of a string and looking for one of the encodings as a suffix agree.
\<close>

definition spaces :: "string list" where
  "spaces =
     map (\<lambda>c. [c]) [CHR 0x09, CHR 0x0A, CHR 0x0B, CHR 0x0C, CHR 0x0D, CHR 0x20]
     @ [[CHR 0xC2, CHR 0x85], [CHR 0xC2, CHR 0xA0], [CHR 0xE1, CHR 0x9A, CHR 0x80]]
     @ map (\<lambda>c. [CHR 0xE2, CHR 0x80, c])
         [CHR 0x80, CHR 0x81, CHR 0x82, CHR 0x83, CHR 0x84, CHR 0x85, CHR 0x86, CHR 0x87,
          CHR 0x88, CHR 0x89, CHR 0x8A, CHR 0xA8, CHR 0xA9, CHR 0xAF]
     @ [[CHR 0xE2, CHR 0x81, CHR 0x9F], [CHR 0xE3, CHR 0x80, CHR 0x80]]"

lemma spaces_nonempty: "sp \<in> set spaces \<Longrightarrow> sp \<noteq> []"
  by (auto simp: spaces_def)

text \<open>Drop occurrences of the given non-empty blocks from the front, as long as one is there.\<close>

function trim_front :: "string list \<Rightarrow> string \<Rightarrow> string" where
  "trim_front bs s =
     (case List.find (\<lambda>b. b \<noteq> [] \<and> has_prefix s b) bs of
        None \<Rightarrow> s
      | Some b \<Rightarrow> trim_front bs (drop (length b) s))"
  by pat_completeness auto
termination
proof (relation "measure (\<lambda>(bs, s). length s)", goal_cases)
  case (2 bs s b)
  then obtain "b \<noteq> []" and "has_prefix s b"
    by (auto simp: find_Some_iff)
  then have "s \<noteq> []" by (auto simp: has_prefix_def)
  with \<open>b \<noteq> []\<close> show ?case by (cases b; cases s) auto
qed simp

declare trim_front.simps [simp del]

definition trim_space :: "string \<Rightarrow> string" where
  "trim_space s = rev (trim_front (map rev spaces) (rev (trim_front spaces s)))"

lemma trim_front_fix:
  "(\<And>b. b \<in> set bs \<Longrightarrow> b \<noteq> [] \<Longrightarrow> \<not> has_prefix s b) \<Longrightarrow> trim_front bs s = s"
proof (subst trim_front.simps)
  assume "\<And>b. b \<in> set bs \<Longrightarrow> b \<noteq> [] \<Longrightarrow> \<not> has_prefix s b"
  then have "List.find (\<lambda>b. b \<noteq> [] \<and> has_prefix s b) bs = None"
    by (auto simp: find_None_iff)
  then show "(case List.find (\<lambda>b. b \<noteq> [] \<and> has_prefix s b) bs of
        None \<Rightarrow> s | Some b \<Rightarrow> trim_front bs (drop (length b) s)) = s" by simp
qed

lemma trim_front_length: "length (trim_front bs s) \<le> length s"
proof (induction bs s rule: trim_front.induct)
  case (1 bs s)
  then show ?case
    by (subst trim_front.simps) (auto split: option.splits intro: le_trans)
qed

lemma trim_space_length: "length (trim_space s) \<le> length s"
  unfolding trim_space_def
  by (metis length_rev trim_front_length le_trans)

lemma trim_space_Nil [simp]: "trim_space [] = []"
  using trim_space_length [of "[]"] by simp

text \<open>
  \<open>strings.ToLower\<close>, for comparison with ASCII constants. ASCII letters are lowered, and so are the two other
  code points whose lower case is an ASCII letter, U+0130 and U+212A; the case of the rest does not decide
  such a comparison and is left alone.
\<close>

definition lower_char :: "char \<Rightarrow> char" where
  "lower_char c =
     (let n = of_char c :: nat in if 65 \<le> n \<and> n \<le> 90 then char_of (n + 32) else c)"

fun to_lower :: "string \<Rightarrow> string" where
  "to_lower [] = []"
| "to_lower (c # cs) =
     (if has_prefix (c # cs) [CHR 0xC4, CHR 0xB0] then CHR ''i'' # to_lower (drop 1 cs)
      else if has_prefix (c # cs) [CHR 0xE2, CHR 0x84, CHR 0xAA] then CHR ''k'' # to_lower (drop 2 cs)
      else lower_char c # to_lower cs)"

text \<open>\<open>strings.Split\<close> on a one-byte separator; the result is never empty.\<close>

fun split_on :: "char \<Rightarrow> string \<Rightarrow> string list" where
  "split_on c [] = [[]]"
| "split_on c (x # xs) =
     (if x = c then [] # split_on c xs
      else case split_on c xs of [] \<Rightarrow> [[x]] | w # ws \<Rightarrow> (x # w) # ws)"

lemma split_on_not_Nil [simp]: "split_on c s \<noteq> []"
  by (induction s) (auto split: list.splits)

lemma split_on_no_sep: "c \<notin> set s \<Longrightarrow> split_on c s = [s]"
  by (induction s) auto

text \<open>\<open>strings.Join\<close>.\<close>

fun str_join :: "string \<Rightarrow> string list \<Rightarrow> string" where
  "str_join sep [] = []"
| "str_join sep [x] = x"
| "str_join sep (x # y # xs) = x @ sep @ str_join sep (y # xs)"

text \<open>\<open>strconv.Atoi\<close>: an optional sign and decimal digits, in the range of \<open>int64\<close>.\<close>

definition digits_value :: "string \<Rightarrow> int option" where
  "digits_value s =
     (if s = [] \<or> \<not> list_all (\<lambda>c. CHR ''0'' \<le> c \<and> c \<le> CHR ''9'') s then None
      else Some (foldl (\<lambda>n c. 10 * n + (int (of_char c) - 48)) 0 s))"

definition atoi :: "string \<Rightarrow> int option" where
  "atoi s =
     (let v = (case s of
          [] \<Rightarrow> None
        | c # cs \<Rightarrow>
            if c = CHR ''-'' then map_option uminus (digits_value cs)
            else if c = CHR ''+'' then digits_value cs
            else digits_value s) in
      case v of None \<Rightarrow> None | Some n \<Rightarrow> if in_int64 n then Some n else None)"

subsection \<open>Slices and maps\<close>

text \<open>
  \<open>xs[offset:end]\<close> with the bounds the list endpoints compute: an offset past the end gives the
  empty slice, a non-positive limit takes everything.
\<close>

definition page :: "nat \<Rightarrow> int \<Rightarrow> 'a list \<Rightarrow> 'a list" where
  "page offset limit xs =
     (if length xs \<le> offset then []
      else if limit \<le> 0 then drop offset xs
      else take (nat limit) (drop offset xs))"

lemma page_subset: "set (page offset limit xs) \<subseteq> set xs"
  by (auto simp: page_def dest: in_set_takeD in_set_dropD)

lemma length_page: "0 < limit \<Longrightarrow> length (page offset limit xs) \<le> nat limit"
  by (simp add: page_def)

lemma sorted_wrt_page: "sorted_wrt P xs \<Longrightarrow> sorted_wrt P (page offset limit xs)"
  by (simp add: page_def sorted_wrt_take sorted_wrt_drop)

text \<open>\<open>sort.Slice\<close> by descending time stamp: the newest entry comes first.\<close>

definition newest_first :: "('a \<Rightarrow> gotime) \<Rightarrow> 'a list \<Rightarrow> 'a list" where
  "newest_first stamp xs = sort_key (\<lambda>x. - stamp x) xs"

lemma set_newest_first [simp]: "set (newest_first stamp xs) = set xs"
  by (simp add: newest_first_def)

lemma newest_first_sorted: "sorted_wrt (\<lambda>a b. stamp b \<le> stamp a) (newest_first stamp xs)"
proof -
  have "sorted (map (\<lambda>x. - stamp x) (newest_first stamp xs))"
    by (simp add: newest_first_def)
  then show ?thesis by (simp add: sorted_wrt_map sorted_map)
qed

end
