(* ===== verification/Velocity.thy ===== *)
theory Velocity
  imports GoBase "HOL-Library.Sublist"
begin

text \<open>
  Package \<open>internal/velocity\<close>: the sliding-window limiter on calls and on money, with its in-memory
  store of trailing events. The clock is an argument. Sums of cents are signed 64-bit numbers and wrap
  as Go's do. \<open>Check\<close> reads the clock, counts and adds in three separate sections (the store's mutex is
  taken once by \<open>Count\<close> and again by \<open>Add\<close>), so calls in flight interleave: the machine \<open>vel_act\<close> has one
  step per section. The locale \<open>trailing_store\<close> is the contract of \<open>velocity.Store\<close>.
\<close>

record Limits =
  liMaxCalls :: int
  liWindow :: int
  liMaxCents :: int

definition enabled :: "Limits \<Rightarrow> bool" where
  "enabled l \<longleftrightarrow> 0 < liWindow l \<and> (0 < liMaxCalls l \<or> 0 < liMaxCents l)"

definition ReasonRate :: string where "ReasonRate = ''rate_velocity_exceeded''"
definition ReasonMonetary :: string where "ReasonMonetary = ''monetary_velocity_exceeded''"

record VelocityDecision =
  vdAllowed :: bool
  vdReason :: string
  vdCalls :: int
  vdCents :: int
  vdLimits :: Limits

subsection \<open>The in-memory store (memory.go)\<close>

record event =
  evTs :: gotime
  evCents :: int

type_synonym VelocityStore = "string \<Rightarrow> event list"

fun sum_cents :: "int \<Rightarrow> event list \<Rightarrow> int" where
  "sum_cents acc [] = acc"
| "sum_cents acc (e # es) = sum_cents (wrap64 (acc + evCents e)) es"

definition live :: "gotime \<Rightarrow> event list \<Rightarrow> event list" where
  "live cutoff evs = filter (\<lambda>e. cutoff < evTs e) evs"

text \<open>A key with no event reads as the empty list, which is also what \<open>delete\<close> leaves behind.\<close>

definition vel_Count :: "VelocityStore \<Rightarrow> string \<Rightarrow> gotime \<Rightarrow> int \<Rightarrow> (int \<times> int) \<times> VelocityStore" where
  "vel_Count m key now window =
     (let kept = live (now - window) (m key) in ((int (length kept), sum_cents 0 kept), m(key := kept)))"

definition vel_Add :: "VelocityStore \<Rightarrow> string \<Rightarrow> gotime \<Rightarrow> int \<Rightarrow> VelocityStore" where
  "vel_Add m key now cents = m(key := m key @ [\<lparr>evTs = now, evCents = cents\<rparr>])"

subsection \<open>The limiter (velocity.go)\<close>

text \<open>What \<open>Check\<close> decides from the calls and the sum that \<open>Count\<close> returned.\<close>

definition vel_decide :: "int \<Rightarrow> Limits \<Rightarrow> int \<times> int \<Rightarrow> VelocityDecision" where
  "vel_decide cents lim = (\<lambda>(calls, tot).
     let d = \<lparr>vdAllowed = False, vdReason = [], vdCalls = calls + 1, vdCents = wrap64 (tot + cents),
              vdLimits = lim\<rparr>
     in if 0 < liMaxCalls lim \<and> liMaxCalls lim < calls + 1 then d\<lparr>vdReason := ReasonRate\<rparr>
        else if 0 < liMaxCents lim \<and> liMaxCents lim < wrap64 (tot + cents)
          then d\<lparr>vdReason := ReasonMonetary\<rparr>
        else d\<lparr>vdAllowed := True\<rparr>)"

text \<open>A whole \<open>Check\<close> with nothing else running between its sections.\<close>

definition vel_Check ::
  "('st \<Rightarrow> string \<Rightarrow> gotime \<Rightarrow> int \<Rightarrow> (int \<times> int) \<times> 'st) \<Rightarrow> ('st \<Rightarrow> string \<Rightarrow> gotime \<Rightarrow> int \<Rightarrow> 'st)
    \<Rightarrow> gotime \<Rightarrow> string \<Rightarrow> int \<Rightarrow> Limits \<Rightarrow> 'st \<Rightarrow> VelocityDecision \<times> 'st" where
  "vel_Check Count Add now key cents lim s =
     (if \<not> enabled lim then
        (\<lparr>vdAllowed = True, vdReason = [], vdCalls = 0, vdCents = 0, vdLimits = lim\<rparr>, s)
      else case Count s key now (liWindow lim) of (ct, s') \<Rightarrow>
        let d = vel_decide cents lim ct in (d, if vdAllowed d then Add s' key now cents else s'))"

subsection \<open>Calls in flight\<close>

record vel_call =
  vcKey :: string
  vcNow :: gotime
  vcCents :: int

text \<open>
  \<open>vyClock\<close> is the last instant read; \<open>vyStarted\<close> the calls that have read the clock, \<open>vyGranted\<close> those
  that counted and passed but have not added yet, \<open>vyLog\<close> those that added.
\<close>

record 'st vel_sys =
  vyStore :: 'st
  vyClock :: gotime
  vyStarted :: "vel_call list"
  vyGranted :: "vel_call list"
  vyLog :: "vel_call list"

datatype vel_action = ReadClock vel_call | CountCall vel_call | AddCall vel_call

text \<open>
  One section of one call; a call starts beside at most \<open>K\<close> others in flight. \<open>None\<close> when the action is not enabled. The clock
  does not run backwards. A refused call leaves.
\<close>

fun vel_act :: "('st \<Rightarrow> string \<Rightarrow> gotime \<Rightarrow> int \<Rightarrow> (int \<times> int) \<times> 'st)
    \<Rightarrow> ('st \<Rightarrow> string \<Rightarrow> gotime \<Rightarrow> int \<Rightarrow> 'st) \<Rightarrow> nat \<Rightarrow> Limits \<Rightarrow> vel_action \<Rightarrow> 'st vel_sys
    \<Rightarrow> 'st vel_sys option" where
  "vel_act Count Add K lim (ReadClock c) y =
     (if vyClock y \<le> vcNow c \<and> length (vyStarted y) + length (vyGranted y) \<le> K
      then Some (y\<lparr>vyClock := vcNow c, vyStarted := vyStarted y @ [c]\<rparr>) else None)"
| "vel_act Count Add K lim (CountCall c) y =
     (if c \<in> set (vyStarted y) then
        case Count (vyStore y) (vcKey c) (vcNow c) (liWindow lim) of (ct, s') \<Rightarrow>
          Some (y\<lparr>vyStore := s', vyStarted := remove1 c (vyStarted y),
                  vyGranted := vyGranted y @ (if vdAllowed (vel_decide (vcCents c) lim ct) then [c] else [])\<rparr>)
      else None)"
| "vel_act Count Add K lim (AddCall c) y =
     (if c \<in> set (vyGranted y) then
        Some (y\<lparr>vyStore := Add (vyStore y) (vcKey c) (vcNow c) (vcCents c),
                vyGranted := remove1 c (vyGranted y), vyLog := vyLog y @ [c]\<rparr>)
      else None)"

fun vel_sched :: "('st \<Rightarrow> string \<Rightarrow> gotime \<Rightarrow> int \<Rightarrow> (int \<times> int) \<times> 'st)
    \<Rightarrow> ('st \<Rightarrow> string \<Rightarrow> gotime \<Rightarrow> int \<Rightarrow> 'st) \<Rightarrow> nat \<Rightarrow> Limits \<Rightarrow> vel_action list \<Rightarrow> 'st vel_sys
    \<Rightarrow> 'st vel_sys option" where
  "vel_sched Count Add K lim [] y = Some y"
| "vel_sched Count Add K lim (a # as) y =
     Option.bind (vel_act Count Add K lim a y) (vel_sched Count Add K lim as)"

definition vel_init :: "'st \<Rightarrow> gotime \<Rightarrow> 'st vel_sys" where
  "vel_init s t = \<lparr>vyStore = s, vyClock = t, vyStarted = [], vyGranted = [], vyLog = []\<rparr>"

text \<open>The calls let through under a key with an instant after \<open>T - w\<close>, up to \<open>T\<close>.\<close>

definition passed_in :: "gotime \<Rightarrow> int \<Rightarrow> string \<Rightarrow> 'st vel_sys \<Rightarrow> vel_call list" where
  "passed_in T w k y =
     filter (\<lambda>c. vcKey c = k \<and> T - w < vcNow c \<and> vcNow c \<le> T) (vyLog y @ vyGranted y)"

text \<open>Run without interleaving, the sections of a call are \<open>vel_Check\<close>.\<close>

lemma sections_are_Check:
  assumes "enabled lim" "vyClock y \<le> vcNow c" "vyStarted y = []" "vyGranted y = []"
    and "vel_Check Count Add (vcNow c) (vcKey c) (vcCents c) lim (vyStore y) = (d, s')"
  shows "vel_sched Count Add K lim
      ([ReadClock c, CountCall c] @ (if vdAllowed d then [AddCall c] else [])) y =
    Some (y\<lparr>vyStore := s', vyClock := vcNow c, vyLog := vyLog y @ (if vdAllowed d then [c] else [])\<rparr>)"
  using assms by (auto simp: vel_Check_def Let_def split: prod.splits if_splits)

subsection \<open>Loads of a window\<close>

definition ev_of :: "vel_call \<Rightarrow> event" where
  "ev_of c = \<lparr>evTs = vcNow c, evCents = vcCents c\<rparr>"

definition evs_of :: "string \<Rightarrow> vel_call list \<Rightarrow> event list" where
  "evs_of k cs = map ev_of (filter (\<lambda>c. vcKey c = k) cs)"

text \<open>
  Calls and money are two weights of the same events: \<open>g\<close> is constantly one, or the amount. \<open>load\<close> is the
  weight a list of calls puts into the window that ends at \<open>T\<close>.
\<close>

definition wsum :: "(event \<Rightarrow> int) \<Rightarrow> event list \<Rightarrow> int" where
  "wsum g es = sum_list (map g es)"

definition load :: "(event \<Rightarrow> int) \<Rightarrow> gotime \<Rightarrow> int \<Rightarrow> string \<Rightarrow> vel_call list \<Rightarrow> int" where
  "load g T w k cs =
     sum_list (map (\<lambda>c. if vcKey c = k \<and> T - w < vcNow c \<and> vcNow c \<le> T then g (ev_of c) else 0) cs)"

lemma ev_of_sel [simp]: "evTs (ev_of c) = vcNow c" "evCents (ev_of c) = vcCents c"
  by (simp_all add: ev_of_def)

lemma evs_of_simps [simp]:
  "evs_of k [] = []" "evs_of k (cs @ ds) = evs_of k cs @ evs_of k ds"
  "evs_of k [c] = (if vcKey c = k then [ev_of c] else [])"
  by (simp_all add: evs_of_def)

lemma load_simps [simp]:
  "load g T w k [] = 0" "load g T w k (cs @ ds) = load g T w k cs + load g T w k ds"
  "load g T w k (c # cs) =
     (if vcKey c = k \<and> T - w < vcNow c \<and> vcNow c \<le> T then g (ev_of c) else 0) + load g T w k cs"
  by (simp_all add: load_def)

lemma load_remove1: "c \<in> set cs \<Longrightarrow> load g T w k (remove1 c cs) = load g T w k cs - load g T w k [c]"
  by (simp add: load_def sum_list_map_remove1)

lemma load_le:
  "\<forall>c\<in>set cs. g (ev_of c) \<le> a \<Longrightarrow> 0 \<le> a \<Longrightarrow> load g T w k cs \<le> int (length cs) * a"
  by (induction cs) (auto simp: load_def algebra_simps intro: add_mono)

lemma load_nonneg: "\<forall>c\<in>set cs. 0 \<le> g (ev_of c) \<Longrightarrow> 0 \<le> load g T w k cs"
  unfolding load_def by (rule sum_list_nonneg) auto

lemma wsum_live_key:
  "\<forall>c\<in>set cs. vcKey c = k \<longrightarrow> vcNow c \<le> T \<Longrightarrow> wsum g (live (T - w) (evs_of k cs)) = load g T w k cs"
  by (induction cs) (auto simp: wsum_def live_def evs_of_def load_def)

lemma sum_list_le_mult: "\<forall>e\<in>set es. g e \<le> a \<Longrightarrow> sum_list (map g es) \<le> int (length es) * a"
  by (induction es) (auto simp: algebra_simps intro: add_mono)

lemma wsum_live_mono:
  "\<forall>e\<in>set es. 0 \<le> g e \<Longrightarrow> a \<le> b \<Longrightarrow> wsum g (live b es) \<le> wsum g (live a es)"
  by (induction es) (force simp: wsum_def live_def)+

lemma wsum_nonneg: "\<forall>e\<in>set es. 0 \<le> g e \<Longrightarrow> 0 \<le> wsum g es"
  unfolding wsum_def by (rule sum_list_nonneg) auto

lemma wsum_subseq: "subseq xs ys \<Longrightarrow> \<forall>e\<in>set ys. 0 \<le> g e \<Longrightarrow> wsum g xs \<le> wsum g ys"
  by (induction rule: list_emb.induct) (auto simp: wsum_def intro: wsum_nonneg [unfolded wsum_def])

lemma live_live: "a \<le> b \<Longrightarrow> live b (live a es) = live b es"
  unfolding live_def filter_filter by (rule filter_cong) auto

lemma live_append [simp]: "live t [] = []" "live t (xs @ ys) = live t xs @ live t ys"
  by (simp_all add: live_def)

lemma sum_cents_wsum:
  "in_int64 (acc + wsum evCents es) \<Longrightarrow> 0 \<le> acc \<Longrightarrow> \<forall>e\<in>set es. 0 \<le> evCents e \<Longrightarrow>
     sum_cents acc es = acc + wsum evCents es"
proof (induction es arbitrary: acc)
  case (Cons e es)
  have "0 \<le> wsum evCents es" using Cons.prems(3) by (simp add: wsum_nonneg)
  with Cons.prems have "in_int64 (acc + evCents e)" by (simp add: in_int64_def wsum_def)
  with Cons show ?case by (simp add: wsum_def algebra_simps)
qed (simp add: wsum_def)

lemma passed_length: "int (length (passed_in T w k y)) = load (\<lambda>_. 1) T w k (vyLog y @ vyGranted y)"
proof -
  have "int (length (filter (\<lambda>c. vcKey c = k \<and> T - w < vcNow c \<and> vcNow c \<le> T) cs)) = load (\<lambda>_. 1) T w k cs"
    for cs by (induction cs) (auto simp: load_def)
  then show ?thesis by (simp only: passed_in_def)
qed

lemma passed_cents:
  "sum_list (map vcCents (passed_in T w k y)) = load evCents T w k (vyLog y @ vyGranted y)"
proof -
  have "sum_list (map vcCents (filter (\<lambda>c. vcKey c = k \<and> T - w < vcNow c \<and> vcNow c \<le> T) cs)) =
      load evCents T w k cs" for cs by (induction cs) (auto simp: load_def)
  then show ?thesis by (simp only: passed_in_def)
qed

subsection \<open>The contract of a trailing-event store, and its loads under interleaving\<close>

text \<open>
  \<open>vel_wf\<close>: at most \<open>K + 1\<close> calls are in flight, none is ahead of the clock, each weighs between nothing
  and \<open>a\<close>, and the store holds events of calls that added.
\<close>

definition vel_wf :: "(event \<Rightarrow> int) \<Rightarrow> int \<Rightarrow> ('st \<Rightarrow> string \<Rightarrow> event list) \<Rightarrow> nat \<Rightarrow> string \<Rightarrow> 'st vel_sys \<Rightarrow> bool" where
  "vel_wf g a evs K k y \<longleftrightarrow> length (vyStarted y) + length (vyGranted y) \<le> Suc K \<and>
     (\<forall>c\<in>set (vyStarted y @ vyGranted y @ vyLog y).
        vcNow c \<le> vyClock y \<and> 0 \<le> g (ev_of c) \<and> g (ev_of c) \<le> a) \<and>
     subseq (evs (vyStore y) k) (evs_of k (vyLog y))"

text \<open>
  \<open>vel_backlog\<close>: with \<open>P\<close> the latest instant counted under the key, at most \<open>K\<close> events or calls are as old
  as the window that ends at \<open>P\<close>: an older one was in flight when \<open>P\<close> pruned.
\<close>

definition vel_backlog :: "('st \<Rightarrow> string \<Rightarrow> event list) \<Rightarrow> nat \<Rightarrow> int \<Rightarrow> string \<Rightarrow> gotime \<Rightarrow> 'st vel_sys \<Rightarrow> bool" where
  "vel_backlog evs K w k P y \<longleftrightarrow> P \<le> vyClock y \<and>
     (\<forall>c\<in>set (vyGranted y @ vyLog y). vcKey c = k \<longrightarrow> vcNow c \<le> P) \<and>
     length (filter (\<lambda>e. evTs e \<le> P - w) (evs (vyStore y) k)) +
       length (filter (\<lambda>c. vcKey c = k \<and> vcNow c \<le> P - w) (vyStarted y @ vyGranted y)) \<le> K"

text \<open>
  \<open>vel_win\<close>: while the clock has not passed \<open>T\<close> the store still holds the whole window that ends there;
  after that, only calls already in flight can enter it.
\<close>

definition vel_win :: "(event \<Rightarrow> int) \<Rightarrow> int \<Rightarrow> int \<Rightarrow> ('st \<Rightarrow> string \<Rightarrow> event list) \<Rightarrow> nat \<Rightarrow> int \<Rightarrow> string
    \<Rightarrow> gotime \<Rightarrow> 'st vel_sys \<Rightarrow> bool" where
  "vel_win g a cap evs K w k T y \<longleftrightarrow>
     (if vyClock y \<le> T
      then live (T - w) (evs (vyStore y) k) = live (T - w) (evs_of k (vyLog y)) \<and>
        load g T w k (vyLog y @ vyGranted y) \<le> cap + int K * a
      else load g T w k (vyLog y @ vyGranted y @ vyStarted y) \<le> cap + 2 * int K * a)"

definition vel_inv :: "(event \<Rightarrow> int) \<Rightarrow> int \<Rightarrow> int \<Rightarrow> ('st \<Rightarrow> string \<Rightarrow> event list) \<Rightarrow> nat \<Rightarrow> int \<Rightarrow> string
    \<Rightarrow> 'st vel_sys \<Rightarrow> bool" where
  "vel_inv g a cap evs K w k y \<longleftrightarrow> vel_wf g a evs K k y \<and> (\<exists>P. vel_backlog evs K w k P y) \<and>
     (\<forall>T. vel_win g a cap evs K w k T y)"

definition weighs :: "(event \<Rightarrow> int) \<Rightarrow> int \<Rightarrow> vel_action \<Rightarrow> bool" where
  "weighs g a act = (case act of ReadClock c \<Rightarrow> 0 \<le> g (ev_of c) \<and> g (ev_of c) \<le> a | _ \<Rightarrow> True)"

lemma length_filter_remove1_le: "length (filter P (remove1 x xs)) \<le> length (filter P xs)"
  by (induction xs) auto

lemma length_filter_remove1:
  "x \<in> set xs \<Longrightarrow> length (filter P xs) = length (filter P (remove1 x xs)) + (if P x then 1 else 0)"
  by (induction xs) auto

lemma act_cases [consumes 1, case_names ReadClock CountCall AddCall]:
  assumes "vel_act Count Add K lim act y = Some y'"
  obtains (ReadClock) c where "act = ReadClock c" "vyClock y \<le> vcNow c"
      "length (vyStarted y) + length (vyGranted y) \<le> K"
      "y' = y\<lparr>vyClock := vcNow c, vyStarted := vyStarted y @ [c]\<rparr>"
    | (CountCall) c ct s' r where "act = CountCall c" "c \<in> set (vyStarted y)"
      "Count (vyStore y) (vcKey c) (vcNow c) (liWindow lim) = (ct, s')"
      "r = (if vdAllowed (vel_decide (vcCents c) lim ct) then [c] else [])"
      "y' = y\<lparr>vyStore := s', vyStarted := remove1 c (vyStarted y), vyGranted := vyGranted y @ r\<rparr>"
    | (AddCall) c where "act = AddCall c" "c \<in> set (vyGranted y)"
      "y' = y\<lparr>vyStore := Add (vyStore y) (vcKey c) (vcNow c) (vcCents c),
              vyGranted := remove1 c (vyGranted y), vyLog := vyLog y @ [c]\<rparr>"
  using assms by (cases act) (auto split: if_splits prod.splits)

lemma length_remove1_Suc: "x \<in> set xs \<Longrightarrow> Suc (length (remove1 x xs)) = length xs"
  by (induction xs) auto

lemma subseq_set: "subseq xs ys \<Longrightarrow> set xs \<subseteq> set ys"
  by (induction rule: list_emb.induct) auto

lemma subseq_live: "subseq (live t es) es"
  by (simp add: live_def)

locale trailing_store =
  fixes Count :: "'st \<Rightarrow> string \<Rightarrow> gotime \<Rightarrow> int \<Rightarrow> (int \<times> int) \<times> 'st"
    and Add :: "'st \<Rightarrow> string \<Rightarrow> gotime \<Rightarrow> int \<Rightarrow> 'st"
    and evs :: "'st \<Rightarrow> string \<Rightarrow> event list"
  assumes Count_evs: "Count s k now w = (ct, s') \<Longrightarrow>
      ct = (int (length (live (now - w) (evs s k))), sum_cents 0 (live (now - w) (evs s k))) \<and>
      evs s' = (evs s)(k := live (now - w) (evs s k))"
    and Add_evs: "evs (Add s k now c) = (evs s)(k := evs s k @ [\<lparr>evTs = now, evCents = c\<rparr>])"
begin

lemma Add_call: "evs (Add s (vcKey c) (vcNow c) (vcCents c)) =
    (evs s)(vcKey c := evs s (vcKey c) @ [ev_of c])"
  by (simp add: Add_evs ev_of_def)

lemma wf_step:
  assumes "vel_act Count Add K lim act y = Some y'" "vel_wf g a evs K k y" "weighs g a act"
  shows "vel_wf g a evs K k y'"
  using assms(1)
proof (cases rule: act_cases)
  case (ReadClock c)
  with assms(2,3) show ?thesis by (auto simp: vel_wf_def weighs_def intro: order_trans)
next
  case (CountCall c ct s' r)
  have len: "Suc (length (remove1 c (vyStarted y))) = length (vyStarted y)" "length r \<le> 1" "set r \<subseteq> {c}"
    using CountCall by (auto simp: length_remove1_Suc)
  have "subseq (evs s' k) (evs_of k (vyLog y))"
    using assms(2) Count_evs [OF CountCall(3)] subseq_order.order_trans [OF subseq_live]
    by (auto simp: vel_wf_def)
  with len CountCall assms(2) show ?thesis
    using set_remove1_subset [of c "vyStarted y"] by (auto simp: vel_wf_def)
next
  case (AddCall c)
  then have "Suc (length (remove1 c (vyGranted y))) = length (vyGranted y)" by (simp add: length_remove1_Suc)
  with AddCall assms(2) show ?thesis
    using set_remove1_subset [of c "vyGranted y"] by (auto simp: vel_wf_def Add_call)
qed

lemma store_nonneg: "vel_wf g a evs K k y \<Longrightarrow> \<forall>e\<in>set (evs (vyStore y) k). 0 \<le> g e \<and> g e \<le> a"
  unfolding vel_wf_def using subseq_set [of "evs (vyStore y) k" "evs_of k (vyLog y)"]
  by (fastforce simp: evs_of_def)

lemma backlog_step:
  assumes "vel_act Count Add K lim act y = Some y'" "vel_wf g a evs K k y" "vel_backlog evs K (liWindow lim) k P y"
    and "0 < liWindow lim"
  shows "\<exists>P. vel_backlog evs K (liWindow lim) k P y'"
  using assms(1)
proof (cases rule: act_cases)
  case (ReadClock c)
  with assms(3,4) show ?thesis by (auto simp: vel_backlog_def intro!: exI [of _ P])
next
  case (AddCall c)
  with assms(3) show ?thesis
    using set_remove1_subset [of c "vyGranted y"]
      length_filter_remove1 [OF AddCall(2), of "\<lambda>c. vcKey c = k \<and> vcNow c \<le> P - liWindow lim"]
    by (auto simp: vel_backlog_def Add_call intro!: exI [of _ P])
next
  case (CountCall c ct s' r)
  let ?w = "liWindow lim"
  let ?old = "\<lambda>P c. vcKey c = k \<and> vcNow c \<le> P - ?w"
  note rem = length_filter_remove1 [OF CountCall(2), of "?old P"]
  have r: "set r \<subseteq> {c}" "length (filter (?old P) r) \<le> (if ?old P c then 1 else 0)"
    using CountCall by auto
  show ?thesis
  proof (cases "vcKey c = k \<and> P < vcNow c")
    case True
    have "length (filter (?old (vcNow c)) (remove1 c (vyStarted y) @ vyGranted y)) \<le> K"
      using assms(2) length_remove1_Suc [OF CountCall(2)] length_filter_le [of "?old (vcNow c)"]
      by (smt (verit) Suc_le_mono add_Suc length_append order_trans vel_wf_def)
    moreover have "filter (?old (vcNow c)) r = []" using CountCall assms(4) by simp
    moreover have "filter (\<lambda>e. evTs e \<le> vcNow c - ?w) (evs s' k) = []"
      using Count_evs [OF CountCall(3)] True by (auto simp: live_def filter_empty_conv)
    ultimately show ?thesis
      using CountCall assms(2,3) True r(1)
      by (intro exI [of _ "vcNow c"]) (fastforce simp: vel_backlog_def vel_wf_def)
  next
    case False
    have "length (filter (\<lambda>e. evTs e \<le> P - ?w) (evs s' k)) \<le> length (filter (\<lambda>e. evTs e \<le> P - ?w) (evs (vyStore y) k))"
      using Count_evs [OF CountCall(3)] list_emb_length [OF subseq_filter [OF subseq_live]] by auto
    then show ?thesis
      using CountCall assms(3) False r rem by (intro exI [of _ P]) (auto simp: vel_backlog_def)
  qed
qed

lemma win_step:
  assumes "vel_act Count Add K lim act y = Some y'" "vel_wf g a evs K k y" "weighs g a act" "0 \<le> a"
    and win: "vel_win g a cap evs K (liWindow lim) k T y"
    and guard: "\<And>c ct s'. act = CountCall c \<Longrightarrow> vcKey c = k \<Longrightarrow>
      Count (vyStore y) k (vcNow c) (liWindow lim) = (ct, s') \<Longrightarrow> vdAllowed (vel_decide (vcCents c) lim ct) \<Longrightarrow>
      wsum g (live (vcNow c - liWindow lim) (evs (vyStore y) k)) + g (ev_of c) \<le> cap"
  shows "vel_win g a cap evs K (liWindow lim) k T y'"
  using assms(1)
proof (cases rule: act_cases)
  case (ReadClock c)
  let ?load = "load g T (liWindow lim) k"
  have st: "?load (vyStarted y) \<le> int K * a"
  proof -
    have "?load (vyStarted y) \<le> int (length (vyStarted y)) * a"
      using assms(2,4) by (intro load_le) (auto simp: vel_wf_def)
    also have "\<dots> \<le> int K * a" using ReadClock(3) assms(4) by (intro mult_right_mono) simp_all
    finally show ?thesis .
  qed
  show ?thesis
  proof (cases "vyClock y \<le> T")
    case True
    with win have "?load (vyLog y @ vyGranted y) \<le> cap + int K * a"
      "live (T - liWindow lim) (evs (vyStore y) k) = live (T - liWindow lim) (evs_of k (vyLog y))"
      by (simp_all add: vel_win_def)
    with st ReadClock show ?thesis by (auto simp: vel_win_def)
  qed (use win ReadClock in \<open>auto simp: vel_win_def\<close>)
next
  case (AddCall c)
  then show ?thesis
    using win by (auto simp: vel_win_def Add_call load_remove1)
next
  case (CountCall c ct s' r)
  let ?load = "load g T (liWindow lim) k"
  let ?w = "liWindow lim"
  have c: "vcNow c \<le> vyClock y" "0 \<le> g (ev_of c)" using assms(2) CountCall(2) by (auto simp: vel_wf_def)
  have ev: "evs s' k = (if vcKey c = k then live (vcNow c - ?w) (evs (vyStore y) k) else evs (vyStore y) k)"
    using Count_evs [OF CountCall(3)] by simp
  show ?thesis
  proof (cases "vyClock y \<le> T")
    case True
    with win have lv: "live (T - ?w) (evs (vyStore y) k) = live (T - ?w) (evs_of k (vyLog y))"
      and ld: "?load (vyLog y @ vyGranted y) \<le> cap + int K * a" by (simp_all add: vel_win_def)
    have lv': "live (T - ?w) (evs s' k) = live (T - ?w) (evs_of k (vyLog y))"
      using lv ev c(1) True by (simp add: live_live)
    have "?load (vyLog y @ vyGranted y @ r) \<le> cap + int K * a"
    proof (cases "r = [c] \<and> vcKey c = k")
      case rc: True
      have "?load (vyGranted y) \<le> int (length (vyGranted y)) * a"
        using assms(2,4) by (intro load_le) (auto simp: vel_wf_def)
      also have "\<dots> \<le> int K * a"
        using assms(2,4) length_remove1_Suc [OF CountCall(2)] by (intro mult_right_mono) (auto simp: vel_wf_def)
      finally have gr: "?load (vyGranted y) \<le> int K * a" .
      have "\<forall>d\<in>set (vyLog y). vcKey d = k \<longrightarrow> vcNow d \<le> T"
        using assms(2) True by (auto simp: vel_wf_def intro: order_trans)
      then have "?load (vyLog y) = wsum g (live (T - ?w) (evs (vyStore y) k))"
        by (simp add: lv wsum_live_key)
      also have "\<dots> \<le> wsum g (live (vcNow c - ?w) (evs (vyStore y) k))"
        using store_nonneg [OF assms(2)] c(1) True by (intro wsum_live_mono) auto
      also have "\<dots> \<le> cap - g (ev_of c)"
        using guard [OF CountCall(1), of ct s'] CountCall(3,4) rc by (simp split: if_splits)
      finally show ?thesis using gr rc c(2) by (simp add: algebra_simps)
    qed (use ld CountCall(4) in \<open>auto split: if_splits\<close>)
    with lv' True CountCall(5) show ?thesis by (simp add: vel_win_def)
  next
    case False
    have "?load r \<le> ?load [c]" using CountCall(4) c(2) by auto
    with False win CountCall(2,5) show ?thesis by (simp add: vel_win_def load_remove1)
  qed
qed

text \<open>Whatever the clock, a window carries at most its cap and two rounds of the calls beside the first.\<close>

lemma inv_load:
  assumes "vel_inv g a cap evs K w k y" "0 \<le> a"
  shows "load g T w k (vyLog y @ vyGranted y) \<le> cap + 2 * int K * a"
proof -
  have "vel_win g a cap evs K w k T y" "vel_wf g a evs K k y" using assms(1) by (auto simp: vel_inv_def)
  moreover have "int K * a \<le> 2 * int K * a" using assms(2) by simp
  ultimately show ?thesis
    using load_nonneg [of "vyStarted y" g T w k]
    by (auto simp: vel_win_def vel_wf_def algebra_simps split: if_splits)
qed

text \<open>What the store holds under the key weighs at most a window and the backlog.\<close>

lemma store_load:
  assumes inv: "vel_inv g a cap evs K w k y" and "0 \<le> a"
  shows "wsum g (evs (vyStore y) k) \<le> cap + 3 * int K * a"
proof -
  let ?es = "evs (vyStore y) k"
  from inv obtain P where wf: "vel_wf g a evs K k y" and bl: "vel_backlog evs K w k P y" by (auto simp: vel_inv_def)
  have split: "wsum g es = wsum g (filter (\<lambda>e. evTs e \<le> P - w) es) + wsum g (live (P - w) es)" for es
    by (induction es) (auto simp: wsum_def live_def)
  have "wsum g (filter (\<lambda>e. evTs e \<le> P - w) ?es) \<le> int (length (filter (\<lambda>e. evTs e \<le> P - w) ?es)) * a"
    using store_nonneg [OF wf] unfolding wsum_def
    by (intro sum_list_le_mult) auto
  also have "\<dots> \<le> int K * a" using bl assms(2) by (intro mult_right_mono) (auto simp: vel_backlog_def)
  finally have old: "wsum g (filter (\<lambda>e. evTs e \<le> P - w) ?es) \<le> int K * a" .
  have "wsum g (live (P - w) ?es) \<le> wsum g (live (P - w) (evs_of k (vyLog y)))"
    using wf by (intro wsum_subseq) (auto simp: vel_wf_def live_def evs_of_def intro: subseq_filter)
  also have "\<dots> = load g P w k (vyLog y)" using bl by (intro wsum_live_key) (auto simp: vel_backlog_def)
  also have "\<dots> \<le> cap + 2 * int K * a"
    using inv_load [OF inv assms(2), of P] wf load_nonneg [of "vyGranted y" g P w k] by (auto simp: vel_wf_def)
  finally show ?thesis using old split [of ?es] by (simp add: algebra_simps)
qed

lemma inv_step:
  assumes "vel_act Count Add K lim act y = Some y'" "vel_inv g a cap evs K (liWindow lim) k y"
    and "weighs g a act" "0 \<le> a" "0 < liWindow lim"
    and "\<And>c ct s'. act = CountCall c \<Longrightarrow> vcKey c = k \<Longrightarrow>
      Count (vyStore y) k (vcNow c) (liWindow lim) = (ct, s') \<Longrightarrow> vdAllowed (vel_decide (vcCents c) lim ct) \<Longrightarrow>
      wsum g (live (vcNow c - liWindow lim) (evs (vyStore y) k)) + g (ev_of c) \<le> cap"
  shows "vel_inv g a cap evs K (liWindow lim) k y'"
  using assms wf_step [OF assms(1)] backlog_step [OF assms(1)] win_step [OF assms(1)]
  unfolding vel_inv_def by blast

lemma calls_step:
  assumes "vel_act Count Add K lim act y = Some y'"
    and "vel_inv (\<lambda>_. 1) 1 (liMaxCalls lim) evs K (liWindow lim) k y" and "0 < liWindow lim" "0 < liMaxCalls lim"
  shows "vel_inv (\<lambda>_. 1) 1 (liMaxCalls lim) evs K (liWindow lim) k y'"
proof (rule inv_step [OF assms(1,2) _ _ assms(3)])
  fix c ct s'
  assume "Count (vyStore y) k (vcNow c) (liWindow lim) = (ct, s')" "vdAllowed (vel_decide (vcCents c) lim ct)"
  with Count_evs [OF this(1)] assms(4)
  show "wsum (\<lambda>_. 1) (live (vcNow c - liWindow lim) (evs (vyStore y) k)) + 1 \<le> liMaxCalls lim"
    by (auto simp: vel_decide_def wsum_def sum_list_triv Let_def split: if_splits)
qed (auto simp: weighs_def split: vel_action.splits)

lemma cents_step:
  assumes act: "vel_act Count Add K lim act y = Some y'"
    and inv: "vel_inv evCents a (liMaxCents lim) evs K (liWindow lim) k y" and "0 < liWindow lim" "0 < liMaxCents lim"
    and "weighs evCents a act" "0 \<le> a" "in_int64 (liMaxCents lim + (3 * int K + 1) * a)"
  shows "vel_inv evCents a (liMaxCents lim) evs K (liWindow lim) k y'"
proof (rule inv_step [OF act inv assms(5,6,3)])
  fix c ct s'
  assume c: "act = CountCall c" "vcKey c = k"
    and ct: "Count (vyStore y) k (vcNow c) (liWindow lim) = (ct, s')" "vdAllowed (vel_decide (vcCents c) lim ct)"
  let ?es = "evs (vyStore y) k" let ?l = "live (vcNow c - liWindow lim) ?es"
  have wf: "vel_wf evCents a evs K k y" using inv by (simp add: vel_inv_def)
  have nn: "\<forall>e\<in>set ?es. 0 \<le> evCents e" "\<forall>e\<in>set ?l. 0 \<le> evCents e"
    using store_nonneg [OF wf] by (auto simp: live_def)
  have "0 \<le> vcCents c" "vcCents c \<le> a"
    using act c(1) wf by (auto simp: vel_wf_def split: if_splits)
  moreover have "wsum evCents ?l \<le> liMaxCents lim + 3 * int K * a"
    using store_load [OF inv assms(6)] wsum_subseq [OF subseq_live nn(1)] by (rule order_trans [rotated])
  ultimately have "in_int64 (wsum evCents ?l + vcCents c)" "in_int64 (wsum evCents ?l)"
    using assms(4,7) wsum_nonneg [OF nn(2)] by (auto simp: in_int64_def algebra_simps)
  with ct nn(2) Count_evs [OF ct(1)] assms(4)
  show "wsum evCents ?l + evCents (ev_of c) \<le> liMaxCents lim"
    by (auto simp: vel_decide_def sum_cents_wsum Let_def split: if_splits)
qed

lemma inv_init: "evs s = (\<lambda>_. []) \<Longrightarrow> 0 \<le> a \<Longrightarrow> 0 \<le> cap \<Longrightarrow> vel_inv g a cap evs K w k (vel_init s t)"
  by (auto simp: vel_inv_def vel_wf_def vel_backlog_def vel_win_def vel_init_def)

lemma sched_calls:
  assumes "vel_sched Count Add K lim as y = Some y'"
    and "vel_inv (\<lambda>_. 1) 1 (liMaxCalls lim) evs K (liWindow lim) k y" "0 < liWindow lim" "0 < liMaxCalls lim"
  shows "vel_inv (\<lambda>_. 1) 1 (liMaxCalls lim) evs K (liWindow lim) k y'"
  using assms by (induction as arbitrary: y) (auto simp: Option.bind_eq_Some_conv dest: calls_step)

lemma sched_cents:
  assumes "vel_sched Count Add K lim as y = Some y'" "list_all (weighs evCents a) as"
    and "vel_inv evCents a (liMaxCents lim) evs K (liWindow lim) k y" "0 < liWindow lim" "0 < liMaxCents lim"
    and "0 \<le> a" "in_int64 (liMaxCents lim + (3 * int K + 1) * a)"
  shows "vel_inv evCents a (liMaxCents lim) evs K (liWindow lim) k y'"
  using assms by (induction as arbitrary: y) (auto simp: Option.bind_eq_Some_conv dest: cents_step)

end

interpretation memvel: trailing_store vel_Count vel_Add "\<lambda>m. m"
  by unfold_locales (auto simp: vel_Count_def vel_Add_def Let_def)

text \<open>
  C39. The caps hold up to the calls that overlap: start from an empty store and interleave the sections
  of any number of calls in any way (reading the clock, counting, adding), with the clock not running
  backwards and a call never starting beside more than \<open>K\<close> others in flight. Then under every key, in
  every window of the configured length, the calls let through exceed the call cap by at most \<open>2 K\<close>, and,
  when amounts lie between nothing and \<open>A\<close> and the cap plus \<open>3 K + 1\<close> of them fits in 64 bits, their money
  exceeds the monetary cap by at most \<open>2 K A\<close>. For \<open>K = 0\<close>, calls one after another, both caps are exact.
\<close>

theorem velocity_window_bound:
  assumes "enabled lim"
    and "vel_sched vel_Count vel_Add K lim as (vel_init (\<lambda>_. []) t) = Some y"
  shows "(0 < liMaxCalls lim \<longrightarrow>
       int (length (passed_in T (liWindow lim) key y)) \<le> liMaxCalls lim + 2 * int K) \<and>
     (0 < liMaxCents lim \<and> 0 \<le> A \<and> list_all (weighs evCents A) as \<and>
        in_int64 (liMaxCents lim + (3 * int K + 1) * A) \<longrightarrow>
       sum_list (map vcCents (passed_in T (liWindow lim) key y)) \<le> liMaxCents lim + 2 * int K * A)"
proof (intro conjI impI)
  have w: "0 < liWindow lim" using assms(1) by (simp add: enabled_def)
  show "int (length (passed_in T (liWindow lim) key y)) \<le> liMaxCalls lim + 2 * int K" if "0 < liMaxCalls lim"
    using memvel.inv_load [OF memvel.sched_calls [OF assms(2) memvel.inv_init w that]] that
    by (simp add: passed_length)
  show "sum_list (map vcCents (passed_in T (liWindow lim) key y)) \<le> liMaxCents lim + 2 * int K * A"
    if "0 < liMaxCents lim \<and> 0 \<le> A \<and> list_all (weighs evCents A) as \<and>
        in_int64 (liMaxCents lim + (3 * int K + 1) * A)"
    using memvel.inv_load [OF memvel.sched_cents [OF assms(2) _ memvel.inv_init w]] that
    by (simp add: passed_cents)
qed

definition sample_limits :: Limits where
  "sample_limits = \<lparr>liMaxCalls = 5, liWindow = 60, liMaxCents = 100\<rparr>"

text \<open>Two calls that overlap, a refused one beside nothing, and one in the next window.\<close>

definition velocity_call :: "gotime \<Rightarrow> int \<Rightarrow> vel_call" where
  "velocity_call now c = \<lparr>vcKey = ''a'', vcNow = now, vcCents = c\<rparr>"

definition sample_schedule :: "vel_action list" where
  "sample_schedule =
     [ReadClock (velocity_call 1 60), ReadClock (velocity_call 2 60), CountCall (velocity_call 2 60),
      CountCall (velocity_call 1 60), AddCall (velocity_call 1 60), AddCall (velocity_call 2 60),
      ReadClock (velocity_call 3 60), CountCall (velocity_call 3 60),
      ReadClock (velocity_call 70 60), CountCall (velocity_call 70 60), AddCall (velocity_call 70 60)]"

definition sample_end :: "VelocityStore vel_sys" where
  "sample_end = \<lparr>vyStore = (\<lambda>_. [])(''a'' := [\<lparr>evTs = 70, evCents = 60\<rparr>]), vyClock = 70, vyStarted = [],
     vyGranted = [], vyLog = [velocity_call 1 60, velocity_call 2 60, velocity_call 70 60]\<rparr>"

lemma sample_sched: "vel_sched vel_Count vel_Add 1 sample_limits sample_schedule (vel_init (\<lambda>_. []) 0) = Some sample_end"
  by (simp add: sample_schedule_def sample_end_def velocity_call_def sample_limits_def vel_init_def
      vel_Count_def vel_Add_def vel_decide_def live_def Let_def wrap64_def)

text \<open>
  Overlapping calls do pass the cap: two calls of 60 cents that count before either adds both go through
  a cap of 100 cents, and run one after the other the second is refused.
\<close>

theorem velocity_overlap_exceeds_cap:
  "\<exists>as y. vel_sched vel_Count vel_Add 1 sample_limits as (vel_init (\<lambda>_. []) 0) = Some y \<and>
     liMaxCents sample_limits < sum_list (map vcCents (passed_in 60 60 ''a'' y))"
  using sample_sched
  by (intro exI [of _ sample_schedule] exI [of _ sample_end])
    (simp add: sample_limits_def sample_end_def velocity_call_def passed_in_def)

theorem velocity_window_bound_witness:
  "int (length (passed_in 60 60 ''a'' sample_end)) \<le> 5 + 2 * int 1 \<and>
   sum_list (map vcCents (passed_in 60 60 ''a'' sample_end)) \<le> 100 + 2 * int 1 * 60 \<and>
   passed_in 60 60 ''a'' sample_end = [velocity_call 1 60, velocity_call 2 60]"
proof -
  have en: "enabled sample_limits" by (simp add: sample_limits_def enabled_def)
  have "list_all (weighs evCents 60) sample_schedule"
    by (simp add: sample_schedule_def velocity_call_def weighs_def ev_of_def)
  moreover have "passed_in 60 60 ''a'' sample_end = [velocity_call 1 60, velocity_call 2 60]"
    by (simp add: sample_end_def velocity_call_def passed_in_def)
  ultimately show ?thesis
    using velocity_window_bound [OF en sample_sched, of 60 "''a''" 60]
    by (simp add: sample_limits_def in_int64_def)
qed

text \<open>
  The hypothesis on overflow is needed: an amount near the largest 64-bit number wraps to a negative
  total and passes a monetary cap that a much smaller amount already reached.
\<close>

theorem velocity_overflow_passes:
  "\<exists>s. vdAllowed (fst (vel_Check vel_Count vel_Add 2 ''a'' (2 ^ 63 - 1) sample_limits s))
     \<and> \<not> vdAllowed (fst (vel_Check vel_Count vel_Add 2 ''a'' 60 sample_limits s))"
proof
  let ?s = "vel_Add (\<lambda>_. []) ''a'' 1 60"
  show "vdAllowed (fst (vel_Check vel_Count vel_Add 2 ''a'' (2 ^ 63 - 1) sample_limits ?s))
     \<and> \<not> vdAllowed (fst (vel_Check vel_Count vel_Add 2 ''a'' 60 sample_limits ?s))"
    by code_simp
qed

end
