(* ===== verification/Json.thy ===== *)
theory Json
  imports Complex_Main GoBase "HOL-Library.AList"
begin

text \<open>
  Decoded JSON, the \<open>any\<close> values \<open>encoding/json\<close> produces: \<open>nil\<close>, booleans, \<open>float64\<close> numbers (each a
  rational number), strings, slices and maps. A map is an association list; a Go map argument that may
  be \<open>nil\<close> is an optional one. Reads use \<^const>\<open>map_of\<close> and writes \<^const>\<open>AList.update\<close>, so the order of
  the list, which Go leaves open, is never observed.
\<close>

datatype json =
    JNull
  | JBool bool
  | JNum rat
  | JStr string
  | JArr "json list"
  | JObj "(string \<times> json) list"

type_synonym args = "(string \<times> json) list option"

fun args_lookup :: "args \<Rightarrow> string \<Rightarrow> json option" where
  "args_lookup None k = None"
| "args_lookup (Some m) k = map_of m k"

end
