(* ===== verification/Sha256.thy ===== *)
theory Sha256
  imports GoBase
begin

text \<open>
  SHA-256 (FIPS 180-4) and HMAC-SHA256 (RFC 2104), the two primitives of \<open>crypto/sha256\<close> and
  \<open>crypto/hmac\<close> the gateway calls. They are executable; the properties of the components hold for
  any keyed hash \<open>H\<close>, and \<open>hmac_sha256\<close> is the instance the gateway runs with.
\<close>

unbundle bit_operations_syntax

type_synonym w32 = "32 word"

text \<open>
  The constants of the standard are the first 32 bits of the fractional parts of roots of the first
  primes: cube roots for the round constants, square roots for the initial state. They are computed
  here from that description, the integer root bit by bit from the top.
\<close>

definition first_primes :: "nat list" where
  "first_primes = filter (\<lambda>n. list_all (\<lambda>d. n mod d \<noteq> 0) [2..<n]) [2..<312]"

fun root_bits :: "nat \<Rightarrow> nat \<Rightarrow> nat \<Rightarrow> nat \<Rightarrow> nat" where
  "root_bits k n 0 acc = acc"
| "root_bits k n (Suc b) acc =
     (let acc' = acc + 2 ^ b in root_bits k n b (if acc' ^ k \<le> n then acc' else acc))"

definition root_word :: "nat \<Rightarrow> nat \<Rightarrow> w32" where
  "root_word k p = of_nat (root_bits k (p * 2 ^ (32 * k)) 40 0)"

definition k256 :: "w32 list" where
  "k256 = map (root_word 3) (take 64 first_primes)"

definition h256 :: "w32 list" where
  "h256 = map (root_word 2) (map ((!) first_primes) [0..<8])"

definition rotr :: "nat \<Rightarrow> w32 \<Rightarrow> w32" where
  "rotr n x = drop_bit n x OR push_bit (32 - n) x"

definition big0 :: "w32 \<Rightarrow> w32" where "big0 x = rotr 2 x XOR rotr 13 x XOR rotr 22 x"
definition big1 :: "w32 \<Rightarrow> w32" where "big1 x = rotr 6 x XOR rotr 11 x XOR rotr 25 x"
definition small0 :: "w32 \<Rightarrow> w32" where "small0 x = rotr 7 x XOR rotr 18 x XOR drop_bit 3 x"
definition small1 :: "w32 \<Rightarrow> w32" where "small1 x = rotr 17 x XOR rotr 19 x XOR drop_bit 10 x"
definition ch :: "w32 \<Rightarrow> w32 \<Rightarrow> w32 \<Rightarrow> w32" where "ch x y z = (x AND y) XOR (NOT x AND z)"
definition maj :: "w32 \<Rightarrow> w32 \<Rightarrow> w32 \<Rightarrow> w32" where "maj x y z = (x AND y) XOR (x AND z) XOR (y AND z)"

text \<open>The message schedule, kept newest word first: word \<open>i\<close> needs words \<open>i-2\<close>, \<open>i-7\<close>, \<open>i-15\<close>, \<open>i-16\<close>.\<close>

fun schedule :: "nat \<Rightarrow> w32 list \<Rightarrow> w32 list" where
  "schedule 0 ws = rev ws"
| "schedule (Suc n) ws =
     schedule n ((small1 (ws ! 1) + ws ! 6 + small0 (ws ! 14) + ws ! 15) # ws)"

fun round_step :: "w32 \<Rightarrow> w32 \<Rightarrow> w32 list \<Rightarrow> w32 list" where
  "round_step k w [a, b, c, d, e, f, g, h] =
     (let t1 = h + big1 e + ch e f g + k + w; t2 = big0 a + maj a b c
      in [t1 + t2, a, b, c, d + t1, e, f, g])"
| "round_step k w st = st"

fun rounds :: "w32 list \<Rightarrow> w32 list \<Rightarrow> w32 list \<Rightarrow> w32 list" where
  "rounds (k # ks) (w # ws) st = rounds ks ws (round_step k w st)"
| "rounds _ _ st = st"

definition compress :: "w32 list \<Rightarrow> w32 list \<Rightarrow> w32 list" where
  "compress st block = map2 (+) st (rounds k256 (schedule 48 (rev block)) st)"

fun words_of :: "nat list \<Rightarrow> w32 list" where
  "words_of (a # b # c # d # xs) =
     (push_bit 24 (of_nat a) OR push_bit 16 (of_nat b) OR push_bit 8 (of_nat c) OR of_nat d) # words_of xs"
| "words_of _ = []"

fun bytes_of :: "w32 list \<Rightarrow> nat list" where
  "bytes_of [] = []"
| "bytes_of (w # ws) =
     [unat (drop_bit 24 w), unat (drop_bit 16 w AND 255), unat (drop_bit 8 w AND 255), unat (w AND 255)]
     @ bytes_of ws"

text \<open>The big-endian base-256 digits of a number, as many as asked for.\<close>

fun be_digits :: "nat \<Rightarrow> nat \<Rightarrow> nat list" where
  "be_digits 0 n = []"
| "be_digits (Suc k) n = be_digits k (n div 256) @ [n mod 256]"

definition pad256 :: "nat list \<Rightarrow> nat list" where
  "pad256 m = (let l = length m in
     m @ [128] @ replicate ((119 - l mod 64) mod 64) 0 @ be_digits 8 (8 * l))"

fun blocks :: "nat \<Rightarrow> w32 list \<Rightarrow> w32 list \<Rightarrow> w32 list" where
  "blocks 0 st ws = st"
| "blocks (Suc n) st ws = blocks n (compress st (take 16 ws)) (drop 16 ws)"

definition sha256_nats :: "nat list \<Rightarrow> nat list" where
  "sha256_nats m = (let p = pad256 m in bytes_of (blocks (length p div 64) h256 (words_of p)))"

definition sha256 :: "bytes \<Rightarrow> bytes" where
  "sha256 m = map char_of (sha256_nats (map of_char m))"

definition hmac_key :: "nat list \<Rightarrow> nat list" where
  "hmac_key k = (let k' = (if 64 < length k then sha256_nats k else k) in
     k' @ replicate (64 - length k') 0)"

definition hmac_sha256 :: "bytes \<Rightarrow> bytes \<Rightarrow> bytes" where
  "hmac_sha256 key msg =
     (let k = hmac_key (map of_char key) in
      map char_of (sha256_nats (map (\<lambda>b. b XOR 0x5c) k
        @ sha256_nats (map (\<lambda>b. b XOR 0x36) k @ map of_char msg))))"

lemma length_round_step [simp]: "length (round_step k w st) = length st"
  by (induction k w st rule: round_step.induct) (simp_all add: Let_def)

lemma length_rounds [simp]: "length (rounds ks ws st) = length st"
  by (induction ks ws st rule: rounds.induct) simp_all

lemma length_compress [simp]: "length (compress st b) = length st"
  by (simp add: compress_def)

lemma length_blocks [simp]: "length (blocks n st ws) = length st"
  by (induction n st ws rule: blocks.induct) simp_all

lemma length_bytes_of [simp]: "length (bytes_of ws) = 4 * length ws"
  by (induction ws) simp_all

lemma length_be_digits [simp]: "length (be_digits k n) = k"
  by (induction k arbitrary: n) simp_all

lemma length_sha256_nats [simp]: "length (sha256_nats m) = 32"
  by (simp add: sha256_nats_def Let_def h256_def)

lemma length_sha256 [simp]: "length (sha256 m) = 32"
  by (simp add: sha256_def)

lemma length_hmac_sha256 [simp]: "length (hmac_sha256 k m) = 32"
  by (simp add: hmac_sha256_def Let_def)

lemma pad256_blocks: "length (pad256 m) mod 64 = 0"
proof -
  define l where "l = length m"
  define r where "r = l mod 64"
  have r: "r < 64" and l: "l = 64 * (l div 64) + r" by (simp_all add: r_def)
  have z: "(119 - r) mod 64 = (if r \<le> 55 then 55 - r else 119 - r)"
  proof (cases "r \<le> 55")
    case True
    then have "119 - r = 55 - r + 64" by simp
    then have "(119 - r) mod 64 = (55 - r) mod 64" by (metis mod_add_self2)
    with True show ?thesis by simp
  next
    case False
    with r show ?thesis by simp
  qed
  have "length (pad256 m) = l + 9 + (119 - r) mod 64"
    by (simp add: pad256_def Let_def l_def r_def)
  also have "\<dots> = 64 * (l div 64 + (if r \<le> 55 then 1 else 2))"
    using r by (subst l) (auto simp: z)
  finally show ?thesis by simp
qed

end
