(* ===== verification/Encoding.thy ===== *)
theory Encoding
  imports Sha256
begin

text \<open>
  The encodings the gateway signs and transmits: base64 (\<open>encoding/base64\<close>: the raw URL variant
  of tokens and signatures, and the padded and standard variants master keys may use), the
  UTF-8 decoder of \<open>unicode/utf8\<close>, the string, integer and list literals \<open>encoding/json\<close> writes for
  a struct, and the big-endian integers of \<open>encoding/binary\<close>.

  The lemmas are the ones the signing components need: decoding inverts encoding, and each
  literal can be split off the front of a longer text in one way only, so a signed text
  determines the fields it was written from.
\<close>

named_theorems json_inj \<open>a JSON literal at the front of a text determines the value\<close>

subsection \<open>Base64\<close>

definition url_alphabet :: string where
  "url_alphabet = ''ABCDEFGHIJKLMNOPQRSTUVWXYZabcdefghijklmnopqrstuvwxyz0123456789-_''"

definition std_alphabet :: string where
  "std_alphabet = ''ABCDEFGHIJKLMNOPQRSTUVWXYZabcdefghijklmnopqrstuvwxyz0123456789+/''"

fun index_of :: "char \<Rightarrow> string \<Rightarrow> nat option" where
  "index_of c [] = None"
| "index_of c (x # xs) = (if x = c then Some 0 else map_option Suc (index_of c xs))"

lemma index_of_nth: "distinct xs \<Longrightarrow> i < length xs \<Longrightarrow> index_of (xs ! i) xs = Some i"
proof (induction xs arbitrary: i)
  case (Cons x xs)
  then show ?case by (cases i) (auto simp: in_set_conv_nth)
qed simp

fun b64_enc :: "string \<Rightarrow> nat list \<Rightarrow> string" where
  "b64_enc al [] = []"
| "b64_enc al [a] = [al ! (a div 4), al ! (a mod 4 * 16)]"
| "b64_enc al [a, b] = [al ! (a div 4), al ! (a mod 4 * 16 + b div 16), al ! (b mod 16 * 4)]"
| "b64_enc al (a # b # c # xs) =
     [al ! (a div 4), al ! (a mod 4 * 16 + b div 16), al ! (b mod 16 * 4 + c div 64), al ! (c mod 64)]
     @ b64_enc al xs"

text \<open>Unpadded decoding. Trailing bits of a short last group are ignored, as Go does by default.\<close>

fun b64_dec :: "string \<Rightarrow> string \<Rightarrow> nat list option" where
  "b64_dec al [] = Some []"
| "b64_dec al [x] = None"
| "b64_dec al [x, y] =
     (case (index_of x al, index_of y al) of
        (Some i, Some j) \<Rightarrow> Some [i * 4 + j div 16] | _ \<Rightarrow> None)"
| "b64_dec al [x, y, z] =
     (case (index_of x al, index_of y al, index_of z al) of
        (Some i, Some j, Some k) \<Rightarrow> Some [i * 4 + j div 16, j mod 16 * 16 + k div 4] | _ \<Rightarrow> None)"
| "b64_dec al (x # y # z # w # rest) =
     (case (index_of x al, index_of y al, index_of z al, index_of w al) of
        (Some i, Some j, Some k, Some l) \<Rightarrow>
          map_option (\<lambda>r. [i * 4 + j div 16, j mod 16 * 16 + k div 4, k mod 4 * 64 + l] @ r)
            (b64_dec al rest)
      | _ \<Rightarrow> None)"

text \<open>Padded decoding: whole groups of four, the last one may end in one or two \<open>=\<close>.\<close>

fun b64_dec_pad :: "string \<Rightarrow> string \<Rightarrow> nat list option" where
  "b64_dec_pad al [] = Some []"
| "b64_dec_pad al (x # y # z # w # rest) =
     (if rest = [] \<and> w = CHR ''='' then b64_dec al (if z = CHR ''='' then [x, y] else [x, y, z])
      else case b64_dec al [x, y, z, w] of
        None \<Rightarrow> None | Some g \<Rightarrow> map_option ((@) g) (b64_dec_pad al rest))"
| "b64_dec_pad al _ = None"

definition strip_newlines :: "string \<Rightarrow> string" where
  "strip_newlines s = filter (\<lambda>c. c \<noteq> CHR 0x0A \<and> c \<noteq> CHR 0x0D) s"

definition rawurl_encode :: "bytes \<Rightarrow> string" where
  "rawurl_encode b = b64_enc url_alphabet (map of_char b)"

definition raw_decode :: "string \<Rightarrow> string \<Rightarrow> bytes option" where
  "raw_decode al s = map_option (map char_of) (b64_dec al (strip_newlines s))"

definition padded_decode :: "string \<Rightarrow> string \<Rightarrow> bytes option" where
  "padded_decode al s = map_option (map char_of) (b64_dec_pad al (strip_newlines s))"

abbreviation rawurl_decode :: "string \<Rightarrow> bytes option" where
  "rawurl_decode \<equiv> raw_decode url_alphabet"

lemma url_alphabet_facts:
  "distinct url_alphabet" "length url_alphabet = 64"
  "CHR 0x0A \<notin> set url_alphabet" "CHR 0x0D \<notin> set url_alphabet"
  by (simp_all add: url_alphabet_def)

lemma index_of_url [simp]: "i < 64 \<Longrightarrow> index_of (url_alphabet ! i) url_alphabet = Some i"
  by (simp add: index_of_nth url_alphabet_facts)

lemma sextet_bounds:
  fixes a :: nat
  assumes "a < 256"
  shows "a div 4 < 64" "a mod 4 * 16 < 64" "a mod 16 * 4 < 64"
  using assms by linarith+

lemma sextet_pair_bounds:
  fixes a b :: nat
  assumes "b < 256"
  shows "a mod 4 * 16 + b div 16 < 64" "a mod 16 * 4 + b div 64 < 64"
proof -
  have "a mod 4 \<le> 3" "b div 16 \<le> 15" "a mod 16 \<le> 15" "b div 64 \<le> 3" using assms by linarith+
  then show "a mod 4 * 16 + b div 16 < 64" "a mod 16 * 4 + b div 64 < 64" by linarith+
qed

lemmas group_index_bounds = sextet_bounds sextet_pair_bounds

lemma group_arith:
  fixes a b c :: nat
  assumes "b < 256" "c < 256"
  shows "a div 4 * 4 + (a mod 4 * 16 + b div 16) div 16 = a"
    "(a mod 4 * 16 + b div 16) mod 16 * 16 + (b mod 16 * 4 + c div 64) div 4 = b"
    "(b mod 16 * 4 + c div 64) mod 4 * 64 + c mod 64 = c"
proof -
  have b16: "b div 16 < 16" and c64: "c div 64 < 4" using assms by linarith+
  then have "(a mod 4 * 16 + b div 16) div 16 = a mod 4"
    "(a mod 4 * 16 + b div 16) mod 16 = b div 16"
    "(b mod 16 * 4 + c div 64) div 4 = b mod 16"
    "(b mod 16 * 4 + c div 64) mod 4 = c div 64" by simp_all
  then show "a div 4 * 4 + (a mod 4 * 16 + b div 16) div 16 = a"
    "(a mod 4 * 16 + b div 16) mod 16 * 16 + (b mod 16 * 4 + c div 64) div 4 = b"
    "(b mod 16 * 4 + c div 64) mod 4 * 64 + c mod 64 = c" by presburger+
qed

lemma b64_dec_enc: "\<forall>b \<in> set bs. b < 256 \<Longrightarrow> b64_dec url_alphabet (b64_enc url_alphabet bs) = Some bs"
proof (induction url_alphabet bs rule: b64_enc.induct)
  case (2 a)
  then show ?case
    using group_arith(1) [where a = a and b = 0 and c = 0] by (simp add: group_index_bounds)
next
  case (3 a b)
  then show ?case
    using group_arith(1,2) [where a = a and b = b and c = 0] by (simp add: group_index_bounds)
next
  case (4 a b c xs)
  then show ?case
    using group_arith(1,2) [where a = a and b = b and c = c] group_arith(3) [where b = b and c = c]
    by (simp add: group_index_bounds)
qed simp

lemma set_b64_enc: "\<forall>b \<in> set bs. b < 256 \<Longrightarrow> set (b64_enc url_alphabet bs) \<subseteq> set url_alphabet"
  by (induction url_alphabet bs rule: b64_enc.induct)
     (simp_all add: group_index_bounds url_alphabet_facts(2))

lemma strip_newlines_enc: "\<forall>b \<in> set bs. b < 256 \<Longrightarrow>
    strip_newlines (b64_enc url_alphabet bs) = b64_enc url_alphabet bs"
  using set_b64_enc url_alphabet_facts(3,4)
  unfolding strip_newlines_def by (subst filter_id_conv) blast

theorem rawurl_decode_encode [simp]: "rawurl_decode (rawurl_encode b) = Some b"
proof -
  have "\<forall>n \<in> set (map of_char b :: nat list). n < 256" by auto
  then show ?thesis
    by (simp add: raw_decode_def rawurl_encode_def strip_newlines_enc b64_dec_enc comp_def)
qed

lemma rawurl_encode_inj: "rawurl_encode a = rawurl_encode b \<longleftrightarrow> a = b"
  by (metis option.inject rawurl_decode_encode)

lemma rawurl_encode_eq_Nil [simp]: "rawurl_encode b = [] \<longleftrightarrow> b = []"
  using rawurl_encode_inj [of b "[]"] by (simp add: rawurl_encode_def)

subsection \<open>UTF-8\<close>

text \<open>
  \<open>utf8.DecodeRune\<close>: the first code point and its width. An invalid encoding decodes to U+FFFD
  with width 1, the empty string to U+FFFD with width 0.
\<close>

definition rune_error :: nat where "rune_error = 0xFFFD"

definition cont :: "nat \<Rightarrow> nat \<Rightarrow> nat \<Rightarrow> bool" where
  "cont lo hi b \<longleftrightarrow> lo \<le> b \<and> b \<le> hi"

definition second_range :: "nat \<Rightarrow> nat \<times> nat" where
  "second_range b0 =
     (if b0 = 0xE0 then (0xA0, 0xBF) else if b0 = 0xED then (0x80, 0x9F)
      else if b0 = 0xF0 then (0x90, 0xBF) else if b0 = 0xF4 then (0x80, 0x8F) else (0x80, 0xBF))"

definition decode_rune :: "string \<Rightarrow> nat \<times> nat" where
  "decode_rune s =
     (let bs = map of_char s; b = (\<lambda>i. if i < length bs then bs ! i else 0); b0 = b 0;
          (lo, hi) = second_range b0 in
      if s = [] then (rune_error, 0)
      else if b0 < 0x80 then (b0, 1)
      else if 0xC2 \<le> b0 \<and> b0 \<le> 0xDF \<and> cont 0x80 0xBF (b 1)
        then (b0 mod 32 * 64 + b 1 mod 64, 2)
      else if 0xE0 \<le> b0 \<and> b0 \<le> 0xEF \<and> cont lo hi (b 1) \<and> cont 0x80 0xBF (b 2)
        then (b0 mod 16 * 4096 + b 1 mod 64 * 64 + b 2 mod 64, 3)
      else if 0xF0 \<le> b0 \<and> b0 \<le> 0xF4 \<and> cont lo hi (b 1) \<and> cont 0x80 0xBF (b 2) \<and> cont 0x80 0xBF (b 3)
        then (b0 mod 8 * 262144 + b 1 mod 64 * 4096 + b 2 mod 64 * 64 + b 3 mod 64, 4)
      else (rune_error, 1))"

lemma decode_rune_width: "s \<noteq> [] \<Longrightarrow> 0 < snd (decode_rune s)"
  by (simp add: decode_rune_def Let_def split: prod.splits)

definition ascii :: "string \<Rightarrow> bool" where
  "ascii s \<longleftrightarrow> (\<forall>c \<in> set s. (of_char c :: nat) < 128)"

lemma ascii_Cons [simp]: "ascii (c # s) \<longleftrightarrow> (of_char c :: nat) < 128 \<and> ascii s"
  by (simp add: ascii_def)

lemma ascii_Nil [simp]: "ascii []"
  by (simp add: ascii_def)

lemma decode_rune_ascii [simp]: "(of_char c :: nat) < 128 \<Longrightarrow> decode_rune (c # s) = (of_char c, 1)"
  by (simp add: decode_rune_def Let_def split: prod.splits)

subsection \<open>JSON literals\<close>

definition hex_digit :: "nat \<Rightarrow> char" where
  "hex_digit n = ''0123456789abcdef'' ! n"

definition hex_val :: "char \<Rightarrow> nat" where
  "hex_val c = (case index_of c ''0123456789abcdef'' of None \<Rightarrow> 0 | Some n \<Rightarrow> n)"

text \<open>The escapes \<open>json.Marshal\<close> writes for an ASCII byte, HTML escaping included.\<close>

definition escape_ascii :: "char \<Rightarrow> string" where
  "escape_ascii c =
     (let n = of_char c :: nat in
      if c = CHR 0x22 then [CHR 0x5C, CHR 0x22]
      else if c = CHR 0x5C then [CHR 0x5C, CHR 0x5C]
      else if c = CHR 0x08 then [CHR 0x5C, CHR ''b'']
      else if c = CHR 0x0C then [CHR 0x5C, CHR ''f'']
      else if c = CHR 0x0A then [CHR 0x5C, CHR ''n'']
      else if c = CHR 0x0D then [CHR 0x5C, CHR ''r'']
      else if c = CHR 0x09 then [CHR 0x5C, CHR ''t'']
      else if n < 32 \<or> c = CHR ''<'' \<or> c = CHR ''>'' \<or> c = CHR ''&''
        then [CHR 0x5C, CHR ''u'', CHR ''0'', CHR ''0'', hex_digit (n div 16), hex_digit (n mod 16)]
      else [c])"

function json_escape :: "string \<Rightarrow> string" where
  "json_escape [] = []"
| "json_escape (c # cs) =
     (if (of_char c :: nat) < 128 then escape_ascii c @ json_escape cs
      else let (r, w) = decode_rune (c # cs) in
        (if r = rune_error \<and> w = 1 then [CHR 0x5C, CHR ''u'', CHR ''f'', CHR ''f'', CHR ''f'', CHR ''d'']
         else if r = 0x2028 \<or> r = 0x2029
           then [CHR 0x5C, CHR ''u'', CHR ''2'', CHR ''0'', CHR ''2'', hex_digit (r mod 16)]
         else take w (c # cs)) @ json_escape (drop (w - 1) cs))"
  by pat_completeness auto
termination
  by (relation "measure length") auto

definition json_string :: "string \<Rightarrow> string" where
  "json_string s = CHR 0x22 # json_escape s @ [CHR 0x22]"

fun show_nat :: "nat \<Rightarrow> string" where
  "show_nat n =
     (if n < 10 then [char_of (n + 48)] else show_nat (n div 10) @ [char_of (n mod 10 + 48)])"

declare show_nat.simps [simp del]

definition show_int :: "int \<Rightarrow> string" where
  "show_int i = (if i < 0 then CHR ''-'' # show_nat (nat (- i)) else show_nat (nat i))"

text \<open>Comma-separated items, as in a JSON array of strings or the members of an object.\<close>

fun commas :: "string list \<Rightarrow> string" where
  "commas [] = []"
| "commas [x] = x"
| "commas (x # y # xs) = x @ [CHR '',''] @ commas (y # xs)"

text \<open>
  The values the signed structs hold, and an object as the list of its members in declaration
  order; a member that \<open>omitempty\<close> drops is not in the list.
\<close>

datatype jval = JS string | JI int | JL "string list" | JB bool

fun enc_jval :: "jval \<Rightarrow> string" where
  "enc_jval (JS s) = json_string s"
| "enc_jval (JI i) = show_int i"
| "enc_jval (JL xs) = ''['' @ commas (map json_string xs) @ '']''"
| "enc_jval (JB b) = (if b then ''true'' else ''false'')"

definition enc_member :: "string \<times> jval \<Rightarrow> string" where
  "enc_member m = json_string (fst m) @ '':'' @ enc_jval (snd m)"

definition enc_object :: "(string \<times> jval) list \<Rightarrow> string" where
  "enc_object ms = ''{'' @ commas (map enc_member ms) @ ''}''"

fun jval_ascii :: "jval \<Rightarrow> bool" where
  "jval_ascii (JS s) = ascii s"
| "jval_ascii (JI i) = True"
| "jval_ascii (JL xs) = list_all ascii xs"
| "jval_ascii (JB b) = True"

definition member_ascii :: "string \<times> jval \<Rightarrow> bool" where
  "member_ascii m \<longleftrightarrow> ascii (fst m) \<and> jval_ascii (snd m)"

text \<open>\<open>omitempty\<close> on strings, integers, slices and booleans.\<close>

definition opt_str :: "string \<Rightarrow> string \<Rightarrow> (string \<times> jval) list" where
  "opt_str k s = (if s = [] then [] else [(k, JS s)])"
definition opt_int :: "string \<Rightarrow> int \<Rightarrow> (string \<times> jval) list" where
  "opt_int k i = (if i = 0 then [] else [(k, JI i)])"
definition opt_bool :: "string \<Rightarrow> bool \<Rightarrow> (string \<times> jval) list" where
  "opt_bool k b = (if b then [(k, JB True)] else [])"
definition opt_list :: "string \<Rightarrow> string list \<Rightarrow> (string \<times> jval) list" where
  "opt_list k xs = (if xs = [] then [] else [(k, JL xs)])"

text \<open>Reading one escaped ASCII character off the front inverts \<^const>\<open>escape_ascii\<close>.\<close>

fun unescape1 :: "string \<Rightarrow> (char \<times> string) option" where
  "unescape1 [] = None"
| "unescape1 (c # x) =
     (if c \<noteq> CHR 0x5C then Some (c, x)
      else case x of
        [] \<Rightarrow> None
      | e # y \<Rightarrow>
          (if e = CHR ''u'' then Some (char_of (hex_val (y ! 2) * 16 + hex_val (y ! 3)), drop 4 y)
           else Some (if e = CHR ''b'' then CHR 0x08 else if e = CHR ''f'' then CHR 0x0C
                      else if e = CHR ''n'' then CHR 0x0A else if e = CHR ''r'' then CHR 0x0D
                      else if e = CHR ''t'' then CHR 0x09 else e, y)))"

lemma hex_val_digit [simp]: "n < 16 \<Longrightarrow> hex_val (hex_digit n) = n"
  unfolding hex_val_def hex_digit_def by (subst index_of_nth) auto

lemma unescape1_escape: "unescape1 (escape_ascii c @ x) = Some (c, x)" if "(of_char c :: nat) < 128"
proof -
  have hex: "char_of (hex_val (hex_digit (of_char c div 16)) * 16 + hex_val (hex_digit (of_char c mod 16))) = c"
    using that by simp
  have "char_of (60::nat) = CHR ''<''" "char_of (62::nat) = CHR ''>''" "char_of (38::nat) = CHR ''&''"
    by code_simp+
  then show ?thesis
    by (simp add: escape_ascii_def Let_def hex)
qed

lemma escape_ascii_hd: "escape_ascii c \<noteq> [] \<and> hd (escape_ascii c) \<noteq> CHR 0x22"
  by (auto simp: escape_ascii_def Let_def)

lemma json_escape_inj:
  assumes "ascii s" "ascii t" "json_escape s @ CHR 0x22 # x = json_escape t @ CHR 0x22 # y"
  shows "s = t \<and> x = y"
  using assms
proof (induction s arbitrary: t)
  case Nil
  then show ?case
    using escape_ascii_hd by (cases t) (auto simp: Cons_eq_append_conv, metis list.sel(1))
next
  case (Cons c s)
  show ?case
  proof (cases t)
    case Nil
    with Cons.prems show ?thesis
      using escape_ascii_hd [of c] by (cases "escape_ascii c") auto
  next
    case (Cons d u)
    with Cons.prems have "escape_ascii c @ (json_escape s @ CHR 0x22 # x)
        = escape_ascii d @ (json_escape u @ CHR 0x22 # y)" by simp
    then have "c = d" and "json_escape s @ CHR 0x22 # x = json_escape u @ CHR 0x22 # y"
      using Cons Cons.prems unescape1_escape [of c] unescape1_escape [of d]
      by (metis ascii_Cons option.inject prod.inject)+
    with Cons Cons.prems Cons.IH [of u] show ?thesis by simp
  qed
qed

lemma json_string_inj [json_inj]:
  "ascii s \<Longrightarrow> ascii t \<Longrightarrow> json_string s @ x = json_string t @ y \<longleftrightarrow> s = t \<and> x = y"
  using json_escape_inj [of s t] by (auto simp: json_string_def)

text \<open>Integers: the digits end where the first other character comes.\<close>

definition int_char :: "char \<Rightarrow> bool" where
  "int_char c \<longleftrightarrow> c = CHR ''-'' \<or> 48 \<le> (of_char c :: nat) \<and> (of_char c :: nat) \<le> 57"

definition digit_val :: "char \<Rightarrow> nat" where
  "digit_val c = of_char c - 48"

lemma show_nat_digits: "c \<in> set (show_nat n) \<Longrightarrow> 48 \<le> (of_char c :: nat) \<and> (of_char c :: nat) \<le> 57"
proof (induction n rule: show_nat.induct)
  case (1 n)
  have "n mod 10 + 48 < 256" by (simp add: trans_less_add2)
  with 1 show ?case
    by (subst (asm) show_nat.simps) (auto split: if_splits)
qed

lemma show_nat_value: "foldl (\<lambda>v c. v * 10 + digit_val c) 0 (show_nat n) = n"
proof (induction n rule: show_nat.induct)
  case (1 n)
  have "n mod 10 + 48 < 256" by (simp add: trans_less_add2)
  with 1 show ?case
    by (subst show_nat.simps) (auto simp: digit_val_def)
qed

lemma show_nat_not_Nil [simp]: "show_nat n \<noteq> []"
  by (subst show_nat.simps) simp

lemma show_nat_no_minus: "CHR ''-'' \<notin> set (show_nat n)"
  using show_nat_digits by fastforce

lemma show_int_inj: "show_int a = show_int b \<longleftrightarrow> a = b"
proof
  assume eq: "show_int a = show_int b"
  have hd: "hd (show_nat n) \<noteq> CHR ''-''" for n
    by (metis hd_in_set show_nat_no_minus show_nat_not_Nil)
  have inj: "show_nat m = show_nat n \<longleftrightarrow> m = n" for m n
    by (metis show_nat_value)
  show "a = b"
    using eq hd [of "nat a"] hd [of "nat b"]
    by (auto simp: show_int_def inj split: if_splits dest: arg_cong [where f = hd])
qed simp

lemma show_int_chars: "c \<in> set (show_int a) \<Longrightarrow> int_char c"
  using show_nat_digits by (auto simp: show_int_def int_char_def split: if_splits)

lemma show_int_takeWhile: "\<not> int_char d \<Longrightarrow> takeWhile int_char (show_int a @ d # x) = show_int a"
  using show_int_chars by (subst takeWhile_append2) auto

lemma show_int_prefix_inj [json_inj]:
  assumes "\<not> int_char d" "\<not> int_char e" "show_int a @ d # x = show_int b @ e # y"
  shows "a = b \<and> d = e \<and> x = y"
  using assms show_int_takeWhile [of d a x] show_int_takeWhile [of e b y]
  by (simp add: show_int_inj)

text \<open>Comma-separated lists of self-delimiting items.\<close>

lemma commas_Cons: "commas (a # xs) @ z = a @ (if xs = [] then z else CHR '','' # commas xs @ z)"
  by (cases xs) simp_all

lemma commas_inj:
  assumes item: "\<And>a b d e x y. \<lbrakk>P a; P b; d \<in> {CHR '','', cl}; e \<in> {CHR '','', cl};
        f a @ d # x = f b @ e # y\<rbrakk> \<Longrightarrow> a = b \<and> d = e \<and> x = y"
    and start: "\<And>a. P a \<Longrightarrow> f a \<noteq> [] \<and> hd (f a) \<noteq> cl" and cl: "cl \<noteq> CHR '',''"
    and "\<forall>a \<in> set xs. P a" "\<forall>b \<in> set ys. P b"
    and "commas (map f xs) @ cl # x = commas (map f ys) @ cl # y"
  shows "xs = ys \<and> x = y"
  using assms(4-6)
proof (induction xs arbitrary: ys)
  case Nil
  show ?case
  proof (cases ys)
    case (Cons b zs)
    with Nil start [of b] show ?thesis
      by (cases "f b") (auto simp: commas_Cons)
  qed (use Nil in simp)
next
  case (Cons a xs)
  show ?case
  proof (cases ys)
    case Nil
    with Cons.prems start [of a] show ?thesis
      by (cases "f a") (auto simp: commas_Cons)
  next
    case (Cons b zs)
    let ?r = "\<lambda>us w. if us = [] then cl # w else CHR '','' # commas (map f us) @ cl # w"
    have "f a @ ?r xs x = f b @ ?r zs y"
      using Cons.prems(3) unfolding Cons by (simp only: list.map commas_Cons map_is_Nil_conv)
    moreover obtain d u where d: "?r xs x = d # u" "d \<in> {CHR '','', cl}" by (cases xs) auto
    moreover obtain e v where e: "?r zs y = e # v" "e \<in> {CHR '','', cl}" by (cases zs) auto
    ultimately have "a = b \<and> d = e \<and> u = v"
      using item [of a b d e u v] Cons Cons.prems(1,2) by (simp only: list.set_intros(1))
    then have "a = b" "?r xs x = ?r zs y" using d e by simp_all
    with Cons Cons.prems Cons.IH [of zs] cl show ?thesis by (auto split: if_splits)
  qed
qed

lemma json_string_start: "hd (json_string s) = CHR 0x22 \<and> json_string s \<noteq> []"
  by (simp add: json_string_def)

lemma show_int_start: "show_int i \<noteq> [] \<and> int_char (hd (show_int i))"
proof -
  have "show_int i \<noteq> []" by (simp add: show_int_def)
  with show_int_chars [of "hd (show_int i)" i] show ?thesis by simp
qed

lemma json_list_inj:
  assumes "list_all ascii xs" "list_all ascii ys"
    "commas (map json_string xs) @ CHR '']'' # x = commas (map json_string ys) @ CHR '']'' # y"
  shows "xs = ys \<and> x = y"
  by (rule commas_inj [where P = ascii and f = json_string and cl = "CHR '']''"])
     (use assms json_string_start in \<open>auto simp: json_string_inj list_all_iff\<close>)

fun jval_start :: "jval \<Rightarrow> char" where
  "jval_start (JS s) = CHR 0x22"
| "jval_start (JI i) = hd (show_int i)"
| "jval_start (JL xs) = CHR ''[''"
| "jval_start (JB b) = (if b then CHR ''t'' else CHR ''f'')"

lemma jval_start_hd: "hd (enc_jval v @ z) = jval_start v"
proof (cases v)
  case (JI i)
  with show_int_start [of i] show ?thesis by simp
qed (simp_all add: json_string_def)

lemma show_int_start_ne: "hd (show_int i) \<noteq> CHR 0x22" "hd (show_int i) \<noteq> CHR ''[''"
  "hd (show_int i) \<noteq> CHR ''t''" "hd (show_int i) \<noteq> CHR ''f''"
  using show_int_start [of i] by (auto simp: int_char_def)

lemma enc_jval_inj [json_inj]:
  assumes "jval_ascii v" "jval_ascii w" "\<not> int_char d" "\<not> int_char e"
    and eq: "enc_jval v @ d # x = enc_jval w @ e # y"
  shows "v = w \<and> d = e \<and> x = y"
proof -
  have start: "jval_start v = jval_start w"
    using jval_start_hd [of v "d # x"] jval_start_hd [of w "e # y"] eq by simp
  have kind: "(\<exists>s t. v = JS s \<and> w = JS t) \<or> (\<exists>i j. v = JI i \<and> w = JI j) \<or> (\<exists>xs ys. v = JL xs \<and> w = JL ys)
      \<or> (\<exists>b c. v = JB b \<and> w = JB c)"
    using start
    by (cases v; cases w) (simp_all add: show_int_start_ne show_int_start_ne [symmetric] split: if_splits)
  then consider (str) s t where "v = JS s" "w = JS t" | (int) i j where "v = JI i" "w = JI j"
    | (lst) xs ys where "v = JL xs" "w = JL ys" | (bool) b c where "v = JB b" "w = JB c" by blast
  then show ?thesis
  proof cases
    case str
    with assms show ?thesis by (simp add: json_string_inj)
  next
    case int
    with assms show ?thesis using show_int_prefix_inj [of d e i x j y] by simp
  next
    case lst
    with assms show ?thesis using json_list_inj [of xs ys "d # x" "e # y"] by simp
  next
    case bool
    with eq show ?thesis by (auto split: if_splits)
  qed
qed

lemma enc_object_inj:
  assumes "\<forall>m \<in> set ms. member_ascii m" "\<forall>m \<in> set ns. member_ascii m"
  shows "enc_object ms @ x = enc_object ns @ y \<longleftrightarrow> ms = ns \<and> x = y"
proof
  assume "enc_object ms @ x = enc_object ns @ y"
  then have eq: "commas (map enc_member ms) @ CHR ''}'' # x = commas (map enc_member ns) @ CHR ''}'' # y"
    by (simp add: enc_object_def)
  have delim: "d \<in> {CHR '','', CHR ''}''} \<Longrightarrow> \<not> int_char d" for d
    by (auto simp: int_char_def)
  have item: "a = b \<and> d = e \<and> u = v"
    if "member_ascii a" "member_ascii b" "d \<in> {CHR '','', CHR ''}''}" "e \<in> {CHR '','', CHR ''}''}"
      "enc_member a @ d # u = enc_member b @ e # v" for a b d e u v
  proof -
    from that(5) have "json_string (fst a) @ CHR '':'' # (enc_jval (snd a) @ d # u)
        = json_string (fst b) @ CHR '':'' # (enc_jval (snd b) @ e # v)"
      by (simp add: enc_member_def)
    then have "fst a = fst b" "enc_jval (snd a) @ d # u = enc_jval (snd b) @ e # v"
      using that(1,2) by (simp_all add: member_ascii_def json_string_inj)
    moreover from this(2) have "snd a = snd b \<and> d = e \<and> u = v"
      using that(1,2) delim [OF that(3)] delim [OF that(4)]
      by (intro enc_jval_inj) (simp_all add: member_ascii_def)
    ultimately show ?thesis by (simp add: prod_eq_iff)
  qed
  have start: "enc_member a \<noteq> [] \<and> hd (enc_member a) \<noteq> CHR ''}''" for a
    by (simp add: enc_member_def json_string_def)
  show "ms = ns \<and> x = y"
  proof (rule commas_inj [where P = member_ascii and f = enc_member and cl = "CHR ''}''"])
    fix a b d e u v
    assume "member_ascii a" "member_ascii b" "d \<in> {CHR '','', CHR ''}''}" "e \<in> {CHR '','', CHR ''}''}"
      "enc_member a @ d # u = enc_member b @ e # v"
    then show "a = b \<and> d = e \<and> u = v" by (rule item)
  qed (use eq assms start in simp_all)
qed simp

subsection \<open>Big-endian integers\<close>

definition be_bytes :: "nat \<Rightarrow> nat \<Rightarrow> bytes" where
  "be_bytes k n = map char_of (be_digits k n)"

lemma length_be_bytes [simp]: "length (be_bytes k n) = k"
  by (simp add: be_bytes_def)

lemma be_digits_inj: "be_digits k m = be_digits k n \<Longrightarrow> m < 256 ^ k \<Longrightarrow> n < 256 ^ k \<Longrightarrow> m = n"
proof (induction k arbitrary: m n)
  case (Suc k)
  then have "be_digits k (m div 256) = be_digits k (n div 256)" "m mod 256 = n mod 256" by simp_all
  moreover have "m div 256 < 256 ^ k" "n div 256 < 256 ^ k"
    using Suc.prems by (simp_all add: div_less_iff_less_mult mult.commute)
  ultimately have "m div 256 = n div 256" "m mod 256 = n mod 256" using Suc.IH by blast+
  then show ?case by (metis div_mult_mod_eq)
qed simp

lemma be_digits_bound: "d \<in> set (be_digits k n) \<Longrightarrow> d < 256"
  by (induction k arbitrary: n) auto

lemma be_bytes_inj: "be_bytes k m = be_bytes k n \<Longrightarrow> m < 256 ^ k \<Longrightarrow> n < 256 ^ k \<Longrightarrow> m = n"
proof (rule be_digits_inj)
  assume "be_bytes k m = be_bytes k n"
  then have "map of_char (be_bytes k m) = (map of_char (be_bytes k n) :: nat list)" by simp
  then show "be_digits k m = be_digits k n"
    by (simp add: be_bytes_def comp_def be_digits_bound map_idI)
qed

end
