(* ===== verification/AuditEvent.thy ===== *)
theory AuditEvent
  imports Json Encoding
begin

text \<open>
  Package \<open>internal/audit\<close>: the audit event, the redaction of argument values, and the canonical text and
  hash that chain events (\<open>audit.go\<close>, \<open>redact.go\<close>, \<open>canonical.go\<close>, \<open>eventid.go\<close>). Decision and check are
  the strings the code has. The hash \<open>S\<close> (SHA-256) is an argument of \<open>ComputeHash\<close>.
\<close>

definition DecisionAllow :: string where "DecisionAllow = ''allow''"
definition DecisionBlock :: string where "DecisionBlock = ''block''"
definition DecisionEscalate :: string where "DecisionEscalate = ''escalate''"

definition CheckNone :: string where "CheckNone = []"
definition CheckCapability :: string where "CheckCapability = ''capability''"
definition CheckIntent :: string where "CheckIntent = ''intent''"
definition CheckProvenance :: string where "CheckProvenance = ''provenance''"
definition CheckActionGuard :: string where "CheckActionGuard = ''action_guard''"
definition CheckRefVerify :: string where "CheckRefVerify = ''reference_verification''"
definition CheckDeception :: string where "CheckDeception = ''deception''"
definition CheckEastWest :: string where "CheckEastWest = ''east_west''"
definition CheckZoneScope :: string where "CheckZoneScope = ''zone_scope''"
definition CheckPolicy :: string where "CheckPolicy = ''policy''"
definition CheckBudget :: string where "CheckBudget = ''budget''"
definition CheckUpstream :: string where "CheckUpstream = ''upstream''"
definition CheckPII :: string where "CheckPII = ''pii''"
definition CheckOutputSchema :: string where "CheckOutputSchema = ''output_schema''"
definition CheckTenantScope :: string where "CheckTenantScope = ''tenant_scope''"
definition CheckFaultIsolation :: string where "CheckFaultIsolation = ''fault_isolation''"

record Event =
  evTimestamp :: string
  evEventName :: string
  evSchemaVersion :: string
  evDecision :: string
  evCheck :: string
  evReason :: string
  evSummary :: string
  evTenant :: string
  evEventID :: string
  evResultSHA256 :: string
  evResultBytes :: int
  evResultStored :: bool
  evBundleID :: string
  evBundleDigest :: string
  evAgentID :: string
  evSessionID :: string
  evTool :: string
  evArgKeys :: "string list"
  evArgValues :: args
  evCapabilityTokenID :: string
  evRootCapabilityTokenID :: string
  evCaveatCount :: int
  evPendingID :: string
  evDecidedBy :: string
  evIntentSummary :: string
  evLatencyMS :: int
  evRemoteIP :: string
  evUpstreamStatus :: int
  evRequiresStepUp :: bool
  evElevationID :: string

text \<open>The clock reading, formatted as RFC 3339 with nanoseconds, is the argument \<open>ts\<close>.\<close>

definition NewEvent :: "string \<Rightarrow> string \<Rightarrow> string \<Rightarrow> Event" where
  "NewEvent ts d tool =
     \<lparr>evTimestamp = ts, evEventName = ''intentgate.tool_call'', evSchemaVersion = ''7'', evDecision = d,
      evCheck = [], evReason = [], evSummary = [], evTenant = [], evEventID = [], evResultSHA256 = [],
      evResultBytes = 0, evResultStored = False, evBundleID = [], evBundleDigest = [], evAgentID = [],
      evSessionID = [], evTool = tool, evArgKeys = [], evArgValues = None, evCapabilityTokenID = [],
      evRootCapabilityTokenID = [], evCaveatCount = 0, evPendingID = [], evDecidedBy = [],
      evIntentSummary = [], evLatencyMS = 0, evRemoteIP = [], evUpstreamStatus = 0, evRequiresStepUp = False,
      evElevationID = []\<rparr>"

definition NewEventID :: "bytes option \<Rightarrow> gotime \<Rightarrow> string" where
  "NewEventID rnd now =
     (case rnd of
        None \<Rightarrow> []
      | Some r \<Rightarrow> rawurl_encode (be_bytes 4 (nat (unix now mod 2 ^ 32)) @ take 12 r))"

subsection \<open>Redaction of argument values (redact.go)\<close>

datatype RedactionMode = RedactOff | RedactScalars | RedactRaw

fun mode_String :: "RedactionMode \<Rightarrow> string" where
  "mode_String RedactOff = ''off''"
| "mode_String RedactScalars = ''scalars''"
| "mode_String RedactRaw = ''raw''"

definition ParseRedactionMode :: "string \<Rightarrow> string + RedactionMode" where
  "ParseRedactionMode raw =
     (let t = to_lower (trim_space raw) in
      if t \<in> set [[], ''off'', ''false'', ''0'', ''none''] then Inr RedactOff
      else if t \<in> set [''scalars'', ''scalar'', ''numbers''] then Inr RedactScalars
      else if t \<in> set [''raw'', ''all'', ''values''] then Inr RedactRaw
      else Inl raw)"

fun redactScalarValue :: "json \<Rightarrow> json" where
  "redactScalarValue JNull = JNull"
| "redactScalarValue (JBool b) = JBool b"
| "redactScalarValue (JNum n) = JNum n"
| "redactScalarValue (JStr s) = JNull"
| "redactScalarValue (JArr xs) = JArr (map redactScalarValue xs)"
| "redactScalarValue (JObj m) = JObj (map (\<lambda>(k, v). (k, redactScalarValue v)) m)"

text \<open>\<open>cloneValue\<close> copies a value; values have no identity here, so the copy is the value built again.\<close>

fun cloneValue :: "json \<Rightarrow> json" where
  "cloneValue (JArr xs) = JArr (map cloneValue xs)"
| "cloneValue (JObj m) = JObj (map (\<lambda>(k, v). (k, cloneValue v)) m)"
| "cloneValue v = v"

definition RedactArgs :: "args \<Rightarrow> RedactionMode \<Rightarrow> args" where
  "RedactArgs m mode =
     (case m of
        None \<Rightarrow> None
      | Some kvs \<Rightarrow>
          (case mode of
             RedactOff \<Rightarrow> None
           | RedactRaw \<Rightarrow> Some (map (\<lambda>(k, v). (k, cloneValue v)) kvs)
           | RedactScalars \<Rightarrow> Some (map (\<lambda>(k, v). (k, redactScalarValue v)) kvs)))"

fun has_text :: "json \<Rightarrow> bool" where
  "has_text (JStr s) = True"
| "has_text (JArr xs) = list_ex has_text xs"
| "has_text (JObj m) = list_ex (\<lambda>(k, v). has_text v) m"
| "has_text v = False"

fun value_at :: "json \<Rightarrow> string list \<Rightarrow> json option" where
  "value_at v [] = Some v"
| "value_at (JObj m) (k # ks) = (case map_of m k of None \<Rightarrow> None | Some v \<Rightarrow> value_at v ks)"
| "value_at v (k # ks) = None"

lemma redact_no_text: "\<not> has_text (redactScalarValue v)"
  by (induction v rule: redactScalarValue.induct) (auto simp: list_ex_iff)

lemma value_at_redact: "value_at (redactScalarValue v) ks = map_option redactScalarValue (value_at v ks)"
proof (induction v ks rule: value_at.induct)
  case (2 m k ks)
  then show ?case by (auto simp: map_of_map option.map_comp comp_def split: option.splits)
qed simp_all

lemma map_redact: "map_of (map (\<lambda>(k, v). (k, f v)) m) k = map_option f (map_of m k)"
  by (simp add: map_of_map)

text \<open>
  Redaction to scalars keeps no text: whatever the arguments, no string value survives at any depth,
  while every key stays and the value at each path is the redaction of what was there, so numbers and
  booleans read the same.
\<close>

theorem redact_scalars_drops_text:
  "\<not> has_text (JObj (the (RedactArgs (Some m) RedactScalars)))
   \<and> value_at (JObj (the (RedactArgs (Some m) RedactScalars))) ks
       = map_option redactScalarValue (value_at (JObj m) ks)
   \<and> map fst (the (RedactArgs (Some m) RedactScalars)) = map fst m"
  using redact_no_text [of "JObj m"] value_at_redact [of "JObj m" ks]
  by (simp add: RedactArgs_def comp_def case_prod_unfold)

subsection \<open>The canonical text and the chain hash (canonical.go)\<close>

definition event_members :: "Event \<Rightarrow> (string \<times> jval) list" where
  "event_members e =
     [(''ts'', JS (evTimestamp e)), (''event'', JS (evEventName e)), (''schema_version'', JS (evSchemaVersion e)),
      (''decision'', JS (evDecision e))]
     @ opt_str ''check'' (evCheck e) @ opt_str ''reason'' (evReason e) @ opt_str ''tenant'' (evTenant e)
     @ opt_str ''agent_id'' (evAgentID e) @ opt_str ''session_id'' (evSessionID e)
     @ [(''tool'', JS (evTool e))] @ opt_list ''arg_keys'' (evArgKeys e)
     @ opt_str ''capability_token_id'' (evCapabilityTokenID e)
     @ opt_str ''root_capability_token_id'' (evRootCapabilityTokenID e)
     @ opt_int ''caveat_count'' (evCaveatCount e) @ opt_str ''pending_id'' (evPendingID e)
     @ opt_str ''decided_by'' (evDecidedBy e) @ opt_str ''intent_summary'' (evIntentSummary e)
     @ [(''latency_ms'', JI (evLatencyMS e))] @ opt_str ''remote_ip'' (evRemoteIP e)
     @ opt_int ''upstream_status'' (evUpstreamStatus e) @ opt_bool ''requires_step_up'' (evRequiresStepUp e)
     @ opt_str ''elevation_id'' (evElevationID e) @ opt_str ''bundle_id'' (evBundleID e)
     @ opt_str ''bundle_digest'' (evBundleDigest e)"

definition CanonicalForHash :: "Event \<Rightarrow> bytes" where
  "CanonicalForHash e = enc_object (event_members e)"

definition hex_encode :: "bytes \<Rightarrow> string" where
  "hex_encode b = concat (map (\<lambda>c. [hex_digit (of_char c div 16), hex_digit (of_char c mod 16)]) b)"

definition ComputeHash :: "(bytes \<Rightarrow> bytes) \<Rightarrow> string \<Rightarrow> bytes \<Rightarrow> string" where
  "ComputeHash S prevHash canon = hex_encode (S (prevHash @ canon))"

definition HashEvent :: "(bytes \<Rightarrow> bytes) \<Rightarrow> string \<Rightarrow> Event \<Rightarrow> string" where
  "HashEvent S prevHash e = ComputeHash S prevHash (CanonicalForHash e)"

lemma hex_encode_Cons:
  "hex_encode (c # b) = hex_digit (of_char c div 16) # hex_digit (of_char c mod 16) # hex_encode b"
  by (simp add: hex_encode_def)

lemma hex_encode_inj: "hex_encode a = hex_encode b \<Longrightarrow> a = b"
proof (induction a arbitrary: b)
  case Nil
  then show ?case by (cases b) (simp_all add: hex_encode_def)
next
  case (Cons c a)
  then obtain d b' where b: "b = d # b'" by (cases b) (simp_all add: hex_encode_def)
  have d16: "(of_char x :: nat) div 16 < 16" for x :: char
    using nat_of_char_less_256 [of x] by (simp add: less_mult_imp_div_less)
  from Cons.prems b have "hex_val (hex_digit (of_char c div 16)) = hex_val (hex_digit (of_char d div 16))"
    "hex_val (hex_digit (of_char c mod 16)) = hex_val (hex_digit (of_char d mod 16))" "hex_encode a = hex_encode b'"
    by (simp_all add: hex_encode_Cons)
  then have "(of_char c :: nat) div 16 = of_char d div 16" "(of_char c :: nat) mod 16 = of_char d mod 16" "a = b'"
    using d16 Cons.IH by simp_all
  then have "(of_char c :: nat) = of_char d" by (metis div_mult_mod_eq)
  then have "c = d" by (simp add: of_char_eq_iff)
  with b \<open>a = b'\<close> show ?case by simp
qed

definition hexish :: "string \<Rightarrow> bool" where
  "hexish s \<longleftrightarrow> CHR ''{'' \<notin> set s"

lemma hexish_digit: "n < 16 \<Longrightarrow> hex_digit n \<noteq> CHR ''{''"
  by (auto simp: hex_digit_def less_Suc_eq numeral_eq_Suc)

lemma canonical_start: "\<exists>r. CanonicalForHash e = CHR ''{'' # r"
  by (simp add: CanonicalForHash_def enc_object_def)

end
