(* ===== verification/AuditStore.thy ===== *)
theory AuditStore
  imports AuditEvent "HOL-Library.List_Lexorder"
begin

text \<open>
  Package \<open>internal/auditstore\<close>, the in-memory store: a bounded ring buffer of events, each chained to the
  previous event of its tenant by a hash, and \<open>VerifyChain\<close>, which walks the chain. The ring refines the
  list of everything inserted (\<open>ring_of\<close>), and properties are stated over it. The hash \<open>S\<close> is SHA-256 in
  the code; reading RFC 3339 timestamps (\<open>time.Parse\<close>) is the argument \<open>parse\<close>.
\<close>

record memoryEntry =
  enID :: int
  enEvent :: Event
  enPrevHash :: string
  enHash :: string

record AuditStore =
  asBuf :: "memoryEntry list"
  asCap :: nat
  asNext :: nat
  asFilled :: nat
  asHeads :: "string \<rightharpoonup> string"
  asHeadsUpdated :: "string \<rightharpoonup> gotime"
  asHeadsID :: "string \<rightharpoonup> int"
  asNextID :: int

definition DefaultMemoryCapacity :: int where "DefaultMemoryCapacity = 10000"

definition zero_entry :: memoryEntry where
  "zero_entry = \<lparr>enID = 0, enEvent = (NewEvent [] [] [])\<lparr>evEventName := [], evSchemaVersion := []\<rparr>,
     enPrevHash = [], enHash = []\<rparr>"

definition as_NewMemoryStore :: "int \<Rightarrow> AuditStore" where
  "as_NewMemoryStore capacity =
     (let c = nat (if capacity \<le> 0 then DefaultMemoryCapacity else capacity) in
      \<lparr>asBuf = replicate c zero_entry, asCap = c, asNext = 0, asFilled = 0, asHeads = Map.empty,
       asHeadsUpdated = Map.empty, asHeadsID = Map.empty, asNextID = 0\<rparr>)"

definition chain_tenant :: "string \<Rightarrow> string" where
  "chain_tenant t = (if t = [] then ''default'' else t)"

definition as_Insert :: "(bytes \<Rightarrow> bytes) \<Rightarrow> gotime \<Rightarrow> Event \<Rightarrow> AuditStore \<Rightarrow> AuditStore" where
  "as_Insert S now e s =
     (let chainTenant = chain_tenant (evTenant e);
          prev = (case asHeads s chainTenant of Some h \<Rightarrow> h | None \<Rightarrow> []);
          newHash = ComputeHash S prev (CanonicalForHash e);
          nid = asNextID s + 1
      in s\<lparr>asNextID := nid,
           asBuf := (asBuf s)[asNext s := \<lparr>enID = nid, enEvent = e, enPrevHash = prev, enHash = newHash\<rparr>],
           asNext := (asNext s + 1) mod asCap s,
           asFilled := (if asFilled s < asCap s then asFilled s + 1 else asFilled s),
           asHeads := (asHeads s)(chainTenant \<mapsto> newHash),
           asHeadsID := (asHeadsID s)(chainTenant \<mapsto> nid),
           asHeadsUpdated := (asHeadsUpdated s)(chainTenant \<mapsto> now)\<rparr>)"

definition snapshotEntries :: "AuditStore \<Rightarrow> memoryEntry list" where
  "snapshotEntries s =
     (if asFilled s < asCap s then take (asFilled s) (asBuf s)
      else map (\<lambda>i. asBuf s ! ((asNext s + i) mod asCap s)) [0..<asCap s])"

record QueryFilter =
  qfFrom :: gotime
  qfTo :: gotime
  qfAgentID :: string
  qfTool :: string
  qfDecision :: string
  qfCheck :: string
  qfCapabilityTokenID :: string
  qfTenant :: string
  qfElevationID :: string
  qfLimit :: int
  qfOffset :: int

definition in_span :: "(string \<Rightarrow> gotime option) \<Rightarrow> gotime \<Rightarrow> gotime \<Rightarrow> string \<Rightarrow> bool" where
  "in_span parse from to stamp =
     (if \<not> is_zero from \<or> \<not> is_zero to then
        (case parse stamp of
           None \<Rightarrow> False
         | Some ts \<Rightarrow> \<not> (\<not> is_zero from \<and> ts < from) \<and> \<not> (\<not> is_zero to \<and> to < ts))
      else True)"

definition matchesFilter :: "(string \<Rightarrow> gotime option) \<Rightarrow> Event \<Rightarrow> QueryFilter \<Rightarrow> bool" where
  "matchesFilter parse e f =
     (if \<not> in_span parse (qfFrom f) (qfTo f) (evTimestamp e) then False
      else if qfAgentID f \<noteq> [] \<and> evAgentID e \<noteq> qfAgentID f then False
      else if qfTool f \<noteq> [] \<and> evTool e \<noteq> qfTool f then False
      else if qfDecision f \<noteq> [] \<and> evDecision e \<noteq> qfDecision f then False
      else if qfCheck f \<noteq> [] \<and> evCheck e \<noteq> qfCheck f then False
      else if qfCapabilityTokenID f \<noteq> [] \<and> evCapabilityTokenID e \<noteq> qfCapabilityTokenID f then False
      else if qfTenant f \<noteq> [] \<and> evTenant e \<noteq> qfTenant f then False
      else if qfElevationID f \<noteq> [] \<and> evElevationID e \<noteq> qfElevationID f then False
      else True)"

definition as_Count :: "(string \<Rightarrow> gotime option) \<Rightarrow> QueryFilter \<Rightarrow> AuditStore \<Rightarrow> int" where
  "as_Count parse f s = int (length (filter (\<lambda>x. matchesFilter parse (enEvent x) f) (snapshotEntries s)))"

text \<open>The matching events, the greatest timestamp text first; equal ones in any order, here the stored one.\<close>

definition as_Query :: "(string \<Rightarrow> gotime option) \<Rightarrow> QueryFilter \<Rightarrow> AuditStore \<Rightarrow> Event list" where
  "as_Query parse f s =
     (let matching = map enEvent (filter (\<lambda>x. matchesFilter parse (enEvent x) f) (snapshotEntries s));
          sorted = rev (sort_key (\<lambda>e. map of_char (evTimestamp e) :: nat list) (rev matching));
          limit = (if qfLimit f \<le> 0 \<or> 1000 < qfLimit f then 100 else qfLimit f);
          offset = (if qfOffset f < 0 then 0 else qfOffset f)
      in page (nat offset) limit sorted)"

subsection \<open>Verification\<close>

record VerifyFilter =
  vfTenant :: string
  vfFrom :: gotime
  vfTo :: gotime

datatype break_reason = PrevHashMismatch | HashMismatch

record VerifyBreak =
  vbID :: int
  vbTimestamp :: "gotime option"
  vbStoredHash :: string
  vbExpectedHash :: string
  vbReason :: break_reason

record VerifyResult =
  vrOK :: bool
  vrVerified :: nat
  vrSkipped :: nat
  vrBrokenAt :: "VerifyBreak option"
  vrHeadID :: int
  vrHeadAt :: gotime

fun verify_loop :: "(bytes \<Rightarrow> bytes) \<Rightarrow> (string \<Rightarrow> gotime option) \<Rightarrow> VerifyFilter \<Rightarrow> string \<Rightarrow> VerifyResult
    \<Rightarrow> memoryEntry list \<Rightarrow> VerifyResult" where
  "verify_loop S parse f prevHashLink out [] = out"
| "verify_loop S parse f prevHashLink out (entry # es) =
     (if chain_tenant (evTenant (enEvent entry)) \<noteq> chain_tenant (vfTenant f) then verify_loop S parse f prevHashLink out es
      else if \<not> in_span parse (vfFrom f) (vfTo f) (evTimestamp (enEvent entry)) then verify_loop S parse f prevHashLink out es
      else if enHash entry = [] then verify_loop S parse f prevHashLink (out\<lparr>vrSkipped := vrSkipped out + 1\<rparr>) es
      else if 0 < vrVerified out \<and> enPrevHash entry \<noteq> prevHashLink then
        out\<lparr>vrOK := False, vrBrokenAt := Some \<lparr>vbID = enID entry, vbTimestamp = parse (evTimestamp (enEvent entry)),
              vbStoredHash = enHash entry, vbExpectedHash = prevHashLink, vbReason = PrevHashMismatch\<rparr>\<rparr>
      else (let recomputed = ComputeHash S (enPrevHash entry) (CanonicalForHash (enEvent entry)) in
            if recomputed \<noteq> enHash entry then
              out\<lparr>vrOK := False, vrBrokenAt := Some \<lparr>vbID = enID entry, vbTimestamp = parse (evTimestamp (enEvent entry)),
                    vbStoredHash = enHash entry, vbExpectedHash = recomputed, vbReason = HashMismatch\<rparr>\<rparr>
            else verify_loop S parse f (enHash entry) (out\<lparr>vrVerified := vrVerified out + 1\<rparr>) es))"

text \<open>
  A broken walk returns at once; a clean one also reports the head of the tenant's chain.
\<close>

definition as_VerifyChain :: "(bytes \<Rightarrow> bytes) \<Rightarrow> (string \<Rightarrow> gotime option) \<Rightarrow> VerifyFilter \<Rightarrow> AuditStore \<Rightarrow> VerifyResult" where
  "as_VerifyChain S parse f s =
     (let out = verify_loop S parse f []
            \<lparr>vrOK = True, vrVerified = 0, vrSkipped = 0, vrBrokenAt = None, vrHeadID = 0, vrHeadAt = 0\<rparr>
            (sort_key enID (snapshotEntries s));
          t = chain_tenant (vfTenant f)
      in if \<not> vrOK out then out
         else out\<lparr>vrHeadID := (case asHeadsID s t of Some n \<Rightarrow> n | None \<Rightarrow> 0),
                  vrHeadAt := (case asHeadsUpdated s t of Some when \<Rightarrow> when | None \<Rightarrow> 0)\<rparr>)"

subsection \<open>The ring is the list of the last insertions\<close>

text \<open>\<open>ring_of h s\<close>: the store \<open>s\<close> is what inserting the entries \<open>h\<close> left in the buffer.\<close>

definition ring_of :: "memoryEntry list \<Rightarrow> AuditStore \<Rightarrow> bool" where
  "ring_of h s \<longleftrightarrow> 0 < asCap s \<and> length (asBuf s) = asCap s \<and> asNext s = length h mod asCap s
     \<and> asFilled s = min (length h) (asCap s)
     \<and> (\<forall>i < length h. length h \<le> i + asCap s \<longrightarrow> asBuf s ! (i mod asCap s) = h ! i)"

lemma ring_snapshot:
  assumes "ring_of h s"
  shows "snapshotEntries s = drop (length h - asCap s) h"
proof (cases "asFilled s < asCap s")
  case True
  with assms have len: "length h < asCap s" by (auto simp: ring_of_def)
  have "take (length h) (asBuf s) = h"
    using assms len by (intro nth_equalityI) (auto simp: ring_of_def)
  with True len assms show ?thesis by (simp add: snapshotEntries_def ring_of_def)
next
  case False
  let ?c = "asCap s" and ?n = "length h"
  from False assms have len: "?c \<le> ?n" "0 < ?c" by (auto simp: ring_of_def)
  have idx: "(asNext s + i) mod ?c = (?n - ?c + i) mod ?c" for i
  proof -
    have "(asNext s + i) mod ?c = (?n + i) mod ?c" using assms by (simp add: ring_of_def mod_add_left_eq)
    also have "?n + i = (?n - ?c + i) + ?c" using len by simp
    finally show ?thesis by simp
  qed
  have nth: "asBuf s ! ((?n - ?c + i) mod ?c) = h ! (?n - ?c + i)" if "i < ?c" for i
    using assms that len by (auto simp: ring_of_def)
  have "snapshotEntries s = map (\<lambda>i. h ! (?n - ?c + i)) [0..<?c]"
    using False idx nth by (simp add: snapshotEntries_def)
  also have "\<dots> = drop (?n - ?c) h"
    using len by (intro nth_equalityI) auto
  finally show ?thesis .
qed

lemma ring_insert:
  assumes "ring_of h s"
    and "s' = s\<lparr>asNextID := a, asBuf := (asBuf s)[asNext s := x], asNext := (asNext s + 1) mod asCap s,
       asFilled := (if asFilled s < asCap s then asFilled s + 1 else asFilled s), asHeads := b, asHeadsID := c,
       asHeadsUpdated := d\<rparr>"
  shows "ring_of (h @ [x]) s'"
proof -
  let ?c = "asCap s" and ?n = "length h"
  from assms(1) have r: "0 < ?c" "length (asBuf s) = ?c" "asNext s = ?n mod ?c" "asFilled s = min ?n ?c"
    "\<And>i. i < ?n \<Longrightarrow> ?n \<le> i + ?c \<Longrightarrow> asBuf s ! (i mod ?c) = h ! i"
    by (auto simp: ring_of_def)
  have "(asBuf s)[?n mod ?c := x] ! (i mod ?c) = (h @ [x]) ! i" if "i < Suc ?n" "Suc ?n \<le> i + ?c" for i
  proof (cases "i = ?n")
    case True
    with r(1,2) show ?thesis by simp
  next
    case False
    with that have i: "i < ?n" by simp
    have "i mod ?c \<noteq> ?n mod ?c"
    proof
      assume "i mod ?c = ?n mod ?c"
      with i have "?c dvd (?n - i)" by (metis less_imp_le mod_eq_dvd_iff_nat)
      with i that(2) show False by (auto dest: dvd_imp_le)
    qed
    with i that r(5) [of i] show ?thesis by (simp add: nth_append)
  qed
  with r(1-4) show ?thesis unfolding ring_of_def assms(2) by (auto simp: mod_Suc_eq)
qed

subsection \<open>Chains of rows\<close>

abbreviation row_tenant :: "memoryEntry \<Rightarrow> string" where
  "row_tenant x \<equiv> chain_tenant (evTenant (enEvent x))"

definition tenant_rows :: "string \<Rightarrow> memoryEntry list \<Rightarrow> memoryEntry list" where
  "tenant_rows t h = filter (\<lambda>x. row_tenant x = t) h"

definition row_hashed :: "(bytes \<Rightarrow> bytes) \<Rightarrow> memoryEntry \<Rightarrow> bool" where
  "row_hashed S x \<longleftrightarrow> enHash x = ComputeHash S (enPrevHash x) (CanonicalForHash (enEvent x))"

fun rows_linked :: "(bytes \<Rightarrow> bytes) \<Rightarrow> memoryEntry list \<Rightarrow> bool" where
  "rows_linked S [] = True"
| "rows_linked S [x] = row_hashed S x"
| "rows_linked S (x # y # r) = (row_hashed S x \<and> enPrevHash y = enHash x \<and> rows_linked S (y # r))"

lemma rows_linked_snoc:
  "rows_linked S (xs @ [y]) \<longleftrightarrow> row_hashed S y \<and> (xs = [] \<or> rows_linked S xs \<and> enPrevHash y = enHash (last xs))"
  by (induction S xs rule: rows_linked.induct) auto

lemma rows_linked_Cons: "rows_linked S (x # xs) \<longleftrightarrow>
    row_hashed S x \<and> (xs = [] \<or> enPrevHash (hd xs) = enHash x \<and> rows_linked S xs)"
  by (cases xs) auto

lemma rows_linked_drop: "rows_linked S xs \<Longrightarrow> rows_linked S (drop n xs)"
  by (induction xs arbitrary: n) (auto simp: rows_linked_Cons drop_Cons split: nat.splits)

definition head_of :: "memoryEntry list \<Rightarrow> string \<Rightarrow> string" where
  "head_of h t = (if tenant_rows t h = [] then [] else enHash (last (tenant_rows t h)))"

text \<open>The entries a sequence of insertions creates, oldest first.\<close>

inductive chained :: "(bytes \<Rightarrow> bytes) \<Rightarrow> memoryEntry list \<Rightarrow> bool" for S where
  none: "chained S []"
| add: "chained S h \<Longrightarrow> enPrevHash x = head_of h (row_tenant x) \<Longrightarrow> row_hashed S x \<Longrightarrow>
    enID x = int (length h) + 1 \<Longrightarrow> chained S (h @ [x])"

lemma chained_linked: "chained S h \<Longrightarrow> rows_linked S (tenant_rows t h)"
  by (induction rule: chained.induct) (auto simp: tenant_rows_def rows_linked_snoc head_of_def)

lemma chained_hashed: "chained S h \<Longrightarrow> x \<in> set h \<Longrightarrow> row_hashed S x"
  by (induction rule: chained.induct) auto

lemma chained_ids: "chained S h \<Longrightarrow> map enID h = map int [1..<Suc (length h)]"
  by (induction rule: chained.induct) auto

lemma tenant_rows_drop: "\<exists>m. tenant_rows t (drop n h) = drop m (tenant_rows t h)"
proof -
  have "tenant_rows t h = tenant_rows t (take n h) @ tenant_rows t (drop n h)"
    unfolding tenant_rows_def by (metis append_take_drop_id filter_append)
  then show ?thesis by (metis append_eq_conv_conj)
qed

definition no_window :: "VerifyFilter \<Rightarrow> bool" where
  "no_window f \<longleftrightarrow> vfFrom f = 0 \<and> vfTo f = 0"

lemma verify_loop_skip:
  "row_tenant x \<noteq> chain_tenant (vfTenant f) \<Longrightarrow> verify_loop S parse f link out (x # es) = verify_loop S parse f link out es"
  by simp

lemma verify_loop_row:
  assumes "no_window f" "enHash x \<noteq> []" "row_tenant x = chain_tenant (vfTenant f)"
  shows "(0 < vrVerified out \<longrightarrow> enPrevHash x = link) \<Longrightarrow> row_hashed S x \<Longrightarrow>
      verify_loop S parse f link out (x # es) = verify_loop S parse f (enHash x) (out\<lparr>vrVerified := vrVerified out + 1\<rparr>) es"
    and "vrOK (verify_loop S parse f link out (x # es)) \<Longrightarrow> (0 < vrVerified out \<longrightarrow> enPrevHash x = link) \<and> row_hashed S x"
proof -
  have w: "in_span parse (vfFrom f) (vfTo f) (evTimestamp (enEvent x))"
    using assms(1) by (simp add: in_span_def no_window_def is_zero_def)
  show "(0 < vrVerified out \<longrightarrow> enPrevHash x = link) \<Longrightarrow> row_hashed S x \<Longrightarrow>
      verify_loop S parse f link out (x # es) = verify_loop S parse f (enHash x) (out\<lparr>vrVerified := vrVerified out + 1\<rparr>) es"
    using assms w by (auto simp: row_hashed_def Let_def)
  show "vrOK (verify_loop S parse f link out (x # es)) \<Longrightarrow> (0 < vrVerified out \<longrightarrow> enPrevHash x = link) \<and> row_hashed S x"
    using assms w by (auto simp: row_hashed_def Let_def split: if_splits)
qed

declare verify_loop.simps(2) [simp del]

lemma tenant_rows_Cons: "tenant_rows t (x # es) = (if row_tenant x = t then x # tenant_rows t es else tenant_rows t es)"
  by (simp add: tenant_rows_def)

lemma verify_loop_ok:
  assumes "no_window f" "\<forall>x \<in> set es. enHash x \<noteq> []"
    and "rows_linked S (tenant_rows (chain_tenant (vfTenant f)) es)"
    and "0 < vrVerified out \<longrightarrow> tenant_rows (chain_tenant (vfTenant f)) es = []
       \<or> enPrevHash (hd (tenant_rows (chain_tenant (vfTenant f)) es)) = link"
  shows "verify_loop S parse f link out es =
    out\<lparr>vrVerified := vrVerified out + length (tenant_rows (chain_tenant (vfTenant f)) es)\<rparr>"
  using assms
proof (induction es arbitrary: link out)
  case (Cons x es)
  show ?case
  proof (cases "row_tenant x = chain_tenant (vfTenant f)")
    case True
    with Cons.prems have x: "enHash x \<noteq> []" "0 < vrVerified out \<longrightarrow> enPrevHash x = link" "row_hashed S x"
      and rest: "tenant_rows (chain_tenant (vfTenant f)) es = [] \<or>
        enPrevHash (hd (tenant_rows (chain_tenant (vfTenant f)) es)) = enHash x"
        "rows_linked S (tenant_rows (chain_tenant (vfTenant f)) es)"
      by (auto simp: tenant_rows_Cons rows_linked_Cons)
    with Cons True show ?thesis
      by (simp only: verify_loop_row(1) [OF Cons.prems(1) x(1) True x(2,3)]) (simp add: Cons.IH tenant_rows_Cons)
  next
    case False
    with Cons show ?thesis by (simp add: verify_loop_skip tenant_rows_Cons)
  qed
qed (simp add: tenant_rows_def)

lemma skipped_mono: "vrSkipped out \<le> vrSkipped (verify_loop S parse f link out es)"
proof (induction es arbitrary: link out)
  case (Cons x es)
  from Cons [of "out\<lparr>vrSkipped := vrSkipped out + 1\<rparr>" link]
    Cons [of "out\<lparr>vrVerified := vrVerified out + 1\<rparr>" "enHash x"] Cons [of out link]
  show ?case by (cases "vrVerified out") (simp_all add: verify_loop.simps(2) Let_def)
qed simp

text \<open>A walk that ends well and reports no row skipped has met no row of the tenant without a hash.\<close>

lemma none_skipped:
  assumes "vrOK (verify_loop S parse f link out es)" "no_window f"
    and "vrSkipped (verify_loop S parse f link out es) = vrSkipped out"
  shows "\<forall>x \<in> set es. row_tenant x = chain_tenant (vfTenant f) \<longrightarrow> enHash x \<noteq> []"
  using assms
proof (induction es arbitrary: link out)
  case (Cons x es)
  show ?case
  proof (cases "row_tenant x = chain_tenant (vfTenant f)")
    case True
    have w: "in_span parse (vfFrom f) (vfTo f) (evTimestamp (enEvent x))"
      using Cons.prems(2) by (simp add: in_span_def no_window_def is_zero_def)
    have ne: "enHash x \<noteq> []"
      using Cons.prems(3) True w skipped_mono [of "out\<lparr>vrSkipped := vrSkipped out + 1\<rparr>" S parse f link es]
      by (auto simp: verify_loop.simps(2))
    note ok = verify_loop_row(2) [OF Cons.prems(2) ne True Cons.prems(1)]
    note row = verify_loop_row(1) [OF Cons.prems(2) ne True conjunct1 [OF ok] conjunct2 [OF ok]]
    from Cons.IH [of "enHash x" "out\<lparr>vrVerified := vrVerified out + 1\<rparr>"] Cons.prems ne
    show ?thesis unfolding row by simp
  next
    case False
    with Cons show ?thesis by (simp add: verify_loop_skip)
  qed
qed simp

lemma verify_loop_linked:
  assumes "vrOK (verify_loop S parse f link out es)" "no_window f"
    and "\<forall>x \<in> set es. row_tenant x = chain_tenant (vfTenant f) \<longrightarrow> enHash x \<noteq> []"
  shows "rows_linked S (tenant_rows (chain_tenant (vfTenant f)) es) \<and>
    (0 < vrVerified out \<longrightarrow> tenant_rows (chain_tenant (vfTenant f)) es = []
       \<or> enPrevHash (hd (tenant_rows (chain_tenant (vfTenant f)) es)) = link)"
  using assms
proof (induction es arbitrary: link out)
  case (Cons x es)
  show ?case
  proof (cases "row_tenant x = chain_tenant (vfTenant f)")
    case True
    from Cons.prems(3) True have ne: "enHash x \<noteq> []" by simp
    note ok = verify_loop_row(2) [OF Cons.prems(2) ne True Cons.prems(1)]
    from Cons.prems(1) have "vrOK (verify_loop S parse f (enHash x) (out\<lparr>vrVerified := vrVerified out + 1\<rparr>) es)"
      by (simp only: verify_loop_row(1) [OF Cons.prems(2) ne True conjunct1 [OF ok] conjunct2 [OF ok]])
    from Cons.IH [OF this Cons.prems(2)] Cons.prems(3) ok True show ?thesis
      by (auto simp: tenant_rows_Cons rows_linked_Cons)
  next
    case False
    with Cons show ?thesis by (simp add: verify_loop_skip tenant_rows_Cons)
  qed
qed (simp add: tenant_rows_def)

subsection \<open>Stores reached by insertions\<close>

definition as_run :: "(bytes \<Rightarrow> bytes) \<Rightarrow> (gotime \<times> Event) list \<Rightarrow> AuditStore \<Rightarrow> AuditStore" where
  "as_run S evs s = fold (\<lambda>(now, e). as_Insert S now e) evs s"

text \<open>What a reachable store holds, as the abstract list of everything inserted.\<close>

definition as_abs :: "(bytes \<Rightarrow> bytes) \<Rightarrow> memoryEntry list \<Rightarrow> AuditStore \<Rightarrow> bool" where
  "as_abs S h s \<longleftrightarrow> ring_of h s \<and> chained S h \<and> asNextID s = int (length h)
     \<and> (\<forall>t. (case asHeads s t of Some x \<Rightarrow> x | None \<Rightarrow> []) = head_of h t)"

lemma as_abs_new: "as_abs S [] (as_NewMemoryStore capacity)"
  by (auto simp: as_abs_def ring_of_def as_NewMemoryStore_def Let_def DefaultMemoryCapacity_def head_of_def
      tenant_rows_def intro: chained.none)

lemma as_abs_insert:
  assumes "as_abs S h s"
  shows "\<exists>x. enEvent x = e \<and> as_abs S (h @ [x]) (as_Insert S now e s)"
proof -
  let ?t = "chain_tenant (evTenant e)"
  let ?x = "\<lparr>enID = asNextID s + 1, enEvent = e, enPrevHash = head_of h ?t,
      enHash = ComputeHash S (head_of h ?t) (CanonicalForHash e)\<rparr>"
  have prev: "(case asHeads s ?t of Some x \<Rightarrow> x | None \<Rightarrow> []) = head_of h ?t"
    using assms by (simp add: as_abs_def)
  have "ring_of (h @ [?x]) (as_Insert S now e s)"
    using assms by (intro ring_insert [of h s]) (simp_all add: as_abs_def as_Insert_def Let_def prev)
  moreover have "chained S (h @ [?x])"
    using assms by (intro chained.add) (simp_all add: as_abs_def row_hashed_def)
  moreover have "(case asHeads (as_Insert S now e s) t of Some x \<Rightarrow> x | None \<Rightarrow> []) = head_of (h @ [?x]) t" for t
    using assms prev by (auto simp: as_abs_def as_Insert_def Let_def head_of_def tenant_rows_def)
  moreover have "asNextID (as_Insert S now e s) = int (length (h @ [?x]))"
    using assms by (simp add: as_abs_def as_Insert_def Let_def)
  ultimately have "enEvent ?x = e \<and> as_abs S (h @ [?x]) (as_Insert S now e s)" by (simp add: as_abs_def)
  then show ?thesis by blast
qed

lemma as_cap_insert [simp]: "asCap (as_Insert S now e s) = asCap s"
  by (simp add: as_Insert_def Let_def)

lemma as_abs_run:
  "as_abs S h s \<Longrightarrow> \<exists>h'. as_abs S h' (as_run S evs s) \<and> map enEvent h' = map enEvent h @ map snd evs
     \<and> asCap (as_run S evs s) = asCap s"
proof (induction evs arbitrary: h s)
  case (Cons a evs)
  obtain now e where a: "a = (now, e)" by (cases a)
  from as_abs_insert [OF Cons.prems] obtain x where x: "enEvent x = e" "as_abs S (h @ [x]) (as_Insert S now e s)"
    by blast
  from Cons.IH [OF x(2)] x(1) a show ?case by (auto simp: as_run_def)
qed (auto simp: as_run_def)

text \<open>
  The audit log keeps the latest events in order: after any sequence of insertions into a new store,
  what it holds is exactly the last events inserted, as many as its capacity, oldest first, whatever
  wrap-around the ring buffer went through.
\<close>

theorem audit_ring_keeps_latest:
  "map enEvent (snapshotEntries (as_run S evs (as_NewMemoryStore capacity))) =
     drop (length evs - asCap (as_NewMemoryStore capacity)) (map snd evs)"
proof -
  obtain h where h: "as_abs S h (as_run S evs (as_NewMemoryStore capacity))" "map enEvent h = map snd evs"
    "asCap (as_run S evs (as_NewMemoryStore capacity)) = asCap (as_NewMemoryStore capacity)"
    using as_abs_run [OF as_abs_new] by fastforce
  from h(2) have "length h = length evs" by (metis length_map)
  with h(1,3) ring_snapshot [of h "as_run S evs (as_NewMemoryStore capacity)"]
  have "snapshotEntries (as_run S evs (as_NewMemoryStore capacity)) =
      drop (length evs - asCap (as_NewMemoryStore capacity)) h" by (simp add: as_abs_def)
  then show ?thesis by (metis drop_map h(2))
qed

lemma chained_sorted:
  assumes "chained S h"
  shows "sort_key enID (drop n h) = drop n h"
proof -
  have "sorted (map enID h)"
    unfolding chained_ids [OF assms] by (simp add: sorted_iff_nth_mono del: upt_Suc)
  then have "sorted (drop n (map enID h))" by (rule sorted_wrt_drop)
  then show ?thesis by (intro sort_key_id_if_sorted) (simp add: drop_map)
qed

lemma sha256_hash_nonempty: "row_hashed sha256 x \<Longrightarrow> enHash x \<noteq> []"
  using length_sha256 [of "enPrevHash x @ CanonicalForHash (enEvent x)"]
  by (cases "sha256 (enPrevHash x @ CanonicalForHash (enEvent x))")
     (auto simp: row_hashed_def ComputeHash_def hex_encode_Cons)

lemma abs_verify:
  assumes "as_abs S h s" "no_window f" "\<And>x. x \<in> set h \<Longrightarrow> enHash x \<noteq> []"
  shows "as_VerifyChain S parse f s =
    \<lparr>vrOK = True, vrVerified = length (tenant_rows (chain_tenant (vfTenant f)) (snapshotEntries s)), vrSkipped = 0,
     vrBrokenAt = None, vrHeadID = (case asHeadsID s (chain_tenant (vfTenant f)) of Some n \<Rightarrow> n | None \<Rightarrow> 0),
     vrHeadAt = (case asHeadsUpdated s (chain_tenant (vfTenant f)) of Some when \<Rightarrow> when | None \<Rightarrow> 0)\<rparr>"
proof -
  from assms(1) have snap: "snapshotEntries s = drop (length h - asCap s) h" and ch: "chained S h"
    by (auto simp: as_abs_def ring_snapshot)
  have "rows_linked S (tenant_rows t (snapshotEntries s))" for t
    using tenant_rows_drop [of t "length h - asCap s" h] chained_linked [OF ch, of t] rows_linked_drop
    unfolding snap by metis
  moreover have "\<forall>x \<in> set (snapshotEntries s). enHash x \<noteq> []"
    using assms(3) unfolding snap by (meson in_set_dropD)
  moreover have "sort_key enID (snapshotEntries s) = snapshotEntries s"
    unfolding snap by (rule chained_sorted [OF ch])
  ultimately show ?thesis
    using assms(2) by (simp add: as_VerifyChain_def verify_loop_ok Let_def)
qed

text \<open>
  C34. An untouched log verifies: after any sequence of insertions, of any tenants, into a store of any
  capacity, \<open>VerifyChain\<close> over the whole log of any tenant reports no break and no skipped row, and counts
  every row of that tenant the buffer still holds.
\<close>

theorem audit_chain_verifies:
  "vrOK (as_VerifyChain sha256 parse \<lparr>vfTenant = t, vfFrom = 0, vfTo = 0\<rparr>
       (as_run sha256 evs (as_NewMemoryStore capacity)))
   \<and> vrSkipped (as_VerifyChain sha256 parse \<lparr>vfTenant = t, vfFrom = 0, vfTo = 0\<rparr>
       (as_run sha256 evs (as_NewMemoryStore capacity))) = 0
   \<and> vrVerified (as_VerifyChain sha256 parse \<lparr>vfTenant = t, vfFrom = 0, vfTo = 0\<rparr>
       (as_run sha256 evs (as_NewMemoryStore capacity)))
     = length (tenant_rows (chain_tenant t) (snapshotEntries (as_run sha256 evs (as_NewMemoryStore capacity))))"
proof -
  obtain h where h: "as_abs sha256 h (as_run sha256 evs (as_NewMemoryStore capacity))"
    using as_abs_run [OF as_abs_new] by blast
  then have "\<And>x. x \<in> set h \<Longrightarrow> enHash x \<noteq> []"
    using chained_hashed sha256_hash_nonempty by (metis as_abs_def)
  from abs_verify [OF h _ this, of "\<lparr>vfTenant = t, vfFrom = 0, vfTo = 0\<rparr>" parse] show ?thesis
    by (simp add: no_window_def)
qed

subsection \<open>Tampering\<close>

definition hash_input :: "memoryEntry \<Rightarrow> bytes" where
  "hash_input x = enPrevHash x @ CanonicalForHash (enEvent x)"

lemma hexish_ComputeHash: "hexish (ComputeHash S p c)"
proof -
  have d16: "(of_char x :: nat) div 16 < 16" for x :: char
    using nat_of_char_less_256 [of x] by (simp add: less_mult_imp_div_less)
  have "hexish (hex_encode b)" for b
  proof (induction b)
    case (Cons c b)
    with hexish_digit [OF d16] hexish_digit [of "of_char c mod 16"] show ?case
      by (auto simp: hexish_def hex_encode_Cons) metis
  qed (simp add: hexish_def hex_encode_def)
  then show ?thesis by (simp add: ComputeHash_def)
qed

lemma hash_input_inj:
  assumes "hexish (enPrevHash x)" "hexish (enPrevHash y)" "hash_input x = hash_input y"
  shows "enPrevHash x = enPrevHash y \<and> CanonicalForHash (enEvent x) = CanonicalForHash (enEvent y)"
proof -
  obtain r q where c: "CanonicalForHash (enEvent x) = CHR ''{'' # r" "CanonicalForHash (enEvent y) = CHR ''{'' # q"
    using canonical_start by metis
  have split: "p = p' \<and> z = z'"
    if "CHR ''{'' \<notin> set p" "CHR ''{'' \<notin> set p'" "p @ CHR ''{'' # z = p' @ CHR ''{'' # z'" for p p' z z' :: string
    using that by (auto simp: append_eq_append_conv2 append_eq_Cons_conv Cons_eq_append_conv)
  show ?thesis
    using assms split [of "enPrevHash x" "enPrevHash y" r q] by (simp add: c hash_input_def hexish_def)
qed

lemma linked_prev_hexish:
  "rows_linked S xs \<Longrightarrow> hexish (enPrevHash (hd xs)) \<Longrightarrow> x \<in> set xs \<Longrightarrow> hexish (enPrevHash x)"
proof (induction xs)
  case (Cons a xs)
  show ?case
  proof (cases "x = a")
    case False
    with Cons.prems have "x \<in> set xs" "xs \<noteq> []" by auto
    with Cons.prems(1) hexish_ComputeHash have "rows_linked S xs" "hexish (enPrevHash (hd xs))"
      by (auto simp: rows_linked_Cons row_hashed_def)
    with Cons.IH \<open>x \<in> set xs\<close> show ?thesis by blast
  qed (use Cons.prems in simp)
qed simp

lemma rows_determined:
  assumes "rows_linked S xs" "rows_linked S ys" "length xs = length ys" "xs \<noteq> []"
    and "enHash (last xs) = enHash (last ys)"
    and "\<forall>x \<in> set xs \<union> set ys. hexish (enPrevHash x)"
    and "\<forall>x \<in> set xs. \<forall>y \<in> set ys. S (hash_input x) = S (hash_input y) \<longrightarrow> hash_input x = hash_input y"
  shows "map (\<lambda>x. CanonicalForHash (enEvent x)) xs = map (\<lambda>x. CanonicalForHash (enEvent x)) ys"
  using assms
proof (induction xs arbitrary: ys rule: rev_induct)
  case (snoc x xs)
  then obtain ys' y where ys: "ys = ys' @ [y]" "length ys' = length xs" by (cases ys rule: rev_cases) auto
  from snoc.prems(1,2) ys have hashed: "row_hashed S x" "row_hashed S y" by (auto simp: rows_linked_snoc)
  with snoc.prems(5) ys have "S (hash_input x) = S (hash_input y)"
    by (auto simp: row_hashed_def ComputeHash_def hash_input_def dest: hex_encode_inj)
  with snoc.prems(7) ys have "hash_input x = hash_input y" by simp
  with snoc.prems(6) ys hash_input_inj have same: "enPrevHash x = enPrevHash y"
    "CanonicalForHash (enEvent x) = CanonicalForHash (enEvent y)" by auto
  show ?case
  proof (cases "xs = []")
    case True
    with ys same show ?thesis by simp
  next
    case False
    with ys have ne: "ys' \<noteq> []" by auto
    have lk: "rows_linked S xs" "enPrevHash x = enHash (last xs)" "rows_linked S ys'" "enPrevHash y = enHash (last ys')"
      using snoc.prems(1,2) ys False ne by (auto simp: rows_linked_snoc)
    have "map (\<lambda>x. CanonicalForHash (enEvent x)) xs = map (\<lambda>x. CanonicalForHash (enEvent x)) ys'"
      using snoc.prems(6,7) ys same lk False by (intro snoc.IH) auto
    with same ys show ?thesis by simp
  qed
qed simp

text \<open>The rows of a tenant's chain that verification walks, oldest first.\<close>

definition chain_rows :: "string \<Rightarrow> AuditStore \<Rightarrow> memoryEntry list" where
  "chain_rows t s = tenant_rows (chain_tenant t) (sort_key enID (snapshotEntries s))"

text \<open>
  C35. Tampering shows: take any two stores, one possibly edited behind the gateway's back, for which
  \<open>VerifyChain\<close> over a tenant's whole log reports success and no skipped row, and whose logs hold equally many
  rows and end in the same hash. Then they record the same sequence of events, as far as the hash covers them,
  or two of their rows exhibit a collision of the hash. (A row without a hash is skipped, not checked, so the
  report of skipped rows has to be read too; the link of the oldest row kept, which verification does not
  check, is empty or hexadecimal.)
\<close>

theorem audit_tampering_shows:
  assumes "vrOK (as_VerifyChain S parse \<lparr>vfTenant = t, vfFrom = 0, vfTo = 0\<rparr> s)"
    and "vrOK (as_VerifyChain S parse \<lparr>vfTenant = t, vfFrom = 0, vfTo = 0\<rparr> s')"
    and "vrSkipped (as_VerifyChain S parse \<lparr>vfTenant = t, vfFrom = 0, vfTo = 0\<rparr> s) = 0"
    and "vrSkipped (as_VerifyChain S parse \<lparr>vfTenant = t, vfFrom = 0, vfTo = 0\<rparr> s') = 0"
    and "chain_rows t s \<noteq> []" and "length (chain_rows t s) = length (chain_rows t s')"
    and "enHash (last (chain_rows t s)) = enHash (last (chain_rows t s'))"
    and "hexish (enPrevHash (hd (chain_rows t s)))" and "hexish (enPrevHash (hd (chain_rows t s')))"
  shows "map (\<lambda>x. CanonicalForHash (enEvent x)) (chain_rows t s) = map (\<lambda>x. CanonicalForHash (enEvent x)) (chain_rows t s')
    \<or> (\<exists>x \<in> set (chain_rows t s). \<exists>y \<in> set (chain_rows t s'). hash_input x \<noteq> hash_input y \<and> S (hash_input x) = S (hash_input y))"
proof (rule disjCI)
  let ?f = "\<lparr>vfTenant = t, vfFrom = 0, vfTo = 0\<rparr>"
  assume free: "\<not> (\<exists>x \<in> set (chain_rows t s). \<exists>y \<in> set (chain_rows t s'). hash_input x \<noteq> hash_input y \<and> S (hash_input x) = S (hash_input y))"
  have linked: "rows_linked S (chain_rows t st)"
    if "vrOK (as_VerifyChain S parse ?f st)" "vrSkipped (as_VerifyChain S parse ?f st) = 0" for st
  proof -
    let ?o = "\<lparr>vrOK = True, vrVerified = 0, vrSkipped = 0, vrBrokenAt = None, vrHeadID = 0, vrHeadAt = 0\<rparr>"
    have ok: "vrOK (verify_loop S parse ?f [] ?o (sort_key enID (snapshotEntries st)))"
      "vrSkipped (verify_loop S parse ?f [] ?o (sort_key enID (snapshotEntries st))) = vrSkipped ?o"
      using that by (auto simp: as_VerifyChain_def Let_def split: if_splits)
    have nw: "no_window ?f" by (simp add: no_window_def)
    show ?thesis
      using verify_loop_linked [OF ok(1) nw none_skipped [OF ok(1) nw ok(2)]] by (simp add: chain_rows_def)
  qed
  have l: "rows_linked S (chain_rows t s)" "rows_linked S (chain_rows t s')" using assms(1-4) by (simp_all add: linked)
  have "\<forall>x \<in> set (chain_rows t s) \<union> set (chain_rows t s'). hexish (enPrevHash x)"
    using linked_prev_hexish [OF l(1) assms(8)] linked_prev_hexish [OF l(2) assms(9)] by blast
  with l free assms(5-7) show "map (\<lambda>x. CanonicalForHash (enEvent x)) (chain_rows t s) = map (\<lambda>x. CanonicalForHash (enEvent x)) (chain_rows t s')"
    by (intro rows_determined) auto
qed

text \<open>A one-event log under a toy hash, the identity.\<close>

definition sample_event :: "string \<Rightarrow> Event" where
  "sample_event ts = (NewEvent ts DecisionAllow ''read_invoice'')\<lparr>evTenant := ''acme''\<rparr>"

definition sample_log :: "(gotime \<times> Event) list \<Rightarrow> AuditStore" where
  "sample_log evs = as_run (\<lambda>m. m) evs (as_NewMemoryStore 4)"

definition stamp_parse :: "string \<Rightarrow> gotime option" where
  "stamp_parse s = (case s of [c] \<Rightarrow> Some (int (of_char c)) | _ \<Rightarrow> None)"

lemma replicate_four: "replicate 4 x = [x, x, x, x]"
  by (simp add: numeral_eq_Suc)

lemma snapshot_one:
  "snapshotEntries (as_run S [(now, e)] (as_NewMemoryStore 4)) =
     [\<lparr>enID = 1, enEvent = e, enPrevHash = [], enHash = ComputeHash S [] (CanonicalForHash e)\<rparr>]"
  by (simp add: as_run_def as_Insert_def as_NewMemoryStore_def snapshotEntries_def Let_def replicate_four)

lemma length_hex_encode: "length (hex_encode b) = 2 * length b"
  by (induction b) (simp_all add: hex_encode_def)

lemma hex_canonical: "length (hex_encode (p @ CanonicalForHash e)) > 2 * length p"
  using canonical_start [of e] by (auto simp: length_hex_encode)

theorem audit_tampering_shows_witness:
  "chain_rows ''acme'' (sample_log [(1, sample_event ''1'')]) \<noteq> []
   \<and> (map (\<lambda>x. CanonicalForHash (enEvent x)) (chain_rows ''acme'' (sample_log [(1, sample_event ''1'')]))
      = map (\<lambda>x. CanonicalForHash (enEvent x)) (chain_rows ''acme'' (sample_log [(9, sample_event ''1'')]))
    \<or> (\<exists>x \<in> set (chain_rows ''acme'' (sample_log [(1, sample_event ''1'')])).
         \<exists>y \<in> set (chain_rows ''acme'' (sample_log [(9, sample_event ''1'')])).
           hash_input x \<noteq> hash_input y \<and> hash_input x = hash_input y))"
proof -
  let ?a = "sample_log [(1, sample_event ''1'')]" and ?b = "sample_log [(9, sample_event ''1'')]"
  let ?f = "\<lparr>vfTenant = ''acme'', vfFrom = 0, vfTo = 0\<rparr>"
  let ?x = "\<lparr>enID = 1, enEvent = sample_event ''1'', enPrevHash = [],
      enHash = ComputeHash (\<lambda>m. m) [] (CanonicalForHash (sample_event ''1''))\<rparr>"
  have snap: "snapshotEntries ?a = [?x]" "snapshotEntries ?b = [?x]" by (simp_all only: sample_log_def snapshot_one)
  have ten: "evTenant (sample_event ''1'') = ''acme''" by (simp add: sample_event_def)
  have rows: "chain_rows ''acme'' ?a = [?x]" "chain_rows ''acme'' ?b = [?x]"
    by (simp_all add: chain_rows_def snap tenant_rows_def ten)
  have ne: "enHash ?x \<noteq> []" using hex_canonical [of "[]"] by (auto simp: ComputeHash_def)
  have ok: "vrOK (as_VerifyChain (\<lambda>m. m) stamp_parse ?f st)"
    "vrSkipped (as_VerifyChain (\<lambda>m. m) stamp_parse ?f st) = 0" if "snapshotEntries st = [?x]" for st
    using ne ten by (simp_all add: as_VerifyChain_def that verify_loop.simps(2) in_span_def is_zero_def Let_def)
  from audit_tampering_shows [OF ok(1) [OF snap(1)] ok(1) [OF snap(2)] ok(2) [OF snap(1)] ok(2) [OF snap(2)]] rows
  show ?thesis by (simp add: hexish_def)
qed

text \<open>
  Success alone is not enough: a log whose oldest row was replaced by another event, with its hash erased,
  verifies beside the original, with as many rows and the same last hash, and under a hash without
  collisions. Only the count of skipped rows differs.
\<close>

definition forged_log :: AuditStore where
  "forged_log = (sample_log [(1, sample_event ''1''), (2, sample_event ''2'')])
     \<lparr>asBuf := (asBuf (sample_log [(1, sample_event ''1''), (2, sample_event ''2'')]))
        [0 := \<lparr>enID = 1, enEvent = sample_event ''9'', enPrevHash = [], enHash = []\<rparr>]\<rparr>"

theorem audit_erased_hash_verifies:
  "vrOK (as_VerifyChain (\<lambda>m. m) stamp_parse \<lparr>vfTenant = ''acme'', vfFrom = 0, vfTo = 0\<rparr> forged_log)
   \<and> length (chain_rows ''acme'' forged_log)
     = length (chain_rows ''acme'' (sample_log [(1, sample_event ''1''), (2, sample_event ''2'')]))
   \<and> enHash (last (chain_rows ''acme'' forged_log))
     = enHash (last (chain_rows ''acme'' (sample_log [(1, sample_event ''1''), (2, sample_event ''2'')])))
   \<and> map (evTimestamp \<circ> enEvent) (chain_rows ''acme'' forged_log)
     \<noteq> map (evTimestamp \<circ> enEvent) (chain_rows ''acme'' (sample_log [(1, sample_event ''1''), (2, sample_event ''2'')]))"
proof -
  let ?e = "\<lambda>ts. sample_event ts"
  let ?log = "sample_log [(1, ?e ''1''), (2, ?e ''2'')]"
  define h1 where "h1 = ComputeHash (\<lambda>m. m) [] (CanonicalForHash (?e ''1''))"
  define h2 where "h2 = ComputeHash (\<lambda>m. m) h1 (CanonicalForHash (?e ''2''))"
  have ten: "evTenant (?e ts) = ''acme''" "evTimestamp (?e ts) = ts" for ts
    by (simp_all add: sample_event_def NewEvent_def)
  have snap: "snapshotEntries ?log =
      [\<lparr>enID = 1, enEvent = ?e ''1'', enPrevHash = [], enHash = h1\<rparr>,
       \<lparr>enID = 2, enEvent = ?e ''2'', enPrevHash = h1, enHash = h2\<rparr>]"
    "snapshotEntries forged_log =
      [\<lparr>enID = 1, enEvent = ?e ''9'', enPrevHash = [], enHash = []\<rparr>,
       \<lparr>enID = 2, enEvent = ?e ''2'', enPrevHash = h1, enHash = h2\<rparr>]"
    unfolding h2_def h1_def
    by (simp_all add: forged_log_def sample_log_def as_run_def as_Insert_def as_NewMemoryStore_def snapshotEntries_def
        Let_def ten chain_tenant_def replicate_four)
  have ne: "h2 \<noteq> []" using hex_canonical [of h1 "?e ''2''"] by (auto simp: h2_def ComputeHash_def)
  have rows: "chain_rows ''acme'' forged_log = snapshotEntries forged_log" "chain_rows ''acme'' ?log = snapshotEntries ?log"
    by (simp_all add: chain_rows_def snap tenant_rows_def ten)
  have "vrOK (as_VerifyChain (\<lambda>m. m) stamp_parse \<lparr>vfTenant = ''acme'', vfFrom = 0, vfTo = 0\<rparr> forged_log)"
    using ne by (simp add: as_VerifyChain_def snap verify_loop.simps(2) in_span_def is_zero_def ten
        h2_def [symmetric] Let_def)
  then show ?thesis unfolding rows snap by (simp add: ten)
qed

text \<open>
  A window over events whose timestamps are not in insertion order can report a break in a log
  nobody touched: the row between two rows of the window falls outside it, and the link check fails.
\<close>

theorem audit_window_false_alarm:
  "\<exists>evs f. \<not> vrOK (as_VerifyChain (\<lambda>m. m) stamp_parse f (sample_log evs))"
proof (intro exI)
  let ?e = "\<lambda>ts. sample_event ts"
  let ?evs = "[(1, ?e ''1''), (2, ?e ''9''), (3, ?e ''2'')]"
  let ?f = "\<lparr>vfTenant = ''acme'', vfFrom = 0, vfTo = 53\<rparr>"
  define h1 where "h1 = ComputeHash (\<lambda>m. m) [] (CanonicalForHash (?e ''1''))"
  define h2 where "h2 = ComputeHash (\<lambda>m. m) h1 (CanonicalForHash (?e ''9''))"
  define h3 where "h3 = ComputeHash (\<lambda>m. m) h2 (CanonicalForHash (?e ''2''))"
  have ten: "evTenant (?e ts) = ''acme''" "evTimestamp (?e ts) = ts" for ts
    by (simp_all add: sample_event_def NewEvent_def)
  have snap: "snapshotEntries (sample_log ?evs) =
      [\<lparr>enID = 1, enEvent = ?e ''1'', enPrevHash = [], enHash = h1\<rparr>,
       \<lparr>enID = 2, enEvent = ?e ''9'', enPrevHash = h1, enHash = h2\<rparr>,
       \<lparr>enID = 3, enEvent = ?e ''2'', enPrevHash = h2, enHash = h3\<rparr>]"
    unfolding h3_def h2_def h1_def
    by (simp add: sample_log_def as_run_def as_Insert_def as_NewMemoryStore_def snapshotEntries_def Let_def ten
        chain_tenant_def replicate_four)
  have len: "length h1 < length h2" "h1 \<noteq> []" "h3 \<noteq> []"
    using hex_canonical [of h1 "?e ''9''"] hex_canonical [of "[]" "?e ''1''"] hex_canonical [of h2 "?e ''2''"]
    by (auto simp: h1_def h2_def h3_def ComputeHash_def)
  then have ne: "h2 \<noteq> h1" by auto
  show "\<not> vrOK (as_VerifyChain (\<lambda>m. m) stamp_parse ?f (sample_log ?evs))"
    using len ne
    by (simp add: as_VerifyChain_def snap verify_loop.simps(2) in_span_def is_zero_def ten stamp_parse_def
        h1_def [symmetric] Let_def)
qed

end
