(* ===== verification/Glob.thy ===== *)
theory Glob
  imports Encoding
begin

text \<open>
  Go's \<open>path.Match\<close>, the shell-style matcher the capability caveats use for tool patterns. The
  matcher works chunk by chunk: \<open>scan_chunk\<close> splits off a leading run of stars and the literal
  chunk up to the next star, \<open>match_chunk\<close> matches one chunk, \<open>star_search\<close> slides a chunk along
  the name without passing a slash. A malformed pattern (\<open>ErrBadPattern\<close>) is \<^const>\<open>None\<close>.
\<close>

fun scan_body :: "bool \<Rightarrow> string \<Rightarrow> string \<times> string" where
  "scan_body inrange [] = ([], [])"
| "scan_body inrange (c # cs) =
     (if c = CHR 0x5C then
        (case cs of
           [] \<Rightarrow> ([c], [])
         | d # ds \<Rightarrow> let (a, b) = scan_body inrange ds in (c # d # a, b))
      else if c = CHR ''*'' \<and> \<not> inrange then ([], c # cs)
      else let (a, b) = scan_body (c = CHR ''['' \<or> c \<noteq> CHR '']'' \<and> inrange) cs in (c # a, b))"

definition scan_chunk :: "string \<Rightarrow> bool \<times> string \<times> string" where
  "scan_chunk p =
     (let p' = dropWhile (\<lambda>c. c = CHR ''*'') p; (chunk, rest) = scan_body False p'
      in (p \<noteq> [] \<and> hd p = CHR ''*'', chunk, rest))"

definition get_esc :: "string \<Rightarrow> (nat \<times> string) option" where
  "get_esc chunk =
     (if chunk = [] \<or> hd chunk = CHR ''-'' \<or> hd chunk = CHR '']'' then None
      else let chunk = (if hd chunk = CHR 0x5C then tl chunk else chunk) in
        if chunk = [] then None
        else let (r, n) = decode_rune chunk; rest = drop n chunk in
          if r = rune_error \<and> n = 1 then None
          else if rest = [] then None
          else Some (r, rest))"

lemma get_esc_length: "get_esc chunk = Some (r, rest) \<Longrightarrow> length rest < length chunk"
  using decode_rune_width [of chunk] decode_rune_width [of "tl chunk"]
  by (cases chunk) (auto simp: get_esc_def Let_def split: if_splits prod.splits)

function class_loop :: "nat \<Rightarrow> string \<Rightarrow> bool \<Rightarrow> nat \<Rightarrow> (bool \<times> string) option" where
  "class_loop r chunk m nrange =
     (if chunk \<noteq> [] \<and> hd chunk = CHR '']'' \<and> 0 < nrange then Some (m, tl chunk)
      else case get_esc chunk of
        None \<Rightarrow> None
      | Some (lo, c1) \<Rightarrow>
          (if hd c1 = CHR ''-'' then
             (case get_esc (tl c1) of
                None \<Rightarrow> None
              | Some (hi, c2) \<Rightarrow> class_loop r c2 (m \<or> lo \<le> r \<and> r \<le> hi) (Suc nrange))
           else class_loop r c1 (m \<or> lo \<le> r \<and> r \<le> lo) (Suc nrange)))"
  by pat_completeness auto
termination
  by (relation "measure (\<lambda>(r, chunk, m, n). length chunk)")
     (auto dest!: get_esc_length)

declare class_loop.simps [simp del]

lemma class_loop_length: "class_loop r chunk m n = Some (b, rest) \<Longrightarrow> length rest < length chunk"
proof (induction "length chunk" arbitrary: chunk m n rule: less_induct)
  case less
  show ?case
  proof (cases "chunk \<noteq> [] \<and> hd chunk = CHR '']'' \<and> 0 < n")
    case True
    with less.prems show ?thesis by (subst (asm) class_loop.simps) auto
  next
    case False
    with less.prems obtain lo c1 where c1: "get_esc chunk = Some (lo, c1)"
      by (subst (asm) class_loop.simps) (auto split: option.splits if_splits)
    have "\<exists>c2 m' n'. length c2 \<le> length c1 \<and> class_loop r c2 m' n' = Some (b, rest)"
    proof (cases "hd c1 = CHR ''-''")
      case True
      with less.prems False c1 obtain hi c2 where "get_esc (tl c1) = Some (hi, c2)"
        "class_loop r c2 (m \<or> lo \<le> r \<and> r \<le> hi) (Suc n) = Some (b, rest)"
        by (subst (asm) class_loop.simps) (auto split: option.splits)
      moreover from this(1) have "length c2 \<le> length c1" by (auto dest!: get_esc_length)
      ultimately show ?thesis by blast
    next
      case no_range: False
      with less.prems False c1 have "class_loop r c1 (m \<or> lo \<le> r \<and> r \<le> lo) (Suc n) = Some (b, rest)"
        by (subst (asm) class_loop.simps) simp
      then show ?thesis by blast
    qed
    then obtain c2 m' n' where "length c2 \<le> length c1" "class_loop r c2 m' n' = Some (b, rest)" by blast
    with less.hyps [of c2 m' n'] get_esc_length [OF c1] show ?thesis by linarith
  qed
qed

datatype chunk_result = BadPattern | NoMatch | Rest string

function match_chunk :: "bool \<Rightarrow> string \<Rightarrow> string \<Rightarrow> chunk_result" where
  "match_chunk failed [] s = (if failed then NoMatch else Rest s)"
| "match_chunk failed (c # cs) s =
     (let failed = (failed \<or> s = []); (r, n) = (if failed then (0, 0) else decode_rune s) in
      if c = CHR ''['' then
        (let negated = (cs \<noteq> [] \<and> hd cs = CHR ''^'') in
         case class_loop r (if negated then tl cs else cs) False 0 of
           None \<Rightarrow> BadPattern
         | Some (m, rest) \<Rightarrow> match_chunk (failed \<or> m = negated) rest (drop n s))
      else if c = CHR ''?'' then
        match_chunk (failed \<or> hd s = CHR ''/'') cs (drop n s)
      else if c = CHR 0x5C then
        (case cs of
           [] \<Rightarrow> BadPattern
         | d # ds \<Rightarrow> match_chunk (failed \<or> d \<noteq> hd s) ds (if failed then s else tl s))
      else match_chunk (failed \<or> c \<noteq> hd s) cs (if failed then s else tl s))"
  by pat_completeness auto
termination
  by (relation "measure (\<lambda>(f, chunk, s). length chunk)")
     (auto dest!: class_loop_length split: if_splits)

datatype search_result = NotFound | Found string | SearchBad

fun star_search :: "string \<Rightarrow> bool \<Rightarrow> string \<Rightarrow> search_result" where
  "star_search chunk final [] = NotFound"
| "star_search chunk final (c # cs) =
     (if c = CHR ''/'' then NotFound
      else case match_chunk False chunk cs of
        Rest t \<Rightarrow> if final \<and> t \<noteq> [] then star_search chunk final cs else Found t
      | BadPattern \<Rightarrow> SearchBad
      | NoMatch \<Rightarrow> star_search chunk final cs)"

declare scan_body.simps(2) [simp del]

lemma scan_body_length: "scan_body i p = (a, b) \<Longrightarrow> length b \<le> length p"
proof (induction i p arbitrary: a b rule: scan_body.induct)
  case (2 i c cs)
  then show ?case
    by (subst (asm) scan_body.simps(2))
       (fastforce simp: Let_def split: if_splits prod.splits list.splits)
qed simp

lemma scan_body_rest:
  assumes "scan_body False (c # cs) = (a, b)" "c \<noteq> CHR ''*''"
  shows "length b < Suc (length cs)"
  using assms
  by (subst (asm) scan_body.simps(2))
     (fastforce simp: Let_def less_Suc_eq_le dest: scan_body_length split: if_splits prod.splits list.splits)

lemma scan_chunk_rest: "p \<noteq> [] \<Longrightarrow> scan_chunk p = (star, chunk, rest) \<Longrightarrow> length rest < length p"
proof -
  assume p: "p \<noteq> []" and sc: "scan_chunk p = (star, chunk, rest)"
  let ?q = "dropWhile (\<lambda>c. c = CHR ''*'') p"
  have le: "length ?q \<le> length p" by (simp add: length_dropWhile_le)
  show ?thesis
  proof (cases ?q)
    case Nil
    with p sc show ?thesis by (simp add: scan_chunk_def)
  next
    case (Cons c cs)
    then have "c \<noteq> CHR ''*''" by (simp add: dropWhile_eq_Cons_conv)
    with Cons sc le show ?thesis
      using scan_body_rest [of c cs chunk rest] by (auto simp: scan_chunk_def Let_def split: prod.splits)
  qed
qed

text \<open>Before reporting a mismatch, \<open>Match\<close> checks that the rest of the pattern is well formed.\<close>

function tail_check :: "string \<Rightarrow> bool option" where
  "tail_check p =
     (if p = [] then Some False
      else case scan_chunk p of
        (star, chunk, rest) \<Rightarrow>
          if match_chunk False chunk [] = BadPattern then None else tail_check rest)"
  by pat_completeness auto
termination
  by (relation "measure length") (auto dest: scan_chunk_rest [OF _ sym])

declare tail_check.simps [simp del]

function path_match :: "string \<Rightarrow> string \<Rightarrow> bool option" where
  "path_match p name =
     (if p = [] then Some (name = [])
      else case scan_chunk p of
        (star, chunk, rest) \<Rightarrow>
          if star \<and> chunk = [] then Some (CHR ''/'' \<notin> set name)
          else case match_chunk False chunk name of
            BadPattern \<Rightarrow> None
          | NoMatch \<Rightarrow>
              (if star then
                 (case star_search chunk (rest = []) name of
                    Found t \<Rightarrow> path_match rest t | SearchBad \<Rightarrow> None | NotFound \<Rightarrow> tail_check rest)
               else tail_check rest)
          | Rest t \<Rightarrow>
              (if t = [] \<or> rest \<noteq> [] then path_match rest t
               else if star then
                 (case star_search chunk (rest = []) name of
                    Found t \<Rightarrow> path_match rest t | SearchBad \<Rightarrow> None | NotFound \<Rightarrow> tail_check rest)
               else tail_check rest))"
  by pat_completeness auto
termination
  by (relation "measure (\<lambda>(p, name). length p)") (auto dest: scan_chunk_rest [OF _ sym])

declare path_match.simps [simp del]

subsection \<open>Literal patterns and literal prefixes\<close>

definition literal :: "string \<Rightarrow> bool" where
  "literal p \<longleftrightarrow> (\<forall>c \<in> set p. c \<noteq> CHR ''*'' \<and> c \<noteq> CHR ''?'' \<and> c \<noteq> CHR ''['' \<and> c \<noteq> CHR 0x5C)"

lemma match_chunk_plain:
  assumes "literal (c # cs)"
  shows "match_chunk failed (c # cs) s =
    match_chunk (failed \<or> s = [] \<or> c \<noteq> hd s) cs (if failed \<or> s = [] then s else tl s)"
  using assms by (auto simp: literal_def Let_def split: prod.splits)

lemma literal_Cons: "literal (c # p) \<Longrightarrow> literal p"
  by (simp add: literal_def)

lemma match_chunk_failed: "literal p \<Longrightarrow> match_chunk True p s = NoMatch"
proof (induction p arbitrary: s)
  case (Cons c p)
  then show ?case
    by (simp add: match_chunk_plain literal_Cons del: match_chunk.simps(2))
qed simp

lemma match_chunk_literal:
  "literal p \<Longrightarrow> match_chunk False p s = (if has_prefix s p then Rest (drop (length p) s) else NoMatch)"
proof (induction p arbitrary: s)
  case (Cons c p)
  have lit: "literal p" by (rule literal_Cons [OF Cons.prems])
  show ?case
  proof (cases s)
    case Nil
    with Cons.prems lit show ?thesis
      by (simp add: match_chunk_plain match_chunk_failed has_prefix_def del: match_chunk.simps(2))
  next
    case (Cons d t)
    with Cons.prems lit Cons.IH [OF lit] show ?thesis
      by (cases "c = d") (simp_all add: match_chunk_plain match_chunk_failed has_prefix_def del: match_chunk.simps(2))
  qed
qed (simp add: has_prefix_def)

lemma scan_body_literal: "literal p \<Longrightarrow> scan_body False (p @ CHR ''*'' # q) = (p, CHR ''*'' # q)"
  by (induction p) (auto simp: literal_def scan_body.simps(2))

lemma scan_chunk_literal:
  assumes "literal p" "p \<noteq> []"
  shows "scan_chunk (p @ CHR ''*'' # q) = (False, p, CHR ''*'' # q)"
  using assms scan_body_literal [OF assms(1), of q]
  by (cases p) (auto simp: scan_chunk_def literal_def)

lemma scan_chunk_star: "scan_chunk ''*'' = (True, [], [])"
  by (simp add: scan_chunk_def)

lemma path_match_star: "path_match ''*'' name = Some (CHR ''/'' \<notin> set name)"
  by (subst path_match.simps) (simp add: scan_chunk_star)

text \<open>A literal prefix followed by a star matches the names with that prefix and no later slash.\<close>

lemma path_match_prefix:
  assumes "literal p"
  shows "path_match (p @ ''*'') name = Some (\<exists>r. name = p @ r \<and> CHR ''/'' \<notin> set r)"
proof (cases "p = []")
  case True
  then show ?thesis by (simp add: path_match_star)
next
  case False
  have bad: "tail_check ''*'' = Some False"
    by (subst tail_check.simps, simp add: scan_chunk_star) (simp add: tail_check.simps)
  have sc: "scan_chunk (p @ ''*'') = (False, p, ''*'')"
    using scan_chunk_literal [OF assms False, of "[]"] by simp
  show ?thesis
  proof (cases "has_prefix name p")
    case True
    then obtain r where "name = p @ r" by (auto simp: has_prefix_iff)
    with assms show ?thesis
      by (subst path_match.simps) (simp add: sc match_chunk_literal path_match_star)
  next
    case noprefix: False
    then have "\<nexists>r. name = p @ r" by (auto simp: has_prefix_iff)
    with assms noprefix show ?thesis
      by (subst path_match.simps) (simp add: sc match_chunk_literal bad)
  qed
qed

end
