(* ===== verification/Capability.thy ===== *)
theory Capability
  imports Glob
begin

text \<open>
  Package \<open>internal/capability\<close>: Macaroon-style capability tokens. \<open>Token\<close> and \<open>Caveat\<close> are the
  records of \<open>token.go\<close>; \<open>canonicalPayload\<close> and \<open>canonicalBytes\<close> are the exact JSON texts the HMAC
  chain commits to; \<open>computeSignature\<close>, \<open>Sign\<close> and \<open>Verify\<close> are \<open>sign.go\<close>, \<open>cap_Check\<close>, \<open>evalCaveat\<close>
  and \<open>CanCall\<close> are \<open>check.go\<close>, \<open>Mint\<close> and \<open>Attenuate\<close> are \<open>mint.go\<close>, the header and key readers are
  \<open>codec.go\<close>. The keyed hash is the argument \<open>H\<close> of the signing operations; the gateway's is
  \<open>hmacOnce\<close>. \<open>crypto/rand\<close> is an argument too: \<^const>\<open>None\<close> when the source fails.
\<close>

named_theorems cap_defs \<open>unfoldings of the capability operations\<close>

subsection \<open>Tokens and caveats (token.go)\<close>

definition SchemaVersion :: int where "SchemaVersion = 4"
definition DefaultTenant :: string where "DefaultTenant = ''default''"
definition DefaultZone :: string where "DefaultZone = ''default''"

definition CaveatExpiry :: string where "CaveatExpiry = ''exp''"
definition CaveatToolWhitelist :: string where "CaveatToolWhitelist = ''tool_allow''"
definition CaveatToolBlacklist :: string where "CaveatToolBlacklist = ''tool_deny''"
definition CaveatAgentLock :: string where "CaveatAgentLock = ''agent_lock''"
definition CaveatMaxCalls :: string where "CaveatMaxCalls = ''max_calls''"
definition CaveatStepUp :: string where "CaveatStepUp = ''step_up''"
definition CaveatCalleeAllow :: string where "CaveatCalleeAllow = ''callee_allow''"
definition CaveatMcpAllow :: string where "CaveatMcpAllow = ''mcp_allow''"
definition CaveatRateLimit :: string where "CaveatRateLimit = ''rate_limit''"
definition CaveatMaxCost :: string where "CaveatMaxCost = ''max_cost''"
definition CaveatRiskMax :: string where "CaveatRiskMax = ''risk_max''"

lemmas caveat_types = CaveatExpiry_def CaveatToolWhitelist_def CaveatToolBlacklist_def
  CaveatAgentLock_def CaveatMaxCalls_def CaveatStepUp_def CaveatCalleeAllow_def CaveatMcpAllow_def
  CaveatRateLimit_def CaveatMaxCost_def CaveatRiskMax_def

record Caveat =
  cvType :: string
  cvTools :: "string list"
  cvAgent :: string
  cvExpiry :: int
  cvMaxCalls :: int
  cvStepUpAt :: int
  cvCallees :: "string list"
  cvCalleeZones :: "string list"
  cvServers :: "string list"
  cvRatePerMin :: int
  cvMaxCents :: int
  cvRiskMax :: int

definition zero_caveat :: Caveat where
  "zero_caveat = \<lparr>cvType = [], cvTools = [], cvAgent = [], cvExpiry = 0, cvMaxCalls = 0, cvStepUpAt = 0,
     cvCallees = [], cvCalleeZones = [], cvServers = [], cvRatePerMin = 0, cvMaxCents = 0, cvRiskMax = 0\<rparr>"

record Token =
  tkVersion :: int
  tkID :: string
  tkRootID :: string
  tkIssuer :: string
  tkTenant :: string
  tkZone :: string
  tkSubject :: string
  tkIssuedAt :: int
  tkNotBefore :: int
  tkCaveats :: "Caveat list"
  tkSignature :: string

definition payload_members :: "Token \<Rightarrow> (string \<times> jval) list" where
  "payload_members t =
     [(''v'', JI (tkVersion t)), (''jti'', JS (tkID t)), (''root_jti'', JS (tkRootID t)),
      (''iss'', JS (tkIssuer t)), (''tenant'', JS (tkTenant t)), (''zone'', JS (tkZone t)),
      (''sub'', JS (tkSubject t)), (''iat'', JI (tkIssuedAt t))] @ opt_int ''nbf'' (tkNotBefore t)"

definition canonicalPayload :: "Token \<Rightarrow> bytes" where
  "canonicalPayload t = enc_object (payload_members t)"

definition caveat_members :: "Caveat \<Rightarrow> (string \<times> jval) list" where
  "caveat_members c =
     [(''t'', JS (cvType c))] @ opt_list ''tools'' (cvTools c) @ opt_str ''agent'' (cvAgent c)
     @ opt_int ''exp'' (cvExpiry c) @ opt_int ''max_calls'' (cvMaxCalls c)
     @ opt_int ''step_up_at'' (cvStepUpAt c) @ opt_list ''callees'' (cvCallees c)
     @ opt_list ''callee_zones'' (cvCalleeZones c) @ opt_list ''servers'' (cvServers c)
     @ opt_int ''rate_per_min'' (cvRatePerMin c) @ opt_int ''max_cents'' (cvMaxCents c)
     @ opt_int ''risk_max'' (cvRiskMax c)"

definition canonicalBytes :: "Caveat \<Rightarrow> bytes" where
  "canonicalBytes c = enc_object (caveat_members c)"

datatype cap_error =
    ErrSchemaVersion | ErrNoTokenID | ErrNoSubject | ErrNoIssuedAt | ErrNoRootID | ErrNoTenant | ErrNoZone
  | ErrEmptyMasterKey | ErrSignatureEncoding | ErrSignatureMismatch
  | ErrParentNil | ErrParentSignatureEncoding | ErrRand
  | ErrBearerScheme | ErrTokenBase64 | ErrTokenJSON
  | ErrKeyEmpty | ErrKeyShort | ErrKeyBase64
  | ErrNotYetValid | ErrCaveat nat string caveat_error
and caveat_error =
    MissingExpiry | Expired | MissingAgent | WrongAgent string string | ToolNotAllowed string
  | ToolForbidden string | NegativeStepUp | ServerNotAllowed string | NegativeRate | NegativeCost
  | NegativeRisk | RiskExceeded int int | UnknownCaveat string

definition Validate :: "Token \<Rightarrow> cap_error option" where
  "Validate t =
     (if tkVersion t \<noteq> SchemaVersion then Some ErrSchemaVersion
      else if tkID t = [] then Some ErrNoTokenID
      else if tkSubject t = [] then Some ErrNoSubject
      else if tkIssuedAt t = 0 then Some ErrNoIssuedAt
      else if tkRootID t = [] then Some ErrNoRootID
      else if tkTenant t = [] then Some ErrNoTenant
      else if tkZone t = [] then Some ErrNoZone
      else None)"

definition IsRoot :: "Token \<Rightarrow> bool" where
  "IsRoot t \<longleftrightarrow> tkRootID t \<noteq> [] \<and> tkRootID t = tkID t"

definition CaveatCount :: "Token \<Rightarrow> nat" where
  "CaveatCount t = length (tkCaveats t)"

subsection \<open>The HMAC chain (sign.go)\<close>

definition SignatureSize :: nat where "SignatureSize = 32"

definition hmacOnce :: "bytes \<Rightarrow> bytes \<Rightarrow> bytes" where
  "hmacOnce key data = hmac_sha256 key data"

fun chain_caveats :: "(bytes \<Rightarrow> bytes \<Rightarrow> bytes) \<Rightarrow> bytes \<Rightarrow> Caveat list \<Rightarrow> bytes" where
  "chain_caveats H prev [] = prev"
| "chain_caveats H prev (c # cs) = chain_caveats H (H prev (canonicalBytes c)) cs"

definition computeSignature :: "(bytes \<Rightarrow> bytes \<Rightarrow> bytes) \<Rightarrow> Token \<Rightarrow> bytes \<Rightarrow> cap_error + bytes" where
  "computeSignature H t masterKey =
     (if masterKey = [] then Inl ErrEmptyMasterKey
      else Inr (chain_caveats H (H masterKey (canonicalPayload t)) (tkCaveats t)))"

definition Sign :: "(bytes \<Rightarrow> bytes \<Rightarrow> bytes) \<Rightarrow> Token \<Rightarrow> bytes \<Rightarrow> cap_error + Token" where
  "Sign H t masterKey =
     (case computeSignature H t masterKey of
        Inl e \<Rightarrow> Inl e
      | Inr sig \<Rightarrow> Inr (t\<lparr>tkSignature := rawurl_encode sig\<rparr>))"

definition Verify :: "(bytes \<Rightarrow> bytes \<Rightarrow> bytes) \<Rightarrow> Token \<Rightarrow> bytes \<Rightarrow> cap_error option" where
  "Verify H t masterKey =
     (case Validate t of
        Some e \<Rightarrow> Some e
      | None \<Rightarrow>
          (case computeSignature H t masterKey of
             Inl e \<Rightarrow> Some e
           | Inr expected \<Rightarrow>
               (case rawurl_decode (tkSignature t) of
                  None \<Rightarrow> Some ErrSignatureEncoding
                | Some provided \<Rightarrow> if provided \<noteq> expected then Some ErrSignatureMismatch else None)))"

subsection \<open>Caveat evaluation (check.go)\<close>

record RequestContext =
  rcAgentID :: string
  rcTool :: string
  rcNow :: gotime
  rcEastWest :: bool
  rcRisk :: int

fun contains :: "string list \<Rightarrow> string \<Rightarrow> bool" where
  "contains [] needle = False"
| "contains (s # ss) needle = (s = needle \<or> contains ss needle)"

definition contains_any :: "string \<Rightarrow> string \<Rightarrow> bool" where
  "contains_any s chars \<longleftrightarrow> list_ex (\<lambda>c. c \<in> set chars) s"

fun matchAnyTool :: "string list \<Rightarrow> string \<Rightarrow> bool" where
  "matchAnyTool [] tool = False"
| "matchAnyTool (p # ps) tool =
     (if p = tool then True
      else if contains_any p ''*?['' \<and> path_match p tool = Some True then True
      else matchAnyTool ps tool)"

fun matchAnyServer :: "string list \<Rightarrow> string \<Rightarrow> bool" where
  "matchAnyServer [] tool = False"
| "matchAnyServer (s # ss) tool =
     (if s = [] then matchAnyServer ss tool
      else if tool = s \<or> has_prefix tool (s @ ''.'') \<or> has_prefix tool (s @ '':'') \<or> has_prefix tool (s @ ''/'')
        then True
      else matchAnyServer ss tool)"

definition evalCaveat :: "Caveat \<Rightarrow> RequestContext \<Rightarrow> gotime \<Rightarrow> caveat_error option" where
  "evalCaveat c ctx now =
     (if cvType c = CaveatExpiry then
        (if cvExpiry c = 0 then Some MissingExpiry
         else if cvExpiry c \<le> unix now then Some Expired else None)
      else if cvType c = CaveatAgentLock then
        (if cvAgent c = [] then Some MissingAgent
         else if cvAgent c \<noteq> rcAgentID ctx then Some (WrongAgent (cvAgent c) (rcAgentID ctx)) else None)
      else if cvType c = CaveatToolWhitelist then
        (if rcEastWest ctx then None
         else if \<not> matchAnyTool (cvTools c) (rcTool ctx) then Some (ToolNotAllowed (rcTool ctx)) else None)
      else if cvType c = CaveatToolBlacklist then
        (if rcEastWest ctx then None
         else if matchAnyTool (cvTools c) (rcTool ctx) then Some (ToolForbidden (rcTool ctx)) else None)
      else if cvType c = CaveatMaxCalls then None
      else if cvType c = CaveatStepUp then
        (if cvStepUpAt c < 0 then Some NegativeStepUp else None)
      else if cvType c = CaveatMcpAllow then
        (if rcEastWest ctx then None
         else if \<not> matchAnyServer (cvServers c) (rcTool ctx) then Some (ServerNotAllowed (rcTool ctx)) else None)
      else if cvType c = CaveatRateLimit then
        (if cvRatePerMin c < 0 then Some NegativeRate else None)
      else if cvType c = CaveatMaxCost then
        (if cvMaxCents c < 0 then Some NegativeCost else None)
      else if cvType c = CaveatRiskMax then
        (if cvRiskMax c < 0 then Some NegativeRisk
         else if 0 < cvRiskMax c \<and> cvRiskMax c < rcRisk ctx then Some (RiskExceeded (rcRisk ctx) (cvRiskMax c))
         else None)
      else if cvType c = CaveatCalleeAllow then None
      else Some (UnknownCaveat (cvType c)))"

fun check_caveats :: "nat \<Rightarrow> Caveat list \<Rightarrow> RequestContext \<Rightarrow> gotime \<Rightarrow> cap_error option" where
  "check_caveats i [] ctx now = None"
| "check_caveats i (c # cs) ctx now =
     (case evalCaveat c ctx now of
        Some e \<Rightarrow> Some (ErrCaveat i (cvType c) e)
      | None \<Rightarrow> check_caveats (Suc i) cs ctx now)"

text \<open>\<open>Token.Check\<close>; \<open>clock\<close> is what \<open>time.Now\<close> returns when the context carries no instant.\<close>

definition cap_Check :: "Token \<Rightarrow> RequestContext \<Rightarrow> gotime \<Rightarrow> cap_error option" where
  "cap_Check t ctx clock =
     (let now = (if is_zero (rcNow ctx) then clock else rcNow ctx) in
      if tkNotBefore t \<noteq> 0 \<and> unix now < tkNotBefore t then Some ErrNotYetValid
      else check_caveats 0 (tkCaveats t) ctx now)"

fun CanCall_loop :: "Caveat list \<Rightarrow> string \<Rightarrow> string \<Rightarrow> bool" where
  "CanCall_loop [] agent zone = True"
| "CanCall_loop (c # cs) agent zone =
     (if cvType c \<noteq> CaveatCalleeAllow then CanCall_loop cs agent zone
      else if contains (cvCallees c) agent \<or> contains (cvCalleeZones c) zone then CanCall_loop cs agent zone
      else False)"

definition CanCall :: "Token \<Rightarrow> string \<Rightarrow> string \<Rightarrow> bool" where
  "CanCall t calleeAgent calleeZone = CanCall_loop (tkCaveats t) calleeAgent calleeZone"

subsection \<open>Minting and attenuation (mint.go)\<close>

record MintOptions =
  moIssuer :: string
  moTenant :: string
  moZone :: string
  moSubject :: string
  moNotBefore :: gotime
  moExpiry :: gotime
  moCaveats :: "Caveat list"

text \<open>Four bytes of Unix seconds (a \<open>uint32\<close> conversion), then the twelve random bytes.\<close>

definition newTokenID :: "bytes option \<Rightarrow> gotime \<Rightarrow> cap_error + string" where
  "newTokenID rnd now =
     (case rnd of
        None \<Rightarrow> Inl ErrRand
      | Some r \<Rightarrow> Inr (rawurl_encode (be_bytes 4 (nat (unix now mod 2 ^ 32)) @ take 12 r)))"

definition mint_caveats :: "MintOptions \<Rightarrow> Caveat list" where
  "mint_caveats opts =
     [zero_caveat\<lparr>cvType := CaveatAgentLock, cvAgent := moSubject opts\<rparr>]
     @ (if is_zero (moExpiry opts) then []
        else [zero_caveat\<lparr>cvType := CaveatExpiry, cvExpiry := unix (moExpiry opts)\<rparr>])
     @ moCaveats opts"

definition mint_token :: "MintOptions \<Rightarrow> string \<Rightarrow> gotime \<Rightarrow> Token" where
  "mint_token opts jti now =
     \<lparr>tkVersion = SchemaVersion, tkID = jti, tkRootID = jti,
      tkIssuer = (if moIssuer opts = [] then ''intentgate'' else moIssuer opts),
      tkTenant = (if moTenant opts = [] then DefaultTenant else moTenant opts),
      tkZone = (if moZone opts = [] then DefaultZone else moZone opts),
      tkSubject = moSubject opts, tkIssuedAt = unix now,
      tkNotBefore = (if is_zero (moNotBefore opts) then 0 else unix (moNotBefore opts)),
      tkCaveats = mint_caveats opts, tkSignature = []\<rparr>"

definition Mint :: "(bytes \<Rightarrow> bytes \<Rightarrow> bytes) \<Rightarrow> bytes \<Rightarrow> MintOptions \<Rightarrow> bytes option \<Rightarrow> gotime \<Rightarrow> gotime
    \<Rightarrow> cap_error + Token" where
  "Mint H masterKey opts rnd idclock now =
     (if moSubject opts = [] then Inl ErrNoSubject
      else if masterKey = [] then Inl ErrEmptyMasterKey
      else case newTokenID rnd idclock of
        Inl e \<Rightarrow> Inl e
      | Inr jti \<Rightarrow> Sign H (mint_token opts jti now) masterKey)"

definition Attenuate :: "(bytes \<Rightarrow> bytes \<Rightarrow> bytes) \<Rightarrow> Token option \<Rightarrow> Caveat \<Rightarrow> cap_error + Token" where
  "Attenuate H parent c =
     (case parent of
        None \<Rightarrow> Inl ErrParentNil
      | Some t \<Rightarrow>
          (if tkRootID t = [] then Inl ErrNoRootID
           else if tkTenant t = [] then Inl ErrNoTenant
           else if tkZone t = [] then Inl ErrNoZone
           else case rawurl_decode (tkSignature t) of
             None \<Rightarrow> Inl ErrParentSignatureEncoding
           | Some sig \<Rightarrow>
               Inr (t\<lparr>tkCaveats := tkCaveats t @ [c],
                      tkSignature := rawurl_encode (H sig (canonicalBytes c))\<rparr>)))"

text \<open>\<open>NewMasterKey\<close> reads 32 random bytes.\<close>

definition NewMasterKey :: "bytes option \<Rightarrow> cap_error + bytes" where
  "NewMasterKey rnd = (case rnd of None \<Rightarrow> Inl ErrRand | Some r \<Rightarrow> Inr (take 32 r))"

subsection \<open>Headers and keys (codec.go)\<close>

text \<open>
  \<open>Encode\<close> and \<open>Decode\<close> are base64url around the JSON text of the whole token; the JSON reader and
  writer of \<open>encoding/json\<close> for the struct are arguments.
\<close>

definition Encode :: "(Token \<Rightarrow> bytes) \<Rightarrow> Token \<Rightarrow> string" where
  "Encode marshal t = rawurl_encode (marshal t)"

definition Decode :: "(bytes \<Rightarrow> Token option) \<Rightarrow> string \<Rightarrow> cap_error + Token" where
  "Decode unmarshal s =
     (case rawurl_decode s of
        None \<Rightarrow> Inl ErrTokenBase64
      | Some raw \<Rightarrow> (case unmarshal raw of None \<Rightarrow> Inl ErrTokenJSON | Some t \<Rightarrow> Inr t))"

definition FromAuthorizationHeader :: "string \<Rightarrow> cap_error + string" where
  "FromAuthorizationHeader header =
     (if header = [] then Inr []
      else if \<not> has_prefix header ''Bearer '' then Inl ErrBearerScheme
      else Inr (trim_space (drop (length ''Bearer '') header)))"

text \<open>The first of the four decoders that accepts the text decides.\<close>

fun first_decoding :: "(string \<Rightarrow> bytes option) list \<Rightarrow> string \<Rightarrow> cap_error + bytes" where
  "first_decoding [] s = Inl ErrKeyBase64"
| "first_decoding (d # ds) s =
     (case d s of
        Some raw \<Rightarrow> if length raw < 16 then Inl ErrKeyShort else Inr raw
      | None \<Rightarrow> first_decoding ds s)"

definition MasterKeyFromBase64 :: "string \<Rightarrow> cap_error + bytes" where
  "MasterKeyFromBase64 s =
     (if s = [] then Inl ErrKeyEmpty
      else first_decoding [raw_decode url_alphabet, padded_decode url_alphabet,
             padded_decode std_alphabet, raw_decode std_alphabet] s)"

declare Validate_def [cap_defs] computeSignature_def [cap_defs] Sign_def [cap_defs]
  Verify_def [cap_defs] Attenuate_def [cap_defs] Mint_def [cap_defs] newTokenID_def [cap_defs]

subsection \<open>Signing\<close>

lemma chain_caveats_append:
  "chain_caveats H prev (cs @ [c]) = H (chain_caveats H prev cs) (canonicalBytes c)"
  by (induction cs arbitrary: prev) simp_all

text \<open>What a successful verification says about the token, in one equation.\<close>

lemma Verify_None_iff:
  "Verify H t key = None \<longleftrightarrow> Validate t = None \<and> key \<noteq> [] \<and>
     rawurl_decode (tkSignature t) = Some (chain_caveats H (H key (canonicalPayload t)) (tkCaveats t))"
  by (auto simp: Verify_def computeSignature_def split: option.splits)

lemma canonicalPayload_update [simp]:
  "canonicalPayload (t\<lparr>tkSignature := s\<rparr>) = canonicalPayload t"
  "canonicalPayload (t\<lparr>tkCaveats := cs\<rparr>) = canonicalPayload t"
  by (simp_all add: canonicalPayload_def payload_members_def)

lemma Validate_update [simp]:
  "Validate (t\<lparr>tkSignature := s\<rparr>) = Validate t" "Validate (t\<lparr>tkCaveats := cs\<rparr>) = Validate t"
  by (simp_all add: Validate_def)

lemma Sign_Verify: "Sign H t key = Inr t' \<Longrightarrow> Validate t = None \<Longrightarrow> Verify H t' key = None"
  by (auto simp: Sign_def Verify_None_iff computeSignature_def split: if_splits sum.splits)

lemma Mint_Inr:
  assumes "Mint H key opts rnd idclock now = Inr t"
  obtains jti where "newTokenID rnd idclock = Inr jti" "jti \<noteq> []" "moSubject opts \<noteq> []"
    "Sign H (mint_token opts jti now) key = Inr t"
proof -
  from assms obtain jti where jti: "newTokenID rnd idclock = Inr jti" "moSubject opts \<noteq> []"
    "Sign H (mint_token opts jti now) key = Inr t"
    by (auto simp: Mint_def split: if_splits sum.splits)
  moreover from jti(1) have "jti \<noteq> []"
    by (auto simp: newTokenID_def split: option.splits)
       (metis length_be_bytes list.size(3) zero_neq_numeral)
  ultimately show thesis using that by blast
qed

text \<open>
  A token that \<open>Mint\<close> returns verifies under the master key it was minted with, for every set
  of options, provided the clock does not read the Unix epoch itself.
\<close>

theorem mint_verifies:
  assumes "Mint H key opts rnd idclock now = Inr t" and "unix now \<noteq> 0"
  shows "Verify H t key = None"
  using assms(1)
proof (rule Mint_Inr)
  fix jti
  assume "jti \<noteq> []" "moSubject opts \<noteq> []" and s: "Sign H (mint_token opts jti now) key = Inr t"
  with assms(2) have "Validate (mint_token opts jti now) = None"
    by (simp add: Validate_def mint_token_def DefaultTenant_def DefaultZone_def)
  with s show ?thesis by (rule Sign_Verify)
qed

text \<open>A concrete set of options, used to show that hypotheses can be met.\<close>

definition sample_options :: MintOptions where
  "sample_options = \<lparr>moIssuer = [], moTenant = ''acme'', moZone = ''finance'', moSubject = ''ap-agent'',
     moNotBefore = 0, moExpiry = 62135596900 * second,
     moCaveats = [zero_caveat\<lparr>cvType := CaveatToolWhitelist, cvTools := [''read_*'']\<rparr>]\<rparr>"

definition sample_clock :: gotime where
  "sample_clock = 62135596850 * second"

lemma unix_sample_clock [simp]: "unix sample_clock = 50"
  by (simp add: sample_clock_def unix_def)

lemma sample_mint: "\<exists>t. Mint H ''master-key'' sample_options (Some ''abcdefghijkl'') sample_clock sample_clock = Inr t"
  by (simp add: Mint_def newTokenID_def Sign_def computeSignature_def sample_options_def)

theorem mint_verifies_witness:
  "\<exists>t. Mint hmacOnce ''master-key'' sample_options (Some ''abcdefghijkl'') sample_clock sample_clock = Inr t
     \<and> Verify hmacOnce t ''master-key'' = None"
proof -
  obtain t where t: "Mint hmacOnce ''master-key'' sample_options (Some ''abcdefghijkl'') sample_clock
      sample_clock = Inr t" using sample_mint by blast
  have "unix sample_clock \<noteq> 0" by simp
  with t have "Verify hmacOnce t ''master-key'' = None" by (rule mint_verifies)
  with t show ?thesis by blast
qed

subsection \<open>Delegation\<close>

text \<open>
  The tokens a holder can derive from a token it has: any number of \<open>Attenuate\<close> steps, none of
  which uses the master key.
\<close>

inductive derived :: "(bytes \<Rightarrow> bytes \<Rightarrow> bytes) \<Rightarrow> Token \<Rightarrow> Token \<Rightarrow> bool" for H where
  same: "derived H t t"
| step: "derived H t u \<Longrightarrow> Attenuate H (Some u) c = Inr v \<Longrightarrow> derived H t v"

lemma Attenuate_Inr:
  assumes "Attenuate H (Some t) c = Inr u"
  obtains sig where "rawurl_decode (tkSignature t) = Some sig"
    "u = t\<lparr>tkCaveats := tkCaveats t @ [c], tkSignature := rawurl_encode (H sig (canonicalBytes c))\<rparr>"
  using assms by (auto simp: Attenuate_def split: if_splits option.splits)

lemma Attenuate_Verify:
  assumes "Attenuate H (Some t) c = Inr u" "Verify H t key = None"
  shows "Verify H u key = None"
  using assms by (auto elim!: Attenuate_Inr simp: Verify_None_iff chain_caveats_append)

lemma derived_caveats: "derived H t u \<Longrightarrow> \<exists>cs. tkCaveats u = tkCaveats t @ cs"
  by (induction rule: derived.induct) (auto elim!: Attenuate_Inr)

lemma derived_claims:
  "derived H t u \<Longrightarrow> u\<lparr>tkCaveats := tkCaveats t, tkSignature := tkSignature t\<rparr> = t"
  by (induction rule: derived.induct) (auto elim!: Attenuate_Inr)

lemma derived_fields:
  assumes "derived H t u"
  shows "tkID u = tkID t" "tkRootID u = tkRootID t" "tkSubject u = tkSubject t" "tkTenant u = tkTenant t"
    "tkZone u = tkZone t" "tkNotBefore u = tkNotBefore t"
  using derived_claims [OF assms]
  by (metis Token.select_convs Token.surjective Token.update_convs(10,11))+

text \<open>
  Attenuation needs no master key and still yields a token the gateway accepts: everything
  derived from a verifying token verifies.
\<close>

theorem derived_verifies:
  assumes "derived H t u" and "Verify H t key = None"
  shows "Verify H u key = None"
  using assms by (induction rule: derived.induct) (blast intro: Attenuate_Verify)+

lemma sample_attenuate:
  assumes "Mint H ''master-key'' sample_options (Some ''abcdefghijkl'') sample_clock sample_clock = Inr t"
  shows "\<exists>u. Attenuate H (Some t) c = Inr u"
  using assms
  by (auto elim!: Mint_Inr simp: Sign_def computeSignature_def Attenuate_def mint_token_def sample_options_def)

theorem derived_verifies_witness:
  "\<exists>t u. derived hmacOnce t u \<and> t \<noteq> u \<and> Verify hmacOnce t ''master-key'' = None
     \<and> Verify hmacOnce u ''master-key'' = None"
proof -
  obtain t where t: "Mint hmacOnce ''master-key'' sample_options (Some ''abcdefghijkl'') sample_clock
      sample_clock = Inr t" using sample_mint by blast
  have v: "Verify hmacOnce t ''master-key'' = None"
    using t by (rule Mint_Inr) (rule Sign_Verify, assumption,
      simp add: Validate_def mint_token_def sample_options_def)
  obtain u where u: "Attenuate hmacOnce (Some t) zero_caveat = Inr u"
    using sample_attenuate [OF t] by blast
  have d: "derived hmacOnce t u" using derived.step [OF derived.same u] .
  have "length (tkCaveats u) = Suc (length (tkCaveats t))" using u by (auto elim!: Attenuate_Inr)
  then have "t \<noteq> u" by auto
  with d v derived_verifies [OF d v] show ?thesis by blast
qed

end
