(* ===== verification/Delegation.thy ===== *)
theory Delegation
  imports Capability
begin

text \<open>
  What holders of capability tokens can and cannot do: attenuation only ever narrows what a token
  permits, a minted token stays bound to its subject and expiry, and the HMAC chain binds every
  claim and every caveat. The definitions are those of \<open>Capability\<close>.
\<close>

subsection \<open>Acceptance as a conjunction of caveats\<close>

lemma check_caveats_None: "check_caveats i cs ctx now = None \<longleftrightarrow> (\<forall>c \<in> set cs. evalCaveat c ctx now = None)"
  by (induction cs arbitrary: i) (auto split: option.splits)

lemma check_caveats_Some:
  "check_caveats i cs ctx now = Some err \<longleftrightarrow>
     (\<exists>k < length cs. \<exists>e. evalCaveat (cs ! k) ctx now = Some e \<and> err = ErrCaveat (i + k) (cvType (cs ! k)) e
        \<and> (\<forall>j < k. evalCaveat (cs ! j) ctx now = None))"
proof (induction cs arbitrary: i)
  case (Cons c cs)
  then show ?case
    by (cases "evalCaveat c ctx now") (auto simp: Ex_less_Suc2 All_less_Suc2)
qed simp

definition effective_now :: "RequestContext \<Rightarrow> gotime \<Rightarrow> gotime" where
  "effective_now ctx clock = (if is_zero (rcNow ctx) then clock else rcNow ctx)"

lemma cap_Check_None:
  "cap_Check t ctx clock = None \<longleftrightarrow>
     (tkNotBefore t = 0 \<or> tkNotBefore t \<le> unix (effective_now ctx clock)) \<and>
     (\<forall>c \<in> set (tkCaveats t). evalCaveat c ctx (effective_now ctx clock) = None)"
  by (auto simp: cap_Check_def effective_now_def Let_def check_caveats_None)

text \<open>
  C6. \<open>Check\<close> is the conjunction of the validity window and of every caveat, and a refusal names the
  first caveat that fails, with the reason that caveat gives.
\<close>

theorem cap_Check_spec:
  "case cap_Check t ctx clock of
      None \<Rightarrow> (tkNotBefore t = 0 \<or> tkNotBefore t \<le> unix (effective_now ctx clock)) \<and>
              list_all (\<lambda>c. evalCaveat c ctx (effective_now ctx clock) = None) (tkCaveats t)
    | Some ErrNotYetValid \<Rightarrow> tkNotBefore t \<noteq> 0 \<and> unix (effective_now ctx clock) < tkNotBefore t
    | Some (ErrCaveat k ty e) \<Rightarrow>
        k < length (tkCaveats t) \<and> cvType (tkCaveats t ! k) = ty \<and>
        evalCaveat (tkCaveats t ! k) ctx (effective_now ctx clock) = Some e \<and>
        list_all (\<lambda>c. evalCaveat c ctx (effective_now ctx clock) = None) (take k (tkCaveats t))
    | Some _ \<Rightarrow> False"
proof (cases "cap_Check t ctx clock")
  case None
  from None [unfolded cap_Check_None] show ?thesis by (simp add: None list_all_iff)
next
  case (Some err)
  show ?thesis
  proof (cases "tkNotBefore t \<noteq> 0 \<and> unix (effective_now ctx clock) < tkNotBefore t")
    case True
    then have "cap_Check t ctx clock = Some ErrNotYetValid"
      by (simp add: cap_Check_def effective_now_def Let_def)
    with True show ?thesis by simp
  next
    case False
    with Some have "check_caveats 0 (tkCaveats t) ctx (effective_now ctx clock) = Some err"
      by (auto simp: cap_Check_def effective_now_def Let_def split: if_splits)
    with Some show ?thesis by (auto simp: check_caveats_Some list_all_length)
  qed
qed

subsection \<open>Attenuation narrows\<close>

lemma CanCall_loop_iff:
  "CanCall_loop cs agent zone \<longleftrightarrow>
     (\<forall>c \<in> set cs. cvType c = CaveatCalleeAllow \<longrightarrow>
        contains (cvCallees c) agent \<or> contains (cvCalleeZones c) zone)"
  by (induction cs) auto

lemma contains_iff [simp]: "contains xs x \<longleftrightarrow> x \<in> set xs"
  by (induction xs) auto

lemma derived_caveat_set: "derived H t u \<Longrightarrow> set (tkCaveats t) \<subseteq> set (tkCaveats u)"
  using derived_caveats by fastforce

lemma derived_check:
  "derived H t u \<Longrightarrow> cap_Check u ctx clock = None \<Longrightarrow> cap_Check t ctx clock = None"
  using derived_caveat_set [of H t u] derived_fields(6) [of H t u] by (auto simp: cap_Check_None)

text \<open>
  C4. Delegation never widens a token: whatever a token derived by attenuation permits, as a tool
  call or as a call to another agent, the token it was derived from permits too; and the derived
  token acts for the same subject, tenant, zone and revocation identifier.
\<close>

theorem derived_narrows:
  assumes "derived H t u"
  shows "(cap_Check u ctx clock = None \<longrightarrow> cap_Check t ctx clock = None)
    \<and> (CanCall u agent zone \<longrightarrow> CanCall t agent zone)
    \<and> tkSubject u = tkSubject t \<and> tkTenant u = tkTenant t \<and> tkZone u = tkZone t \<and> tkID u = tkID t"
  using assms derived_check [of H t u ctx clock] derived_caveat_set [of H t u] derived_fields [of H t u]
  by (auto simp: CanCall_def CanCall_loop_iff)

text \<open>A token for one agent, restricted further by its holder, and a call it permits.\<close>

definition sample_token :: Token where
  "sample_token = mint_token sample_options ''token-1'' sample_clock"

definition sample_child :: Token where
  "sample_child = sample_token\<lparr>
     tkCaveats := tkCaveats sample_token @ [zero_caveat\<lparr>cvType := CaveatToolBlacklist, cvTools := [''read_salary'']\<rparr>],
     tkSignature := rawurl_encode ''sig''\<rparr>"

definition sample_call :: RequestContext where
  "sample_call = \<lparr>rcAgentID = ''ap-agent'', rcTool = ''read_invoice'', rcNow = sample_clock,
     rcEastWest = False, rcRisk = 0\<rparr>"

lemmas sample_defs = sample_token_def sample_child_def sample_call_def sample_options_def
  mint_token_def mint_caveats_def

lemma sample_derived: "derived (\<lambda>k m. ''sig'') sample_token sample_child"
proof (rule derived.step [OF derived.same])
  show "Attenuate (\<lambda>k m. ''sig'') (Some sample_token)
     (zero_caveat\<lparr>cvType := CaveatToolBlacklist, cvTools := [''read_salary'']\<rparr>) = Inr sample_child"
    by code_simp
qed

lemma sample_child_permits: "cap_Check sample_child sample_call sample_clock = None"
  by code_simp

theorem derived_narrows_witness:
  "derived (\<lambda>k m. ''sig'') sample_token sample_child
   \<and> cap_Check sample_child sample_call sample_clock = None
   \<and> cap_Check sample_token sample_call sample_clock = None"
  using derived_narrows [OF sample_derived, of sample_call sample_clock] sample_derived sample_child_permits
  by blast

subsection \<open>What minting binds\<close>

lemma Mint_claims:
  assumes "Mint H key opts rnd idclock now = Inr t"
  shows "tkCaveats t = mint_caveats opts" "tkSubject t = moSubject opts" "moSubject opts \<noteq> []"
    "tkID t = tkRootID t"
  using assms by (auto elim!: Mint_Inr simp: Sign_def computeSignature_def mint_token_def split: if_splits)

text \<open>
  A minted token stays bound: whoever presents it, or any token derived from it, is accepted only
  as the agent it was minted for, strictly before its expiry, and only if every caveat of the mint
  request holds.
\<close>

theorem minted_token_bound:
  assumes "Mint H key opts rnd idclock now = Inr t" and "derived H t u"
    and "cap_Check u ctx clock = None"
  shows "rcAgentID ctx = moSubject opts
    \<and> (is_zero (moExpiry opts) \<or> unix (effective_now ctx clock) < unix (moExpiry opts))
    \<and> list_all (\<lambda>c. evalCaveat c ctx (effective_now ctx clock) = None) (moCaveats opts)"
proof -
  let ?now = "effective_now ctx clock"
  have "\<forall>c \<in> set (mint_caveats opts). evalCaveat c ctx ?now = None"
    using derived_check [OF assms(2,3)] Mint_claims(1) [OF assms(1)] by (simp add: cap_Check_None)
  then show ?thesis
    by (auto simp: mint_caveats_def evalCaveat_def zero_caveat_def caveat_types list_all_iff split: if_splits)
qed

theorem minted_token_bound_witness:
  "\<exists>t. Mint hmacOnce ''master-key'' sample_options (Some ''abcdefghijkl'') sample_clock sample_clock = Inr t
     \<and> cap_Check t sample_call sample_clock = None
     \<and> rcAgentID sample_call = ''ap-agent'' \<and> unix (effective_now sample_call sample_clock) < 100"
proof -
  obtain t where t: "Mint hmacOnce ''master-key'' sample_options (Some ''abcdefghijkl'') sample_clock
      sample_clock = Inr t" using sample_mint by blast
  have nb: "tkNotBefore t = 0"
    using t by (auto elim!: Mint_Inr simp: Sign_def computeSignature_def mint_token_def sample_options_def
        is_zero_def)
  have "check_caveats 0 (mint_caveats sample_options) sample_call sample_clock = None"
    by code_simp
  moreover have "effective_now sample_call sample_clock = sample_clock"
    by (simp add: effective_now_def sample_call_def)
  ultimately have c: "cap_Check t sample_call sample_clock = None"
    using Mint_claims(1) [OF t] nb by (simp add: cap_Check_None check_caveats_None)
  have "\<not> is_zero (moExpiry sample_options)" "unix (moExpiry sample_options) = 100"
    "moSubject sample_options = ''ap-agent''"
    by (simp_all add: sample_options_def is_zero_def unix_def)
  with minted_token_bound [OF t derived.same c] t c show ?thesis by auto
qed

text \<open>
  The identifier of a token is fixed at minting and attenuation keeps it: every token in a
  delegation chain has the identifier of the root, so \<open>IsRoot\<close> holds of attenuated tokens too, and a
  revocation of the root's identifier names all of them.
\<close>

theorem derived_keeps_identifier:
  assumes "Mint H key opts rnd idclock now = Inr t" and "derived H t u"
  shows "tkID u = tkID t \<and> IsRoot u"
proof -
  from assms(1) have "tkRootID t = tkID t" "tkID t \<noteq> []"
    by (auto elim!: Mint_Inr simp: Sign_def computeSignature_def mint_token_def split: if_splits)
  with derived_fields [OF assms(2)] show ?thesis by (simp add: IsRoot_def)
qed

theorem derived_keeps_identifier_witness:
  "\<exists>t u. derived hmacOnce t u \<and> CaveatCount u = Suc (CaveatCount t) \<and> IsRoot u"
proof -
  obtain t where t: "Mint hmacOnce ''master-key'' sample_options (Some ''abcdefghijkl'') sample_clock
      sample_clock = Inr t" using sample_mint by blast
  obtain u where u: "Attenuate hmacOnce (Some t) zero_caveat = Inr u"
    using sample_attenuate [OF t] by blast
  have d: "derived hmacOnce t u" using derived.step [OF derived.same u] .
  have "CaveatCount u = Suc (CaveatCount t)" using u by (auto elim!: Attenuate_Inr simp: CaveatCount_def)
  with d derived_keeps_identifier [OF t d] show ?thesis by blast
qed

subsection \<open>What the signature binds\<close>

text \<open>The pairs of key and message that computing a signature feeds to the keyed hash.\<close>

fun chain_inputs :: "(bytes \<Rightarrow> bytes \<Rightarrow> bytes) \<Rightarrow> bytes \<Rightarrow> Caveat list \<Rightarrow> (bytes \<times> bytes) list" where
  "chain_inputs H prev [] = []"
| "chain_inputs H prev (c # cs) =
     (prev, canonicalBytes c) # chain_inputs H (H prev (canonicalBytes c)) cs"

definition signature_inputs :: "(bytes \<Rightarrow> bytes \<Rightarrow> bytes) \<Rightarrow> bytes \<Rightarrow> Token \<Rightarrow> (bytes \<times> bytes) list" where
  "signature_inputs H key t =
     (key, canonicalPayload t) # chain_inputs H (H key (canonicalPayload t)) (tkCaveats t)"

text \<open>Two different inputs the hash sends to the same value: what an attacker would have to find.\<close>

definition collision :: "(bytes \<Rightarrow> bytes \<Rightarrow> bytes) \<Rightarrow> (bytes \<times> bytes) \<Rightarrow> (bytes \<times> bytes) \<Rightarrow> bool" where
  "collision H a b \<longleftrightarrow> a \<noteq> b \<and> H (fst a) (snd a) = H (fst b) (snd b)"

lemma chain_inputs_append:
  "chain_inputs H prev (cs @ [c]) = chain_inputs H prev cs @ [(chain_caveats H prev cs, canonicalBytes c)]"
  by (induction cs arbitrary: prev) simp_all

lemma chain_binding:
  assumes "chain_caveats H (H k p) cs = chain_caveats H (H k q) ds"
    and "\<And>c. canonicalBytes c \<noteq> p" "\<And>c. canonicalBytes c \<noteq> q"
    and "\<forall>a \<in> set ((k, p) # chain_inputs H (H k p) cs). \<forall>b \<in> set ((k, q) # chain_inputs H (H k q) ds).
           \<not> collision H a b"
  shows "p = q \<and> map canonicalBytes cs = map canonicalBytes ds"
  using assms
proof (induction cs arbitrary: ds rule: rev_induct)
  case Nil
  then show ?case
    by (cases ds rule: rev_cases) (auto simp: chain_caveats_append chain_inputs_append collision_def)
next
  case (snoc c cs)
  show ?case
  proof (cases ds rule: rev_cases)
    case Nil
    with snoc.prems show ?thesis
      by (auto simp: chain_caveats_append chain_inputs_append collision_def)
  next
    case ds: (snoc ds' d)
    let ?a = "(chain_caveats H (H k p) cs, canonicalBytes c)"
    let ?b = "(chain_caveats H (H k q) ds', canonicalBytes d)"
    have "\<not> collision H ?a ?b"
      using snoc.prems(4) unfolding ds chain_inputs_append by simp
    moreover have "H (fst ?a) (snd ?a) = H (fst ?b) (snd ?b)"
      using snoc.prems(1) unfolding ds chain_caveats_append by simp
    ultimately have "?a = ?b" by (simp add: collision_def)
    moreover from this snoc.prems(4) have "p = q \<and> map canonicalBytes cs = map canonicalBytes ds'"
      by (intro snoc.IH snoc.prems(2,3)) (auto simp: ds chain_inputs_append)
    ultimately show ?thesis by (simp add: ds)
  qed
qed

definition caveat_ascii :: "Caveat \<Rightarrow> bool" where
  "caveat_ascii c \<longleftrightarrow> list_all member_ascii (caveat_members c)"

definition token_ascii :: "Token \<Rightarrow> bool" where
  "token_ascii t \<longleftrightarrow> list_all member_ascii (payload_members t) \<and> list_all caveat_ascii (tkCaveats t)"

lemma enc_object_eq:
  assumes "list_all member_ascii ms" "list_all member_ascii ns"
  shows "enc_object ms = enc_object ns \<longleftrightarrow> ms = ns"
  using enc_object_inj [of ms ns "[]" "[]"] assms by (simp add: list_all_iff)

lemmas opt_defs = opt_str_def opt_int_def opt_list_def

lemma caveat_members_lookup:
  "map_of (caveat_members c) ''t'' = Some (JS (cvType c))"
  "map_of (caveat_members c) ''tools'' = (if cvTools c = [] then None else Some (JL (cvTools c)))"
  "map_of (caveat_members c) ''agent'' = (if cvAgent c = [] then None else Some (JS (cvAgent c)))"
  "map_of (caveat_members c) ''exp'' = (if cvExpiry c = 0 then None else Some (JI (cvExpiry c)))"
  "map_of (caveat_members c) ''max_calls'' = (if cvMaxCalls c = 0 then None else Some (JI (cvMaxCalls c)))"
  "map_of (caveat_members c) ''step_up_at'' = (if cvStepUpAt c = 0 then None else Some (JI (cvStepUpAt c)))"
  "map_of (caveat_members c) ''callees'' = (if cvCallees c = [] then None else Some (JL (cvCallees c)))"
  "map_of (caveat_members c) ''callee_zones'' =
     (if cvCalleeZones c = [] then None else Some (JL (cvCalleeZones c)))"
  "map_of (caveat_members c) ''servers'' = (if cvServers c = [] then None else Some (JL (cvServers c)))"
  "map_of (caveat_members c) ''rate_per_min'' =
     (if cvRatePerMin c = 0 then None else Some (JI (cvRatePerMin c)))"
  "map_of (caveat_members c) ''max_cents'' = (if cvMaxCents c = 0 then None else Some (JI (cvMaxCents c)))"
  "map_of (caveat_members c) ''risk_max'' = (if cvRiskMax c = 0 then None else Some (JI (cvRiskMax c)))"
  by (simp_all add: caveat_members_def opt_defs map_add_def)

lemma omitempty_inj:
  "((if x = z then None else Some (JS x)) = (if y = z then None else Some (JS y))) = (x = y)"
  "((if i = j then None else Some (JI i)) = (if k = j then None else Some (JI k))) = (i = k)"
  "((if u = w then None else Some (JL u)) = (if v = w then None else Some (JL v))) = (u = v)"
  by auto

lemma caveat_members_inj:
  assumes "caveat_members c = caveat_members d"
  shows "c = d"
proof -
  have "map_of (caveat_members c) k = map_of (caveat_members d) k" for k
    using assms by simp
  note L = this [of "''t''"] this [of "''tools''"] this [of "''agent''"] this [of "''exp''"]
    this [of "''max_calls''"] this [of "''step_up_at''"] this [of "''callees''"] this [of "''callee_zones''"]
    this [of "''servers''"] this [of "''rate_per_min''"] this [of "''max_cents''"] this [of "''risk_max''"]
  from L [unfolded caveat_members_lookup omitempty_inj option.inject jval.inject] show ?thesis
    by (intro Caveat.equality) simp_all
qed

lemma canonicalBytes_inj:
  "caveat_ascii c \<Longrightarrow> caveat_ascii d \<Longrightarrow> canonicalBytes c = canonicalBytes d \<longleftrightarrow> c = d"
  using caveat_members_inj by (auto simp: canonicalBytes_def caveat_ascii_def enc_object_eq)

lemma map_canonicalBytes_inj:
  "list_all caveat_ascii cs \<Longrightarrow> list_all caveat_ascii ds \<Longrightarrow>
     map canonicalBytes cs = map canonicalBytes ds \<Longrightarrow> cs = ds"
  by (induction cs ds rule: list_induct2') (auto simp: canonicalBytes_inj)

text \<open>The text of a payload and the text of a caveat differ in their third byte.\<close>

lemma payload_not_caveat: "canonicalBytes c \<noteq> canonicalPayload t"
proof -
  have "canonicalBytes c ! 2 = CHR ''t''"
    by (simp add: canonicalBytes_def caveat_members_def enc_object_def enc_member_def json_string_def
        commas_Cons json_escape.simps escape_ascii_def)
  moreover have "canonicalPayload t ! 2 = CHR ''v''"
    by (simp add: canonicalPayload_def payload_members_def enc_object_def enc_member_def json_string_def
        commas_Cons json_escape.simps escape_ascii_def)
  ultimately show ?thesis by fastforce
qed

lemma payload_members_lookup:
  "map_of (payload_members t) ''nbf'' = (if tkNotBefore t = 0 then None else Some (JI (tkNotBefore t)))"
  by (simp add: payload_members_def opt_defs)

lemma payload_members_inj:
  assumes "payload_members t = payload_members u"
  shows "u\<lparr>tkCaveats := tkCaveats t, tkSignature := tkSignature t\<rparr> = t"
proof -
  have "map_of (payload_members t) ''nbf'' = map_of (payload_members u) ''nbf''"
    using assms by simp
  then have "tkNotBefore t = tkNotBefore u" by (simp only: payload_members_lookup omitempty_inj)
  with assms show ?thesis
    by (intro Token.equality) (simp_all add: payload_members_def)
qed

text \<open>
  C3. The signature binds the whole token: if two tokens whose claims and caveats are ASCII text verify
  under the same key with the same signature bytes, then either they carry the same claims and the same
  caveats in the same order, or the two signature computations exhibit a collision of the keyed hash. So
  a caveat can be neither dropped, altered nor reordered, and no claim changed, without breaking the hash.
  (Outside ASCII the encoder replaces invalid UTF-8 by one mark, so that different texts can encode alike.)
\<close>

theorem signature_binds_token:
  assumes "Verify H t key = None" "Verify H u key = None" "token_ascii t" "token_ascii u"
    and "rawurl_decode (tkSignature t) = rawurl_decode (tkSignature u)"
  shows "u\<lparr>tkSignature := tkSignature t\<rparr> = t
    \<or> (\<exists>a \<in> set (signature_inputs H key t). \<exists>b \<in> set (signature_inputs H key u). collision H a b)"
proof (rule disjCI)
  assume free: "\<not> (\<exists>a \<in> set (signature_inputs H key t). \<exists>b \<in> set (signature_inputs H key u). collision H a b)"
  from assms(1,2,5) have sig: "chain_caveats H (H key (canonicalPayload t)) (tkCaveats t)
      = chain_caveats H (H key (canonicalPayload u)) (tkCaveats u)"
    by (simp add: Verify_None_iff)
  have "canonicalPayload t = canonicalPayload u \<and>
      map canonicalBytes (tkCaveats t) = map canonicalBytes (tkCaveats u)"
    using free by (intro chain_binding [OF sig payload_not_caveat payload_not_caveat])
      (auto simp: signature_inputs_def)
  then have "payload_members t = payload_members u" "tkCaveats t = tkCaveats u"
    using assms(3,4) map_canonicalBytes_inj
    by (auto simp: token_ascii_def canonicalPayload_def enc_object_eq)
  with payload_members_inj show "u\<lparr>tkSignature := tkSignature t\<rparr> = t" by fastforce
qed

text \<open>
  Two tokens for different agents, one with a caveat more, presented under a hash that is constant: the
  theorem then exhibits the collision.
\<close>

definition other_options :: MintOptions where
  "other_options = sample_options\<lparr>moSubject := ''mallory'', moCaveats := []\<rparr>"

lemma sample_tokens_ascii:
  "token_ascii (mint_token sample_options ''token-1'' sample_clock)"
  "token_ascii (mint_token other_options ''token-1'' sample_clock)"
  by code_simp+

lemma sign_constant:
  assumes "Validate m = None" "token_ascii m"
  shows "Verify (\<lambda>_ _. ''k'') (m\<lparr>tkSignature := rawurl_encode ''k''\<rparr>) ''master-key'' = None
    \<and> token_ascii (m\<lparr>tkSignature := rawurl_encode ''k''\<rparr>)"
proof -
  have const: "chain_caveats (\<lambda>_ _. ''k'') ''k'' cs = ''k''" for cs by (induction cs) simp_all
  have "Sign (\<lambda>_ _. ''k'') m ''master-key'' = Inr (m\<lparr>tkSignature := rawurl_encode ''k''\<rparr>)"
    by (simp add: Sign_def computeSignature_def const)
  from Sign_Verify [OF this assms(1)] assms(2) show ?thesis by (simp add: token_ascii_def payload_members_def)
qed

theorem signature_binds_token_witness:
  "\<exists>t u. Verify (\<lambda>_ _. ''k'') t ''master-key'' = None \<and> Verify (\<lambda>_ _. ''k'') u ''master-key'' = None
     \<and> tkSignature t = tkSignature u \<and> tkSubject t \<noteq> tkSubject u
     \<and> (\<exists>a \<in> set (signature_inputs (\<lambda>_ _. ''k'') ''master-key'' t).
          \<exists>b \<in> set (signature_inputs (\<lambda>_ _. ''k'') ''master-key'' u). collision (\<lambda>_ _. ''k'') a b)"
proof -
  let ?m = "mint_token sample_options ''token-1'' sample_clock" and ?n = "mint_token other_options ''token-1'' sample_clock"
  define t where "t = ?m\<lparr>tkSignature := rawurl_encode ''k''\<rparr>"
  define u where "u = ?n\<lparr>tkSignature := rawurl_encode ''k''\<rparr>"
  have v: "Validate ?m = None" "Validate ?n = None" by code_simp+
  note t = sign_constant [OF v(1) sample_tokens_ascii(1), folded t_def]
  note u = sign_constant [OF v(2) sample_tokens_ascii(2), folded u_def]
  have sig: "tkSignature t = tkSignature u" unfolding t_def u_def by simp
  have sub: "tkSubject t \<noteq> tkSubject u"
    unfolding t_def u_def by (simp add: mint_token_def sample_options_def other_options_def)
  have "u\<lparr>tkSignature := tkSignature t\<rparr> \<noteq> t"
  proof
    assume "u\<lparr>tkSignature := tkSignature t\<rparr> = t"
    then have "tkSubject (u\<lparr>tkSignature := tkSignature t\<rparr>) = tkSubject t" by (rule arg_cong)
    with sub show False by simp
  qed
  with signature_binds_token [OF conjunct1 [OF t] conjunct1 [OF u] conjunct2 [OF t] conjunct2 [OF u]
      arg_cong [OF sig, of rawurl_decode]]
  have "\<exists>a \<in> set (signature_inputs (\<lambda>_ _. ''k'') ''master-key'' t).
      \<exists>b \<in> set (signature_inputs (\<lambda>_ _. ''k'') ''master-key'' u). collision (\<lambda>_ _. ''k'') a b"
    by blast
  with t u sig sub show ?thesis by blast
qed

end
