(* ===== verification/Budget.thy ===== *)
theory Budget
  imports Delegation
begin

text \<open>
  Package \<open>internal/budget\<close>: the per-token call counter, the fourth check of the pipeline. The
  counter backend is the locale \<open>counter_store\<close>, the contract \<open>budget.Store\<close> documents; the
  in-memory store of \<open>memory.go\<close> interprets it. Redis is a third-party service and stays a parameter.
  An instant is what \<open>time.Now().UnixNano()\<close> returns, a signed 64-bit number of nanoseconds. The
  backend is accessed by one call at a time.
\<close>

subsection \<open>Decisions (budget.go)\<close>

datatype budget_error = BudgetStoreNil nat | BudgetIncrement string

record BudgetDecision =
  bdAllowed :: bool
  bdReason :: string
  bdLimit :: int
  bdUsed :: int

definition extractMaxCalls :: "Token \<Rightarrow> int list" where
  "extractMaxCalls tok =
     map cvMaxCalls (filter (\<lambda>c. cvType c = CaveatMaxCalls \<and> 0 < cvMaxCalls c) (tkCaveats tok))"

abbreviation (input) day :: int where "day \<equiv> 24 * 60 * 60 * second"

definition budget_key :: "string \<Rightarrow> string" where
  "budget_key jti = ''ig:budget:calls:'' @ jti"

lemma budget_key_inj [simp]: "budget_key i = budget_key j \<longleftrightarrow> i = j"
  by (simp add: budget_key_def)

fun budget_limits :: "int list \<Rightarrow> int \<Rightarrow> BudgetDecision" where
  "budget_limits [] used = \<lparr>bdAllowed = True, bdReason = [], bdLimit = 0, bdUsed = used\<rparr>"
| "budget_limits (limit # ls) used =
     (if limit < used then
        \<lparr>bdAllowed = False,
         bdReason = ''max_calls exceeded ('' @ show_int used @ '' > '' @ show_int limit @ '')'',
         bdLimit = limit, bdUsed = used\<rparr>
      else budget_limits ls used)"

text \<open>The store is absent, or an operation \<open>Increment key ttl\<close> on the state of the backend.\<close>

definition budget_Check ::
  "(string \<Rightarrow> int \<Rightarrow> 'st \<Rightarrow> (string + int) \<times> 'st) option \<Rightarrow> Token \<Rightarrow> 'st
    \<Rightarrow> (budget_error + BudgetDecision) \<times> 'st" where
  "budget_Check store tok s =
     (let caps = extractMaxCalls tok in
      if caps = [] then
        (Inr \<lparr>bdAllowed = True, bdReason = ''no max_calls caveat'', bdLimit = 0, bdUsed = 0\<rparr>, s)
      else case store of
        None \<Rightarrow> (Inl (BudgetStoreNil (length caps)), s)
      | Some Increment \<Rightarrow>
          (case Increment (budget_key (tkID tok)) day s of
             (Inl e, s') \<Rightarrow> (Inl (BudgetIncrement e), s')
           | (Inr used, s') \<Rightarrow> (Inr (budget_limits caps used), s')))"

subsection \<open>The in-memory store (memory.go)\<close>

record memEntry =
  meCount :: int
  meExpires :: int

type_synonym BudgetMemoryStore = "string \<rightharpoonup> memEntry"

text \<open>
  \<open>LoadOrStore\<close> leaves an entry in the map in every case; an expired one is replaced by a fresh one
  that counts this call, a live one is incremented. With one caller the compare-and-swap succeeds at
  the first attempt, so the loop of the code ends there.
\<close>

definition mem_Increment :: "int \<Rightarrow> string \<Rightarrow> int \<Rightarrow> BudgetMemoryStore \<Rightarrow> int \<times> BudgetMemoryStore" where
  "mem_Increment now key ttl m =
     (let expires = (if 0 < ttl then wrap64 (now + ttl) else 0);
          entry = (case m key of Some e \<Rightarrow> e | None \<Rightarrow> \<lparr>meCount = 0, meExpires = expires\<rparr>)
      in if meExpires entry \<noteq> 0 \<and> meExpires entry < now
         then (1, m(key \<mapsto> \<lparr>meCount = 1, meExpires = expires\<rparr>))
         else (let n = wrap64 (meCount entry + 1) in (n, m(key \<mapsto> entry\<lparr>meCount := n\<rparr>))))"

definition mem_store :: "int \<Rightarrow> string \<Rightarrow> int \<Rightarrow> BudgetMemoryStore \<Rightarrow> (string + int) \<times> BudgetMemoryStore" where
  "mem_store now key ttl m = (case mem_Increment now key ttl m of (n, m') \<Rightarrow> (Inr n, m'))"

definition mem_Reset :: "BudgetMemoryStore \<Rightarrow> BudgetMemoryStore" where
  "mem_Reset m = Map.empty"

subsection \<open>Sequences of checks\<close>

text \<open>Budget checks made one after the other, each at its own instant, and the verdicts they give.\<close>

fun budget_run :: "(int \<Rightarrow> string \<Rightarrow> int \<Rightarrow> 'st \<Rightarrow> (string + int) \<times> 'st) \<Rightarrow> (Token \<times> int) list \<Rightarrow> 'st
    \<Rightarrow> (Token \<times> (budget_error + BudgetDecision)) list" where
  "budget_run increment [] s = []"
| "budget_run increment ((tok, now) # es) s =
     (case budget_Check (Some (increment now)) tok s of (r, s') \<Rightarrow> (tok, r) # budget_run increment es s')"

fun allowed_calls :: "string \<Rightarrow> (Token \<times> (budget_error + BudgetDecision)) list \<Rightarrow> nat" where
  "allowed_calls j [] = 0"
| "allowed_calls j ((tok, r) # rs) =
     (if tkID tok = j \<and> (case r of Inr d \<Rightarrow> bdAllowed d | Inl _ \<Rightarrow> False) then 1 else 0) + allowed_calls j rs"

lemma budget_limits_allowed: "bdAllowed (budget_limits ls used) \<longleftrightarrow> (\<forall>l \<in> set ls. used \<le> l)"
  by (induction ls) auto

subsection \<open>What a counter backend promises\<close>

text \<open>
  \<open>holds s k d n\<close> says that the counter of key \<open>k\<close> stands at \<open>n\<close> in state \<open>s\<close> and will not expire
  before \<open>d\<close>. An increment made no later than \<open>d\<close>, with a lifetime reaching \<open>d\<close>, returns the next
  number; increments of other keys do not disturb it.
\<close>

locale counter_store =
  fixes increment :: "int \<Rightarrow> string \<Rightarrow> int \<Rightarrow> 'st \<Rightarrow> (string + int) \<times> 'st"
    and holds :: "'st \<Rightarrow> string \<Rightarrow> int \<Rightarrow> int \<Rightarrow> bool"
  assumes increment_next: "holds s k d n \<Longrightarrow> 0 < ttl \<Longrightarrow> 0 < now \<Longrightarrow> now \<le> d \<Longrightarrow> d \<le> now + ttl \<Longrightarrow>
      in_int64 (now + ttl) \<Longrightarrow> in_int64 (n + 1) \<Longrightarrow>
      \<exists>s'. increment now k ttl s = (Inr (n + 1), s') \<and> holds s' k d (n + 1)"
    and increment_other: "holds s k d n \<Longrightarrow> k' \<noteq> k \<Longrightarrow> holds (snd (increment now k' ttl s)) k d n"
begin

lemma budget_step:
  assumes "holds s (budget_key (tkID tok)) d n" "0 < now" "now \<le> d" "d \<le> now + day" "in_int64 (now + day)"
    "in_int64 (n + 1)" "extractMaxCalls tok \<noteq> []"
  shows "\<exists>s'. budget_Check (Some (increment now)) tok s = (Inr (budget_limits (extractMaxCalls tok) (n + 1)), s')
     \<and> holds s' (budget_key (tkID tok)) d (n + 1)"
  using increment_next [of s "budget_key (tkID tok)" d n day now] assms
  by (auto simp: budget_Check_def Let_def)

lemma budget_step_other:
  assumes "holds s k d n" "budget_key (tkID tok) \<noteq> k"
  shows "holds (snd (budget_Check (Some (increment now)) tok s)) k d n"
  using increment_other [OF assms, of now day] assms(1)
  by (auto simp: budget_Check_def Let_def split: prod.splits sum.splits)

lemma calls_within_cap:
  assumes "holds s (budget_key j) d n" "0 \<le> n" "in_int64 (n + int (length es))"
    and "\<forall>(tok, now) \<in> set es. 0 < now \<and> now \<le> d \<and> d \<le> now + day \<and> in_int64 (now + day)"
    and "\<forall>(tok, now) \<in> set es. tkID tok = j \<longrightarrow> N \<in> set (extractMaxCalls tok)"
  shows "int (allowed_calls j (budget_run increment es s)) \<le> max 0 (N - n)"
  using assms
proof (induction es arbitrary: s n)
  case (Cons e es)
  obtain tok now where e: "e = (tok, now)" by (cases e)
  show ?case
  proof (cases "tkID tok = j")
    case True
    with Cons.prems e have N: "N \<in> set (extractMaxCalls tok)" by auto
    then have ne: "extractMaxCalls tok \<noteq> []" by auto
    have small: "in_int64 (n + 1)" "in_int64 (n + 1 + int (length es))"
      using Cons.prems(2,3) by (auto simp: in_int64_def)
    obtain s' where s': "budget_Check (Some (increment now)) tok s
        = (Inr (budget_limits (extractMaxCalls tok) (n + 1)), s')" "holds s' (budget_key (tkID tok)) d (n + 1)"
      using budget_step [OF Cons.prems(1) [folded True] _ _ _ _ small(1) ne, of now] Cons.prems(4) e by auto
    have "int (allowed_calls j (budget_run increment es s')) \<le> max 0 (N - (n + 1))"
      using Cons.prems s'(2) small e by (intro Cons.IH) (auto simp: True)
    moreover have "bdAllowed (budget_limits (extractMaxCalls tok) (n + 1)) \<Longrightarrow> n + 1 \<le> N"
      using N by (simp add: budget_limits_allowed)
    ultimately show ?thesis using s'(1) e by (auto simp: True)
  next
    case False
    then have "budget_key (tkID tok) \<noteq> budget_key j" by simp
    from budget_step_other [OF Cons.prems(1) this, of now] Cons.prems False e
    have "int (allowed_calls j (budget_run increment es (snd (budget_Check (Some (increment now)) tok s))))
        \<le> max 0 (N - n)"
      by (intro Cons.IH) (auto simp: in_int64_def)
    with False e show ?thesis by (auto split: prod.splits)
  qed
qed simp

end

subsection \<open>The in-memory store keeps the promise\<close>

definition mem_holds :: "BudgetMemoryStore \<Rightarrow> string \<Rightarrow> int \<Rightarrow> int \<Rightarrow> bool" where
  "mem_holds m k d n \<longleftrightarrow>
     (case m k of None \<Rightarrow> n = 0 | Some e \<Rightarrow> meCount e = n \<and> (meExpires e = 0 \<or> d \<le> meExpires e))"

interpretation mem: counter_store mem_store mem_holds
proof (unfold_locales, goal_cases)
  case (1 s k d n ttl now)
  then show ?case
    by (auto simp: mem_holds_def mem_store_def mem_Increment_def Let_def in_int64_def wrap64_def
        split: option.splits)
next
  case (2 s k d n k' now ttl)
  then show ?case
    by (auto simp: mem_holds_def mem_store_def mem_Increment_def Let_def split: option.splits)
qed

lemma derived_max_calls: "derived H t u \<Longrightarrow> set (extractMaxCalls t) \<subseteq> set (extractMaxCalls u)"
  using derived_caveat_set [of H t u] by (auto simp: extractMaxCalls_def)

text \<open>
  C7. The call budget of a token bounds its whole delegation tree: whatever tokens derived from it are
  presented, in whatever order and mixed with the calls of other tokens, the calls the budget stage
  allows for them within one day of a counter starting fresh never exceed any \<open>max_calls\<close> cap of the
  root token.
\<close>

theorem budget_bounds_delegation:
  assumes "N \<in> set (extractMaxCalls t)" and "m (budget_key (tkID t)) = None"
    and "\<forall>(u, now) \<in> set es. (tkID u = tkID t \<longrightarrow> derived H t u) \<and> t0 \<le> now \<and> now \<le> t0 + day"
    and "0 < t0" and "in_int64 (t0 + 2 * day)" and "in_int64 (int (length es))"
  shows "int (allowed_calls (tkID t) (budget_run mem_store es m)) \<le> N"
proof -
  have "0 < N" using assms(1) by (auto simp: extractMaxCalls_def)
  have "mem_holds m (budget_key (tkID t)) (t0 + day) 0" by (simp add: mem_holds_def assms(2))
  then have "int (allowed_calls (tkID t) (budget_run mem_store es m)) \<le> max 0 (N - 0)"
    using assms derived_max_calls by (intro mem.calls_within_cap) (fastforce simp: in_int64_def)+
  with \<open>0 < N\<close> show ?thesis by simp
qed

definition budget_root :: Token where
  "budget_root = sample_token\<lparr>tkCaveats := [zero_caveat\<lparr>cvType := CaveatMaxCalls, cvMaxCalls := 2\<rparr>]\<rparr>"

theorem budget_bounds_delegation_witness:
  "int (allowed_calls (tkID budget_root)
     (budget_run mem_store [(budget_root, 10), (budget_root, 20), (budget_root, 30)] Map.empty)) \<le> 2
   \<and> allowed_calls (tkID budget_root)
     (budget_run mem_store [(budget_root, 10), (budget_root, 20), (budget_root, 30)] Map.empty) = 2"
proof -
  have "2 \<in> set (extractMaxCalls budget_root)" by code_simp
  moreover have "allowed_calls (tkID budget_root)
     (budget_run mem_store [(budget_root, 10), (budget_root, 20), (budget_root, 30)] Map.empty) = 2"
    by code_simp
  ultimately show ?thesis
    using budget_bounds_delegation [of 2 budget_root Map.empty
        "[(budget_root, 10), (budget_root, 20), (budget_root, 30)]" hmacOnce 10]
    by (simp add: derived.same in_int64_def)
qed

text \<open>
  The verdict of one budget check on the in-memory store, for a counter that stands at \<open>n\<close> and has
  not expired: the call counts, and it is allowed exactly when the new count is within every cap; a
  refusal reports the new count and a cap it exceeds.
\<close>

theorem budget_verdict:
  assumes "m (budget_key (tkID tok)) = Some \<lparr>meCount = n, meExpires = x\<rparr>" and "x = 0 \<or> now \<le> x"
    and "in_int64 (n + 1)" and "extractMaxCalls tok \<noteq> []"
  shows "\<exists>d m'. budget_Check (Some (mem_store now)) tok m = (Inr d, m')
    \<and> m' = m(budget_key (tkID tok) \<mapsto> \<lparr>meCount = n + 1, meExpires = x\<rparr>) \<and> bdUsed d = n + 1
    \<and> (bdAllowed d \<longleftrightarrow> list_all (\<lambda>cap. n + 1 \<le> cap) (extractMaxCalls tok))
    \<and> (\<not> bdAllowed d \<longrightarrow> bdLimit d \<in> set (extractMaxCalls tok) \<and> bdLimit d < n + 1)"
proof -
  have u: "bdUsed (budget_limits ls used) = used" for ls used by (induction ls) auto
  have l: "bdAllowed (budget_limits ls used) \<or>
      (bdLimit (budget_limits ls used) \<in> set ls \<and> bdLimit (budget_limits ls used) < used)" for ls used
    by (induction ls) auto
  have "budget_Check (Some (mem_store now)) tok m = (Inr (budget_limits (extractMaxCalls tok) (n + 1)),
      m(budget_key (tkID tok) \<mapsto> \<lparr>meCount = n + 1, meExpires = x\<rparr>))"
    using assms by (auto simp: budget_Check_def mem_store_def mem_Increment_def Let_def)
  then show ?thesis using l [of "extractMaxCalls tok" "n + 1"] by (auto simp: u budget_limits_allowed list_all_iff)
qed

theorem budget_verdict_witness:
  "\<exists>d m'. budget_Check (Some (mem_store 30)) budget_root
      [budget_key (tkID budget_root) \<mapsto> \<lparr>meCount = 2, meExpires = 40\<rparr>] = (Inr d, m')
    \<and> bdUsed d = 3 \<and> \<not> bdAllowed d \<and> bdLimit d < 3"
proof -
  have caps: "extractMaxCalls budget_root = [2]" by code_simp
  show ?thesis
    using budget_verdict [of "[budget_key (tkID budget_root) \<mapsto> \<lparr>meCount = 2, meExpires = 40\<rparr>]" budget_root
        2 40 30]
    by (auto simp: in_int64_def caps)
qed

end
