(* ===== verification/Revocation.thy ===== *)
theory Revocation
  imports GoBase "HOL-Library.AList"
begin

text \<open>
  Package \<open>internal/revocation\<close>: the in-memory store of \<open>memory.go\<close>. A Go map is an association list
  without duplicate keys: its order stands for the iteration order of \<open>range\<close>, which Go leaves open, so
  only statements that do not depend on it are made about \<open>List\<close>. The locale \<open>revocation_store\<close> is the
  tenancy contract that \<open>store.go\<close> documents for every backend.
\<close>

record RevokedToken =
  rvJTI :: string
  rvRevokedAt :: gotime
  rvReason :: string
  rvTenant :: string

type_synonym RevocationStore = "(string \<times> (string \<times> RevokedToken) list) list"

definition rev_NewMemoryStore :: RevocationStore where
  "rev_NewMemoryStore = []"

definition IsRevoked :: "RevocationStore \<Rightarrow> string \<Rightarrow> string \<Rightarrow> bool" where
  "IsRevoked s jti tenant =
     (case map_of s jti of
        None \<Rightarrow> False
      | Some byTenant \<Rightarrow>
          (if map_of byTenant tenant \<noteq> None then True
           else if tenant \<noteq> [] \<and> map_of byTenant [] \<noteq> None then True
           else False))"

definition Revoke :: "gotime \<Rightarrow> string \<Rightarrow> string \<Rightarrow> string \<Rightarrow> RevocationStore \<Rightarrow> RevocationStore" where
  "Revoke now jti reason tenant s =
     (let byTenant = (case map_of s jti of Some b \<Rightarrow> b | None \<Rightarrow> []);
          row = (case map_of byTenant tenant of
                   Some existing \<Rightarrow> existing\<lparr>rvReason := reason\<rparr>
                 | None \<Rightarrow> \<lparr>rvJTI = jti, rvRevokedAt = now, rvReason = reason, rvTenant = tenant\<rparr>)
      in AList.update jti (AList.update tenant row byTenant) s)"

definition revoked_rows :: "RevocationStore \<Rightarrow> string \<Rightarrow> RevokedToken list" where
  "revoked_rows s tenant =
     concat (map (\<lambda>(jti, byTenant).
       map snd (filter (\<lambda>(rowTenant, e). tenant = [] \<or> rowTenant = tenant) byTenant)) s)"

definition rev_List :: "RevocationStore \<Rightarrow> string \<Rightarrow> int \<Rightarrow> nat \<Rightarrow> RevokedToken list" where
  "rev_List s tenant limit offset = page offset limit (newest_first rvRevokedAt (revoked_rows s tenant))"

subsection \<open>The contract of a revocation backend\<close>

text \<open>A log of revocations, oldest first: instant, token, reason, tenant of the administrator.\<close>

definition replay_revocations :: "(gotime \<Rightarrow> string \<Rightarrow> string \<Rightarrow> string \<Rightarrow> 'st \<Rightarrow> 'st)
    \<Rightarrow> (gotime \<times> string \<times> string \<times> string) list \<Rightarrow> 'st \<Rightarrow> 'st" where
  "replay_revocations revoke log s = fold (\<lambda>(now, jti, reason, tenant). revoke now jti reason tenant) log s"

locale revocation_store =
  fixes revoked :: "'st \<Rightarrow> string \<Rightarrow> string \<Rightarrow> bool"
    and revoke :: "gotime \<Rightarrow> string \<Rightarrow> string \<Rightarrow> string \<Rightarrow> 'st \<Rightarrow> 'st"
  assumes revoked_after: "revoked (revoke now jti reason tenant s) j t \<longleftrightarrow>
      revoked s j t \<or> (j = jti \<and> (t = tenant \<or> tenant = []))"
begin

lemma revoked_replay:
  "revoked (replay_revocations revoke log s) j t \<longleftrightarrow>
     revoked s j t \<or> (\<exists>(now, jti, reason, tenant) \<in> set log. jti = j \<and> (tenant = t \<or> tenant = []))"
  unfolding replay_revocations_def by (induction log arbitrary: s) (auto simp: revoked_after)

lemma revoked_mono: "revoked s j t \<Longrightarrow> revoked (replay_revocations revoke log s) j t"
  by (simp add: revoked_replay)

end

interpretation memrev: revocation_store IsRevoked Revoke
proof (unfold_locales, goal_cases)
  case (1 now jti reason tenant s j t)
  then show ?case
    by (cases "map_of s jti") (auto simp: IsRevoked_def Revoke_def Let_def update_conv' split: option.splits)
qed

text \<open>
  C10. Revocations are tenant-scoped: starting from an empty store, after any sequence of revocations a
  token identifier is revoked for a tenant exactly when that tenant's administrator or the
  superadministrator (empty tenant) revoked it; another tenant's revocation has no effect.
\<close>

theorem revocation_tenancy:
  "IsRevoked (replay_revocations Revoke log rev_NewMemoryStore) j t \<longleftrightarrow>
     list_ex (\<lambda>(now, jti, reason, tenant). jti = j \<and> (tenant = t \<or> tenant = [])) log"
  unfolding memrev.revoked_replay by (auto simp: IsRevoked_def rev_NewMemoryStore_def list_ex_iff)

subsection \<open>Well-formed stores and listing\<close>

definition rev_wf :: "RevocationStore \<Rightarrow> bool" where
  "rev_wf s \<longleftrightarrow> distinct (map fst s) \<and>
     (\<forall>(jti, b) \<in> set s. distinct (map fst b) \<and> (\<forall>(t, r) \<in> set b. rvJTI r = jti \<and> rvTenant r = t))"

lemma rev_wf_empty [simp]: "rev_wf rev_NewMemoryStore"
  by (simp add: rev_wf_def rev_NewMemoryStore_def)

lemma set_update_subset: "set (AList.update k v al) \<subseteq> insert (k, v) (set al)"
  by (induction al) auto

lemma rev_wf_Revoke:
  assumes "rev_wf s"
  shows "rev_wf (Revoke now jti reason tenant s)"
proof -
  define b where "b = (case map_of s jti of Some b \<Rightarrow> b | None \<Rightarrow> [])"
  define row where "row = (case map_of b tenant of
      Some existing \<Rightarrow> existing\<lparr>rvReason := reason\<rparr>
    | None \<Rightarrow> \<lparr>rvJTI = jti, rvRevokedAt = now, rvReason = reason, rvTenant = tenant\<rparr>)"
  have b: "distinct (map fst b) \<and> (\<forall>(t, r) \<in> set b. rvJTI r = jti \<and> rvTenant r = t)"
    using assms map_of_SomeD [of s jti] by (auto simp: b_def rev_wf_def split: option.splits)
  then have row: "rvJTI row = jti \<and> rvTenant row = tenant"
    using map_of_SomeD [of b tenant] by (fastforce simp: row_def split: option.splits)
  have "Revoke now jti reason tenant s = AList.update jti (AList.update tenant row b) s"
    by (simp add: Revoke_def Let_def b_def row_def)
  with assms b row set_update_subset [of jti _ s] set_update_subset [of tenant row b] show ?thesis
    by (fastforce simp: rev_wf_def distinct_update)
qed

lemma revoked_rows_scope:
  "rev_wf s \<Longrightarrow> r \<in> set (revoked_rows s tenant) \<Longrightarrow> tenant \<noteq> [] \<Longrightarrow> rvTenant r = tenant"
  by (fastforce simp: revoked_rows_def rev_wf_def)

text \<open>
  The listing endpoint shows a tenant's administrator nothing but that tenant's rows, at most as
  many as asked for, the most recent first, on every store reachable by revocations.
\<close>

theorem revocation_list_scope:
  assumes "tenant \<noteq> []" and "0 < limit"
  shows "list_all (\<lambda>r. rvTenant r = tenant) (rev_List (replay_revocations Revoke log rev_NewMemoryStore) tenant limit offset)
    \<and> length (rev_List (replay_revocations Revoke log rev_NewMemoryStore) tenant limit offset) \<le> nat limit
    \<and> sorted_wrt (\<lambda>a b. rvRevokedAt b \<le> rvRevokedAt a)
        (rev_List (replay_revocations Revoke log rev_NewMemoryStore) tenant limit offset)"
proof -
  have "rev_wf (replay_revocations Revoke log s)" if "rev_wf s" for s
    using that unfolding replay_revocations_def by (induction log arbitrary: s) (auto simp: rev_wf_Revoke)
  then have wf: "rev_wf (replay_revocations Revoke log rev_NewMemoryStore)" by simp
  have sub: "set (rev_List (replay_revocations Revoke log rev_NewMemoryStore) tenant limit offset)
      \<subseteq> set (revoked_rows (replay_revocations Revoke log rev_NewMemoryStore) tenant)"
    unfolding rev_List_def using page_subset by fastforce
  have "\<forall>r \<in> set (rev_List (replay_revocations Revoke log rev_NewMemoryStore) tenant limit offset). rvTenant r = tenant"
    using revoked_rows_scope [OF wf _ assms(1)] sub by blast
  then show ?thesis
    using assms(2) by (auto simp: list_all_iff rev_List_def length_page sorted_wrt_page newest_first_sorted)
qed

theorem revocation_list_scope_witness:
  "length (rev_List (replay_revocations Revoke [(5, ''j1'', ''leak'', ''acme''), (7, ''j2'', [], ''acme''), (8, ''j3'', [], ''beta'')]
     rev_NewMemoryStore) ''acme'' 1 0) \<le> 1"
  using revocation_list_scope [of "''acme''" 1
      "[(5, ''j1'', ''leak'', ''acme''), (7, ''j2'', [], ''acme''), (8, ''j3'', [], ''beta'')]" 0]
  by simp

end
