(* ===== verification/KillSwitch.thy ===== *)
theory KillSwitch
  imports GoBase "HOL-Library.AList"
begin

text \<open>
  Package \<open>internal/killswitch\<close>: the operator's circuit breaker at global, tenant and agent scope, with
  its in-memory store. The store is an association list keyed by the text that \<open>Entry.key\<close> builds. The
  locale \<open>breaker\<close> states what every backend owes its callers: engaged traffic stays halted until the
  kill is released, whatever else happens in between.
\<close>

definition ScopeGlobal :: string where "ScopeGlobal = ''global''"
definition ScopeTenant :: string where "ScopeTenant = ''tenant''"
definition ScopeAgent :: string where "ScopeAgent = ''agent''"

lemmas scopes = ScopeGlobal_def ScopeTenant_def ScopeAgent_def

record KillEntry =
  keType :: string
  keTenant :: string
  keValue :: string
  keReason :: string
  keSetAt :: gotime
  keSetBy :: string

datatype kill_error = ErrInvalidScope

definition kill_Validate :: "KillEntry \<Rightarrow> kill_error option" where
  "kill_Validate e =
     (if keType e = ScopeGlobal then
        (if keTenant e \<noteq> [] \<or> keValue e \<noteq> [] then Some ErrInvalidScope else None)
      else if keType e = ScopeTenant then
        (if trim_space (keTenant e) = [] \<or> keValue e \<noteq> [] then Some ErrInvalidScope else None)
      else if keType e = ScopeAgent then
        (if trim_space (keTenant e) = [] \<or> trim_space (keValue e) = [] then Some ErrInvalidScope else None)
      else Some ErrInvalidScope)"

definition scope_key :: "string \<Rightarrow> string \<Rightarrow> string \<Rightarrow> string" where
  "scope_key ty tenant v = ty @ ''|'' @ tenant @ ''|'' @ v"

definition kill_key :: "KillEntry \<Rightarrow> string" where
  "kill_key e = scope_key (keType e) (keTenant e) (keValue e)"

type_synonym KillStore = "(string \<times> KillEntry) list"

definition kill_NewMemoryStore :: KillStore where
  "kill_NewMemoryStore = []"

text \<open>The entry that halts the traffic, if one does: the boolean and the entry of the Go result.\<close>

definition Active :: "KillStore \<Rightarrow> string \<Rightarrow> string \<Rightarrow> KillEntry option" where
  "Active s tenant agentID =
     (case map_of s (scope_key ScopeGlobal [] []) of
        Some e \<Rightarrow> Some e
      | None \<Rightarrow>
          (if tenant = [] then None
           else case map_of s (scope_key ScopeTenant tenant []) of
             Some e \<Rightarrow> Some e
           | None \<Rightarrow>
               (if agentID = [] then None else map_of s (scope_key ScopeAgent tenant agentID))))"

definition Engage :: "gotime \<Rightarrow> KillEntry \<Rightarrow> KillStore \<Rightarrow> kill_error option \<times> KillStore" where
  "Engage now e s =
     (case kill_Validate e of
        Some err \<Rightarrow> (Some err, s)
      | None \<Rightarrow>
          (case map_of s (kill_key e) of
             Some existing \<Rightarrow> (None, AList.update (kill_key e) (existing\<lparr>keReason := keReason e\<rparr>) s)
           | None \<Rightarrow>
               (None, AList.update (kill_key e) (if is_zero (keSetAt e) then e\<lparr>keSetAt := now\<rparr> else e) s)))"

definition Release :: "string \<Rightarrow> string \<Rightarrow> string \<Rightarrow> KillStore \<Rightarrow> KillStore" where
  "Release ty tenant v s = AList.delete (scope_key ty tenant v) s"

definition kill_List :: "KillStore \<Rightarrow> KillEntry list" where
  "kill_List s = newest_first keSetAt (map snd s)"

subsection \<open>Histories of operator actions\<close>

datatype kill_op = OpEngage gotime KillEntry | OpRelease string string string

fun kill_apply :: "kill_op \<Rightarrow> KillStore \<Rightarrow> KillStore" where
  "kill_apply (OpEngage now e) s = snd (Engage now e s)"
| "kill_apply (OpRelease ty tenant v) s = Release ty tenant v s"

fun op_releases :: "string \<Rightarrow> kill_op \<Rightarrow> bool" where
  "op_releases k (OpEngage now e) = False"
| "op_releases k (OpRelease ty tenant v) = (scope_key ty tenant v = k)"

text \<open>What an entry is meant to halt.\<close>

definition covers :: "KillEntry \<Rightarrow> string \<Rightarrow> string \<Rightarrow> bool" where
  "covers e tenant agent \<longleftrightarrow>
     keType e = ScopeGlobal
     \<or> keType e = ScopeTenant \<and> keTenant e = tenant
     \<or> keType e = ScopeAgent \<and> keTenant e = tenant \<and> keValue e = agent"

locale breaker =
  fixes engaged :: "'st \<Rightarrow> 'k \<Rightarrow> bool"
    and apply_op :: "'op \<Rightarrow> 'st \<Rightarrow> 'st"
    and releases :: "'k \<Rightarrow> 'op \<Rightarrow> bool"
  assumes stays_engaged: "engaged s k \<Longrightarrow> \<not> releases k op \<Longrightarrow> engaged (apply_op op s) k"
begin

lemma engaged_until_released:
  "engaged s k \<Longrightarrow> list_all (\<lambda>op. \<not> releases k op) ops \<Longrightarrow> engaged (fold apply_op ops s) k"
  by (induction ops arbitrary: s) (auto intro: stays_engaged)

end

definition kill_engaged :: "KillStore \<Rightarrow> string \<Rightarrow> bool" where
  "kill_engaged s k \<longleftrightarrow> map_of s k \<noteq> None"

interpretation memkill: breaker kill_engaged kill_apply op_releases
proof (unfold_locales, goal_cases)
  case (1 s k op)
  then show ?case
    by (cases op) (auto simp: kill_engaged_def Engage_def Release_def update_conv' delete_conv' restrict_map_def
        split: option.splits)
qed

lemma Engage_engaged: "kill_Validate e = None \<Longrightarrow> kill_engaged (snd (Engage now e s)) (kill_key e)"
  by (auto simp: kill_engaged_def Engage_def update_conv' split: option.splits)

lemma trim_space_nonempty: "trim_space s \<noteq> [] \<Longrightarrow> s \<noteq> []"
  by auto

lemma engaged_halts:
  assumes "kill_Validate e = None" "covers e tenant agent" "kill_engaged s (kill_key e)"
  shows "Active s tenant agent \<noteq> None"
  using assms trim_space_nonempty [of "keTenant e"] trim_space_nonempty [of "keValue e"]
  by (auto simp: Active_def covers_def kill_Validate_def kill_key_def kill_engaged_def
      split: option.splits if_splits)

text \<open>
  C8. An engaged kill halts all the traffic it covers until it is released: after \<open>Engage\<close> of a valid
  entry, and any later sequence of engages and of releases of other scopes, \<open>Active\<close> reports a halt for
  every tenant and agent the entry covers.
\<close>

theorem kill_halts_until_released:
  assumes "kill_Validate e = None" and "covers e tenant agent"
    and "list_all (\<lambda>op. \<not> op_releases (kill_key e) op) ops"
  shows "Active (fold kill_apply ops (snd (Engage now e s))) tenant agent \<noteq> None"
  using engaged_halts [OF assms(1,2)] memkill.engaged_until_released [OF Engage_engaged [OF assms(1)] assms(3)]
  by blast

definition sample_kill :: KillEntry where
  "sample_kill = \<lparr>keType = ScopeAgent, keTenant = ''acme'', keValue = ''ap-agent'', keReason = ''incident'',
     keSetAt = 0, keSetBy = []\<rparr>"

theorem kill_halts_until_released_witness:
  "Active (fold kill_apply [OpRelease ScopeTenant ''acme'' []] (snd (Engage 7 sample_kill kill_NewMemoryStore)))
     ''acme'' ''ap-agent'' \<noteq> None"
proof -
  have "kill_Validate sample_kill = None" by code_simp
  moreover have "covers sample_kill ''acme'' ''ap-agent''" by code_simp
  moreover have "list_all (\<lambda>op. \<not> op_releases (kill_key sample_kill) op) [OpRelease ScopeTenant ''acme'' []]"
    by code_simp
  ultimately show ?thesis by (rule kill_halts_until_released)
qed

subsection \<open>Keys and what they tell apart\<close>

lemma split_at_bar:
  "CHR ''|'' \<notin> set a \<Longrightarrow> CHR ''|'' \<notin> set b \<Longrightarrow> a @ CHR ''|'' # x = b @ CHR ''|'' # y \<longleftrightarrow> a = b \<and> x = y"
  by (auto simp: append_eq_append_conv2 append_eq_Cons_conv Cons_eq_append_conv)

lemma scope_key_inj:
  assumes "CHR ''|'' \<notin> set ty" "CHR ''|'' \<notin> set ty'" "CHR ''|'' \<notin> set t" "CHR ''|'' \<notin> set t'"
  shows "scope_key ty t v = scope_key ty' t' v' \<longleftrightarrow> ty = ty' \<and> t = t' \<and> v = v'"
  using assms by (auto simp: scope_key_def split_at_bar)

text \<open>Every stored entry is valid and stands under its own key; a property of all reachable stores.\<close>

definition kill_wf :: "KillStore \<Rightarrow> bool" where
  "kill_wf s \<longleftrightarrow> (\<forall>k e. map_of s k = Some e \<longrightarrow> kill_key e = k \<and> kill_Validate e = None)"

lemma kill_wf_empty [simp]: "kill_wf kill_NewMemoryStore"
  by (simp add: kill_wf_def kill_NewMemoryStore_def)

lemma kill_update_simps [simp]:
  "kill_key (e\<lparr>keReason := r\<rparr>) = kill_key e" "kill_Validate (e\<lparr>keReason := r\<rparr>) = kill_Validate e"
  "kill_key (e\<lparr>keSetAt := n\<rparr>) = kill_key e" "kill_Validate (e\<lparr>keSetAt := n\<rparr>) = kill_Validate e"
  by (simp_all add: kill_key_def kill_Validate_def)

lemma kill_wf_apply: "kill_wf s \<Longrightarrow> kill_wf (kill_apply op s)"
  by (cases op) (auto simp: kill_wf_def Engage_def Release_def update_conv' delete_conv' restrict_map_def
      split: option.splits if_splits)

lemma kill_wf_run: "kill_wf s \<Longrightarrow> kill_wf (fold kill_apply ops s)"
  by (induction ops arbitrary: s) (auto intro: kill_wf_apply)

lemma valid_type_no_bar: "kill_Validate e = None \<Longrightarrow> CHR ''|'' \<notin> set (keType e)"
  by (auto simp: kill_Validate_def scopes split: if_splits)

lemma Active_cases:
  assumes "Active s tenant agent = Some e"
  obtains "map_of s (scope_key ScopeGlobal [] []) = Some e"
  | "map_of s (scope_key ScopeTenant tenant []) = Some e"
  | "map_of s (scope_key ScopeAgent tenant agent) = Some e"
  using assms by (auto simp: Active_def split: option.splits if_splits)

text \<open>
  No kill reaches past its scope: on every store an operator history can produce, if \<open>Active\<close>
  halts a call then the entry it reports was engaged for that traffic, provided tenant names do not
  contain the separator of the storage key.
\<close>

theorem kill_halts_only_covered:
  assumes "Active (fold kill_apply ops kill_NewMemoryStore) tenant agent = Some e"
    and "CHR ''|'' \<notin> set tenant" and "CHR ''|'' \<notin> set (keTenant e)"
  shows "covers e tenant agent"
proof -
  let ?s = "fold kill_apply ops kill_NewMemoryStore"
  have wf: "kill_key e = k \<and> kill_Validate e = None" if "map_of ?s k = Some e" for k
    using kill_wf_run [OF kill_wf_empty, of ops] that by (simp add: kill_wf_def)
  have inj: "keType e = ty \<and> keTenant e = t \<and> keValue e = v"
    if "map_of ?s (scope_key ty t v) = Some e" "CHR ''|'' \<notin> set ty" "CHR ''|'' \<notin> set t" for ty t v
    using wf [OF that(1)] valid_type_no_bar [of e] assms(3) that(2,3)
    by (simp add: kill_key_def scope_key_inj)
  from assms(1) show ?thesis
  proof (cases rule: Active_cases)
    case 1
    from inj [OF this] show ?thesis by (simp add: covers_def scopes)
  next
    case 2
    from inj [OF this] assms(2) show ?thesis by (simp add: covers_def scopes)
  next
    case 3
    from inj [OF this] assms(2) show ?thesis by (simp add: covers_def scopes)
  qed
qed

theorem kill_halts_only_covered_witness:
  "\<exists>e. Active (fold kill_apply [OpEngage 7 sample_kill] kill_NewMemoryStore) ''acme'' ''ap-agent'' = Some e
     \<and> covers e ''acme'' ''ap-agent''"
proof -
  have a: "Active (fold kill_apply [OpEngage 7 sample_kill] kill_NewMemoryStore) ''acme'' ''ap-agent''
      = Some (sample_kill\<lparr>keSetAt := 7\<rparr>)" by code_simp
  show ?thesis
    using kill_halts_only_covered [OF a] a by (auto simp: sample_kill_def)
qed

text \<open>
  The hypothesis on the separator is needed: an agent kill in one tenant also halts an agent of
  another tenant when the names contain a vertical bar, because the two storage keys are the same text.
\<close>

theorem kill_key_collision:
  "\<exists>e e'. keTenant e \<noteq> keTenant e' \<and> kill_Validate e = None \<and> kill_Validate e' = None
     \<and> Active (snd (Engage 7 e kill_NewMemoryStore)) (keTenant e') (keValue e') \<noteq> None
     \<and> \<not> covers e (keTenant e') (keValue e')"
proof -
  let ?e = "\<lparr>keType = ScopeAgent, keTenant = ''a'', keValue = ''b|c'', keReason = [], keSetAt = 0, keSetBy = []\<rparr>"
  let ?f = "\<lparr>keType = ScopeAgent, keTenant = ''a|b'', keValue = ''c'', keReason = [], keSetAt = 0, keSetBy = []\<rparr>"
  have "keTenant ?e \<noteq> keTenant ?f \<and> kill_Validate ?e = None \<and> kill_Validate ?f = None
     \<and> Active (snd (Engage 7 ?e kill_NewMemoryStore)) (keTenant ?f) (keValue ?f) \<noteq> None
     \<and> \<not> covers ?e (keTenant ?f) (keValue ?f)"
    by code_simp
  then show ?thesis by blast
qed

end
