(* ===== verification/TenantScope.thy ===== *)
theory TenantScope
  imports Json
begin

text \<open>
  Package \<open>internal/tenantscope\<close>: tenant isolation on the arguments of retrieval tools. \<open>ts_Check\<close> is
  \<open>Enforcer.Check\<close> and returns the argument map as the call leaves it, since the code may write the
  tenant into it. The texts of reasons, which quote names with \<open>%q\<close>, are constructors.
\<close>

type_synonym Action = string

definition ActionBlock :: Action where "ActionBlock = ''block''"
definition ActionInject :: Action where "ActionInject = ''inject''"
definition ActionAllow :: Action where "ActionAllow = ''allow''"

lemmas ts_actions = ActionBlock_def ActionInject_def ActionAllow_def

datatype ts_error = UnknownAction string | NilEnforcer | EmptyToolName string | NilMap

definition ts_ParseAction :: "string \<Rightarrow> ts_error + Action" where
  "ts_ParseAction s =
     (let t = to_lower (trim_space s) in
      if t = [] then Inr ActionBlock
      else if t = ''block'' then Inr ActionBlock
      else if t = ''inject'' then Inr ActionInject
      else if t = ''allow'' then Inr ActionAllow
      else Inl (UnknownAction s))"

datatype ViolationKind = NoViolation | KindMissing | KindWildcard | KindMismatch

datatype ts_reason =
    NoReason
  | FilterAbsent string string
  | NoTenantToInject string
  | InjectFailed ts_error
  | FilterWildcard string string
  | FilterNotString string string
  | NoTenantClaim string
  | FilterMismatch string string

record ScopeDecision =
  sdAction :: Action
  sdViolation :: ViolationKind
  sdReason :: ts_reason
  sdMutated :: bool
  sdTool :: string

definition Allowed :: "ScopeDecision \<Rightarrow> bool" where
  "Allowed d \<longleftrightarrow> sdViolation d = NoViolation \<or> sdAction d = ActionAllow
     \<or> (sdAction d = ActionInject \<and> sdMutated d \<and> sdViolation d = KindMissing)"

record Enforcer =
  enScoped :: "string \<rightharpoonup> string"
  enDefault :: Action
  enPerTool :: "string \<rightharpoonup> Action"

definition NewEnforcer :: "Action \<Rightarrow> Enforcer" where
  "NewEnforcer a = \<lparr>enScoped = Map.empty, enDefault = (if a = [] then ActionBlock else a), enPerTool = Map.empty\<rparr>"

definition AddTool :: "string \<Rightarrow> string \<Rightarrow> Enforcer \<Rightarrow> Enforcer" where
  "AddTool name path e = e\<lparr>enScoped := (enScoped e)(name \<mapsto> path)\<rparr>"

definition SetToolAction :: "string \<Rightarrow> Action \<Rightarrow> Enforcer \<Rightarrow> Enforcer" where
  "SetToolAction name a e = e\<lparr>enPerTool := (enPerTool e)(name := if a = [] then None else Some a)\<rparr>"

definition IsScoped :: "Enforcer \<Rightarrow> string \<Rightarrow> bool" where
  "IsScoped e tool \<longleftrightarrow> enScoped e tool \<noteq> None"

subsection \<open>Paths into the arguments\<close>

fun read_segs :: "json \<Rightarrow> string list \<Rightarrow> json option" where
  "read_segs cur [] = Some cur"
| "read_segs (JObj m) (s # ss) = (case map_of m s of None \<Rightarrow> None | Some v \<Rightarrow> read_segs v ss)"
| "read_segs _ (s # ss) = None"

definition readPath :: "args \<Rightarrow> string \<Rightarrow> json option" where
  "readPath m path = read_segs (JObj (case m of None \<Rightarrow> [] | Some o' \<Rightarrow> o')) (split_on CHR ''.'' path)"

fun write_segs :: "(string \<times> json) list \<Rightarrow> string list \<Rightarrow> string \<Rightarrow> (string \<times> json) list" where
  "write_segs m [] v = m"
| "write_segs m [s] v = AList.update s (JStr v) m"
| "write_segs m (s # s' # ss) v =
     (let next = (case map_of m s of Some (JObj o') \<Rightarrow> o' | _ \<Rightarrow> [])
      in AList.update s (JObj (write_segs next (s' # ss) v)) m)"

definition writePath :: "args \<Rightarrow> string \<Rightarrow> string \<Rightarrow> ts_error + args" where
  "writePath m path v =
     (case m of None \<Rightarrow> Inl NilMap | Some o' \<Rightarrow> Inr (Some (write_segs o' (split_on CHR ''.'' path) v)))"

definition isWildcardValue :: "json \<Rightarrow> bool" where
  "isWildcardValue v =
     (case v of
        JNull \<Rightarrow> True
      | JStr x \<Rightarrow> (let t = to_lower (trim_space x) in t = [] \<or> t = ''*'' \<or> t = ''all'' \<or> t = ''any'')
      | JBool _ \<Rightarrow> True
      | _ \<Rightarrow> False)"

subsection \<open>The check\<close>

definition ts_Check :: "Enforcer option \<Rightarrow> string \<Rightarrow> string \<Rightarrow> args \<Rightarrow> ScopeDecision \<times> args" where
  "ts_Check en tool tokenTenant m =
     (let d0 = \<lparr>sdAction = [], sdViolation = NoViolation, sdReason = NoReason, sdMutated = False, sdTool = tool\<rparr> in
      case en of
        None \<Rightarrow> (d0, m)
      | Some e \<Rightarrow>
          (case enScoped e tool of
             None \<Rightarrow> (d0, m)
           | Some path \<Rightarrow>
               (let action = (case enPerTool e tool of Some a \<Rightarrow> a | None \<Rightarrow> enDefault e);
                    d = d0\<lparr>sdAction := action\<rparr>
                in case readPath m path of
                     None \<Rightarrow>
                       (if action = ActionInject then
                          (if tokenTenant = [] then
                             (d\<lparr>sdViolation := KindMissing, sdAction := ActionBlock,
                                sdReason := NoTenantToInject path\<rparr>, m)
                           else case writePath m path tokenTenant of
                             Inl err \<Rightarrow> (d\<lparr>sdViolation := KindMissing, sdAction := ActionBlock,
                                           sdReason := InjectFailed err\<rparr>, m)
                           | Inr m' \<Rightarrow> (d\<lparr>sdReason := FilterAbsent path tool, sdMutated := True\<rparr>, m'))
                        else (d\<lparr>sdViolation := KindMissing, sdReason := FilterAbsent path tool\<rparr>, m))
                   | Some v \<Rightarrow>
                       (if isWildcardValue v then
                          (d\<lparr>sdViolation := KindWildcard, sdReason := FilterWildcard path tool\<rparr>, m)
                        else case v of
                          JStr s \<Rightarrow>
                            (if tokenTenant = [] then
                               (d\<lparr>sdViolation := KindMismatch, sdReason := NoTenantClaim s\<rparr>, m)
                             else if s \<noteq> tokenTenant then
                               (d\<lparr>sdViolation := KindMismatch, sdReason := FilterMismatch path tool\<rparr>, m)
                             else (d, m))
                        | _ \<Rightarrow> (d\<lparr>sdViolation := KindMismatch, sdReason := FilterNotString path tool\<rparr>, m)))))"

subsection \<open>Configuration\<close>

text \<open>\<open>strings.Cut\<close>: the text before and after the first separator, and whether there is one.\<close>

fun str_cut :: "char \<Rightarrow> string \<Rightarrow> string \<times> string \<times> bool" where
  "str_cut c [] = ([], [], False)"
| "str_cut c (x # xs) =
     (if x = c then ([], xs, True) else case str_cut c xs of (a, b, f) \<Rightarrow> (x # a, b, f))"

fun load_entries :: "string list \<Rightarrow> Enforcer \<Rightarrow> ts_error option \<times> Enforcer" where
  "load_entries [] e = (None, e)"
| "load_entries (r # rs) e =
     (let raw = trim_space r in
      if raw = [] then load_entries rs e
      else case str_cut CHR '':'' raw of
        (n, p, hasPath) \<Rightarrow>
          (let name = trim_space n; path = trim_space p in
           if name = [] then (Some (EmptyToolName raw), e)
           else load_entries rs (AddTool name (if \<not> hasPath \<or> path = [] then ''tenant_id'' else path) e)))"

definition LoadFromCSV :: "string \<Rightarrow> Enforcer \<Rightarrow> ts_error option \<times> Enforcer" where
  "LoadFromCSV csv e = load_entries (split_on CHR '','' csv) e"

subsection \<open>Isolation\<close>

lemma read_write_segs:
  "segs \<noteq> [] \<Longrightarrow> read_segs (JObj (write_segs m segs v)) segs = Some (JStr v)"
  by (induction m segs v rule: write_segs.induct) (simp_all add: update_conv' Let_def)

lemma readPath_writePath:
  "writePath m path v = Inr m' \<Longrightarrow> readPath m' path = Some (JStr v)"
  by (auto simp: writePath_def readPath_def read_write_segs split: option.splits)

lemma ts_Check_carries:
  assumes "ts_Check (Some e) tool tenant m = (d, m')" and "enScoped e tool = Some path"
    and "Allowed d" and "sdAction d \<noteq> ActionAllow"
  shows "readPath m' path = Some (JStr tenant)" and "tenant \<noteq> []"
  using assms
  by (auto simp: ts_Check_def Let_def Allowed_def readPath_writePath
      split: option.splits if_splits sum.splits json.splits)

lemma ts_Check_mutates:
  assumes "ts_Check (Some e) tool tenant m = (d, m')" and "enScoped e tool = Some path"
  shows "if sdMutated d then sdAction d = ActionInject \<and> readPath m path = None else m' = m"
  using assms by (auto simp: ts_Check_def Let_def split: option.splits if_splits sum.splits json.splits)

text \<open>
  C16. Tenant isolation: when a scoped tool's call is let through under an action other than the
  telemetry-only \<open>allow\<close>, the decoded arguments that go on carry, at the tool's filter path, exactly the
  tenant of the verified token, and that tenant is not empty. Unless the decision says it wrote the tenant
  in, these are the arguments as they were received, which are also what the upstream is sent; it wrote the
  tenant in only under the action \<open>inject\<close> and where the path was absent, and then into the gateway's decoded
  copy only, which is not what is forwarded.
\<close>

theorem tenant_scope_isolates:
  assumes "ts_Check (Some e) tool tenant m = (d, m')" and "enScoped e tool = Some path"
    and "Allowed d" and "sdAction d \<noteq> ActionAllow"
  shows "readPath m' path = Some (JStr tenant) \<and> tenant \<noteq> []
    \<and> (if sdMutated d then sdAction d = ActionInject \<and> readPath m path = None else m' = m)"
  using ts_Check_carries [OF assms] ts_Check_mutates [OF assms(1,2)] by blast

definition sample_enforcer :: Enforcer where
  "sample_enforcer = snd (LoadFromCSV ''vector_search:filter.tenant_id, lookup'' (NewEnforcer ActionInject))"

theorem tenant_scope_isolates_witness:
  "\<exists>d m'. ts_Check (Some sample_enforcer) ''vector_search'' ''acme'' (Some [(''q'', JStr ''x'')]) = (d, m')
     \<and> readPath m' ''filter.tenant_id'' = Some (JStr ''acme'') \<and> sdMutated d
     \<and> readPath (Some [(''q'', JStr ''x'')]) ''filter.tenant_id'' = None"
proof -
  have c: "ts_Check (Some sample_enforcer) ''vector_search'' ''acme'' (Some [(''q'', JStr ''x'')]) =
    (\<lparr>sdAction = ActionInject, sdViolation = NoViolation,
       sdReason = FilterAbsent ''filter.tenant_id'' ''vector_search'', sdMutated = True, sdTool = ''vector_search''\<rparr>,
     Some [(''q'', JStr ''x''), (''filter'', JObj [(''tenant_id'', JStr ''acme'')])])" by code_simp
  have "enScoped sample_enforcer ''vector_search'' = Some ''filter.tenant_id''" by code_simp
  from tenant_scope_isolates [OF c this] c show ?thesis by (auto simp: Allowed_def ts_actions)
qed

text \<open>
  Scoped calls that name no tenant, a wildcard or another tenant are refused in blocking mode, and
  a refused or unscoped call keeps its arguments as they were.
\<close>

theorem tenant_scope_refuses:
  assumes "enScoped e tool = Some path" and "enPerTool e tool = None" and "enDefault e = ActionBlock"
    and "readPath m path \<noteq> Some (JStr tenant) \<or> tenant = []"
  shows "\<not> Allowed (fst (ts_Check (Some e) tool tenant m)) \<and> snd (ts_Check (Some e) tool tenant m) = m"
  using assms
  by (auto simp: ts_Check_def Let_def Allowed_def ts_actions split: option.splits json.splits)

theorem tenant_scope_refuses_witness:
  "\<not> Allowed (fst (ts_Check (Some (AddTool ''search'' ''tenant_id'' (NewEnforcer []))) ''search'' ''acme''
       (Some [(''tenant_id'', JStr ''*'')])))"
  using tenant_scope_refuses [of "AddTool ''search'' ''tenant_id'' (NewEnforcer [])" "''search''" "''tenant_id''"
      "Some [(''tenant_id'', JStr ''*'')]" "''acme''"]
  by (simp add: AddTool_def NewEnforcer_def readPath_def)

end
