(* ===== verification/TaskBinder.thy ===== *)
theory TaskBinder
  imports GoBase "HOL-Library.AList"
begin

text \<open>
  Package \<open>internal/task\<close>: task-level intent binding. \<open>Bind\<close> loads the task of a call, scores the call
  against the plan captured at the first call, and stores the task back; \<open>bind_score\<close> is the part between
  the load and the store. The store is a parameter with the contract of the locale \<open>task_store\<close>, which
  the in-memory store interprets.
\<close>

datatype TaskStatus = StatusActive | StatusFlagged | StatusHalted

record Task =
  taID :: string
  taTenant :: string
  taAgent :: string
  taIntent :: string
  taPlan :: "string list"
  taTools :: "string list"
  taCalls :: int
  taDrift :: int
  taStatus :: TaskStatus
  taStartedAt :: gotime
  taUpdatedAt :: gotime

datatype Outcome = OutcomeAllow | OutcomeFlag | OutcomeBlock

record BindResult =
  brOutcome :: Outcome
  brDrift :: int
  brReason :: string
  brTask :: "Task option"

record TaskConfig =
  tcEnabled :: bool
  tcMaxCalls :: int
  tcPlanSlack :: int
  tcOffPlanWeight :: int
  tcOverBudgetWeight :: int
  tcDistinctWeight :: int
  tcWarnScore :: int
  tcBlockScore :: int

definition DefaultConfig :: TaskConfig where
  "DefaultConfig = \<lparr>tcEnabled = False, tcMaxCalls = 50, tcPlanSlack = 2, tcOffPlanWeight = 3,
     tcOverBudgetWeight = 2, tcDistinctWeight = 2, tcWarnScore = 3, tcBlockScore = 9\<rparr>"

fun dedup_loop :: "string list \<Rightarrow> string list \<Rightarrow> string list" where
  "dedup_loop seen [] = []"
| "dedup_loop seen (r # xs) =
     (let x = trim_space r in
      if x = [] then dedup_loop seen xs
      else if x \<in> set seen then dedup_loop seen xs
      else x # dedup_loop (x # seen) xs)"

definition dedup :: "string list \<Rightarrow> string list" where
  "dedup xs = dedup_loop [] xs"

definition new_task :: "gotime \<Rightarrow> string \<Rightarrow> string \<Rightarrow> string \<Rightarrow> string list \<Rightarrow> string \<Rightarrow> Task" where
  "new_task now tenant agent tid plan summary =
     \<lparr>taID = tid, taTenant = tenant, taAgent = agent, taIntent = summary, taPlan = dedup plan, taTools = [],
      taCalls = 0, taDrift = 0, taStatus = StatusActive, taStartedAt = now, taUpdatedAt = 0\<rparr>"

text \<open>The increments of drift of one call, each with its reason, in the order the code adds them.\<close>

definition score_parts :: "TaskConfig \<Rightarrow> Task \<Rightarrow> string \<Rightarrow> (int \<times> string) list" where
  "score_parts cfg t tool =
     (if taPlan t \<noteq> [] \<and> tool \<notin> set (taPlan t) then [(tcOffPlanWeight cfg, ''off-plan tool '' @ tool)] else [])
     @ (if 0 < tcMaxCalls cfg \<and> tcMaxCalls cfg < taCalls t then [(tcOverBudgetWeight cfg, ''over call budget'')]
        else [])
     @ (let limit = (if taPlan t \<noteq> [] then int (length (taPlan t)) + tcPlanSlack cfg else tcPlanSlack cfg)
        in if 0 < limit \<and> limit < int (length (taTools t)) then [(tcDistinctWeight cfg, ''distinct-tool growth'')]
           else [])"

definition bind_score :: "TaskConfig \<Rightarrow> gotime \<Rightarrow> string \<Rightarrow> Task \<Rightarrow> BindResult \<times> Task" where
  "bind_score cfg now tool t =
     (if taStatus t = StatusHalted then
        (let t' = t\<lparr>taUpdatedAt := now\<rparr> in
         (\<lparr>brOutcome = OutcomeBlock, brDrift = taDrift t', brReason = ''task halted by earlier drift'',
           brTask = Some t'\<rparr>, t'))
      else
        (let t1 = t\<lparr>taCalls := taCalls t + 1,
                    taTools := (if tool \<in> set (taTools t) then taTools t else taTools t @ [tool])\<rparr>;
             parts = score_parts cfg t1 tool;
             t2 = t1\<lparr>taDrift := taDrift t1 + sum_list (map fst parts), taUpdatedAt := now\<rparr>;
             (out, t3) =
               (if 0 < tcBlockScore cfg \<and> tcBlockScore cfg \<le> taDrift t2
                  then (OutcomeBlock, t2\<lparr>taStatus := StatusHalted\<rparr>)
                else if 0 < tcWarnScore cfg \<and> tcWarnScore cfg \<le> taDrift t2
                  then (OutcomeFlag, if taStatus t2 = StatusActive then t2\<lparr>taStatus := StatusFlagged\<rparr> else t2)
                else (OutcomeAllow, t2))
         in (\<lparr>brOutcome = out, brDrift = taDrift t3, brReason = str_join ''; '' (map snd parts), brTask = Some t3\<rparr>, t3)))"

text \<open>The store reads a task or fails, and writes a task or fails.\<close>

definition Bind ::
  "('st \<Rightarrow> string \<Rightarrow> string \<Rightarrow> string + Task option) \<Rightarrow> (Task \<Rightarrow> 'st \<Rightarrow> string option \<times> 'st) \<Rightarrow> TaskConfig
    \<Rightarrow> gotime \<Rightarrow> string \<Rightarrow> string \<Rightarrow> string \<Rightarrow> string \<Rightarrow> string list \<Rightarrow> string \<Rightarrow> 'st
    \<Rightarrow> (BindResult \<times> string option) \<times> 'st" where
  "Bind get upsert cfg now tenant agent tid tool plan summary s =
     (let allow = \<lparr>brOutcome = OutcomeAllow, brDrift = 0, brReason = [], brTask = None\<rparr> in
      if \<not> tcEnabled cfg \<or> trim_space tid = [] then ((allow, None), s)
      else case get s tenant tid of
        Inl err \<Rightarrow> ((allow, Some err), s)
      | Inr found \<Rightarrow>
          (let t = (case found of Some t \<Rightarrow> t | None \<Rightarrow> new_task now tenant agent tid plan summary);
               (r, t') = bind_score cfg now tool t;
               (err, s') = upsert t' s
           in ((r, if taStatus t = StatusHalted then None else err), s')))"

subsection \<open>The in-memory store\<close>

type_synonym TaskStore = "(string \<times> Task) list"

definition memKey :: "string \<Rightarrow> string \<Rightarrow> string" where
  "memKey tenant tid = tenant @ ''|'' @ tid"

definition task_Get :: "TaskStore \<Rightarrow> string \<Rightarrow> string \<Rightarrow> string + Task option" where
  "task_Get s tenant tid = Inr (map_of s (memKey tenant tid))"

definition task_Upsert :: "Task \<Rightarrow> TaskStore \<Rightarrow> string option \<times> TaskStore" where
  "task_Upsert t s = (None, AList.update (memKey (taTenant t) (taID t)) t s)"

definition task_List :: "TaskStore \<Rightarrow> string \<Rightarrow> int \<Rightarrow> nat \<Rightarrow> Task list" where
  "task_List s tenant limit offset =
     (let out = newest_first taUpdatedAt (filter (\<lambda>t. tenant = [] \<or> taTenant t = tenant) (map snd s))
      in if length out < offset then []
         else (let rest = drop offset out in
               if 0 < limit \<and> limit < int (length rest) then take (nat limit) rest else rest))"

subsection \<open>One call\<close>

definition weights_ok :: "TaskConfig \<Rightarrow> bool" where
  "weights_ok cfg \<longleftrightarrow> 0 \<le> tcOffPlanWeight cfg \<and> 0 \<le> tcOverBudgetWeight cfg \<and> 0 \<le> tcDistinctWeight cfg"

lemma score_parts_bound:
  assumes "weights_ok cfg"
  shows "0 \<le> sum_list (map fst (score_parts cfg t tool))"
    and "taPlan t \<noteq> [] \<Longrightarrow> tool \<notin> set (taPlan t) \<Longrightarrow>
      tcOffPlanWeight cfg \<le> sum_list (map fst (score_parts cfg t tool))"
  using assms by (simp_all add: score_parts_def weights_ok_def Let_def)

lemma bind_score_envelope:
  assumes "bind_score cfg now tool t = (r, t')"
  shows "taPlan t' = taPlan t" "taID t' = taID t" "taTenant t' = taTenant t" "taIntent t' = taIntent t"
  using assms by (auto simp: bind_score_def Let_def split: if_splits)

lemma bind_score_halted:
  "taStatus t = StatusHalted \<Longrightarrow> bind_score cfg now tool t = (r, t') \<Longrightarrow>
     brOutcome r = OutcomeBlock \<and> taStatus t' = StatusHalted"
  by (auto simp: bind_score_def Let_def)

lemma bind_score_pass:
  assumes "bind_score cfg now tool t = (r, t')" "brOutcome r \<noteq> OutcomeBlock"
  shows "taDrift t' = taDrift t + sum_list (map fst (score_parts cfg (t\<lparr>taCalls := taCalls t + 1,
      taTools := (if tool \<in> set (taTools t) then taTools t else taTools t @ [tool])\<rparr>) tool))"
    and "0 < tcBlockScore cfg \<Longrightarrow> taDrift t' < tcBlockScore cfg"
  using assms by (auto simp: bind_score_def Let_def split: if_splits)

lemma bind_score_block:
  assumes "bind_score cfg now tool t = (r, t')" "brOutcome r = OutcomeBlock"
  shows "taStatus t' = StatusHalted"
  using assms by (auto simp: bind_score_def Let_def split: if_splits)

subsection \<open>Sequences of calls\<close>

record task_call =
  caNow :: gotime
  caTenant :: string
  caAgent :: string
  caTask :: string
  caTool :: string
  caPlan :: "string list"
  caSummary :: string

fun bind_run :: "('st \<Rightarrow> string \<Rightarrow> string \<Rightarrow> string + Task option) \<Rightarrow> (Task \<Rightarrow> 'st \<Rightarrow> string option \<times> 'st)
    \<Rightarrow> TaskConfig \<Rightarrow> task_call list \<Rightarrow> 'st \<Rightarrow> (task_call \<times> BindResult) list" where
  "bind_run get upsert cfg [] s = []"
| "bind_run get upsert cfg (c # cs) s =
     (case Bind get upsert cfg (caNow c) (caTenant c) (caAgent c) (caTask c) (caTool c) (caPlan c) (caSummary c) s of
        ((r, err), s') \<Rightarrow> (c, r) # bind_run get upsert cfg cs s')"

definition passed :: "task_call \<times> BindResult \<Rightarrow> bool" where
  "passed x \<longleftrightarrow> brOutcome (snd x) \<noteq> OutcomeBlock"

definition call_key :: "(string \<Rightarrow> string \<Rightarrow> string) \<Rightarrow> task_call \<Rightarrow> string" where
  "call_key key c = key (caTenant c) (caTask c)"

definition off_plan_passes :: "(string \<Rightarrow> string \<Rightarrow> string) \<Rightarrow> string \<Rightarrow> string list
    \<Rightarrow> (task_call \<times> BindResult) list \<Rightarrow> (task_call \<times> BindResult) list" where
  "off_plan_passes key k plan xs =
     filter (\<lambda>x. call_key key (fst x) = k \<and> caTool (fst x) \<notin> set plan \<and> passed x) xs"

text \<open>A store of tasks by a key computed from tenant and identifier; neither operation fails.\<close>

locale task_store =
  fixes get :: "'st \<Rightarrow> string \<Rightarrow> string \<Rightarrow> string + Task option"
    and upsert :: "Task \<Rightarrow> 'st \<Rightarrow> string option \<times> 'st"
    and key :: "string \<Rightarrow> string \<Rightarrow> string"
    and stored :: "'st \<Rightarrow> string \<Rightarrow> Task option"
  assumes get_stored: "get s tn i = Inr (stored s (key tn i))"
    and stored_upsert: "stored (snd (upsert t s)) = (stored s)(key (taTenant t) (taID t) \<mapsto> t)"
begin

definition own_keys :: "'st \<Rightarrow> bool" where
  "own_keys s \<longleftrightarrow> (\<forall>k t. stored s k = Some t \<longrightarrow> key (taTenant t) (taID t) = k)"

lemma Bind_step:
  assumes "own_keys s" "tcEnabled cfg" "trim_space (caTask c) \<noteq> []"
  defines "t \<equiv> (case stored s (call_key key c) of
      Some t \<Rightarrow> t
    | None \<Rightarrow> new_task (caNow c) (caTenant c) (caAgent c) (caTask c) (caPlan c) (caSummary c))"
  obtains r t' err s' where "bind_score cfg (caNow c) (caTool c) t = (r, t')"
    "Bind get upsert cfg (caNow c) (caTenant c) (caAgent c) (caTask c) (caTool c) (caPlan c) (caSummary c) s
       = ((r, err), s')"
    "stored s' = (stored s)(call_key key c \<mapsto> t')" "own_keys s'"
proof -
  obtain r t' where b: "bind_score cfg (caNow c) (caTool c) t = (r, t')" by fastforce
  have "key (taTenant t) (taID t) = call_key key c"
    using assms(1) by (auto simp: t_def own_keys_def new_task_def call_key_def split: option.splits)
  then have k: "key (taTenant t') (taID t') = call_key key c" using bind_score_envelope [OF b] by simp
  then have st: "stored (snd (upsert t' s)) = (stored s)(call_key key c \<mapsto> t')" by (simp add: stored_upsert)
  with assms(1) k have own: "own_keys (snd (upsert t' s))" by (auto simp: own_keys_def)
  show thesis
    by (rule that [OF b _ st own, of "if taStatus t = StatusHalted then None else fst (upsert t' s)"])
      (use b assms(2,3) in \<open>simp add: Bind_def get_stored Let_def t_def call_key_def split: prod.splits\<close>)
qed

lemma halted_run:
  assumes "own_keys s" "tcEnabled cfg" "\<forall>c \<in> set cs. trim_space (caTask c) \<noteq> []"
    and "stored s k = Some t" "taStatus t = StatusHalted"
  shows "\<forall>x \<in> set (bind_run get upsert cfg cs s). call_key key (fst x) = k \<longrightarrow> \<not> passed x"
  using assms
proof (induction cs arbitrary: s t)
  case (Cons c cs)
  then have ne: "trim_space (caTask c) \<noteq> []" by simp
  obtain r t' err s' where step: "bind_score cfg (caNow c) (caTool c) (case stored s (call_key key c) of
      Some t \<Rightarrow> t
    | None \<Rightarrow> new_task (caNow c) (caTenant c) (caAgent c) (caTask c) (caPlan c) (caSummary c)) = (r, t')"
    "Bind get upsert cfg (caNow c) (caTenant c) (caAgent c) (caTask c) (caTool c) (caPlan c) (caSummary c) s
       = ((r, err), s')"
    "stored s' = (stored s)(call_key key c \<mapsto> t')" "own_keys s'"
    by (rule Bind_step [OF Cons.prems(1,2) ne])
  show ?case
  proof (cases "call_key key c = k")
    case True
    with step(1) Cons.prems(4) have "bind_score cfg (caNow c) (caTool c) t = (r, t')" by simp
    from bind_score_halted [OF Cons.prems(5) this] have "brOutcome r = OutcomeBlock" "taStatus t' = StatusHalted"
      by auto
    with True step Cons.prems Cons.IH [of s' t'] show ?thesis by (auto simp: passed_def)
  next
    case False
    with step Cons.prems Cons.IH [of s' t] show ?thesis by auto
  qed
qed simp

lemma off_plan_run:
  assumes "own_keys s" "tcEnabled cfg" "\<forall>c \<in> set cs. trim_space (caTask c) \<noteq> []"
    and "weights_ok cfg" "0 < tcBlockScore cfg"
    and "stored s k = Some t" "taPlan t = plan" "plan \<noteq> []"
  defines "n \<equiv> int (length (off_plan_passes key k plan (bind_run get upsert cfg cs s)))"
  shows "n = 0 \<or> tcOffPlanWeight cfg * n + taDrift t < tcBlockScore cfg"
  using assms(1-8) unfolding n_def
proof (induction cs arbitrary: s t)
  case (Cons c cs)
  then have ne: "trim_space (caTask c) \<noteq> []" by simp
  obtain r t' err s' where step: "bind_score cfg (caNow c) (caTool c) (case stored s (call_key key c) of
      Some t \<Rightarrow> t
    | None \<Rightarrow> new_task (caNow c) (caTenant c) (caAgent c) (caTask c) (caPlan c) (caSummary c)) = (r, t')"
    "Bind get upsert cfg (caNow c) (caTenant c) (caAgent c) (caTask c) (caTool c) (caPlan c) (caSummary c) s
       = ((r, err), s')"
    "stored s' = (stored s)(call_key key c \<mapsto> t')" "own_keys s'"
    by (rule Bind_step [OF Cons.prems(1,2) ne])
  show ?case
  proof (cases "call_key key c = k")
    case True
    with step(1) Cons.prems(6) have sc: "bind_score cfg (caNow c) (caTool c) t = (r, t')" by simp
    have plan: "taPlan t' = plan" using bind_score_envelope(1) [OF sc] Cons.prems(7) by simp
    let ?rest = "off_plan_passes key k plan (bind_run get upsert cfg cs s')"
    show ?thesis
    proof (cases "brOutcome r = OutcomeBlock")
      case blk: True
      from bind_score_block [OF sc this] halted_run [OF step(4) Cons.prems(2), of cs k t'] True step(3)
        Cons.prems(3) have "?rest = []"
        by (auto simp: off_plan_passes_def filter_empty_conv)
      with blk step(2) show ?thesis by (simp add: off_plan_passes_def passed_def)
    next
      case pass: False
      note d = bind_score_pass [OF sc pass]
      have IH: "int (length ?rest) = 0 \<or> tcOffPlanWeight cfg * int (length ?rest) + taDrift t' < tcBlockScore cfg"
        using step(3,4) True plan Cons.prems by (intro Cons.IH) auto
      have ge: "taDrift t \<le> taDrift t'" "caTool c \<notin> set plan \<Longrightarrow> taDrift t + tcOffPlanWeight cfg \<le> taDrift t'"
        using d(1) score_parts_bound [OF Cons.prems(4)] Cons.prems(7,8) by auto
      have w: "0 \<le> tcOffPlanWeight cfg" using Cons.prems(4) by (simp add: weights_ok_def)
      have "off_plan_passes key k plan (bind_run get upsert cfg (c # cs) s)
          = (if caTool c \<notin> set plan then [(c, r)] else []) @ ?rest"
        using step(2) True pass by (simp add: off_plan_passes_def passed_def)
      with IH ge d(2) [OF Cons.prems(5)] w show ?thesis by (auto simp: algebra_simps)
    qed
  next
    case False
    with step Cons.prems Cons.IH [of s' t] show ?thesis by (auto simp: off_plan_passes_def)
  qed
qed (simp add: off_plan_passes_def)

end

interpretation memtask: task_store task_Get task_Upsert memKey map_of
  by unfold_locales (simp_all add: task_Get_def task_Upsert_def update_conv')

text \<open>
  A halted task stays halted: once the store holds a halted task, every later call of that task is
  blocked, whatever plan it declares and whatever other tasks do in between.
\<close>

theorem halted_task_stays_halted:
  assumes "tcEnabled cfg" and "\<forall>c \<in> set cs. trim_space (caTask c) \<noteq> []"
    and "taStatus t = StatusHalted"
  shows "list_all (\<lambda>x. call_key memKey (fst x) = memKey (taTenant t) (taID t) \<longrightarrow> brOutcome (snd x) = OutcomeBlock)
    (bind_run task_Get task_Upsert cfg cs [(memKey (taTenant t) (taID t), t)])"
proof -
  let ?k = "memKey (taTenant t) (taID t)"
  have own: "memtask.own_keys [(?k, t)]" by (auto simp: memtask.own_keys_def split: if_splits)
  have "map_of [(?k, t)] ?k = Some t" by simp
  from memtask.halted_run [OF own assms(1,2) this assms(3)] show ?thesis
    unfolding passed_def list_all_iff by blast
qed

text \<open>A task that plans to read and send, and its agent calling an undeclared tool four times.\<close>

definition sample_task_call :: "string \<Rightarrow> task_call" where
  "sample_task_call tool = \<lparr>caNow = 5, caTenant = ''acme'', caAgent = ''ap-agent'', caTask = ''t1'', caTool = tool,
     caPlan = [''read'', ''send''], caSummary = ''pay invoices''\<rparr>"

definition sample_config :: TaskConfig where
  "sample_config = DefaultConfig\<lparr>tcEnabled := True\<rparr>"

theorem halted_task_stays_halted_witness:
  "list_all (\<lambda>x. call_key memKey (fst x) = ''acme|t1'' \<longrightarrow> brOutcome (snd x) = OutcomeBlock)
     (bind_run task_Get task_Upsert sample_config [sample_task_call ''read'']
        [(''acme|t1'', (new_task 1 ''acme'' ''ap-agent'' ''t1'' [''read''] [])\<lparr>taStatus := StatusHalted\<rparr>)])"
proof -
  have ne: "trim_space ''t1'' \<noteq> []" by code_simp
  show ?thesis
    using halted_task_stays_halted [of sample_config "[sample_task_call ''read'']"
        "(new_task 1 ''acme'' ''ap-agent'' ''t1'' [''read''] [])\<lparr>taStatus := StatusHalted\<rparr>"] ne
    by (simp add: sample_config_def sample_task_call_def new_task_def memKey_def)
qed

text \<open>
  An agent cannot drift far from its declared plan: from an empty store, of the calls of a task to
  tools outside the plan its first call declared, the ones that get through weigh less than the block
  score together, whatever plans later calls declare.
\<close>

theorem off_plan_calls_bounded:
  assumes "tcEnabled cfg" and "weights_ok cfg" and "0 < tcBlockScore cfg"
    and "\<forall>c \<in> set (c0 # cs). trim_space (caTask c) \<noteq> []" and "dedup (caPlan c0) \<noteq> []"
  shows "tcOffPlanWeight cfg * int (length (off_plan_passes memKey (call_key memKey c0) (dedup (caPlan c0))
    (bind_run task_Get task_Upsert cfg (c0 # cs) []))) < tcBlockScore cfg"
proof -
  let ?plan = "dedup (caPlan c0)" and ?k = "call_key memKey c0"
  let ?t0 = "new_task (caNow c0) (caTenant c0) (caAgent c0) (caTask c0) (caPlan c0) (caSummary c0)"
  have key: "memKey (taTenant ?t0) (taID ?t0) = ?k" by (simp add: new_task_def call_key_def)
  have run: "bind_run task_Get task_Upsert cfg (c0 # cs) [] = bind_run task_Get task_Upsert cfg (c0 # cs) [(?k, ?t0)]"
    using bind_score_envelope assms(1,4)
    by (auto simp: Bind_def task_Get_def task_Upsert_def Let_def call_key_def new_task_def split: prod.splits)
  have "memtask.own_keys [(?k, ?t0)]" using key by (simp add: memtask.own_keys_def split: if_splits)
  from memtask.off_plan_run [OF this assms(1,4,2,3), of ?k ?t0 ?plan] assms(3,5) show ?thesis
    unfolding run by (auto simp: new_task_def)
qed

theorem off_plan_calls_bounded_witness:
  "3 * int (length (off_plan_passes memKey ''acme|t1'' (dedup [''read'', ''send''])
    (bind_run task_Get task_Upsert sample_config
       [sample_task_call ''read'', sample_task_call ''drop'', sample_task_call ''drop'', sample_task_call ''drop''] []))) < 9"
proof -
  have "trim_space ''t1'' \<noteq> []" "dedup [''read'', ''send''] \<noteq> []" by code_simp+
  then show ?thesis
    using off_plan_calls_bounded [of sample_config "sample_task_call ''read''"
        "[sample_task_call ''drop'', sample_task_call ''drop'', sample_task_call ''drop'']"]
    by (simp add: sample_config_def DefaultConfig_def sample_task_call_def weights_ok_def call_key_def memKey_def)
qed

end
