(* ===== verification/Approvals.thy ===== *)
theory Approvals
  imports Json Encoding
begin

text \<open>
  Package \<open>internal/approvals\<close>: the queue of calls that wait for a human. The in-memory store of
  \<open>memory.go\<close> is a map of rows, each with the wake channel that \<open>Wait\<close> blocks on; a channel is the
  boolean that says whether it is closed, and closing it twice is the panic it is in Go. \<open>Wait\<close> blocks,
  so it is split at its \<open>select\<close> into the lookup and the two ways it can resume; the operations that take
  the mutex are atomic steps of the relation \<open>appr_step\<close>. A row holds the argument map of the call by
  reference, and the request filter and the tenant scope of the waiting call write into that map in place
  without the mutex: such a write is a step of its own, \<open>rewriteArgs\<close>.
\<close>

datatype ApprovalStatus = StatusPending | StatusApproved | StatusRejected | StatusTimeout

datatype approvals_error = ErrAlreadyDecided | ErrNotFound | ErrBadDecision | ErrDuplicateID | ErrIDRand | ChannelPanic

record PendingRequest =
  prPendingID :: string
  prTenant :: string
  prCapabilityTokenID :: string
  prRootCapabilityTokenID :: string
  prAgentID :: string
  prTool :: string
  prArgs :: args
  prIntentSummary :: string
  prReason :: string
  prStatus :: ApprovalStatus
  prCreatedAt :: gotime
  prDecidedAt :: "gotime option"
  prDecidedBy :: string
  prDecideNote :: string
  prRequiresStepUp :: bool

record ApprovalDecision =
  adStatus :: ApprovalStatus
  adDecidedBy :: string
  adNote :: string

record ListFilter =
  lfStatus :: "ApprovalStatus option"
  lfTenant :: string
  lfLimit :: int
  lfOffset :: int

text \<open>\<open>id.go\<close>: four bytes of Unix seconds, then twelve random bytes; \<^const>\<open>None\<close> when the source fails.\<close>

definition NewPendingID :: "bytes option \<Rightarrow> gotime \<Rightarrow> approvals_error + string" where
  "NewPendingID rnd now =
     (case rnd of
        None \<Rightarrow> Inl ErrIDRand
      | Some r \<Rightarrow> Inr (rawurl_encode (be_bytes 4 (nat (unix now mod 2 ^ 32)) @ take 12 r)))"

record memRow =
  mrReq :: PendingRequest
  mrWakeClosed :: bool

type_synonym ApprovalStore = "(string \<times> memRow) list"

definition Enqueue :: "bytes option \<Rightarrow> gotime \<Rightarrow> PendingRequest \<Rightarrow> ApprovalStore
    \<Rightarrow> (approvals_error + PendingRequest) \<times> ApprovalStore" where
  "Enqueue rnd now req s =
     (case (if prPendingID req = [] then NewPendingID rnd now else Inr (prPendingID req)) of
        Inl e \<Rightarrow> (Inl e, s)
      | Inr pid \<Rightarrow>
          (let req' = req\<lparr>prPendingID := pid,
                         prCreatedAt := (if is_zero (prCreatedAt req) then now else prCreatedAt req),
                         prStatus := StatusPending\<rparr>
           in if map_of s pid \<noteq> None then (Inl ErrDuplicateID, s)
              else (Inr req', AList.update pid \<lparr>mrReq = req', mrWakeClosed = False\<rparr> s)))"

text \<open>\<open>close(row.wake)\<close> after the row has been updated; the panic leaves the mutex's state as it is.\<close>

definition close_wake :: "string \<Rightarrow> memRow \<Rightarrow> PendingRequest \<Rightarrow> ApprovalStore
    \<Rightarrow> (approvals_error + PendingRequest) \<times> ApprovalStore" where
  "close_wake pid row req s =
     (if mrWakeClosed row then (Inl ChannelPanic, AList.update pid (row\<lparr>mrReq := req\<rparr>) s)
      else (Inr req, AList.update pid \<lparr>mrReq = req, mrWakeClosed = True\<rparr> s))"

definition Decide :: "gotime \<Rightarrow> string \<Rightarrow> ApprovalDecision \<Rightarrow> ApprovalStore
    \<Rightarrow> (approvals_error + PendingRequest) \<times> ApprovalStore" where
  "Decide now pid dec s =
     (if adStatus dec \<noteq> StatusApproved \<and> adStatus dec \<noteq> StatusRejected then (Inl ErrBadDecision, s)
      else case map_of s pid of
        None \<Rightarrow> (Inl ErrNotFound, s)
      | Some row \<Rightarrow>
          (if prStatus (mrReq row) \<noteq> StatusPending then (Inl ErrAlreadyDecided, s)
           else close_wake pid row ((mrReq row)\<lparr>prStatus := adStatus dec, prDecidedAt := Some now,
                  prDecidedBy := adDecidedBy dec, prDecideNote := adNote dec\<rparr>) s))"

text \<open>
  The branches of the \<open>select\<close> in \<open>Wait\<close> on a row that was found: \<open>Wait_wake\<close> can run only when the
  channel is closed, \<open>Wait_done\<close> when the context is done.
\<close>

definition Wait_wake :: "string \<Rightarrow> ApprovalStore \<Rightarrow> PendingRequest option" where
  "Wait_wake pid s =
     (case map_of s pid of Some row \<Rightarrow> if mrWakeClosed row then Some (mrReq row) else None | None \<Rightarrow> None)"

definition Wait_done :: "gotime \<Rightarrow> string \<Rightarrow> ApprovalStore \<Rightarrow> (approvals_error + PendingRequest) \<times> ApprovalStore" where
  "Wait_done now pid s =
     (case map_of s pid of
        None \<Rightarrow> (Inl ErrNotFound, s)
      | Some row \<Rightarrow>
          (if prStatus (mrReq row) = StatusPending
           then close_wake pid row ((mrReq row)\<lparr>prStatus := StatusTimeout, prDecidedAt := Some now\<rparr>) s
           else (Inr (mrReq row), s)))"

definition appr_Get :: "string \<Rightarrow> ApprovalStore \<Rightarrow> approvals_error + PendingRequest" where
  "appr_Get pid s = (case map_of s pid of None \<Rightarrow> Inl ErrNotFound | Some row \<Rightarrow> Inr (mrReq row))"

definition appr_List :: "ListFilter \<Rightarrow> ApprovalStore \<Rightarrow> PendingRequest list" where
  "appr_List f s =
     (let rows = newest_first prCreatedAt
            (filter (\<lambda>r. (case lfStatus f of None \<Rightarrow> True | Some st \<Rightarrow> prStatus r = st)
                     \<and> (lfTenant f = [] \<or> prTenant r = lfTenant f)) (map (mrReq \<circ> snd) s));
          limit = (if lfLimit f \<le> 0 \<or> 1000 < lfLimit f then 100 else lfLimit f);
          offset = (if lfOffset f < 0 then 0 else lfOffset f)
      in page (nat offset) limit rows)"

text \<open>
  A write into an argument map that the rows \<open>pids\<close> share: one call may be parked several times, and all
  its rows hold the one map. A nil map cannot be written into.
\<close>

definition rewriteArgs :: "string list \<Rightarrow> (string \<times> json) list \<Rightarrow> ApprovalStore \<Rightarrow> ApprovalStore" where
  "rewriteArgs pids obj s = map (\<lambda>(pid, row). (pid,
     if pid \<in> set pids \<and> prArgs (mrReq row) \<noteq> None then row\<lparr>mrReq := (mrReq row)\<lparr>prArgs := Some obj\<rparr>\<rparr> else row)) s"

subsection \<open>The life of a row\<close>

datatype appr_event =
    EvEnqueue PendingRequest
  | EvDecide string ApprovalDecision
  | EvTimeout string
  | EvWoken PendingRequest
  | EvRewrite "string list" "(string \<times> json) list"

text \<open>Steps of the store, with what happened: an operation that fails changes nothing.\<close>

inductive appr_step :: "ApprovalStore \<Rightarrow> appr_event \<Rightarrow> ApprovalStore \<Rightarrow> bool" where
  enqueue: "Enqueue rnd now req s = (Inr row, s') \<Longrightarrow> appr_step s (EvEnqueue row) s'"
| decide: "Decide now pid dec s = (Inr row, s') \<Longrightarrow> appr_step s (EvDecide pid dec) s'"
| timeout: "Wait_done now pid s = (Inr row, s') \<Longrightarrow> appr_step s (EvTimeout pid) s'"
| woken: "Wait_wake pid s = Some row \<Longrightarrow> appr_step s (EvWoken row) s"
| rewrite: "appr_step s (EvRewrite pids obj) (rewriteArgs pids obj s)"

inductive appr_run :: "appr_event list \<Rightarrow> ApprovalStore \<Rightarrow> bool" where
  start: "appr_run [] []"
| extend: "appr_run es s \<Longrightarrow> appr_step s e s' \<Longrightarrow> appr_run (es @ [e]) s'"

definition row_ok :: "memRow \<Rightarrow> bool" where
  "row_ok row \<longleftrightarrow> (mrWakeClosed row \<longleftrightarrow> prStatus (mrReq row) \<noteq> StatusPending)"

definition appr_wf :: "ApprovalStore \<Rightarrow> bool" where
  "appr_wf s \<longleftrightarrow> (\<forall>pid row. map_of s pid = Some row \<longrightarrow> row_ok row \<and> prPendingID (mrReq row) = pid)"

lemmas appr_op_defs = Enqueue_def Decide_def Wait_done_def close_wake_def Wait_wake_def

lemma Decide_Inr:
  assumes "Decide now pid dec s = (Inr row, s')" "appr_wf s"
  obtains old where "map_of s pid = Some old" "prStatus (mrReq old) = StatusPending"
    "adStatus dec \<in> {StatusApproved, StatusRejected}"
    "row = (mrReq old)\<lparr>prStatus := adStatus dec, prDecidedAt := Some now, prDecidedBy := adDecidedBy dec,
       prDecideNote := adNote dec\<rparr>"
    "s' = AList.update pid \<lparr>mrReq = row, mrWakeClosed = True\<rparr> s"
  using assms by (auto simp: Decide_def close_wake_def split: if_splits option.splits)

lemma Wait_done_Inr:
  assumes "Wait_done now pid s = (Inr row, s')"
  obtains old where "map_of s pid = Some old" "prStatus (mrReq old) \<noteq> StatusPending" "row = mrReq old" "s' = s"
  | old where "map_of s pid = Some old" "prStatus (mrReq old) = StatusPending"
      "row = (mrReq old)\<lparr>prStatus := StatusTimeout, prDecidedAt := Some now\<rparr>"
      "s' = AList.update pid \<lparr>mrReq = row, mrWakeClosed = True\<rparr> s"
  using assms by (auto simp: Wait_done_def close_wake_def split: if_splits option.splits)

lemma Enqueue_Inr:
  assumes "Enqueue rnd now req s = (Inr row, s')"
  obtains "map_of s (prPendingID row) = None" "prStatus row = StatusPending"
    "s' = AList.update (prPendingID row) \<lparr>mrReq = row, mrWakeClosed = False\<rparr> s"
  using assms by (auto simp: Enqueue_def Let_def split: if_splits sum.splits)

lemma rewriteArgs_map: "map_of (rewriteArgs pids obj s) pid = map_option (\<lambda>row.
    if pid \<in> set pids \<and> prArgs (mrReq row) \<noteq> None then row\<lparr>mrReq := (mrReq row)\<lparr>prArgs := Some obj\<rparr>\<rparr> else row)
    (map_of s pid)"
  by (induction s) (auto simp: rewriteArgs_def)

lemma rewriteArgs_row:
  assumes "map_of (rewriteArgs pids obj s) pid = Some row"
  obtains old where "map_of s pid = Some old" "mrWakeClosed row = mrWakeClosed old"
    "mrReq row = (mrReq old)\<lparr>prArgs := prArgs (mrReq row)\<rparr>"
    "prArgs (mrReq row) = prArgs (mrReq old) \<or> pid \<in> set pids \<and> prArgs (mrReq row) = Some obj"
  using assms by (auto simp: rewriteArgs_map split: if_splits intro: that)

lemma appr_wf_step: "appr_step s e s' \<Longrightarrow> appr_wf s \<Longrightarrow> appr_wf s'"
proof (induction rule: appr_step.induct)
  case (enqueue rnd now req s row s')
  from enqueue(1) show ?case
    by (rule Enqueue_Inr) (use enqueue(2) in \<open>auto simp: appr_wf_def row_ok_def update_conv'\<close>)
next
  case (decide now pid dec s row s')
  from decide(1,2) show ?case
    by (rule Decide_Inr) (use decide(2) in \<open>auto simp: appr_wf_def row_ok_def update_conv'\<close>)
next
  case (timeout now pid s row s')
  from timeout(1) show ?case
    by (rule Wait_done_Inr) (use timeout(2) in \<open>auto simp: appr_wf_def row_ok_def update_conv'\<close>)
next
  case (rewrite s pids obj)
  show ?case unfolding appr_wf_def row_ok_def
  proof (intro allI impI)
    fix pid row
    assume "map_of (rewriteArgs pids obj s) pid = Some row"
    then obtain old where "map_of s pid = Some old" "mrWakeClosed row = mrWakeClosed old"
      and row: "mrReq row = (mrReq old)\<lparr>prArgs := prArgs (mrReq row)\<rparr>" by (rule rewriteArgs_row)
    moreover have "prStatus (mrReq row) = prStatus (mrReq old)" "prPendingID (mrReq row) = prPendingID (mrReq old)"
      by (subst row, simp)+
    ultimately show "mrWakeClosed row = (prStatus (mrReq row) \<noteq> StatusPending) \<and> prPendingID (mrReq row) = pid"
      using rewrite by (auto simp: appr_wf_def row_ok_def)
  qed
qed

lemma appr_wf_run: "appr_run es s \<Longrightarrow> appr_wf s"
  by (induction rule: appr_run.induct) (auto simp: appr_wf_def [of "[]"] intro: appr_wf_step)

text \<open>
  No interleaving of enqueues, operator decisions, timeouts and wake-ups closes a wake channel
  twice, so neither \<open>Decide\<close> nor a timing-out \<open>Wait\<close> panics; and a \<open>Wait\<close> that is woken never returns a
  row that is still pending.
\<close>

theorem approvals_never_panic:
  assumes "appr_run es s"
  shows "fst (Decide now pid dec s) \<noteq> Inl ChannelPanic \<and> fst (Wait_done now pid s) \<noteq> Inl ChannelPanic
    \<and> (\<forall>row. Wait_wake pid s = Some row \<longrightarrow> prStatus row \<noteq> StatusPending)"
  using appr_wf_run [OF assms]
  by (auto simp: appr_op_defs appr_wf_def row_ok_def split: option.splits if_splits)

definition sample_request :: PendingRequest where
  "sample_request = \<lparr>prPendingID = ''p1'', prTenant = ''acme'', prCapabilityTokenID = ''j1'',
     prRootCapabilityTokenID = ''j1'', prAgentID = ''ap-agent'', prTool = ''transfer_funds'',
     prArgs = Some [(''amount'', JNum 5000)], prIntentSummary = [], prReason = ''high_risk_payment'',
     prStatus = StatusTimeout, prCreatedAt = 3, prDecidedAt = None, prDecidedBy = [], prDecideNote = [],
     prRequiresStepUp = False\<rparr>"

definition sample_row :: PendingRequest where
  "sample_row = sample_request\<lparr>prStatus := StatusPending\<rparr>"

definition sample_approval :: ApprovalDecision where
  "sample_approval = \<lparr>adStatus = StatusApproved, adDecidedBy = ''cfo'', adNote = []\<rparr>"

definition sample_approved :: memRow where
  "sample_approved = \<lparr>mrReq = sample_row\<lparr>prStatus := StatusApproved, prDecidedAt := Some 9, prDecidedBy := ''cfo''\<rparr>,
     mrWakeClosed = True\<rparr>"

lemma sample_pending_run: "appr_run [EvEnqueue sample_row] [(''p1'', \<lparr>mrReq = sample_row, mrWakeClosed = False\<rparr>)]"
proof -
  have "Enqueue None 3 sample_request [] = (Inr sample_row, [(''p1'', \<lparr>mrReq = sample_row, mrWakeClosed = False\<rparr>)])"
    by (simp add: Enqueue_def sample_request_def sample_row_def is_zero_def Let_def)
  from appr_run.extend [OF appr_run.start appr_step.enqueue [OF this]] show ?thesis by simp
qed

lemma sample_approved_run:
  "appr_run [EvEnqueue sample_row, EvDecide ''p1'' sample_approval] [(''p1'', sample_approved)]"
proof -
  have "Decide 9 ''p1'' sample_approval [(''p1'', \<lparr>mrReq = sample_row, mrWakeClosed = False\<rparr>)]
      = (Inr (mrReq sample_approved), [(''p1'', sample_approved)])"
    by (simp add: Decide_def close_wake_def sample_approval_def sample_row_def sample_request_def sample_approved_def)
  from appr_run.extend [OF sample_pending_run appr_step.decide [OF this]] show ?thesis by simp
qed

theorem approvals_never_panic_witness:
  "appr_run [EvEnqueue sample_row, EvDecide ''p1'' sample_approval] [(''p1'', sample_approved)]
   \<and> fst (Decide 10 ''p1'' sample_approval [(''p1'', sample_approved)]) \<noteq> Inl ChannelPanic"
  using approvals_never_panic [OF sample_approved_run] sample_approved_run by blast

lemma decided_step:
  assumes "appr_step s e s'" "appr_wf s" "map_of s pid = Some row" "prStatus (mrReq row) \<noteq> StatusPending"
  shows "\<exists>args. map_of s' pid = Some (row\<lparr>mrReq := (mrReq row)\<lparr>prArgs := args\<rparr>\<rparr>)"
  using assms
proof (induction rule: appr_step.induct)
  case (enqueue rnd now req s row' s')
  from enqueue(1) show ?case
    by (rule Enqueue_Inr) (use enqueue(3) in \<open>auto simp: update_conv' intro!: exI [of _ "prArgs (mrReq row)"]\<close>)
next
  case (decide now pid' dec s row' s')
  from decide(1,2) show ?case
    by (rule Decide_Inr) (use decide(3,4) in \<open>auto simp: update_conv' intro!: exI [of _ "prArgs (mrReq row)"]\<close>)
next
  case (timeout now pid' s row' s')
  from timeout(1) show ?case
    by (rule Wait_done_Inr) (use timeout(3,4) in \<open>auto simp: update_conv' intro!: exI [of _ "prArgs (mrReq row)"]\<close>)
next
  case (rewrite s pids obj)
  then show ?case
    by (intro exI [of _ "if pid \<in> set pids \<and> prArgs (mrReq row) \<noteq> None then Some obj else prArgs (mrReq row)"])
      (auto simp: rewriteArgs_map)
qed (auto intro!: exI [of _ "prArgs (mrReq row)"])

text \<open>
  A decision is final: once a row has left the pending state, no sequence of operations changes anything
  of it but the shared arguments.
\<close>

theorem approval_decision_final:
  assumes "appr_run es s" and "map_of s pid = Some row" and "prStatus (mrReq row) \<noteq> StatusPending"
    and "(\<lambda>a b. \<exists>e. appr_step a e b)\<^sup>*\<^sup>* s s'"
  shows "\<exists>args. map_of s' pid = Some (row\<lparr>mrReq := (mrReq row)\<lparr>prArgs := args\<rparr>\<rparr>)"
proof -
  from assms(4) have "appr_wf s' \<and> (\<exists>args. map_of s' pid = Some (row\<lparr>mrReq := (mrReq row)\<lparr>prArgs := args\<rparr>\<rparr>))"
  proof (induction rule: rtranclp_induct)
    case base
    with assms(2) appr_wf_run [OF assms(1)] show ?case by (auto intro!: exI [of _ "prArgs (mrReq row)"])
  next
    case (step y z)
    then obtain args e where "map_of y pid = Some (row\<lparr>mrReq := (mrReq row)\<lparr>prArgs := args\<rparr>\<rparr>)" "appr_step y e z" by blast
    with step(3) assms(3) decided_step [of y e z pid "row\<lparr>mrReq := (mrReq row)\<lparr>prArgs := args\<rparr>\<rparr>"] appr_wf_step
    show ?case by auto
  qed
  then show ?thesis by simp
qed

text \<open>
  A row is the request \<open>q\<close> as it was enqueued, with a decision, and with the arguments \<open>q\<close> had or those
  that the call holding the map wrote over them.
\<close>

definition row_of :: "appr_event list \<Rightarrow> PendingRequest \<Rightarrow> PendingRequest \<Rightarrow> bool" where
  "row_of es q r \<longleftrightarrow>
     r = q\<lparr>prArgs := prArgs r, prStatus := prStatus r, prDecidedAt := prDecidedAt r, prDecidedBy := prDecidedBy r,
            prDecideNote := prDecideNote r\<rparr> \<and>
     (prArgs r = prArgs q \<or>
      (\<exists>pids obj. EvRewrite pids obj \<in> set es \<and> prPendingID q \<in> set pids \<and> prArgs r = Some obj))"

definition justified :: "appr_event list \<Rightarrow> PendingRequest \<Rightarrow> bool" where
  "justified es r \<longleftrightarrow> (\<exists>q. EvEnqueue q \<in> set es \<and> row_of es q r) \<and>
     (prStatus r \<in> {StatusApproved, StatusRejected} \<longrightarrow>
       (\<exists>dec. EvDecide (prPendingID r) dec \<in> set es \<and> adStatus dec = prStatus r \<and> prDecidedBy r = adDecidedBy dec
          \<and> prDecideNote r = adNote dec))"

lemma row_of_mono: "row_of es q r \<Longrightarrow> row_of (es @ [e]) q r"
  by (fastforce simp: row_of_def)

lemma justified_mono: "justified es r \<Longrightarrow> justified (es @ [e]) r"
  unfolding justified_def using row_of_mono by fastforce

lemma row_of_pid: "row_of es q r \<Longrightarrow> prPendingID q = prPendingID r"
  unfolding row_of_def by (cases q, cases r) auto

lemma row_of_decided: "row_of es q r \<Longrightarrow>
    row_of es q (r\<lparr>prStatus := st, prDecidedAt := t, prDecidedBy := b, prDecideNote := n\<rparr>)"
  unfolding row_of_def by (cases q, cases r) auto

lemma row_of_timeout: "row_of es q r \<Longrightarrow> row_of es q (r\<lparr>prStatus := st, prDecidedAt := t\<rparr>)"
  unfolding row_of_def by (cases q, cases r) auto

lemma row_of_rewrite:
  "row_of es q r \<Longrightarrow> a = prArgs r \<or> prPendingID q \<in> set pids \<and> a = Some obj \<Longrightarrow>
     row_of (es @ [EvRewrite pids obj]) q (r\<lparr>prArgs := a\<rparr>)"
  unfolding row_of_def by (cases q, cases r) auto

lemma justified_step:
  assumes "appr_step s e s'" "appr_wf s" "\<forall>pid row. map_of s pid = Some row \<longrightarrow> justified es (mrReq row)"
  shows "\<forall>pid row. map_of s' pid = Some row \<longrightarrow> justified (es @ [e]) (mrReq row)"
  using assms
proof (induction rule: appr_step.induct)
  case (enqueue rnd now req s row s')
  from enqueue(1) show ?case
  proof (rule Enqueue_Inr)
    assume "prStatus row = StatusPending"
      and s': "s' = AList.update (prPendingID row) \<lparr>mrReq = row, mrWakeClosed = False\<rparr> s"
    then have "justified (es @ [EvEnqueue row]) row"
      by (auto simp: justified_def row_of_def intro!: exI [of _ row])
    with enqueue(3) justified_mono show ?case by (auto simp: s' update_conv')
  qed
next
  case (decide now pid dec s row s')
  from decide(1,2) show ?case
  proof (rule Decide_Inr)
    fix old
    assume old: "map_of s pid = Some old"
      and row: "row = (mrReq old)\<lparr>prStatus := adStatus dec, prDecidedAt := Some now, prDecidedBy := adDecidedBy dec,
         prDecideNote := adNote dec\<rparr>"
      and s': "s' = AList.update pid \<lparr>mrReq = row, mrWakeClosed = True\<rparr> s"
    from decide(3) old obtain q where "EvEnqueue q \<in> set es" "row_of es q (mrReq old)"
      by (auto simp: justified_def)
    with row have "EvEnqueue q \<in> set es" "row_of (es @ [EvDecide pid dec]) q row"
      by (simp_all add: row_of_mono row_of_decided)
    moreover have "prPendingID (mrReq old) = pid" using decide(2) old by (auto simp: appr_wf_def)
    ultimately have "justified (es @ [EvDecide pid dec]) row" using row by (auto simp: justified_def)
    with decide(3) justified_mono show ?case by (auto simp: s' update_conv')
  qed
next
  case (timeout now pid s row s')
  from timeout(1) show ?case
  proof (rule Wait_done_Inr)
    fix old
    assume old: "map_of s pid = Some old"
      and row: "row = (mrReq old)\<lparr>prStatus := StatusTimeout, prDecidedAt := Some now\<rparr>"
      and s': "s' = AList.update pid \<lparr>mrReq = row, mrWakeClosed = True\<rparr> s"
    from timeout(3) old obtain q where "EvEnqueue q \<in> set es" "row_of es q (mrReq old)"
      by (auto simp: justified_def)
    with row have "justified (es @ [EvTimeout pid]) row"
      by (auto simp: justified_def row_of_mono row_of_timeout)
    with timeout(3) justified_mono show ?case by (auto simp: s' update_conv')
  qed (use timeout(3) justified_mono in blast)
next
  case (rewrite s pids obj)
  show ?case
  proof (intro allI impI)
    fix pid row
    assume "map_of (rewriteArgs pids obj s) pid = Some row"
    then obtain old where old: "map_of s pid = Some old"
      and row: "mrReq row = (mrReq old)\<lparr>prArgs := prArgs (mrReq row)\<rparr>"
      and args: "prArgs (mrReq row) = prArgs (mrReq old) \<or> pid \<in> set pids \<and> prArgs (mrReq row) = Some obj"
      by (rule rewriteArgs_row)
    have "justified es (mrReq old)" and pid: "prPendingID (mrReq old) = pid"
      using rewrite old by (auto simp: appr_wf_def)
    then obtain q where q: "EvEnqueue q \<in> set es" "row_of es q (mrReq old)" by (auto simp: justified_def)
    have "row_of (es @ [EvRewrite pids obj]) q (mrReq row)"
      using row_of_rewrite [OF q(2), of "prArgs (mrReq row)" pids obj] args pid row_of_pid [OF q(2)] row
      by metis
    moreover have "prStatus (mrReq row) = prStatus (mrReq old)" "prPendingID (mrReq row) = prPendingID (mrReq old)"
      "prDecidedBy (mrReq row) = prDecidedBy (mrReq old)" "prDecideNote (mrReq row) = prDecideNote (mrReq old)"
      by (subst row, simp)+
    ultimately show "justified (es @ [EvRewrite pids obj]) (mrReq row)"
      using \<open>justified es (mrReq old)\<close> q(1) by (auto simp: justified_def)
  qed
qed (use justified_mono in blast)

text \<open>
  C12. Nothing is approved without an operator: in every reachable store, an approved or rejected row was
  decided that way by the operator it names, with the note it carries; and apart from its decision and its
  arguments it is, field by field, the request that was enqueued under its identifier. Its arguments are
  those that were enqueued, unless the call that shares the map wrote over them in place, and then they
  are what that call wrote.
\<close>

theorem approved_rows_were_decided:
  assumes "appr_run es s" and "map_of s pid = Some row" and "prStatus (mrReq row) \<in> {StatusApproved, StatusRejected}"
  shows "\<exists>q dec. EvEnqueue q \<in> set es \<and> prPendingID q = pid \<and> row_of es q (mrReq row) \<and> EvDecide pid dec \<in> set es
    \<and> adStatus dec = prStatus (mrReq row) \<and> adDecidedBy dec = prDecidedBy (mrReq row)
    \<and> adNote dec = prDecideNote (mrReq row)"
proof -
  from assms(1) have "\<forall>pid row. map_of s pid = Some row \<longrightarrow> justified es (mrReq row)"
  proof (induction rule: appr_run.induct)
    case (extend es s e s')
    show ?case by (rule justified_step [OF extend(2) appr_wf_run [OF extend(1)] extend(3)])
  qed simp
  with assms(2) have j: "justified es (mrReq row)" by blast
  have pid: "prPendingID (mrReq row) = pid"
    using appr_wf_run [OF assms(1)] assms(2) by (auto simp: appr_wf_def)
  from j obtain q where q: "EvEnqueue q \<in> set es" "row_of es q (mrReq row)" by (auto simp: justified_def)
  then have "prPendingID q = pid" using pid row_of_pid by metis
  with q j pid assms(3) show ?thesis unfolding justified_def by metis
qed

theorem approved_rows_were_decided_witness:
  "\<exists>q dec. EvEnqueue q \<in> set [EvEnqueue sample_row, EvDecide ''p1'' sample_approval]
     \<and> prPendingID q = ''p1'' \<and> prTool q = ''transfer_funds'' \<and> prArgs q = Some [(''amount'', JNum 5000)]
     \<and> EvDecide ''p1'' dec \<in> set [EvEnqueue sample_row, EvDecide ''p1'' sample_approval] \<and> adDecidedBy dec = ''cfo''"
proof -
  have m: "map_of [(''p1'', sample_approved)] ''p1'' = Some sample_approved" by simp
  have st: "prStatus (mrReq sample_approved) \<in> {StatusApproved, StatusRejected}"
    by (simp add: sample_approved_def)
  from approved_rows_were_decided [OF sample_approved_run m st] obtain q dec
    where q: "EvEnqueue q \<in> set [EvEnqueue sample_row, EvDecide ''p1'' sample_approval]" "prPendingID q = ''p1''"
      and d: "EvDecide ''p1'' dec \<in> set [EvEnqueue sample_row, EvDecide ''p1'' sample_approval]" by blast
  then have "q = sample_row" "dec = sample_approval" by simp_all
  with q d show ?thesis
    by (intro exI [of _ q] exI [of _ dec]) (simp add: sample_row_def sample_request_def sample_approval_def)
qed

text \<open>
  The arguments an operator approved can differ from those the queue shows afterwards: a redaction in
  place by the resumed call rewrites the approved row.
\<close>

theorem approved_args_can_change:
  "\<exists>es s row q. appr_run es s \<and> map_of s ''p1'' = Some row \<and> prStatus (mrReq row) = StatusApproved
     \<and> EvEnqueue q \<in> set es \<and> prPendingID q = ''p1'' \<and> prArgs (mrReq row) \<noteq> prArgs q"
proof -
  let ?obj = "[(''amount'', JStr ''[REDACTED]'')]"
  let ?s = "rewriteArgs [''p1''] ?obj [(''p1'', sample_approved)]"
  let ?row = "sample_approved\<lparr>mrReq := (mrReq sample_approved)\<lparr>prArgs := Some ?obj\<rparr>\<rparr>"
  have "appr_run ([EvEnqueue sample_row, EvDecide ''p1'' sample_approval] @ [EvRewrite [''p1''] ?obj]) ?s"
    by (rule appr_run.extend [OF sample_approved_run appr_step.rewrite])
  moreover have "map_of ?s ''p1'' = Some ?row" "prStatus (mrReq ?row) = StatusApproved" "prPendingID sample_row = ''p1''"
    "prArgs (mrReq ?row) \<noteq> prArgs sample_row"
    by (simp_all add: rewriteArgs_def sample_approved_def sample_row_def sample_request_def)
  ultimately show ?thesis
    by (intro exI [of _ "[EvEnqueue sample_row, EvDecide ''p1'' sample_approval] @ [EvRewrite [''p1''] ?obj]"]
        exI [of _ ?s] exI [of _ ?row] exI [of _ sample_row]) simp
qed

end
