(* ===== verification/EastWest.thy ===== *)
theory EastWest
  imports GoBase "HOL-Library.AList"
begin

text \<open>
  Package \<open>internal/eastwest\<close>: authorization of agent-to-agent calls. A guard is the compiled ruleset of
  its current configuration; \<open>Replace\<close> swaps it. \<open>ew_permits\<close> is the specification the documentation
  gives, over the configuration itself, and the properties relate \<open>ew_Check\<close> to it. The texts of reasons
  are constructors. \<open>internal/zonescope\<close>, the allowlist of a zone for ordinary tools, is the second part of
  the theory. Both guards pass what is not their business and deny by default what is: the locale
  \<open>default_deny\<close>.
\<close>

datatype Verdict = VerdictAllow | VerdictDeny

record Rule =
  ruFrom :: string
  ruTo :: string
  ruPurpose :: string
  ruOwner :: string
  ruApprovedBy :: string
  ruApprovedAt :: gotime
  ruExpiresAt :: gotime
  ruReviewBy :: gotime

definition rule_Expired :: "Rule \<Rightarrow> gotime \<Rightarrow> bool" where
  "rule_Expired r now \<longleftrightarrow> \<not> is_zero (ruExpiresAt r) \<and> ruExpiresAt r < now"

definition NeedsReview :: "Rule \<Rightarrow> gotime \<Rightarrow> bool" where
  "NeedsReview r now \<longleftrightarrow> ruApprovedBy r = [] \<or> (\<not> is_zero (ruReviewBy r) \<and> ruReviewBy r < now)"

record EwConfig =
  ecAgentToolPrefix :: string
  ecAllowedPairs :: "(string \<times> string) list"
  ecRules :: "Rule list"
  ecZones :: "string \<rightharpoonup> string"
  ecAllowedEdges :: "(string \<times> string) list"
  ecObserveOnly :: bool
  ecAllowIntraZone :: bool

datatype ew_reason =
    EwNone
  | RulePermits string string
  | PatternPermits string string string string
  | LabelPermits string string string string
  | SharedLabel string string string
  | ObserveMode string string
  | NoRuleUnlabelled string string
  | NoRule string string

record EwResult =
  erCalleeUnzoned :: bool
  erWouldDeny :: bool
  erDecidedBy :: string
  erVerdict :: Verdict
  erReason :: ew_reason
  erCallerAgent :: string
  erCalleeAgent :: string
  erCallerZone :: string
  erCalleeZone :: string
  erEastWest :: bool

subsection \<open>Compiled rulesets\<close>

definition ew_sep :: string where "ew_sep = [CHR 0x00]"

definition isPattern :: "string \<Rightarrow> bool" where
  "isPattern s = has_suffix s ''*''"

definition ew_matches :: "string \<Rightarrow> string \<Rightarrow> bool" where
  "ew_matches pattern agent =
     (if pattern = ''*'' then True
      else if has_suffix pattern ''*'' then has_prefix agent (butlast pattern)
      else pattern = agent)"

record ew_state =
  esCfg :: EwConfig
  esEdges :: "string list"
  esPairs :: "(string \<times> Rule) list"
  esGlobs :: "Rule list"

definition bare_rule :: "string \<times> string \<Rightarrow> Rule" where
  "bare_rule p = \<lparr>ruFrom = fst p, ruTo = snd p, ruPurpose = [], ruOwner = [], ruApprovedBy = [],
     ruApprovedAt = 0, ruExpiresAt = 0, ruReviewBy = 0\<rparr>"

definition all_rules :: "EwConfig \<Rightarrow> Rule list" where
  "all_rules cfg = map bare_rule (ecAllowedPairs cfg) @ ecRules cfg"

definition pattern_rule :: "Rule \<Rightarrow> bool" where
  "pattern_rule r \<longleftrightarrow> isPattern (ruFrom r) \<or> isPattern (ruTo r)"

text \<open>The index of exact pairs: a later rule for the same pair replaces an earlier one.\<close>

definition pair_index :: "Rule list \<Rightarrow> (string \<times> Rule) list" where
  "pair_index rs =
     fold (\<lambda>r m. if pattern_rule r then m else AList.update (ruFrom r @ ew_sep @ ruTo r) r m) rs []"

definition ew_compile :: "EwConfig \<Rightarrow> ew_state" where
  "ew_compile cfg =
     \<lparr>esCfg = cfg,
      esEdges = map (\<lambda>e. fst e @ ew_sep @ snd e) (ecAllowedEdges cfg),
      esPairs = pair_index (all_rules cfg),
      esGlobs = filter pattern_rule (all_rules cfg)\<rparr>"

definition ew_New :: "EwConfig \<Rightarrow> ew_state" where
  "ew_New cfg = ew_compile cfg"

definition ew_Replace :: "EwConfig \<Rightarrow> ew_state \<Rightarrow> ew_state" where
  "ew_Replace cfg st = ew_compile cfg"

definition ew_Snapshot :: "ew_state \<Rightarrow> EwConfig" where
  "ew_Snapshot st =
     \<lparr>ecAgentToolPrefix = ecAgentToolPrefix (esCfg st), ecAllowedPairs = ecAllowedPairs (esCfg st),
      ecRules = ecRules (esCfg st), ecZones = ecZones (esCfg st), ecAllowedEdges = ecAllowedEdges (esCfg st),
      ecObserveOnly = ecObserveOnly (esCfg st), ecAllowIntraZone = ecAllowIntraZone (esCfg st)\<rparr>"

definition pairAllowed :: "ew_state \<Rightarrow> gotime \<Rightarrow> string \<Rightarrow> string \<Rightarrow> Rule option" where
  "pairAllowed st now caller callee =
     (let fallback = List.find (\<lambda>r. ew_matches (ruFrom r) caller \<and> ew_matches (ruTo r) callee
            \<and> \<not> rule_Expired r now) (esGlobs st)
      in case map_of (esPairs st) (caller @ ew_sep @ callee) of
           Some r \<Rightarrow> if \<not> rule_Expired r now then Some r else fallback
         | None \<Rightarrow> fallback)"

definition calleeAgent :: "ew_state \<Rightarrow> string \<Rightarrow> string option" where
  "calleeAgent st tool =
     (let p = ecAgentToolPrefix (esCfg st) in
      if p = [] \<or> \<not> has_prefix tool p then None
      else (let callee = trim_space (drop (length p) tool) in if callee = [] then None else Some callee))"

definition ew_zone :: "ew_state \<Rightarrow> string \<Rightarrow> string" where
  "ew_zone st agent = (case ecZones (esCfg st) agent of Some z \<Rightarrow> z | None \<Rightarrow> [])"

definition ew_Check :: "ew_state \<Rightarrow> gotime \<Rightarrow> string \<Rightarrow> string \<Rightarrow> string \<Rightarrow> EwResult" where
  "ew_Check st now callerAgent callerZone tool =
     (let base = \<lparr>erCalleeUnzoned = False, erWouldDeny = False, erDecidedBy = [], erVerdict = VerdictAllow,
            erReason = EwNone, erCallerAgent = callerAgent, erCalleeAgent = [], erCallerZone = [],
            erCalleeZone = [], erEastWest = False\<rparr> in
      case calleeAgent st tool of
        None \<Rightarrow> base
      | Some callee \<Rightarrow>
          (let cz = (if callerZone = [] then ew_zone st callerAgent else callerZone);
               tz = ew_zone st callee;
               res = base\<lparr>erCalleeAgent := callee, erCallerZone := cz, erCalleeZone := tz, erEastWest := True\<rparr>
           in case pairAllowed st now callerAgent callee of
                Some r \<Rightarrow>
                  res\<lparr>erDecidedBy := ''agent-rule'',
                      erReason := (if ruFrom r = callerAgent \<and> ruTo r = callee then RulePermits callerAgent callee
                                   else PatternPermits (ruFrom r) (ruTo r) callerAgent callee)\<rparr>
              | None \<Rightarrow>
                  (if cz @ ew_sep @ tz \<in> set (esEdges st) then
                     res\<lparr>erDecidedBy := ''label-rule'', erReason := LabelPermits cz tz callerAgent callee\<rparr>
                   else if ecAllowIntraZone (esCfg st) \<and> cz \<noteq> [] \<and> cz = tz then
                     res\<lparr>erDecidedBy := ''shared-label'', erReason := SharedLabel callerAgent callee cz\<rparr>
                   else if ecObserveOnly (esCfg st) then
                     res\<lparr>erWouldDeny := True, erDecidedBy := ''observe-only'',
                         erReason := ObserveMode callerAgent callee\<rparr>
                   else if tz = [] then
                     res\<lparr>erVerdict := VerdictDeny, erDecidedBy := ''default-deny'', erCalleeUnzoned := True,
                         erReason := NoRuleUnlabelled callerAgent callee\<rparr>
                   else
                     res\<lparr>erVerdict := VerdictDeny, erDecidedBy := ''default-deny'',
                         erReason := NoRule callerAgent callee\<rparr>)))"

subsection \<open>The specification: which calls a configuration permits\<close>

definition rule_names :: "Rule \<Rightarrow> string \<Rightarrow> string \<Rightarrow> bool" where
  "rule_names r caller callee \<longleftrightarrow> ew_matches (ruFrom r) caller \<and> ew_matches (ruTo r) callee"

text \<open>The last exact rule written for a pair.\<close>

definition exact_rule :: "EwConfig \<Rightarrow> string \<Rightarrow> string \<Rightarrow> Rule option" where
  "exact_rule cfg caller callee =
     List.find (\<lambda>r. \<not> pattern_rule r \<and> ruFrom r = caller \<and> ruTo r = callee) (rev (all_rules cfg))"

text \<open>
  What the documentation of \<open>Config\<close> says: a call is permitted if an unexpired rule of either form names the
  pair, or a label edge covers it, or intra-label calls are enabled and the labels agree.
\<close>

definition ew_permits :: "EwConfig \<Rightarrow> gotime \<Rightarrow> string \<Rightarrow> string \<Rightarrow> string \<Rightarrow> string \<Rightarrow> bool" where
  "ew_permits cfg now caller cz callee tz \<longleftrightarrow>
     list_ex (\<lambda>r. rule_names r caller callee \<and> \<not> rule_Expired r now) (all_rules cfg)
     \<or> (cz, tz) \<in> set (ecAllowedEdges cfg)
     \<or> (ecAllowIntraZone cfg \<and> cz \<noteq> [] \<and> cz = tz)"

text \<open>
  The compiled index keeps one exact rule of a pair, the last; \<open>unshadowed\<close> says that this one is not expired
  while an exact rule it replaced is still valid.
\<close>

definition unshadowed :: "EwConfig \<Rightarrow> gotime \<Rightarrow> string \<Rightarrow> string \<Rightarrow> bool" where
  "unshadowed cfg now caller callee \<longleftrightarrow> (case exact_rule cfg caller callee of
     None \<Rightarrow> True
   | Some e \<Rightarrow> \<not> rule_Expired e now \<or> list_all (\<lambda>r. pattern_rule r \<or> ruFrom r \<noteq> caller \<or> ruTo r \<noteq> callee
       \<or> rule_Expired r now) (all_rules cfg))"

definition nul_free :: "string \<Rightarrow> bool" where
  "nul_free s \<longleftrightarrow> CHR 0x00 \<notin> set s"

lemma sep_split: "nul_free a \<Longrightarrow> nul_free b \<Longrightarrow> a @ ew_sep @ x = b @ ew_sep @ y \<longleftrightarrow> a = b \<and> x = y"
  by (auto simp: nul_free_def ew_sep_def append_eq_append_conv2 append_eq_Cons_conv Cons_eq_append_conv)

lemma pair_index_append:
  "pair_index (rs @ [r]) =
     (if pattern_rule r then pair_index rs else AList.update (ruFrom r @ ew_sep @ ruTo r) r (pair_index rs))"
  by (simp add: pair_index_def)

lemma map_of_pair_index:
  assumes "list_all (\<lambda>r. nul_free (ruFrom r)) rs" "nul_free caller"
  shows "map_of (pair_index rs) (caller @ ew_sep @ callee) =
     List.find (\<lambda>r. \<not> pattern_rule r \<and> ruFrom r = caller \<and> ruTo r = callee) (rev rs)"
  using assms
proof (induction rs rule: rev_induct)
  case Nil
  then show ?case by (simp add: pair_index_def)
next
  case (snoc r rs)
  then have "(ruFrom r @ ew_sep @ ruTo r = caller @ ew_sep @ callee) \<longleftrightarrow> ruFrom r = caller \<and> ruTo r = callee"
    by (intro sep_split) auto
  with snoc show ?case by (auto simp: pair_index_append update_conv')
qed

definition ew_clean :: "EwConfig \<Rightarrow> bool" where
  "ew_clean cfg \<longleftrightarrow> list_all (\<lambda>r. nul_free (ruFrom r)) (all_rules cfg) \<and> list_all (\<lambda>e. nul_free (fst e)) (ecAllowedEdges cfg)"

lemma find_None_list_ex: "List.find P xs = None \<longleftrightarrow> \<not> list_ex P xs"
  by (auto simp: find_None_iff list_ex_iff)

lemma pairAllowed_permits:
  assumes "ew_clean cfg" "nul_free caller"
  shows "pairAllowed (ew_compile cfg) now caller callee \<noteq> None \<longleftrightarrow>
     (case exact_rule cfg caller callee of Some r \<Rightarrow> \<not> rule_Expired r now | None \<Rightarrow> False)
     \<or> list_ex (\<lambda>r. pattern_rule r \<and> rule_names r caller callee \<and> \<not> rule_Expired r now) (all_rules cfg)"
proof -
  have "map_of (esPairs (ew_compile cfg)) (caller @ ew_sep @ callee) = exact_rule cfg caller callee"
    using map_of_pair_index assms by (simp add: ew_compile_def ew_clean_def exact_rule_def)
  moreover have "List.find (\<lambda>r. ew_matches (ruFrom r) caller \<and> ew_matches (ruTo r) callee \<and> \<not> rule_Expired r now)
      (esGlobs (ew_compile cfg)) \<noteq> None
    \<longleftrightarrow> list_ex (\<lambda>r. pattern_rule r \<and> rule_names r caller callee \<and> \<not> rule_Expired r now) (all_rules cfg)"
    unfolding find_None_list_ex by (auto simp: ew_compile_def rule_names_def list_ex_iff)
  ultimately show ?thesis
    by (auto simp: pairAllowed_def Let_def split: option.splits)
qed

lemma exact_names: "\<not> pattern_rule r \<Longrightarrow> rule_names r caller callee \<longleftrightarrow> ruFrom r = caller \<and> ruTo r = callee"
  by (auto simp: pattern_rule_def rule_names_def ew_matches_def isPattern_def has_suffix_def has_prefix_def)

text \<open>A pair the index permits is named by a valid rule; the converse needs that no expired rule shadows one.\<close>

lemma indexed_named:
  assumes "(case exact_rule cfg caller callee of Some r \<Rightarrow> \<not> rule_Expired r now | None \<Rightarrow> False)
     \<or> list_ex (\<lambda>r. pattern_rule r \<and> rule_names r caller callee \<and> \<not> rule_Expired r now) (all_rules cfg)"
  shows "list_ex (\<lambda>r. rule_names r caller callee \<and> \<not> rule_Expired r now) (all_rules cfg)"
proof (cases "exact_rule cfg caller callee")
  case (Some r)
  then have "r \<in> set (all_rules cfg)" "\<not> pattern_rule r" "ruFrom r = caller" "ruTo r = callee"
    unfolding exact_rule_def find_Some_iff by (auto simp: rev_nth)
  moreover from this have "rule_names r caller callee" by (simp add: exact_names)
  ultimately show ?thesis using assms Some by (auto simp: list_ex_iff)
qed (use assms in \<open>auto simp: list_ex_iff\<close>)

lemma named_indexed:
  assumes "list_ex (\<lambda>r. rule_names r caller callee \<and> \<not> rule_Expired r now) (all_rules cfg)"
    and "unshadowed cfg now caller callee"
  shows "(case exact_rule cfg caller callee of Some r \<Rightarrow> \<not> rule_Expired r now | None \<Rightarrow> False)
     \<or> list_ex (\<lambda>r. pattern_rule r \<and> rule_names r caller callee \<and> \<not> rule_Expired r now) (all_rules cfg)"
proof -
  from assms(1) obtain r where r: "r \<in> set (all_rules cfg)" "rule_names r caller callee" "\<not> rule_Expired r now"
    by (auto simp: list_ex_iff)
  show ?thesis
  proof (cases "pattern_rule r")
    case False
    with r have "exact_rule cfg caller callee \<noteq> None"
      unfolding exact_rule_def find_None_list_ex by (auto simp: exact_names list_ex_iff)
    with assms(2) r False show ?thesis
      by (fastforce simp: unshadowed_def exact_names list_all_iff split: option.splits)
  qed (use r in \<open>auto simp: list_ex_iff\<close>)
qed

lemma edge_index:
  assumes "ew_clean cfg" "nul_free cz"
  shows "cz @ ew_sep @ tz \<in> set (esEdges (ew_compile cfg)) \<longleftrightarrow> (cz, tz) \<in> set (ecAllowedEdges cfg)"
proof -
  have "e = (cz, tz)" if "e \<in> set (ecAllowedEdges cfg)" "cz @ ew_sep @ tz = fst e @ ew_sep @ snd e" for e
    using that assms sep_split [of cz "fst e" tz "snd e"] by (auto simp: ew_clean_def list_all_iff prod_eq_iff)
  then show ?thesis by (force simp: ew_compile_def)
qed

subsection \<open>Guards that deny by default\<close>

text \<open>
  Such a guard passes what it does not apply to, and lets through only what is permitted; on the questions it
  answers exactly it also lets through all that is permitted.
\<close>

locale default_deny =
  fixes wf :: "'q \<Rightarrow> bool" and exact :: "'q \<Rightarrow> bool" and verdict :: "'q \<Rightarrow> Verdict" and applies :: "'q \<Rightarrow> bool"
    and permitted :: "'q \<Rightarrow> bool"
  assumes pass: "wf q \<Longrightarrow> \<not> applies q \<Longrightarrow> verdict q = VerdictAllow"
    and sound: "wf q \<Longrightarrow> applies q \<Longrightarrow> verdict q = VerdictAllow \<Longrightarrow> permitted q"
    and complete: "wf q \<Longrightarrow> exact q \<Longrightarrow> permitted q \<Longrightarrow> verdict q = VerdictAllow"
begin

lemma deny_unpermitted: "wf q \<Longrightarrow> applies q \<Longrightarrow> \<not> permitted q \<Longrightarrow> verdict q = VerdictDeny"
  using sound [of q] by (cases "verdict q") auto

lemma verdict_spec:
  "wf q \<Longrightarrow> exact q \<Longrightarrow> verdict q = (if applies q \<and> \<not> permitted q then VerdictDeny else VerdictAllow)"
  using deny_unpermitted [of q] pass [of q] complete [of q] by auto

end

text \<open>A question to the east-west guard: configuration, instant, caller, caller's label, tool.\<close>

record ew_query =
  eqCfg :: EwConfig
  eqNow :: gotime
  eqCaller :: string
  eqZone :: string
  eqTool :: string

definition eq_callee :: "ew_query \<Rightarrow> string option" where
  "eq_callee q = calleeAgent (ew_compile (eqCfg q)) (eqTool q)"

definition eq_caller_zone :: "ew_query \<Rightarrow> string" where
  "eq_caller_zone q = (if eqZone q = [] then ew_zone (ew_compile (eqCfg q)) (eqCaller q) else eqZone q)"

definition eq_verdict :: "ew_query \<Rightarrow> Verdict" where
  "eq_verdict q = erVerdict (ew_Check (ew_New (eqCfg q)) (eqNow q) (eqCaller q) (eqZone q) (eqTool q))"

definition eq_permitted :: "ew_query \<Rightarrow> bool" where
  "eq_permitted q \<longleftrightarrow> (case eq_callee q of
     None \<Rightarrow> True
   | Some callee \<Rightarrow> ew_permits (eqCfg q) (eqNow q) (eqCaller q) (eq_caller_zone q) callee
       (ew_zone (ew_compile (eqCfg q)) callee))"

definition eq_clean :: "ew_query \<Rightarrow> bool" where
  "eq_clean q \<longleftrightarrow> ew_clean (eqCfg q) \<and> nul_free (eqCaller q) \<and> nul_free (eq_caller_zone q)"

definition eq_exact :: "ew_query \<Rightarrow> bool" where
  "eq_exact q \<longleftrightarrow> (case eq_callee q of None \<Rightarrow> True
     | Some callee \<Rightarrow> unshadowed (eqCfg q) (eqNow q) (eqCaller q) callee)"

definition eq_enforced :: "ew_query \<Rightarrow> bool" where
  "eq_enforced q \<longleftrightarrow> eq_callee q \<noteq> None \<and> \<not> ecObserveOnly (eqCfg q)"

lemma eq_verdict_no_callee: "eq_callee q = None \<Longrightarrow> eq_verdict q = VerdictAllow"
  by (simp add: eq_verdict_def ew_Check_def eq_callee_def ew_New_def Let_def)

lemma eq_verdict_index:
  assumes "eq_clean q" "eq_callee q = Some callee"
  shows "eq_verdict q = (if
      (case exact_rule (eqCfg q) (eqCaller q) callee of Some r \<Rightarrow> \<not> rule_Expired r (eqNow q) | None \<Rightarrow> False)
      \<or> list_ex (\<lambda>r. pattern_rule r \<and> rule_names r (eqCaller q) callee \<and> \<not> rule_Expired r (eqNow q)) (all_rules (eqCfg q))
      \<or> (eq_caller_zone q, ew_zone (ew_compile (eqCfg q)) callee) \<in> set (ecAllowedEdges (eqCfg q))
      \<or> (ecAllowIntraZone (eqCfg q) \<and> eq_caller_zone q \<noteq> [] \<and> eq_caller_zone q = ew_zone (ew_compile (eqCfg q)) callee)
      \<or> ecObserveOnly (eqCfg q) then VerdictAllow else VerdictDeny)"
proof -
  let ?st = "ew_compile (eqCfg q)"
  have cfg: "esCfg ?st = eqCfg q" by (simp add: ew_compile_def)
  have clean: "ew_clean (eqCfg q)" "nul_free (eqCaller q)" "nul_free (eq_caller_zone q)"
    using assms(1) by (simp_all add: eq_clean_def)
  have "eq_verdict q = (if pairAllowed ?st (eqNow q) (eqCaller q) callee \<noteq> None
      \<or> eq_caller_zone q @ ew_sep @ ew_zone ?st callee \<in> set (esEdges ?st)
      \<or> (ecAllowIntraZone (eqCfg q) \<and> eq_caller_zone q \<noteq> [] \<and> eq_caller_zone q = ew_zone ?st callee)
      \<or> ecObserveOnly (eqCfg q) then VerdictAllow else VerdictDeny)"
    using assms(2) unfolding eq_verdict_def ew_Check_def ew_New_def Let_def eq_callee_def eq_caller_zone_def
    by (auto simp: cfg split: option.splits)
  then show ?thesis unfolding pairAllowed_permits [OF clean(1,2)] edge_index [OF clean(1,3)] by simp
qed

interpretation ew: default_deny eq_clean eq_exact eq_verdict eq_enforced eq_permitted
proof (unfold_locales, goal_cases)
  case (1 q)
  then show ?case by (cases "eq_callee q") (auto simp: eq_enforced_def eq_verdict_no_callee eq_verdict_index)
next
  case (2 q)
  then obtain callee where c: "eq_callee q = Some callee" "\<not> ecObserveOnly (eqCfg q)" by (auto simp: eq_enforced_def)
  with 2 indexed_named [where cfg = "eqCfg q" and caller = "eqCaller q" and callee = callee and now = "eqNow q"] show ?case
    by (auto simp: eq_verdict_index eq_permitted_def ew_permits_def split: if_splits)
next
  case (3 q)
  show ?case
  proof (cases "eq_callee q")
    case (Some callee)
    with 3 named_indexed [where cfg = "eqCfg q" and caller = "eqCaller q" and callee = callee and now = "eqNow q"] show ?thesis
      by (auto simp: eq_verdict_index eq_permitted_def eq_exact_def ew_permits_def)
  qed (simp add: eq_verdict_no_callee)
qed

text \<open>
  C25. Agents reach each other only by a rule. Outside observe mode, an agent-to-agent call is denied unless
  the configuration permits it as documented: an unexpired rule names caller and callee (a bare pair or a
  record, exactly or by pattern), or a label edge covers their labels, or intra-label calls are enabled and
  the labels agree; the caller's label is the one given, or the directory's when none is. Conversely every
  permitted call is allowed, as long as no expired exact rule for the pair was written after an unexpired
  one. (Caller, caller's label and the left sides of rules contain no NUL byte, the separator of the index.)
\<close>

theorem eastwest_default_deny:
  assumes "ew_clean cfg" and "nul_free caller" and "nul_free cz"
    and "cz = (if zone = [] then ew_zone (ew_New cfg) caller else zone)"
    and "calleeAgent (ew_New cfg) tool = Some callee" and "\<not> ecObserveOnly cfg"
  shows "(\<not> ew_permits cfg now caller cz callee (ew_zone (ew_New cfg) callee) \<longrightarrow>
       erVerdict (ew_Check (ew_New cfg) now caller zone tool) = VerdictDeny) \<and>
     (ew_permits cfg now caller cz callee (ew_zone (ew_New cfg) callee) \<and> unshadowed cfg now caller callee \<longrightarrow>
       erVerdict (ew_Check (ew_New cfg) now caller zone tool) = VerdictAllow)"
proof -
  let ?q = "\<lparr>eqCfg = cfg, eqNow = now, eqCaller = caller, eqZone = zone, eqTool = tool\<rparr>"
  have cz: "eq_caller_zone ?q = cz" using assms(4) by (simp add: eq_caller_zone_def ew_New_def)
  have "eq_clean ?q" "eq_enforced ?q" "eq_callee ?q = Some callee" "eq_exact ?q \<longleftrightarrow> unshadowed cfg now caller callee"
    "eq_permitted ?q \<longleftrightarrow> ew_permits cfg now caller cz callee (ew_zone (ew_New cfg) callee)"
    "eq_verdict ?q = erVerdict (ew_Check (ew_New cfg) now caller zone tool)"
    using assms cz
    by (simp_all add: eq_clean_def eq_enforced_def eq_callee_def eq_exact_def eq_permitted_def eq_verdict_def ew_New_def)
  with ew.deny_unpermitted [of ?q] ew.complete [of ?q] show ?thesis by simp
qed

definition sample_ew :: EwConfig where
  "sample_ew = \<lparr>ecAgentToolPrefix = ''agent:'', ecAllowedPairs = [(''procure-*'', ''finance'')],
     ecRules = [(bare_rule (''hr'', ''payroll''))\<lparr>ruExpiresAt := 100\<rparr>],
     ecZones = Map.empty, ecAllowedEdges = [(''ops'', ''ops'')], ecObserveOnly = False, ecAllowIntraZone = False\<rparr>"

theorem eastwest_default_deny_witness:
  "erVerdict (ew_Check (ew_New sample_ew) 101 ''hr'' ''people'' ''agent:payroll'') = VerdictDeny
   \<and> erVerdict (ew_Check (ew_New sample_ew) 101 ''procure-7'' [] ''agent:finance'') = VerdictAllow"
proof -
  have c: "ew_clean sample_ew" "nul_free ''hr''" "nul_free ''people''" "nul_free ''procure-7''" "nul_free []"
    "calleeAgent (ew_New sample_ew) ''agent:payroll'' = Some ''payroll''"
    "calleeAgent (ew_New sample_ew) ''agent:finance'' = Some ''finance''" "\<not> ecObserveOnly sample_ew"
    "\<not> ew_permits sample_ew 101 ''hr'' ''people'' ''payroll'' (ew_zone (ew_New sample_ew) ''payroll'')"
    "ew_permits sample_ew 101 ''procure-7'' [] ''finance'' (ew_zone (ew_New sample_ew) ''finance'')"
    "unshadowed sample_ew 101 ''procure-7'' ''finance''" "[] = ew_zone (ew_New sample_ew) ''procure-7''"
    by code_simp+
  show ?thesis
    using eastwest_default_deny [OF c(1,2,3) _ c(6,8), of "''people''" 101]
      eastwest_default_deny [OF c(1,4,5) _ c(7,8), of "[]" 101] c(9-12)
    by simp
qed

text \<open>
  The two rule forms are not evaluated together when both name the same exact pair: an expired
  record overrides the bare pair, so a call that a bare pair permits is denied.
\<close>

theorem expired_record_shadows_pair:
  "\<exists>cfg now caller callee. (caller, callee) \<in> set (ecAllowedPairs cfg)
     \<and> ew_permits cfg now caller ''z'' callee (ew_zone (ew_New cfg) callee)
     \<and> erVerdict (ew_Check (ew_New cfg) now caller ''z'' (''agent:'' @ callee)) = VerdictDeny
     \<and> erVerdict (ew_Check (ew_New (cfg\<lparr>ecRules := []\<rparr>)) now caller ''z'' (''agent:'' @ callee)) = VerdictAllow"
proof (intro exI conjI)
  let ?cfg = "sample_ew\<lparr>ecAllowedPairs := [(''hr'', ''payroll'')]\<rparr>"
  show "(''hr'', ''payroll'') \<in> set (ecAllowedPairs ?cfg)" by simp
  show "ew_permits ?cfg 101 ''hr'' ''z'' ''payroll'' (ew_zone (ew_New ?cfg) ''payroll'')" by code_simp
  show "erVerdict (ew_Check (ew_New ?cfg) 101 ''hr'' ''z'' (''agent:'' @ ''payroll'')) = VerdictDeny" by code_simp
  show "erVerdict (ew_Check (ew_New (?cfg\<lparr>ecRules := []\<rparr>)) 101 ''hr'' ''z'' (''agent:'' @ ''payroll'')) = VerdictAllow"
    by code_simp
qed

subsection \<open>Zone scopes for ordinary tools (zonescope.go)\<close>

definition WildcardAll :: string where "WildcardAll = ''*''"

record Scope =
  scTools :: "string list"
  scTenants :: "string list"

type_synonym ZoneConfig = "string \<rightharpoonup> Scope"

record compiledScope =
  csAllowAll :: bool
  csTools :: "string set"
  csTenants :: "string set"

definition compile_scope :: "Scope \<Rightarrow> compiledScope" where
  "compile_scope s =
     fold (\<lambda>tenant c. c\<lparr>csTenants := insert tenant (csTenants c)\<rparr>) (scTenants s)
       (fold (\<lambda>tool c. if tool = WildcardAll then c\<lparr>csAllowAll := True\<rparr> else c\<lparr>csTools := insert tool (csTools c)\<rparr>)
          (scTools s) \<lparr>csAllowAll = False, csTools = {}, csTenants = {}\<rparr>)"

definition zs_New :: "ZoneConfig \<Rightarrow> (string \<rightharpoonup> compiledScope)" where
  "zs_New cfg zone = map_option compile_scope (cfg zone)"

datatype zs_reason = ZsNone | ZoneNotInTenant string string | ToolPermitted string string | ToolOutOfScope string string

record ZsResult =
  zrVerdict :: Verdict
  zrReason :: zs_reason
  zrZone :: string
  zrTool :: string
  zrEnforced :: bool

definition zs_Check :: "(string \<rightharpoonup> compiledScope) \<Rightarrow> string \<Rightarrow> string \<Rightarrow> string \<Rightarrow> ZsResult" where
  "zs_Check g zone tenant tool =
     (case g zone of
        None \<Rightarrow> \<lparr>zrVerdict = VerdictAllow, zrReason = ZsNone, zrZone = zone, zrTool = tool, zrEnforced = False\<rparr>
      | Some s \<Rightarrow>
          (let res = \<lparr>zrVerdict = VerdictAllow, zrReason = ZsNone, zrZone = zone, zrTool = tool, zrEnforced = True\<rparr> in
           if csTenants s \<noteq> {} \<and> tenant \<notin> csTenants s then
             res\<lparr>zrVerdict := VerdictDeny, zrReason := ZoneNotInTenant zone tenant\<rparr>
           else if csAllowAll s \<or> tool \<in> csTools s then
             res\<lparr>zrReason := ToolPermitted tool zone\<rparr>
           else res\<lparr>zrVerdict := VerdictDeny, zrReason := ToolOutOfScope tool zone\<rparr>))"

definition zone_permits :: "ZoneConfig \<Rightarrow> string \<Rightarrow> string \<Rightarrow> string \<Rightarrow> bool" where
  "zone_permits cfg zone tenant tool \<longleftrightarrow> (case cfg zone of
     None \<Rightarrow> True
   | Some s \<Rightarrow> (scTenants s = [] \<or> tenant \<in> set (scTenants s)) \<and> (WildcardAll \<in> set (scTools s) \<or> tool \<in> set (scTools s)))"

lemma fold_tenants:
  "fold (\<lambda>tenant c. c\<lparr>csTenants := insert tenant (csTenants c)\<rparr>) ts c = c\<lparr>csTenants := set ts \<union> csTenants c\<rparr>"
  by (induction ts arbitrary: c) auto

lemma fold_tools:
  "fold (\<lambda>tool c. if tool = WildcardAll then c\<lparr>csAllowAll := True\<rparr> else c\<lparr>csTools := insert tool (csTools c)\<rparr>) ts c
   = c\<lparr>csAllowAll := (WildcardAll \<in> set ts \<or> csAllowAll c), csTools := (set ts - {WildcardAll}) \<union> csTools c\<rparr>"
  by (induction ts arbitrary: c) (auto simp: insert_Diff_if)

lemma compile_scope_eq:
  "compile_scope s = \<lparr>csAllowAll = (WildcardAll \<in> set (scTools s)), csTools = set (scTools s) - {WildcardAll},
     csTenants = set (scTenants s)\<rparr>"
  by (simp add: compile_scope_def fold_tenants fold_tools)

interpretation zs: default_deny "\<lambda>q. True" "\<lambda>q. True"
  "\<lambda>(cfg, zone, tenant, tool). zrVerdict (zs_Check (zs_New cfg) zone tenant tool)"
  "\<lambda>(cfg, zone, tenant, tool). cfg zone \<noteq> (None :: Scope option)"
  "\<lambda>(cfg, zone, tenant, tool). zone_permits cfg zone tenant tool"
  by unfold_locales
    (auto simp: zs_Check_def zs_New_def zone_permits_def compile_scope_eq Let_def split: option.splits if_splits)

text \<open>
  A zone with a scope reaches exactly the tools and tenants its allowlist names, an empty tool list
  none, and a zone without a scope is not restricted.
\<close>

theorem zone_scope_exact:
  "zrVerdict (zs_Check (zs_New cfg) zone tenant tool) =
     (if zone_permits cfg zone tenant tool then VerdictAllow else VerdictDeny)"
  using zs.verdict_spec [of "(cfg, zone, tenant, tool)"]
  by (auto simp: zone_permits_def split: option.splits)

end
