(* ===== verification/Provenance.thy ===== *)
theory Provenance
  imports Encoding
begin

text \<open>
  Package \<open>internal/provenance\<close>: signed, hash-chained memory entries. \<open>Canonical\<close> is the length-prefixed
  text the HMAC covers. The keyed hash \<open>H\<close> (HMAC-SHA256) and the hash \<open>S\<close> (SHA-256) are arguments; HKDF
  of \<open>golang.org/x/crypto\<close> is an argument of \<open>DeriveSessionKey\<close>.
\<close>

definition SessionKeySize :: nat where "SessionKeySize = 32"
definition derivationInfo :: bytes where "derivationInfo = ''intentgate-memory-v1''"
definition hashSize :: nat where "hashSize = 32"
definition zeroHash :: bytes where "zeroHash = replicate hashSize CHR 0x00"

record Envelope =
  envID :: string
  envSessionID :: string
  envTimestamp :: int
  envData :: bytes
  envPrevHash :: bytes
  envHMAC :: bytes

datatype ErrKind = ErrKindConfig | ErrKindMalformed | ErrKindSignature | ErrKindChain

datatype prov_error =
    ProvKeyEmpty
  | ProvSessionEmpty
  | ProvHkdf
  | ProvError ErrKind
  | ProvEntry nat prov_error
  | ProvChain nat

definition DeriveSessionKey :: "(bytes \<Rightarrow> bytes \<Rightarrow> bytes \<Rightarrow> nat \<Rightarrow> bytes option) \<Rightarrow> bytes \<Rightarrow> string
    \<Rightarrow> prov_error + bytes" where
  "DeriveSessionKey hkdf masterKey sessionID =
     (if masterKey = [] then Inl ProvKeyEmpty
      else if sessionID = [] then Inl ProvSessionEmpty
      else case hkdf masterKey sessionID derivationInfo SessionKeySize of
        None \<Rightarrow> Inl ProvHkdf
      | Some key \<Rightarrow> Inr key)"

definition appendLenPrefixed :: "bytes \<Rightarrow> bytes \<Rightarrow> bytes" where
  "appendLenPrefixed dst b = dst @ be_bytes 4 (length b mod 2 ^ 32) @ b"

definition Canonical :: "Envelope \<Rightarrow> bytes" where
  "Canonical e =
     appendLenPrefixed
       (appendLenPrefixed
          (appendLenPrefixed (appendLenPrefixed [] (envSessionID e)) (envID e)
           @ be_bytes 8 (nat (envTimestamp e mod 2 ^ 64)))
          (envPrevHash e))
       (envData e)"

definition prov_Sign :: "(bytes \<Rightarrow> bytes \<Rightarrow> bytes) \<Rightarrow> bytes \<Rightarrow> Envelope \<Rightarrow> prov_error + Envelope" where
  "prov_Sign H sessionKey e =
     (if sessionKey = [] then Inl ProvKeyEmpty else Inr (e\<lparr>envHMAC := H sessionKey (Canonical e)\<rparr>))"

definition prov_Verify :: "(bytes \<Rightarrow> bytes \<Rightarrow> bytes) \<Rightarrow> bytes \<Rightarrow> Envelope \<Rightarrow> prov_error option" where
  "prov_Verify H sessionKey e =
     (if sessionKey = [] then Some (ProvError ErrKindConfig)
      else if length (envHMAC e) \<noteq> hashSize then Some (ProvError ErrKindMalformed)
      else if H sessionKey (Canonical e) \<noteq> envHMAC e then Some (ProvError ErrKindSignature)
      else None)"

fun verify_from :: "(bytes \<Rightarrow> bytes \<Rightarrow> bytes) \<Rightarrow> (bytes \<Rightarrow> bytes) \<Rightarrow> bytes \<Rightarrow> nat \<Rightarrow> bytes \<Rightarrow> Envelope list
    \<Rightarrow> prov_error option" where
  "verify_from H S key i expectedPrev [] = None"
| "verify_from H S key i expectedPrev (e # es) =
     (case prov_Verify H key e of
        Some err \<Rightarrow> Some (ProvEntry i err)
      | None \<Rightarrow>
          (if expectedPrev \<noteq> envPrevHash e then Some (ProvChain i)
           else verify_from H S key (Suc i) (S (Canonical e)) es))"

definition prov_VerifyChain :: "(bytes \<Rightarrow> bytes \<Rightarrow> bytes) \<Rightarrow> (bytes \<Rightarrow> bytes) \<Rightarrow> bytes \<Rightarrow> Envelope list
    \<Rightarrow> prov_error option" where
  "prov_VerifyChain H S key chain = verify_from H S key 0 zeroHash chain"

definition ZeroHash :: bytes where "ZeroHash = zeroHash"

definition EncodeHMAC :: "Envelope \<Rightarrow> string" where
  "EncodeHMAC e = rawurl_encode (envHMAC e)"

subsection \<open>The encoding is unambiguous\<close>

definition env_sized :: "Envelope \<Rightarrow> bool" where
  "env_sized e \<longleftrightarrow> length (envSessionID e) < 2 ^ 32 \<and> length (envID e) < 2 ^ 32 \<and> in_int64 (envTimestamp e)
     \<and> length (envPrevHash e) < 2 ^ 32 \<and> length (envData e) < 2 ^ 32"

abbreviation len_prefixed :: "bytes \<Rightarrow> bytes" where
  "len_prefixed b \<equiv> appendLenPrefixed [] b"

lemma len_prefix_inj:
  assumes "len_prefixed a @ x = len_prefixed b @ y" and "length a < 2 ^ 32" "length b < 2 ^ 32"
  shows "a = b \<and> x = y"
proof -
  from assms(1) have e: "be_bytes 4 (length a mod 2 ^ 32) = be_bytes 4 (length b mod 2 ^ 32)" "a @ x = b @ y"
    by (simp_all add: appendLenPrefixed_def append_eq_append_conv)
  from e(1) assms(2,3) have "length a = length b"
    using be_bytes_inj [of 4 "length a" "length b"] by simp
  with e(2) show ?thesis by simp
qed

lemma timestamp_inj:
  assumes "in_int64 a" "in_int64 b" "be_bytes 8 (nat (a mod 2 ^ 64)) = be_bytes 8 (nat (b mod 2 ^ 64))"
  shows "a = b"
proof -
  have lt: "nat (c mod 2 ^ 64) < 256 ^ 8" for c :: int by (simp add: nat_less_iff)
  have "nat (a mod 2 ^ 64) = nat (b mod 2 ^ 64)" using be_bytes_inj [OF assms(3) lt lt] .
  then have "a mod 2 ^ 64 = b mod 2 ^ 64" by simp
  then have "wrap64 a = wrap64 b" unfolding wrap64_def by (metis mod_add_left_eq)
  with assms(1,2) show ?thesis by simp
qed

lemma Canonical_eq:
  "Canonical e = len_prefixed (envSessionID e) @ len_prefixed (envID e)
     @ be_bytes 8 (nat (envTimestamp e mod 2 ^ 64)) @ len_prefixed (envPrevHash e) @ len_prefixed (envData e) @ []"
  by (simp add: Canonical_def appendLenPrefixed_def)

text \<open>
  C33. The canonical text determines the entry: two entries whose fields fit their length prefixes and
  whose canonical texts agree differ at most in the HMAC field, so no two different entries share what
  is signed.
\<close>

theorem canonical_injective:
  assumes "env_sized e" and "env_sized f" and "Canonical e = Canonical f"
  shows "f\<lparr>envHMAC := envHMAC e\<rparr> = e"
proof -
  note sized = assms(1,2) [unfolded env_sized_def]
  note 1 = assms(3) [unfolded Canonical_eq]
  have len: "length (envSessionID e) < 2 ^ 32" "length (envSessionID f) < 2 ^ 32"
    "length (envID e) < 2 ^ 32" "length (envID f) < 2 ^ 32"
    "length (envPrevHash e) < 2 ^ 32" "length (envPrevHash f) < 2 ^ 32"
    "length (envData e) < 2 ^ 32" "length (envData f) < 2 ^ 32"
    "in_int64 (envTimestamp e)" "in_int64 (envTimestamp f)"
    using sized by blast+
  note 2 = len_prefix_inj [OF 1 len(1,2)]
  note 3 = len_prefix_inj [OF conjunct2 [OF 2] len(3,4)]
  have "length (be_bytes 8 (nat (envTimestamp e mod 2 ^ 64))) = length (be_bytes 8 (nat (envTimestamp f mod 2 ^ 64)))"
    by (simp only: length_be_bytes)
  note 4 = iffD1 [OF append_eq_append_conv [OF disjI1 [OF this]] conjunct2 [OF 3]]
  note 6 = len_prefix_inj [OF conjunct2 [OF 4] len(5,6)]
  note 7 = len_prefix_inj [OF conjunct2 [OF 6] len(7,8)]
  from 2 3 6 7 timestamp_inj [OF len(9,10) conjunct1 [OF 4]]
  have "envSessionID e = envSessionID f" "envID e = envID f" "envTimestamp e = envTimestamp f"
    "envPrevHash e = envPrevHash f" "envData e = envData f" by blast+
  then show ?thesis by (intro Envelope.equality) simp_all
qed

definition sample_entry :: "string \<Rightarrow> Envelope" where
  "sample_entry d = \<lparr>envID = ''01H'', envSessionID = ''jti-1'', envTimestamp = 1700000000000, envData = d,
     envPrevHash = zeroHash, envHMAC = []\<rparr>"

lemma sample_entry_sized: "length d < 2 ^ 32 \<Longrightarrow> env_sized (sample_entry d)"
  by (simp add: env_sized_def sample_entry_def zeroHash_def hashSize_def in_int64_def)

theorem canonical_injective_witness:
  "env_sized (sample_entry ''note'') \<and> env_sized ((sample_entry ''note'')\<lparr>envHMAC := ''mac''\<rparr>)
   \<and> ((sample_entry ''note'')\<lparr>envHMAC := ''mac''\<rparr>)\<lparr>envHMAC := envHMAC (sample_entry ''note'')\<rparr> = sample_entry ''note''"
proof -
  let ?e = "sample_entry ''note''" and ?f = "(sample_entry ''note'')\<lparr>envHMAC := ''mac''\<rparr>"
  have e: "env_sized ?e" by (rule sample_entry_sized) simp
  then have f: "env_sized ?f" by (simp add: env_sized_def)
  have "Canonical ?e = Canonical ?f" by (simp add: Canonical_def)
  from canonical_injective [OF e f this] e f show ?thesis by blast
qed

subsection \<open>Chains\<close>

fun linked :: "(bytes \<Rightarrow> bytes) \<Rightarrow> bytes \<Rightarrow> Envelope list \<Rightarrow> bool" where
  "linked S prev [] = True"
| "linked S prev (e # es) = (envPrevHash e = prev \<and> linked S (S (Canonical e)) es)"

lemma verify_from_None:
  "verify_from H S key i prev es = None \<longleftrightarrow> list_all (\<lambda>e. prov_Verify H key e = None) es \<and> linked S prev es"
  by (induction es arbitrary: i prev) (auto split: option.splits)

lemma linked_append:
  "linked S p (es @ [e]) \<longleftrightarrow> linked S p es \<and> envPrevHash e = (if es = [] then p else S (Canonical (last es)))"
  by (induction es arbitrary: p) auto

text \<open>Entries written one after the other through the reference signer, each linked to the one before.\<close>

fun write_chain :: "(bytes \<Rightarrow> bytes \<Rightarrow> bytes) \<Rightarrow> (bytes \<Rightarrow> bytes) \<Rightarrow> bytes \<Rightarrow> bytes \<Rightarrow> Envelope list
    \<Rightarrow> prov_error + Envelope list" where
  "write_chain H S key prev [] = Inr []"
| "write_chain H S key prev (e # es) =
     (case prov_Sign H key (e\<lparr>envPrevHash := prev\<rparr>) of
        Inl err \<Rightarrow> Inl err
      | Inr e' \<Rightarrow>
          (case write_chain H S key (S (Canonical e')) es of Inl err \<Rightarrow> Inl err | Inr es' \<Rightarrow> Inr (e' # es')))"

text \<open>
  What the signer writes, the gateway accepts: a chain of entries signed one after the other under a
  session key verifies under that key, for any keyed hash with 32-byte output.
\<close>

theorem written_chain_verifies:
  assumes "\<And>k m. length (H k m) = hashSize" and "write_chain H S key ZeroHash es = Inr chain"
  shows "prov_VerifyChain H S key chain = None"
proof -
  have "list_all (\<lambda>e. prov_Verify H key e = None) chain \<and> linked S prev chain"
    if "write_chain H S key prev es = Inr chain" for prev
    using that
  proof (induction es arbitrary: prev chain)
    case (Cons e es)
    let ?e = "e\<lparr>envPrevHash := prev, envHMAC := H key (Canonical (e\<lparr>envPrevHash := prev\<rparr>))\<rparr>"
    from Cons.prems obtain rest where key: "key \<noteq> []" and chain: "chain = ?e # rest"
      and rest: "write_chain H S key (S (Canonical ?e)) es = Inr rest"
      by (auto simp: prov_Sign_def split: if_splits sum.splits)
    have "Canonical ?e = Canonical (e\<lparr>envPrevHash := prev\<rparr>)" by (simp add: Canonical_def)
    then have "prov_Verify H key ?e = None" using key assms(1) by (simp add: prov_Verify_def)
    with Cons.IH [OF rest] show ?case by (simp add: chain)
  qed simp
  with assms(2) show ?thesis by (simp add: prov_VerifyChain_def verify_from_None ZeroHash_def)
qed

definition hash32 :: "bytes \<Rightarrow> bytes \<Rightarrow> bytes" where
  "hash32 k m = replicate 32 (if even (length m) then CHR ''e'' else CHR ''o'')"

theorem written_chain_verifies_witness:
  "\<exists>chain. write_chain hash32 sha256 ''key'' ZeroHash [sample_entry ''a'', sample_entry ''b''] = Inr chain
     \<and> prov_VerifyChain hash32 sha256 ''key'' chain = None"
proof -
  obtain chain where c: "write_chain hash32 sha256 ''key'' ZeroHash [sample_entry ''a'', sample_entry ''b''] = Inr chain"
    by (simp add: prov_Sign_def)
  have "length (hash32 k m) = hashSize" for k m by (simp add: hash32_def hashSize_def)
  from written_chain_verifies [of hash32, OF this c] c show ?thesis by blast
qed

text \<open>
  The last entry pins the whole chain: two verifying chains that end in the same signed text are the
  same sequence of signed texts, unless two of their texts collide under the chain hash or one of them
  hashes to the all-zero genesis value.
\<close>

theorem chain_determined_by_last:
  assumes "prov_VerifyChain H S key c = None" and "prov_VerifyChain H S key d = None"
    and "c \<noteq> []" and "d \<noteq> []" and "Canonical (last c) = Canonical (last d)"
    and "list_all env_sized c" and "list_all env_sized d"
  shows "map Canonical c = map Canonical d
    \<or> (\<exists>a \<in> set c. \<exists>b \<in> set d. Canonical a \<noteq> Canonical b \<and> S (Canonical a) = S (Canonical b))
    \<or> (\<exists>a \<in> set c \<union> set d. S (Canonical a) = zeroHash)"
proof -
  have "linked S zeroHash c" "linked S zeroHash d"
    using assms(1,2) by (auto simp: prov_VerifyChain_def verify_from_None)
  then show ?thesis using assms(3-7)
  proof (induction c arbitrary: d rule: rev_induct)
    case (snoc e c)
    from snoc.prems(4) obtain d' f where d: "d = d' @ [f]" by (cases d rule: rev_cases) auto
    have ef: "Canonical e = Canonical f" using snoc.prems(5) d by simp
    have sz: "env_sized e" "env_sized f" using snoc.prems(6,7) d by auto
    have prev: "envPrevHash e = envPrevHash f"
      using arg_cong [OF canonical_injective [OF sz ef], of envPrevHash] by simp
    have le: "envPrevHash e = (if c = [] then zeroHash else S (Canonical (last c)))" "linked S zeroHash c"
      using snoc.prems(1) by (auto simp: linked_append)
    have lf: "envPrevHash f = (if d' = [] then zeroHash else S (Canonical (last d')))" "linked S zeroHash d'"
      using snoc.prems(2) d by (auto simp: linked_append)
    consider (base) "c = []" "d' = []" | (mixed) "(c = []) \<noteq> (d' = [])" | (both) "c \<noteq> []" "d' \<noteq> []" by blast
    then show ?case
    proof cases
      case base
      with d ef show ?thesis by simp
    next
      case mixed
      with le lf prev d show ?thesis by (auto split: if_splits) (metis last_in_set)+
    next
      case both
      with le lf prev have s: "S (Canonical (last c)) = S (Canonical (last d'))" by simp
      show ?thesis
      proof (cases "Canonical (last c) = Canonical (last d')")
        case True
        with snoc.IH [OF le(2) lf(2) both True] snoc.prems(6,7) d ef show ?thesis by auto
      next
        case False
        with s both d show ?thesis by (metis UnI1 last_in_set set_append)
      qed
    qed
  qed simp
qed

theorem chain_determined_by_last_witness:
  "\<exists>chain. prov_VerifyChain hash32 sha256 ''key'' chain = None \<and> chain \<noteq> [] \<and>
     (map Canonical chain = map Canonical chain
      \<or> (\<exists>a \<in> set chain. \<exists>b \<in> set chain. Canonical a \<noteq> Canonical b \<and> sha256 (Canonical a) = sha256 (Canonical b))
      \<or> (\<exists>a \<in> set chain \<union> set chain. sha256 (Canonical a) = zeroHash))"
proof -
  let ?e = "(sample_entry ''a'')\<lparr>envHMAC := hash32 ''key'' (Canonical (sample_entry ''a''))\<rparr>"
  have v: "prov_VerifyChain hash32 sha256 ''key'' [?e] = None"
    by (simp add: prov_VerifyChain_def prov_Verify_def hash32_def hashSize_def sample_entry_def Canonical_def)
  have "env_sized ?e" using sample_entry_sized [of "''a''"] by (simp add: env_sized_def)
  then have sz: "list_all env_sized [?e]" by simp
  have ne: "[?e] \<noteq> []" by simp
  from chain_determined_by_last [OF v v ne ne refl sz sz] v ne show ?thesis by blast
qed

end
