(* ===== verification/FaultIsolation.thy ===== *)
theory FaultIsolation
  imports GoBase "HOL-Library.Multiset"
begin

text \<open>
  Package \<open>internal/faultisolation\<close>: the per-tool circuit breaker and bulkhead. \<open>fi_Acquire\<close> and
  \<open>fi_release\<close> run one call through; concurrent calls interleave at the granularity of the code's mutex
  sections and atomic operations, the relation \<open>fi_step\<close> on the state of one tool and the multiset of
  calls with the point each has reached. The state of one tool does not depend on any other's.
\<close>

datatype BreakerState = StateClosed | StateOpen | StateHalfOpen

fun state_String :: "BreakerState \<Rightarrow> string" where
  "state_String StateClosed = ''closed''"
| "state_String StateOpen = ''open''"
| "state_String StateHalfOpen = ''half_open''"

datatype fi_error = ErrCircuitOpen | ErrBulkheadFull

record FiConfig =
  fcMaxConcurrent :: int
  fcFailureThreshold :: int
  fcCooldown :: int

definition applyDefaults :: "FiConfig \<Rightarrow> FiConfig" where
  "applyDefaults c =
     \<lparr>fcMaxConcurrent = (if fcMaxConcurrent c \<le> 0 then 20 else fcMaxConcurrent c),
      fcFailureThreshold = (if fcFailureThreshold c \<le> 0 then 5 else fcFailureThreshold c),
      fcCooldown = (if fcCooldown c \<le> 0 then 30 * second else fcCooldown c)\<rparr>"

record toolState =
  tsState :: BreakerState
  tsFailures :: int
  tsOpenedAt :: gotime
  tsInFlight :: int

definition new_toolState :: toolState where
  "new_toolState = \<lparr>tsState = StateClosed, tsFailures = 0, tsOpenedAt = 0, tsInFlight = 0\<rparr>"

datatype FiOutcome = OutcomeSuccess | OutcomeFailure | OutcomeIgnore

type_synonym Isolator = "string \<rightharpoonup> toolState"

definition stateFor :: "Isolator \<Rightarrow> string \<Rightarrow> toolState" where
  "stateFor i tool = (case i tool of Some ts \<Rightarrow> ts | None \<Rightarrow> new_toolState)"

text \<open>The mutex section of \<open>Acquire\<close>: pass, or fail fast.\<close>

definition fi_breaker :: "FiConfig \<Rightarrow> gotime \<Rightarrow> toolState \<Rightarrow> fi_error option \<times> toolState" where
  "fi_breaker cfg now ts =
     (if 0 < fcFailureThreshold cfg then
        (case tsState ts of
           StateOpen \<Rightarrow>
             (if now - tsOpenedAt ts < fcCooldown cfg then (Some ErrCircuitOpen, ts)
              else (None, ts\<lparr>tsState := StateHalfOpen\<rparr>))
         | StateHalfOpen \<Rightarrow> (Some ErrCircuitOpen, ts)
         | StateClosed \<Rightarrow> (None, ts))
      else (None, ts))"

text \<open>The bulkhead with no concurrent caller: the compare-and-swap succeeds at once.\<close>

definition fi_bulkhead :: "FiConfig \<Rightarrow> toolState \<Rightarrow> fi_error option \<times> toolState" where
  "fi_bulkhead cfg ts =
     (if 0 < fcMaxConcurrent cfg then
        (if fcMaxConcurrent cfg \<le> tsInFlight ts then (Some ErrBulkheadFull, ts)
         else (None, ts\<lparr>tsInFlight := tsInFlight ts + 1\<rparr>))
      else (None, ts))"

definition fi_Acquire :: "FiConfig \<Rightarrow> gotime \<Rightarrow> string \<Rightarrow> Isolator \<Rightarrow> fi_error option \<times> Isolator" where
  "fi_Acquire cfg now tool i =
     (case fi_breaker cfg now (stateFor i tool) of
        (Some err, ts) \<Rightarrow> (Some err, i(tool \<mapsto> ts))
      | (None, ts) \<Rightarrow> (case fi_bulkhead cfg ts of (err, ts') \<Rightarrow> (err, i(tool \<mapsto> ts'))))"

definition fi_record :: "FiConfig \<Rightarrow> gotime \<Rightarrow> FiOutcome \<Rightarrow> toolState \<Rightarrow> toolState" where
  "fi_record cfg now oc ts =
     (if fcFailureThreshold cfg \<le> 0 then ts
      else case oc of
        OutcomeSuccess \<Rightarrow>
          (let ts' = ts\<lparr>tsFailures := 0\<rparr> in
           if tsState ts' = StateHalfOpen \<or> tsState ts' = StateOpen then ts'\<lparr>tsState := StateClosed\<rparr> else ts')
      | OutcomeFailure \<Rightarrow>
          (let ts' = ts\<lparr>tsFailures := tsFailures ts + 1\<rparr> in
           if tsState ts' = StateHalfOpen then ts'\<lparr>tsState := StateOpen, tsOpenedAt := now\<rparr>
           else if tsState ts' = StateClosed \<and> fcFailureThreshold cfg \<le> tsFailures ts'
             then ts'\<lparr>tsState := StateOpen, tsOpenedAt := now\<rparr>
           else ts')
      | OutcomeIgnore \<Rightarrow> ts)"

definition fi_leave :: "FiConfig \<Rightarrow> toolState \<Rightarrow> toolState" where
  "fi_leave cfg ts = (if 0 < fcMaxConcurrent cfg then ts\<lparr>tsInFlight := tsInFlight ts - 1\<rparr> else ts)"

definition fi_release :: "FiConfig \<Rightarrow> gotime \<Rightarrow> FiOutcome \<Rightarrow> string \<Rightarrow> Isolator \<Rightarrow> Isolator" where
  "fi_release cfg now oc tool i = i(tool \<mapsto> fi_record cfg now oc (fi_leave cfg (stateFor i tool)))"

record FiSnapshot =
  fsTool :: string
  fsState :: BreakerState
  fsFailures :: int
  fsInFlight :: int
  fsOpenedAt :: gotime

definition fi_Snapshot :: "Isolator \<Rightarrow> string \<Rightarrow> FiSnapshot" where
  "fi_Snapshot i tool =
     (let ts = stateFor i tool in
      \<lparr>fsTool = tool, fsState = tsState ts, fsFailures = tsFailures ts, fsInFlight = tsInFlight ts,
       fsOpenedAt = tsOpenedAt ts\<rparr>)"

subsection \<open>Concurrent calls to one tool\<close>

text \<open>
  Where a call stands: about to load the permit counter, about to swap it after loading a value,
  forwarding to the upstream with a permit, about to record its outcome, or finished.
\<close>

datatype call_pc = AtLoad | AtSwap int | Forwarding | AtRecord FiOutcome | Finished

inductive fi_step :: "FiConfig \<Rightarrow> toolState \<times> call_pc multiset \<Rightarrow> toolState \<times> call_pc multiset \<Rightarrow> bool" for cfg where
  refused: "fi_breaker cfg now ts = (Some e, ts') \<Longrightarrow> fi_step cfg (ts, M) (ts', M)"
| arrive: "fi_breaker cfg now ts = (None, ts') \<Longrightarrow> fi_step cfg (ts, M) (ts', add_mset AtLoad M)"
| full: "fcMaxConcurrent cfg \<le> tsInFlight ts \<Longrightarrow> fi_step cfg (ts, add_mset AtLoad M) (ts, add_mset Finished M)"
| load: "tsInFlight ts < fcMaxConcurrent cfg \<Longrightarrow>
    fi_step cfg (ts, add_mset AtLoad M) (ts, add_mset (AtSwap (tsInFlight ts)) M)"
| swap: "tsInFlight ts = cur \<Longrightarrow>
    fi_step cfg (ts, add_mset (AtSwap cur) M) (ts\<lparr>tsInFlight := cur + 1\<rparr>, add_mset Forwarding M)"
| lost: "tsInFlight ts \<noteq> cur \<Longrightarrow> fi_step cfg (ts, add_mset (AtSwap cur) M) (ts, add_mset AtLoad M)"
| leave: "fi_step cfg (ts, add_mset Forwarding M) (fi_leave cfg ts, add_mset (AtRecord oc) M)"
| tally: "fi_step cfg (ts, add_mset (AtRecord oc) M) (fi_record cfg now oc ts, add_mset Finished M)"

definition swap_ok :: "FiConfig \<Rightarrow> call_pc \<Rightarrow> bool" where
  "swap_ok cfg pc \<longleftrightarrow> (case pc of AtSwap cur \<Rightarrow> cur < fcMaxConcurrent cfg | _ \<Rightarrow> True)"

lemma swap_ok_simps [simp]:
  "swap_ok cfg AtLoad" "swap_ok cfg (AtSwap n) \<longleftrightarrow> n < fcMaxConcurrent cfg" "swap_ok cfg Forwarding"
  "swap_ok cfg (AtRecord oc)" "swap_ok cfg Finished"
  by (simp_all add: swap_ok_def)

definition fi_inv :: "FiConfig \<Rightarrow> toolState \<times> call_pc multiset \<Rightarrow> bool" where
  "fi_inv cfg s \<longleftrightarrow> (case s of (ts, M) \<Rightarrow>
     tsInFlight ts = int (count M Forwarding) \<and> tsInFlight ts \<le> fcMaxConcurrent cfg
     \<and> (\<forall>pc \<in># M. swap_ok cfg pc)
     \<and> 0 \<le> tsFailures ts \<and> (tsState ts = StateClosed \<longrightarrow> tsFailures ts < fcFailureThreshold cfg))"

lemma breaker_keeps:
  assumes "fi_breaker cfg now ts = (r, ts')"
  shows "tsInFlight ts' = tsInFlight ts" "tsFailures ts' = tsFailures ts" "tsState ts' = StateClosed \<Longrightarrow> tsState ts = StateClosed"
  using assms by (auto simp: fi_breaker_def split: if_splits BreakerState.splits)

lemma record_keeps:
  assumes "0 < fcFailureThreshold cfg" "0 \<le> tsFailures ts" "tsState ts = StateClosed \<longrightarrow> tsFailures ts < fcFailureThreshold cfg"
  shows "tsInFlight (fi_record cfg now oc ts) = tsInFlight ts" "0 \<le> tsFailures (fi_record cfg now oc ts)"
    "tsState (fi_record cfg now oc ts) = StateClosed \<longrightarrow> tsFailures (fi_record cfg now oc ts) < fcFailureThreshold cfg"
  using assms by (auto simp: fi_record_def Let_def split: FiOutcome.splits)

lemma fi_inv_step:
  assumes "fi_step cfg s s'" "fi_inv cfg s" "0 < fcMaxConcurrent cfg" "0 < fcFailureThreshold cfg"
  shows "fi_inv cfg s'"
  using assms
proof (induction rule: fi_step.induct)
  case (tally ts oc M now)
  then show ?case using record_keeps [of cfg ts now oc] by (auto simp: fi_inv_def)
qed (auto simp: fi_inv_def fi_leave_def dest: breaker_keeps)

lemma fi_inv_reachable:
  assumes "(fi_step cfg)\<^sup>*\<^sup>* (new_toolState, {#}) s" "0 < fcMaxConcurrent cfg" "0 < fcFailureThreshold cfg"
  shows "fi_inv cfg s"
  using assms(1)
proof (induction rule: rtranclp_induct)
  case base
  then show ?case using assms(2,3) by (simp add: fi_inv_def new_toolState_def)
next
  case (step s s')
  then show ?case using fi_inv_step assms(2,3) by blast
qed

lemma defaults_positive: "0 < fcMaxConcurrent (applyDefaults c)" "0 < fcFailureThreshold (applyDefaults c)"
    "0 < fcCooldown (applyDefaults c)"
  by (simp_all add: applyDefaults_def)

text \<open>
  C38. The bulkhead holds under every interleaving: however many calls to a tool arrive, race for a permit
  and finish, the calls forwarding at any moment are as many as the counter says and never more than the
  configured capacity; and while the breaker is closed fewer consecutive failures than the threshold
  have been recorded.
\<close>

theorem bulkhead_never_exceeded:
  assumes "(fi_step (applyDefaults c))\<^sup>*\<^sup>* (new_toolState, {#}) (ts, M)"
  shows "int (count M Forwarding) \<le> fcMaxConcurrent (applyDefaults c) \<and> tsInFlight ts = int (count M Forwarding)
    \<and> (tsState ts = StateClosed \<longrightarrow> tsFailures ts < fcFailureThreshold (applyDefaults c))"
  using fi_inv_reachable [OF assms defaults_positive(1,2)] by (simp add: fi_inv_def)

definition one_permit :: FiConfig where
  "one_permit = \<lparr>fcMaxConcurrent = 1, fcFailureThreshold = 2, fcCooldown = 10\<rparr>"

lemma one_permit_defaults [simp]: "applyDefaults one_permit = one_permit"
  by (simp add: applyDefaults_def one_permit_def)

theorem bulkhead_never_exceeded_witness:
  "\<exists>ts. (fi_step (applyDefaults one_permit))\<^sup>*\<^sup>* (new_toolState, {#}) (ts, {#Forwarding#})
     \<and> int (count {#Forwarding#} Forwarding) \<le> fcMaxConcurrent (applyDefaults one_permit)"
proof -
  let ?t1 = "new_toolState\<lparr>tsInFlight := 1\<rparr>"
  have "fi_step one_permit (new_toolState, {#}) (new_toolState, {#AtLoad#})"
    by (rule fi_step.arrive [where now = 0]) (simp add: fi_breaker_def new_toolState_def one_permit_def)
  moreover have "fi_step one_permit (new_toolState, {#AtLoad#}) (new_toolState, {#AtSwap 0#})"
    using fi_step.load [of new_toolState one_permit "{#}"] by (simp add: new_toolState_def one_permit_def)
  moreover have "fi_step one_permit (new_toolState, {#AtSwap 0#}) (?t1, {#Forwarding#})"
    using fi_step.swap [of new_toolState 0 one_permit "{#}"] by (simp add: new_toolState_def)
  ultimately have "(fi_step (applyDefaults one_permit))\<^sup>*\<^sup>* (new_toolState, {#}) (?t1, {#Forwarding#})"
    by (simp add: converse_rtranclp_into_rtranclp r_into_rtranclp)
  from this bulkhead_never_exceeded [OF this] show ?thesis by blast
qed

subsection \<open>The breaker\<close>

definition fail_at :: "FiConfig \<Rightarrow> gotime list \<Rightarrow> toolState \<Rightarrow> toolState" where
  "fail_at cfg nows ts = fold (\<lambda>now. fi_record cfg now OutcomeFailure) nows ts"

lemma fail_below_threshold:
  "0 < fcFailureThreshold cfg \<Longrightarrow> int (length nows) < fcFailureThreshold cfg \<Longrightarrow>
     fail_at cfg nows new_toolState = new_toolState\<lparr>tsFailures := int (length nows)\<rparr>"
proof (induction nows rule: rev_induct)
  case (snoc now nows)
  then have "fail_at cfg nows new_toolState = new_toolState\<lparr>tsFailures := int (length nows)\<rparr>" by simp
  with snoc.prems show ?case by (simp add: fail_at_def fi_record_def new_toolState_def Let_def)
qed (simp add: fail_at_def new_toolState_def)

text \<open>
  The breaker trips at its threshold, not before, and holds for the cooldown: recording fewer
  consecutive failures than the threshold leaves it closed; the failure that reaches the threshold opens
  it; then every call within the cooldown of that failure is refused, the first one after it is let
  through as the only probe, and a successful probe closes the breaker with the count reset.
\<close>

theorem breaker_trips_and_recovers:
  assumes "cfg = applyDefaults c" and "int (length nows) + 1 = fcFailureThreshold cfg"
  shows "tsState (fail_at cfg nows new_toolState) = StateClosed
    \<and> tsState (fail_at cfg (nows @ [t]) new_toolState) = StateOpen
    \<and> (now - t < fcCooldown cfg \<longrightarrow>
         fst (fi_breaker cfg now (fail_at cfg (nows @ [t]) new_toolState)) = Some ErrCircuitOpen)
    \<and> (fcCooldown cfg \<le> now - t \<longrightarrow>
         (case fi_breaker cfg now (fail_at cfg (nows @ [t]) new_toolState) of (r, ts) \<Rightarrow>
            r = None \<and> fst (fi_breaker cfg now' ts) = Some ErrCircuitOpen
            \<and> tsState (fi_record cfg now' OutcomeSuccess ts) = StateClosed
            \<and> tsFailures (fi_record cfg now' OutcomeSuccess ts) = 0))"
proof -
  have pos: "0 < fcFailureThreshold cfg" using defaults_positive assms(1) by simp
  have below: "fail_at cfg nows new_toolState = new_toolState\<lparr>tsFailures := int (length nows)\<rparr>"
    using fail_below_threshold [OF pos, of nows] assms(2) by simp
  have at: "fail_at cfg (nows @ [t]) new_toolState =
      \<lparr>tsState = StateOpen, tsFailures = fcFailureThreshold cfg, tsOpenedAt = t, tsInFlight = 0\<rparr>"
    using below assms(2) pos by (simp add: fail_at_def fi_record_def new_toolState_def Let_def)
  show ?thesis
    using pos unfolding at below by (simp add: fi_breaker_def fi_record_def new_toolState_def Let_def)
qed

theorem breaker_trips_and_recovers_witness:
  "tsState (fail_at one_permit [1, 5] new_toolState) = StateOpen
   \<and> fst (fi_breaker one_permit 14 (fail_at one_permit [1, 5] new_toolState)) = Some ErrCircuitOpen
   \<and> fst (fi_breaker one_permit 15 (fail_at one_permit [1, 5] new_toolState)) = None"
  using breaker_trips_and_recovers [of one_permit one_permit "[1]" 5 14 20]
    breaker_trips_and_recovers [of one_permit one_permit "[1]" 5 15 20]
  by (simp add: one_permit_def applyDefaults_def split: prod.splits)

end
