(* ===== verification/Mcp.thy ===== *)
theory Mcp
  imports Json Encoding "HOL-Library.Char_ord" "HOL-Library.List_Lexorder" "HOL-Library.Multiset"
begin

text \<open>
  Package \<open>internal/mcp\<close>: the JSON-RPC 2.0 envelopes of the MCP endpoint (\<open>types.go\<close>, \<open>methods.go\<close>), and the
  part of \<open>encoding/json\<close> the handler uses to write values. A \<open>json.RawMessage\<close> is its bytes; an absent one
  (\<open>nil\<close>) in a response is \<^const>\<open>None\<close>. The data of an error, an \<open>any\<close>, is an optional \<^typ>\<open>json\<close>.
\<close>

type_synonym raw = bytes

definition Version :: string where "Version = ''2.0''"

record Request =
  rqJSONRPC :: string
  rqID :: raw
  rqMethod :: string
  rqParams :: raw

definition IsNotification :: "Request \<Rightarrow> bool" where
  "IsNotification r \<longleftrightarrow> rqID r = []"

datatype request_error = BadVersion | NoMethod

fun request_error_text :: "request_error \<Rightarrow> string" where
  "request_error_text BadVersion =
     CHR 0x22 # ''jsonrpc'' @ CHR 0x22 # '' field must be '' @ CHR 0x22 # ''2.0'' @ [CHR 0x22]"
| "request_error_text NoMethod = CHR 0x22 # ''method'' @ CHR 0x22 # '' field is required''"

definition request_Validate :: "Request \<Rightarrow> request_error option" where
  "request_Validate r =
     (if rqJSONRPC r \<noteq> Version then Some BadVersion
      else if rqMethod r = [] then Some NoMethod
      else None)"

record ResponseError =
  reCode :: int
  reMessage :: string
  reData :: "json option"

record Response =
  rpJSONRPC :: string
  rpID :: raw
  rpResult :: "raw option"
  rpError :: "ResponseError option"

definition CodeParseError :: int where "CodeParseError = -32700"
definition CodeInvalidRequest :: int where "CodeInvalidRequest = -32600"
definition CodeMethodNotFound :: int where "CodeMethodNotFound = -32601"
definition CodeInvalidParams :: int where "CodeInvalidParams = -32602"
definition CodeInternalError :: int where "CodeInternalError = -32603"
definition CodeCapabilityFailed :: int where "CodeCapabilityFailed = -32010"
definition CodeIntentFailed :: int where "CodeIntentFailed = -32011"
definition CodePolicyFailed :: int where "CodePolicyFailed = -32012"
definition CodeBudgetFailed :: int where "CodeBudgetFailed = -32013"
definition CodeProvenanceFailed :: int where "CodeProvenanceFailed = -32014"
definition CodePIIBlocked :: int where "CodePIIBlocked = -32015"
definition CodeOutputSchemaViolation :: int where "CodeOutputSchemaViolation = -32016"
definition CodeTenantScopeViolation :: int where "CodeTenantScopeViolation = -32017"
definition CodeUpstreamUnavailable :: int where "CodeUpstreamUnavailable = -32018"
definition CodeApprovalPending :: int where "CodeApprovalPending = -32019"

definition idOrNull :: "raw \<Rightarrow> raw" where
  "idOrNull i = (if i = [] then ''null'' else i)"

definition NewErrorResponse :: "raw \<Rightarrow> int \<Rightarrow> string \<Rightarrow> json option \<Rightarrow> Response" where
  "NewErrorResponse i code message data =
     \<lparr>rpJSONRPC = Version, rpID = idOrNull i, rpResult = None,
      rpError = Some \<lparr>reCode = code, reMessage = message, reData = data\<rparr>\<rparr>"

text \<open>The values the handler marshals here always encode, so only the success branch is reached.\<close>

definition NewResultResponse :: "raw \<Rightarrow> raw \<Rightarrow> Response" where
  "NewResultResponse i encoded =
     \<lparr>rpJSONRPC = Version, rpID = idOrNull i, rpResult = Some encoded, rpError = None\<rparr>"

lemmas response_defs = NewErrorResponse_def NewResultResponse_def

definition MethodToolsCall :: string where "MethodToolsCall = ''tools/call''"
definition MethodToolsList :: string where "MethodToolsList = ''tools/list''"
definition MethodInitialize :: string where "MethodInitialize = ''initialize''"
definition MethodPing :: string where "MethodPing = ''ping''"

lemmas methods = MethodToolsCall_def MethodToolsList_def MethodInitialize_def MethodPing_def

record ToolCallParams =
  tpName :: string
  tpArguments :: args

subsection \<open>Writing JSON\<close>

definition json_bool :: "bool \<Rightarrow> string" where
  "json_bool b = (if b then ''true'' else ''false'')"

definition json_pair :: "string \<times> string \<Rightarrow> string" where
  "json_pair kv = json_string (fst kv) @ '':'' @ snd kv"

definition json_braces :: "(string \<times> string) list \<Rightarrow> string" where
  "json_braces ms = ''{'' @ commas (map json_pair ms) @ ''}''"

text \<open>
  \<open>json.Marshal\<close> of a decoded value: the keys of a map are written in sorted order. The shortest decimal text
  of a \<open>float64\<close> is the argument \<open>num\<close>.
\<close>

fun enc_json :: "(rat \<Rightarrow> string) \<Rightarrow> json \<Rightarrow> string" where
  "enc_json num JNull = ''null''"
| "enc_json num (JBool b) = json_bool b"
| "enc_json num (JNum q) = num q"
| "enc_json num (JStr s) = json_string s"
| "enc_json num (JArr xs) = ''['' @ commas (map (enc_json num) xs) @ '']''"
| "enc_json num (JObj m) = json_braces (sort_key fst (map (\<lambda>(k, v). (k, enc_json num v)) m))"

definition marshal_args :: "(rat \<Rightarrow> string) \<Rightarrow> args \<Rightarrow> string" where
  "marshal_args num m = (case m of None \<Rightarrow> ''null'' | Some kvs \<Rightarrow> enc_json num (JObj kvs))"

record IntentGateMetadata =
  imDecision :: string
  imReason :: string
  imCheck :: string
  imLatencyMS :: int

definition enc_metadata :: "IntentGateMetadata \<Rightarrow> string" where
  "enc_metadata m =
     enc_object ([(''decision'', JS (imDecision m))] @ opt_str ''reason'' (imReason m)
       @ opt_str ''check'' (imCheck m) @ [(''latency_ms'', JI (imLatencyMS m))])"

record ContentBlock =
  cbType :: string
  cbText :: string

record ToolCallResult =
  trContent :: "ContentBlock list"
  trIsError :: bool
  trIntentGate :: "IntentGateMetadata option"

definition enc_block :: "ContentBlock \<Rightarrow> string" where
  "enc_block b = enc_object ([(''type'', JS (cbType b))] @ opt_str ''text'' (cbText b))"

definition enc_ToolCallResult :: "ToolCallResult \<Rightarrow> raw" where
  "enc_ToolCallResult r =
     json_braces ([(''content'', ''['' @ commas (map enc_block (trContent r)) @ '']''),
                   (''isError'', json_bool (trIsError r))]
       @ (case trIntentGate r of None \<Rightarrow> [] | Some m \<Rightarrow> [(''_intentgate'', enc_metadata m)]))"

text \<open>The \<open>initialize\<close> answer of a gateway with no upstream (\<open>InitializeResult\<close>).\<close>

definition enc_InitializeResult :: raw where
  "enc_InitializeResult =
     json_braces [(''protocolVersion'', json_string ''2025-03-26''),
       (''serverInfo'', enc_object [(''name'', JS ''intentgate''), (''version'', JS ''0.2'')]),
       (''capabilities'', json_braces [(''tools'', json_braces [])])]"

text \<open>Two values with the same members in any order have the same text.\<close>

lemma enc_json_perm:
  assumes "mset m = mset m'" and "distinct (map fst m)"
  shows "enc_json num (JObj m) = enc_json num (JObj m')"
proof -
  let ?f = "\<lambda>(k, v). (k, enc_json num v)"
  have keys: "map fst (map ?f m) = map fst m" by (simp add: comp_def case_prod_unfold)
  have "mset (map ?f m) = mset (map ?f m')" using assms(1) by (simp only: mset_map)
  moreover have "inj_on fst (set (map ?f m))"
    using assms(2) keys by (metis distinct_map)
  ultimately have "sort_key fst (map ?f m) = sort_key fst (map ?f m')"
    by (intro sort_key_inj_key_eq) simp_all
  then show ?thesis by simp
qed

end
