(* ===== verification/Obo.thy ===== *)
theory Obo
  imports Mcp Sha256
begin

text \<open>
  Package \<open>internal/obo\<close>: on-behalf-of tokens, a signed JSON payload naming the human a call is made for. The
  keyed hash \<open>H\<close> is HMAC-SHA-256 and \<open>unmarshal\<close> is \<open>json.Unmarshal\<close> into the payload struct, \<^const>\<open>None\<close>
  when it fails; the clock reading is \<open>now\<close>. A nil attribute map and an empty one are the same list.
\<close>

record obo_payload =
  opSubject :: string
  opOnBehalfOf :: string
  opAttrs :: "(string \<times> string) list"
  opIssuedAt :: int
  opExpiry :: int

record Principal =
  prnSubject :: string
  prnOnBehalfOf :: string
  prnAttrs :: "(string \<times> string) list"

datatype obo_error =
    OboKeyEmpty | OboSubjectRequired | OboMalformed | OboPayloadEncoding | OboSignatureEncoding
  | OboSignatureMismatch | OboUnmarshal | OboNoSubject | OboNoExpiry | OboExpired

definition Delegated :: "Principal option \<Rightarrow> bool" where
  "Delegated p \<longleftrightarrow> (case p of None \<Rightarrow> False | Some q \<Rightarrow> prnOnBehalfOf q \<noteq> [])"

definition Attr :: "Principal option \<Rightarrow> string \<Rightarrow> string" where
  "Attr p k = (case p of None \<Rightarrow> [] | Some q \<Rightarrow> (case map_of (prnAttrs q) k of None \<Rightarrow> [] | Some v \<Rightarrow> v))"

text \<open>\<open>json.Marshal\<close> of the payload: the members in declaration order, empty attributes left out.\<close>

definition obo_marshal :: "obo_payload \<Rightarrow> bytes" where
  "obo_marshal p =
     json_braces ([(''sub'', json_string (opSubject p)), (''act'', json_string (opOnBehalfOf p))]
       @ (if opAttrs p = [] then []
          else [(''attrs'', json_braces (sort_key fst (map (\<lambda>(k, v). (k, json_string v)) (opAttrs p))))])
       @ [(''iat'', show_int (opIssuedAt p)), (''exp'', show_int (opExpiry p))])"

definition obo_Mint :: "(bytes \<Rightarrow> bytes \<Rightarrow> bytes) \<Rightarrow> bytes \<Rightarrow> string \<Rightarrow> string
    \<Rightarrow> (string \<times> string) list \<Rightarrow> int \<Rightarrow> gotime \<Rightarrow> obo_error + string" where
  "obo_Mint H key subject onBehalfOf attrs ttl now =
     (if key = [] then Inl OboKeyEmpty
      else if subject = [] then Inl OboSubjectRequired
      else
        (let ttl' = (if ttl \<le> 0 then 5 * 60 * second else ttl);
             body = obo_marshal \<lparr>opSubject = subject, opOnBehalfOf = onBehalfOf, opAttrs = attrs,
                      opIssuedAt = unix now, opExpiry = unix (now + ttl')\<rparr>
         in Inr (rawurl_encode body @ ''.'' @ rawurl_encode (H key body))))"

definition obo_Verify :: "(bytes \<Rightarrow> bytes \<Rightarrow> bytes) \<Rightarrow> (bytes \<Rightarrow> obo_payload option) \<Rightarrow> gotime \<Rightarrow> bytes \<Rightarrow> string
    \<Rightarrow> obo_error + Principal" where
  "obo_Verify H unmarshal now key token =
     (if key = [] then Inl OboKeyEmpty
      else
        (let before = takeWhile (\<lambda>c. c \<noteq> CHR ''.'') token;
             after = drop (Suc (length before)) token
         in if length before = length token \<or> before = [] \<or> after = [] then Inl OboMalformed
            else case rawurl_decode before of
              None \<Rightarrow> Inl OboPayloadEncoding
            | Some body \<Rightarrow>
                (case rawurl_decode after of
                   None \<Rightarrow> Inl OboSignatureEncoding
                 | Some gotSig \<Rightarrow>
                     (if gotSig \<noteq> H key body then Inl OboSignatureMismatch
                      else case unmarshal body of
                        None \<Rightarrow> Inl OboUnmarshal
                      | Some pl \<Rightarrow>
                          (if opSubject pl = [] then Inl OboNoSubject
                           else if opExpiry pl = 0 then Inl OboNoExpiry
                           else if opExpiry pl \<le> unix now then Inl OboExpired
                           else Inr \<lparr>prnSubject = opSubject pl, prnOnBehalfOf = opOnBehalfOf pl,
                                  prnAttrs = opAttrs pl\<rparr>)))))"

lemma rawurl_no_dot: "CHR ''.'' \<notin> set (rawurl_encode b)"
proof -
  have "set (rawurl_encode b) \<subseteq> set url_alphabet"
    unfolding rawurl_encode_def by (rule set_b64_enc) auto
  moreover have "CHR ''.'' \<notin> set url_alphabet" by (simp add: url_alphabet_def)
  ultimately show ?thesis by blast
qed

lemma split_token: "takeWhile (\<lambda>c. c \<noteq> CHR ''.'') (rawurl_encode a @ CHR ''.'' # r) = rawurl_encode a"
  using rawurl_no_dot [of a] by (subst takeWhile_append2) auto

lemma verify_token:
  assumes "key \<noteq> []" "body \<noteq> []" "sig \<noteq> []"
  shows "obo_Verify H unmarshal now key (rawurl_encode body @ CHR ''.'' # rawurl_encode sig) =
    (if sig \<noteq> H key body then Inl OboSignatureMismatch
     else case unmarshal body of
       None \<Rightarrow> Inl OboUnmarshal
     | Some pl \<Rightarrow>
         (if opSubject pl = [] then Inl OboNoSubject
          else if opExpiry pl = 0 then Inl OboNoExpiry
          else if opExpiry pl \<le> unix now then Inl OboExpired
          else Inr \<lparr>prnSubject = opSubject pl, prnOnBehalfOf = opOnBehalfOf pl, prnAttrs = opAttrs pl\<rparr>))"
  using assms by (simp add: obo_Verify_def split_token)

text \<open>
  On-behalf-of tokens: a token minted for a subject is accepted under the same key, for every instant before
  its expiry, with the subject, the human and the attributes it was minted with, and from the expiry on it is
  reported expired; and a token whose signature is not the keyed hash of its payload is refused whatever the
  payload says.
\<close>

theorem obo_minted_verifies:
  assumes "obo_Mint H key subject act attrs ttl now = Inr token"
    and "\<And>b. H key b \<noteq> []"
    and "p = \<lparr>opSubject = subject, opOnBehalfOf = act, opAttrs = attrs, opIssuedAt = unix now,
           opExpiry = unix (now + ttl)\<rparr>"
    and "unmarshal (obo_marshal p) = Some p"
    and "0 \<le> unix now" and "second \<le> ttl"
  shows "obo_Verify H unmarshal t key token =
      (if unix (now + ttl) \<le> unix t then Inl OboExpired
       else Inr \<lparr>prnSubject = subject, prnOnBehalfOf = act, prnAttrs = attrs\<rparr>)
    \<and> (sig \<noteq> H key body \<and> sig \<noteq> [] \<and> body \<noteq> [] \<longrightarrow>
      obo_Verify H unmarshal t key (rawurl_encode body @ ''.'' @ rawurl_encode sig) = Inl OboSignatureMismatch)"
proof -
  have key: "key \<noteq> []" and subject: "subject \<noteq> []"
    and token: "token = rawurl_encode (obo_marshal p) @ CHR ''.'' # rawurl_encode (H key (obo_marshal p))"
    using assms(1,3,6) by (simp_all add: obo_Mint_def Let_def split: if_splits)
  have "obo_marshal p \<noteq> []" by (simp add: obo_marshal_def json_braces_def)
  moreover have "opExpiry p \<noteq> 0"
    using assms(3,5,6) by (simp add: unix_def)
  moreover have "opSubject p \<noteq> []" "opExpiry p = unix (now + ttl)" using assms(3) subject by simp_all
  ultimately have "obo_Verify H unmarshal t key token =
      (if unix (now + ttl) \<le> unix t then Inl OboExpired
       else Inr \<lparr>prnSubject = opSubject p, prnOnBehalfOf = opOnBehalfOf p, prnAttrs = opAttrs p\<rparr>)"
    using assms(2,4) key by (simp add: token verify_token)
  then show ?thesis
    using assms(3) key by (simp add: verify_token)
qed

definition sample_obo :: obo_payload where
  "sample_obo = \<lparr>opSubject = ''ap-agent'', opOnBehalfOf = ''alice'', opAttrs = [(''spend'', ''5000'')],
     opIssuedAt = unix (63000000010 * second), opExpiry = unix (63000000010 * second + 60 * second)\<rparr>"

theorem obo_minted_verifies_witness:
  "obo_Verify (\<lambda>k m. ''mac'') (\<lambda>b. Some sample_obo) (63000000020 * second) ''key''
     (rawurl_encode (obo_marshal sample_obo) @ ''.'' @ rawurl_encode ''mac'')
   = Inr \<lparr>prnSubject = ''ap-agent'', prnOnBehalfOf = ''alice'', prnAttrs = [(''spend'', ''5000'')]\<rparr>"
proof -
  have "obo_Mint (\<lambda>k m. ''mac'') ''key'' ''ap-agent'' ''alice'' [(''spend'', ''5000'')] (60 * second) (63000000010 * second)
    = Inr (rawurl_encode (obo_marshal sample_obo) @ ''.'' @ rawurl_encode ''mac'')"
    by (simp add: obo_Mint_def sample_obo_def)
  note * = obo_minted_verifies [OF this, where unmarshal = "\<lambda>b. Some sample_obo" and p = sample_obo
      and t = "63000000020 * second" and sig = "''x''" and body = "''y''"]
  show ?thesis
    by (rule * [THEN conjunct1, THEN trans]) (simp_all add: sample_obo_def unix_def)
qed

end
