(* ===== verification/Extractor.thy ===== *)
theory Extractor
  imports AuditEvent "HOL-Library.AList"
begin

text \<open>
  Package \<open>internal/extractor\<close>: the intent the extractor service returns, the check of a tool against it, and
  the client with its bounded cache of answers. The HTTP round trip to the service, from writing the request
  to decoding the answer, is the argument \<open>fetch\<close>, a step on the service's state \<open>'st\<close>; SHA-256 is \<open>S\<close>.
\<close>

record ExtractedIntent =
  eiSummary :: string
  eiAllowedTools :: "string list"
  eiForbiddenTools :: "string list"
  eiConfidence :: rat
  eiRationale :: string

definition Allows :: "ExtractedIntent \<Rightarrow> string \<Rightarrow> bool \<times> string" where
  "Allows i tool =
     (if tool \<in> set (eiForbiddenTools i) then (False, ''tool is in intent.forbidden_tools'')
      else if eiAllowedTools i = [] then (True, ''no allowed_tools specified, only forbidden enforced'')
      else if tool \<in> set (eiAllowedTools i) then (True, ''tool is in intent.allowed_tools'')
      else (False, ''tool not in intent.allowed_tools''))"

subsection \<open>The cache\<close>

text \<open>
  The list \<open>ll\<close> holds the entries, most recently used first; \<open>idx\<close> has the keys of the index map, whose
  values point to the entry of the key in the list.
\<close>

record lru =
  luCapacity :: nat
  luEntries :: "(string \<times> ExtractedIntent) list"
  luIndex :: "string list"

definition newLRU :: "int \<Rightarrow> lru" where
  "newLRU capacity = \<lparr>luCapacity = nat capacity, luEntries = [], luIndex = []\<rparr>"

definition move_to_front :: "string \<Rightarrow> (string \<times> 'v) list \<Rightarrow> (string \<times> 'v) list" where
  "move_to_front k es = filter (\<lambda>e. fst e = k) es @ filter (\<lambda>e. fst e \<noteq> k) es"

definition lru_get :: "string \<Rightarrow> lru \<Rightarrow> ExtractedIntent option \<times> lru" where
  "lru_get k c =
     (if luCapacity c = 0 then (None, c)
      else if k \<in> set (luIndex c)
        then (map_of (luEntries c) k, c\<lparr>luEntries := move_to_front k (luEntries c)\<rparr>)
      else (None, c))"

definition lru_evict :: "lru \<Rightarrow> lru" where
  "lru_evict c =
     (if luCapacity c < length (luEntries c)
      then c\<lparr>luEntries := butlast (luEntries c), luIndex := removeAll (fst (last (luEntries c))) (luIndex c)\<rparr>
      else c)"

definition lru_put :: "string \<Rightarrow> ExtractedIntent \<Rightarrow> lru \<Rightarrow> lru" where
  "lru_put k v c =
     (if luCapacity c = 0 then c
      else if k \<in> set (luIndex c)
        then c\<lparr>luEntries := move_to_front k (AList.update k v (luEntries c))\<rparr>
      else lru_evict (c\<lparr>luEntries := (k, v) # luEntries c, luIndex := k # luIndex c\<rparr>))"

definition promptKey :: "(bytes \<Rightarrow> bytes) \<Rightarrow> string \<Rightarrow> string" where
  "promptKey S prompt = hex_encode (S prompt)"

datatype extract_error = PromptEmpty | NoBaseURL | FetchFailed string

definition Extract :: "(string \<Rightarrow> string) \<Rightarrow> (string \<Rightarrow> string \<Rightarrow> 'st \<Rightarrow> (string + ExtractedIntent) \<times> 'st) \<Rightarrow> string
    \<Rightarrow> string \<Rightarrow> string \<Rightarrow> lru \<times> 'st \<Rightarrow> (extract_error + ExtractedIntent) \<times> (lru \<times> 'st)" where
  "Extract key fetch baseURL prompt agentID s =
     (if prompt = [] then (Inl PromptEmpty, s)
      else if baseURL = [] then (Inl NoBaseURL, s)
      else case lru_get (key prompt) (fst s) of
        (Some cached, c) \<Rightarrow> (Inr cached, (c, snd s))
      | (None, c) \<Rightarrow>
          (case fetch prompt agentID (snd s) of
             (Inl e, st) \<Rightarrow> (Inl (FetchFailed e), (c, st))
           | (Inr i, st) \<Rightarrow> (Inr i, (lru_put (key prompt) i c, st))))"

fun extract_run :: "(string \<Rightarrow> string) \<Rightarrow> (string \<Rightarrow> string \<Rightarrow> 'st \<Rightarrow> (string + ExtractedIntent) \<times> 'st) \<Rightarrow> string
    \<Rightarrow> (string \<times> string) list \<Rightarrow> lru \<times> 'st \<Rightarrow> (extract_error + ExtractedIntent) list \<times> (lru \<times> 'st)" where
  "extract_run key fetch baseURL [] s = ([], s)"
| "extract_run key fetch baseURL ((prompt, agent) # ps) s =
     (case Extract key fetch baseURL prompt agent s of
        (r, s') \<Rightarrow> (case extract_run key fetch baseURL ps s' of (rs, s'') \<Rightarrow> (r # rs, s'')))"

subsection \<open>Coherence\<close>

definition lru_ok :: "lru \<Rightarrow> bool" where
  "lru_ok c \<longleftrightarrow> distinct (map fst (luEntries c)) \<and> set (luIndex c) = fst ` set (luEntries c)
     \<and> length (luEntries c) \<le> luCapacity c"

lemma lru_ok_new [simp]: "lru_ok (newLRU n)"
  by (simp add: lru_ok_def newLRU_def)

text \<open>Touching a key: it becomes the first, the others keep their order, and the last falls out when full.\<close>

definition touched :: "nat \<Rightarrow> 'a \<Rightarrow> 'a list \<Rightarrow> 'a list" where
  "touched n k ks = take n (k # removeAll k ks)"

lemma filter_key:
  assumes "distinct (map fst es)" and "map_of es k = Some v"
  shows "filter (\<lambda>e. fst e = k) es = [(k, v)]"
  using assms
proof (induction es)
  case (Cons e es)
  then show ?case
    by (cases "fst e = k") (auto simp: filter_empty_conv map_of_eq_None_iff rev_image_eqI
        dest: weak_map_of_SomeI)
qed simp

lemma filter_keys: "map fst (filter (\<lambda>e. fst e \<noteq> k) es) = removeAll k (map fst es)"
  by (induction es) auto

lemma move_to_front_present:
  assumes "distinct (map fst es)" and "map_of es k = Some v"
  shows "move_to_front k es = (k, v) # filter (\<lambda>e. fst e \<noteq> k) es"
  using filter_key [OF assms] by (simp add: move_to_front_def)

lemma length_removeAll_distinct: "distinct ks \<Longrightarrow> k \<in> set ks \<Longrightarrow> Suc (length (removeAll k ks)) = length ks"
  by (induction ks) auto

lemma map_of_filter_key:
  "map_of (filter (\<lambda>e. fst e \<noteq> k) es) j = (if j = k then None else map_of es j)"
  by (induction es) auto

lemma get_hit:
  assumes "lru_ok c" and "map_of (luEntries c) k = Some v"
  shows "lru_get k c = (Some v, c\<lparr>luEntries := (k, v) # filter (\<lambda>e. fst e \<noteq> k) (luEntries c)\<rparr>)"
proof -
  have "(k, v) \<in> set (luEntries c)" using assms(2) by (rule map_of_SomeD)
  then have "k \<in> fst ` set (luEntries c)" "0 < length (luEntries c)"
    by (simp_all add: rev_image_eqI length_pos_if_in_set del: length_greater_0_conv)
  then have "k \<in> set (luIndex c)" "luCapacity c \<noteq> 0"
    using assms(1) unfolding lru_ok_def by (simp, linarith)
  then show ?thesis using assms by (simp add: lru_get_def move_to_front_present lru_ok_def)
qed

lemma get_miss:
  assumes "lru_ok c" and "map_of (luEntries c) k = None"
  shows "lru_get k c = (None, c)"
  using assms by (simp add: lru_get_def lru_ok_def map_of_eq_None_iff)

lemma hit_ok:
  assumes "lru_ok c" and "map_of (luEntries c) k = Some v"
  shows "lru_ok (c\<lparr>luEntries := (k, v) # filter (\<lambda>e. fst e \<noteq> k) (luEntries c)\<rparr>)"
proof -
  have k: "k \<in> set (map fst (luEntries c))" using assms(2) by (metis map_of_SomeD fst_conv image_eqI set_map)
  have d: "distinct (map fst (luEntries c))" using assms(1) by (simp add: lru_ok_def)
  from d k have "Suc (length (removeAll k (map fst (luEntries c)))) = length (luEntries c)"
    by (simp only: length_removeAll_distinct length_map)
  then have "Suc (length (filter (\<lambda>e. fst e \<noteq> k) (luEntries c))) = length (luEntries c)"
    by (metis filter_keys length_map)
  moreover have "fst ` set (filter (\<lambda>e. fst e \<noteq> k) (luEntries c)) = fst ` set (luEntries c) - {k}" by auto
  ultimately show ?thesis
    using assms(1) k by (auto simp: lru_ok_def filter_keys distinct_removeAll)
qed

lemma put_miss:
  assumes "lru_ok c" and "map_of (luEntries c) k = None" and "luCapacity c \<noteq> 0"
  shows "luEntries (lru_put k v c) = take (luCapacity c) ((k, v) # luEntries c) \<and> lru_ok (lru_put k v c)
    \<and> luCapacity (lru_put k v c) = luCapacity c"
proof -
  have k: "k \<notin> set (luIndex c)" "k \<notin> fst ` set (luEntries c)"
    using assms(1,2) by (simp_all add: lru_ok_def map_of_eq_None_iff)
  let ?c = "c\<lparr>luEntries := (k, v) # luEntries c, luIndex := k # luIndex c\<rparr>"
  have put: "lru_put k v c = lru_evict ?c" using k assms(3) by (simp add: lru_put_def)
  show ?thesis
  proof (cases "length (luEntries c) < luCapacity c")
    case True
    then show ?thesis using assms(1) k by (auto simp: put lru_evict_def lru_ok_def)
  next
    case False
    then have len: "length (luEntries c) = luCapacity c" using assms(1) by (simp add: lru_ok_def)
    define es where "es = (k, v) # luEntries c"
    have es: "distinct (map fst es)" "es \<noteq> []" "length es = Suc (luCapacity c)"
      using assms(1) k len by (auto simp: es_def lru_ok_def)
    have idx: "set (k # luIndex c) = fst ` set es" using assms(1) by (simp add: es_def lru_ok_def)
    have cut: "es = butlast es @ [last es]" using es(2) by simp
    have "fst ` set es = insert (fst (last es)) (fst ` set (butlast es))"
      by (subst cut) auto
    moreover have "fst (last es) \<notin> fst ` set (butlast es)" "distinct (map fst (butlast es))"
      using es(1) by (subst (asm) cut, simp)+
    ultimately have "fst ` set (butlast es) = fst ` set es - {fst (last es)}" by auto
    moreover have "lru_evict ?c = c\<lparr>luEntries := butlast es, luIndex := removeAll (fst (last es)) (k # luIndex c)\<rparr>"
      using len by (simp add: lru_evict_def es_def)
    ultimately show ?thesis
      using es idx \<open>distinct (map fst (butlast es))\<close> unfolding put
      by (simp add: lru_ok_def butlast_conv_take del: removeAll.simps) (simp add: es_def)
  qed
qed

text \<open>The cache holds what the service would answer for every prompt in \<open>P\<close>.\<close>

definition cache_true :: "(string \<Rightarrow> string) \<Rightarrow> (string \<Rightarrow> string + ExtractedIntent) \<Rightarrow> string set \<Rightarrow> lru \<Rightarrow> bool" where
  "cache_true key f P c \<longleftrightarrow> (\<forall>q \<in> P. \<forall>w. map_of (luEntries c) (key q) = Some w \<longrightarrow> f q = Inr w)"

lemma map_of_take: "map_of (take n es) k = Some v \<Longrightarrow> map_of es k = Some v"
  by (metis append_take_drop_id map_add_Some_iff map_of_append)

lemma put_any:
  assumes "lru_ok c" and "map_of (luEntries c) k = None"
  shows "luEntries (lru_put k v c) = take (luCapacity c) ((k, v) # luEntries c)" "lru_ok (lru_put k v c)"
    "luCapacity (lru_put k v c) = luCapacity c"
proof -
  have "luEntries (lru_put k v c) = take (luCapacity c) ((k, v) # luEntries c) \<and> lru_ok (lru_put k v c)
    \<and> luCapacity (lru_put k v c) = luCapacity c"
  proof (cases "luCapacity c = 0")
    case True
    then show ?thesis using assms(1) by (simp add: lru_put_def lru_ok_def)
  qed (rule put_miss [OF assms])
  then show "luEntries (lru_put k v c) = take (luCapacity c) ((k, v) # luEntries c)" "lru_ok (lru_put k v c)"
    "luCapacity (lru_put k v c) = luCapacity c" by simp_all
qed

lemma Extract_step:
  assumes "lru_ok c" and "cache_true key f P c" and "inj_on key P" and "p \<in> P" and "p \<noteq> []" and "base \<noteq> []"
    and "f p = Inr v" and "\<And>st. fst (fetch p agent st) = f p"
  obtains c' st' where "Extract key fetch base p agent (c, st) = (Inr v, (c', st'))" "lru_ok c'"
    "luCapacity c' = luCapacity c" "cache_true key f P c'"
    "map fst (luEntries c') = touched (luCapacity c) (key p) (map fst (luEntries c))"
proof (cases "map_of (luEntries c) (key p)")
  case None
  let ?c = "lru_put (key p) v c"
  note put = put_any [OF assms(1) None, of v]
  obtain st' where "fetch p agent st = (Inr v, st')" using assms(7) assms(8) [of st] by (metis prod.collapse)
  moreover have "cache_true key f P ?c"
    using assms(2-4,7) unfolding cache_true_def put(1)
    by (auto dest!: map_of_take simp: inj_on_eq_iff split: if_splits)
  moreover have "removeAll (key p) (map fst (luEntries c)) = map fst (luEntries c)"
    using None by (simp add: map_of_eq_None_iff removeAll_id)
  ultimately show ?thesis
    using that [of ?c st'] put assms(5,6) get_miss [OF assms(1) None]
    by (simp add: Extract_def touched_def take_map [symmetric])
next
  case (Some w)
  then have "w = v" using assms(2,4,7) by (simp add: cache_true_def)
  let ?c = "c\<lparr>luEntries := (key p, v) # filter (\<lambda>e. fst e \<noteq> key p) (luEntries c)\<rparr>"
  have ok: "lru_ok ?c" using hit_ok [OF assms(1) Some] \<open>w = v\<close> by simp
  moreover have "cache_true key f P ?c"
    using assms(2-4,7) by (auto simp: cache_true_def map_of_filter_key inj_on_eq_iff split: if_splits)
  moreover have "map fst (luEntries ?c) = touched (luCapacity c) (key p) (map fst (luEntries c))"
  proof -
    have "length (map fst (luEntries ?c)) \<le> luCapacity c" using ok by (simp add: lru_ok_def)
    then show ?thesis by (simp add: touched_def filter_keys del: length_map)
  qed
  ultimately show ?thesis
    using that [of ?c st] assms(5,6) get_hit [OF assms(1) Some] \<open>w = v\<close> by (simp add: Extract_def)
qed

lemma take_touched:
  "distinct ks \<Longrightarrow> take m (removeAll k (take (Suc m) ks)) = take m (removeAll k ks)"
proof (induction ks arbitrary: m)
  case (Cons x ks)
  show ?case
  proof (cases "x = k")
    case True
    then have "k \<notin> set (take m ks)" "k \<notin> set ks" using Cons.prems by (auto dest: in_set_takeD)
    then show ?thesis using True by (simp add: removeAll_id)
  next
    case False
    then show ?thesis using Cons by (cases m) simp_all
  qed
qed simp

lemma touched_take: "distinct ks \<Longrightarrow> touched n k (take n ks) = touched n k ks"
  by (cases n) (simp_all add: touched_def take_touched)

lemma remdups_snoc: "remdups (ks @ [k]) = removeAll k (remdups ks) @ [k]"
  by (induction ks) auto

lemma touched_recent:
  "touched n k (take n (rev (remdups ks))) = take n (rev (remdups (ks @ [k])))"
  by (simp add: touched_take) (simp add: touched_def remdups_snoc removeAll_filter_not_eq rev_filter)

lemma extract_run_spec:
  assumes "lru_ok c" and "cache_true key f P c" and "inj_on key P" and "base \<noteq> []"
    and "fst ` set ps \<subseteq> P" and "\<forall>q \<in> P. q \<noteq> [] \<and> isl (f q) = False"
    and "\<And>p a st. p \<in> P \<Longrightarrow> fst (fetch p a st) = f p"
    and "map fst (luEntries c) = take (luCapacity c) (rev (remdups ks))"
  shows "\<exists>c' st'. extract_run key fetch base ps (c, st) = (map (\<lambda>(p, a). Inr (projr (f p))) ps, (c', st'))
    \<and> lru_ok c'
    \<and> map fst (luEntries c') = take (luCapacity c) (rev (remdups (ks @ map (key \<circ> fst) ps)))"
  using assms(1,2,5,8)
proof (induction ps arbitrary: c st ks)
  case Nil
  then show ?case by simp
next
  case (Cons pa ps)
  obtain p a where pa: "pa = (p, a)" by (cases pa)
  then have p: "p \<in> P" using Cons.prems(3) by simp
  then obtain v where v: "f p = Inr v" using assms(6) by (metis isl_def sum.collapse(2))
  from p assms(6) have "p \<noteq> []" by blast
  then obtain c' st' where step: "Extract key fetch base p a (c, st) = (Inr v, (c', st'))" "lru_ok c'"
      "luCapacity c' = luCapacity c" "cache_true key f P c'"
      "map fst (luEntries c') = touched (luCapacity c) (key p) (map fst (luEntries c))"
    by (rule Extract_step [where fetch = fetch and agent = a and st = st,
          OF Cons.prems(1,2) assms(3) p _ assms(4) v assms(7) [OF p]])
  then have "map fst (luEntries c') = take (luCapacity c') (rev (remdups (ks @ [key p])))"
    by (simp add: Cons.prems(4) touched_recent)
  from Cons.IH [OF step(2,4) _ this, of st'] Cons.prems(3) step
  show ?case by (auto simp: pa v)
qed

text \<open>
  The intent cache is transparent and least-recently-used: for a service that answers every prompt of a
  sequence by a function of the prompt, and keys that do not collide on those prompts, each call returns what
  the service would have answered, and after the sequence the cache holds exactly the keys of the most recently
  used distinct prompts, most recent first, up to its capacity.
\<close>

theorem extract_cache_transparent:
  assumes "base \<noteq> []" and "inj_on key (fst ` set ps)"
    and "\<forall>q \<in> fst ` set ps. q \<noteq> [] \<and> isl (f q) = False"
    and "\<And>p a st. p \<in> fst ` set ps \<Longrightarrow> fst (fetch p a st) = f p"
  shows "\<exists>c st'. extract_run key fetch base ps (newLRU n, st) = (map (\<lambda>(p, a). Inr (projr (f p))) ps, (c, st'))
    \<and> map fst (luEntries c) = take (nat n) (rev (remdups (map (key \<circ> fst) ps)))
    \<and> set (luIndex c) = set (map fst (luEntries c))"
proof -
  have "cache_true key f (fst ` set ps) (newLRU n)" by (simp add: cache_true_def newLRU_def)
  from extract_run_spec [where fetch = fetch and ks = "[]" and st = st,
      OF lru_ok_new this assms(2,1) subset_refl assms(3,4)]
  show ?thesis by (simp add: newLRU_def lru_ok_def) blast
qed

definition sample_intent :: "string \<Rightarrow> ExtractedIntent" where
  "sample_intent p = \<lparr>eiSummary = p, eiAllowedTools = [''read''], eiForbiddenTools = [], eiConfidence = 1, eiRationale = []\<rparr>"

theorem extract_cache_transparent_witness:
  "\<exists>c st'. extract_run (\<lambda>p. p) (\<lambda>p a (st :: nat). (Inr (sample_intent p), Suc st)) ''http://x''
        [(''a'', ''u''), (''b'', ''u''), (''a'', ''u''), (''c'', ''u'')] (newLRU 2, 0)
      = (map (\<lambda>(p, a). Inr (projr ((Inr (sample_intent p)) :: string + ExtractedIntent)))
           [(''a'', ''u''), (''b'', ''u''), (''a'', ''u''), (''c'', ''u'')], (c, st'))
    \<and> map fst (luEntries c) = [''c'', ''a''] \<and> set (luIndex c) = set (map fst (luEntries c))"
  using extract_cache_transparent [of "''http://x''" "\<lambda>p. p"
      "[(''a'', ''u''), (''b'', ''u''), (''a'', ''u''), (''c'', ''u'')]" "\<lambda>p. Inr (sample_intent p)"
      "\<lambda>p a (st :: nat). (Inr (sample_intent p), Suc st)" 2 0]
  by (simp add: comp_def)

end
