(* ===== verification/Payloads.thy ===== *)
theory Payloads
  imports AuditEvent "HOL-Library.AList"
begin

text \<open>
  Package \<open>internal/payloads\<close>: what an agent received back, kept beside the audit event. The policy that decides
  which responses are kept (\<open>policy.go\<close>), the record and its hash (\<open>payloads.go\<close>), and the in-memory store
  (\<open>memory.go\<close>). SHA-256 is the argument \<open>S\<close>; clock readings are arguments.
\<close>

record PayloadRecord =
  pyEventID :: string
  pyTenant :: string
  pyAgentID :: string
  pyTool :: string
  pyRawSHA256 :: string
  pyRawBytes :: int
  pyBody :: bytes
  pyRedacted :: bool
  pyCapturedAt :: gotime
  pyExpiresAt :: gotime

definition HashRaw :: "(bytes \<Rightarrow> bytes) \<Rightarrow> bytes \<Rightarrow> string" where
  "HashRaw S b = hex_encode (S b)"

record PayloadPolicy =
  ppEnabled :: bool
  ppTools :: "string list"
  ppTTL :: int
  ppMaxBytes :: int

definition DefaultTTL :: int where "DefaultTTL = 14 * 24 * 60 * 60 * second"
definition DefaultMaxBytes :: int where "DefaultMaxBytes = 256 * 1024"

definition Normalise :: "PayloadPolicy \<Rightarrow> PayloadPolicy" where
  "Normalise p = p\<lparr>ppTTL := (if ppTTL p \<le> 0 then DefaultTTL else ppTTL p),
     ppMaxBytes := (if ppMaxBytes p \<le> 0 then DefaultMaxBytes else ppMaxBytes p)\<rparr>"

definition pl_matches :: "string \<Rightarrow> string \<Rightarrow> bool" where
  "pl_matches pattern tool =
     (if pattern = [] then False
      else if pattern = ''*'' then True
      else if has_suffix pattern ''*'' then has_prefix tool (butlast pattern)
      else pattern = tool)"

definition ShouldCapture :: "PayloadPolicy \<Rightarrow> string \<Rightarrow> bool" where
  "ShouldCapture p tool =
     (if \<not> ppEnabled p \<or> tool = [] then False else list_ex (\<lambda>pat. pl_matches pat tool) (ppTools p))"

definition Truncate :: "PayloadPolicy \<Rightarrow> bytes \<Rightarrow> bytes \<times> bool" where
  "Truncate p body =
     (let max = (if ppMaxBytes p \<le> 0 then DefaultMaxBytes else ppMaxBytes p) in
      if int (length body) \<le> max then (body, False) else (take (nat max) body, True))"

subsection \<open>The in-memory store\<close>

type_synonym PayloadStore = "(string \<times> PayloadRecord) list"

definition pl_NewMemory :: PayloadStore where "pl_NewMemory = []"

definition pl_key :: "string \<Rightarrow> string \<Rightarrow> string" where
  "pl_key tenant eventID = tenant @ [CHR 0x00] @ eventID"

definition pl_Put :: "PayloadRecord \<Rightarrow> PayloadStore \<Rightarrow> PayloadStore" where
  "pl_Put r s =
     (let k = pl_key (pyTenant r) (pyEventID r) in
      case map_of s k of Some _ \<Rightarrow> s | None \<Rightarrow> AList.update k r s)"

definition pl_expired :: "gotime \<Rightarrow> PayloadRecord \<Rightarrow> bool" where
  "pl_expired now r \<longleftrightarrow> \<not> is_zero (pyExpiresAt r) \<and> \<not> now < pyExpiresAt r"

definition pl_Get :: "gotime \<Rightarrow> string \<Rightarrow> string \<Rightarrow> PayloadStore \<Rightarrow> PayloadRecord option" where
  "pl_Get now tenant eventID s =
     (case map_of s (pl_key tenant eventID) of
        None \<Rightarrow> None
      | Some r \<Rightarrow> if pl_expired now r then None else Some r)"

definition pl_Purge :: "gotime \<Rightarrow> PayloadStore \<Rightarrow> nat \<times> PayloadStore" where
  "pl_Purge now s =
     (length (filter (\<lambda>kr. pl_expired now (snd kr)) s), filter (\<lambda>kr. \<not> pl_expired now (snd kr)) s)"

subsection \<open>Histories\<close>

datatype pl_op = OpPut PayloadRecord | OpPurge gotime

fun pl_apply :: "pl_op \<Rightarrow> PayloadStore \<Rightarrow> PayloadStore" where
  "pl_apply (OpPut r) s = pl_Put r s"
| "pl_apply (OpPurge now) s = snd (pl_Purge now s)"

definition no_nul :: "string \<Rightarrow> bool" where
  "no_nul s \<longleftrightarrow> CHR 0x00 \<notin> set s"

lemma pl_key_inj:
  assumes "no_nul t" "no_nul t'" "pl_key t i = pl_key t' i'"
  shows "t = t' \<and> i = i'"
  using assms
proof (induction t arbitrary: t')
  case Nil
  then show ?case by (cases t') (auto simp: pl_key_def no_nul_def)
next
  case (Cons a t)
  then show ?case by (cases t') (auto simp: pl_key_def no_nul_def)
qed

text \<open>Every row lies under its own key and every key once.\<close>

definition pl_ok :: "PayloadStore \<Rightarrow> bool" where
  "pl_ok s \<longleftrightarrow> distinct (map fst s) \<and> (\<forall>(k, r) \<in> set s. k = pl_key (pyTenant r) (pyEventID r))"

lemma update_new: "map_of s k = None \<Longrightarrow> AList.update k v s = s @ [(k, v)]"
  by (induction s) (auto split: if_splits)

lemma pl_ok_apply: "pl_ok s \<Longrightarrow> pl_ok (pl_apply op s)"
proof (cases op)
  case (OpPut r)
  assume "pl_ok s"
  moreover have "pl_key (pyTenant r) (pyEventID r) \<notin> fst ` set s"
    if "map_of s (pl_key (pyTenant r) (pyEventID r)) = None"
    using that by (simp add: map_of_eq_None_iff)
  ultimately show ?thesis
    by (cases "map_of s (pl_key (pyTenant r) (pyEventID r))")
       (auto simp: OpPut pl_ok_def pl_Put_def Let_def update_new)
next
  case (OpPurge now)
  assume "pl_ok s"
  then show ?thesis by (auto simp: OpPurge pl_ok_def pl_Purge_def distinct_map_filter)
qed

lemma pl_ok_run: "pl_ok s \<Longrightarrow> pl_ok (fold pl_apply ops s)"
  by (induction ops arbitrary: s) (simp_all add: pl_ok_apply)

lemma kept_step:
  assumes "pl_ok s" and "map_of s (pl_key (pyTenant r) (pyEventID r)) = Some r"
    and "\<And>t. op = OpPurge t \<Longrightarrow> \<not> pl_expired t r"
  shows "map_of (pl_apply op s) (pl_key (pyTenant r) (pyEventID r)) = Some r"
proof (cases op)
  case (OpPut q)
  then show ?thesis
    using assms(2) by (cases "map_of s (pl_key (pyTenant q) (pyEventID q))")
      (auto simp: pl_Put_def Let_def update_conv')
next
  case (OpPurge t)
  then have "(pl_key (pyTenant r) (pyEventID r), r) \<in> set (pl_apply op s)"
    using assms(2,3) by (simp add: pl_Purge_def map_of_SomeD)
  then show ?thesis
    using pl_ok_apply [OF assms(1), of op] by (simp add: pl_ok_def)
qed

lemma pl_expired_mono: "pl_expired t r \<Longrightarrow> t \<le> now \<Longrightarrow> pl_expired now r"
  by (auto simp: pl_expired_def)

lemma kept_run:
  assumes "pl_ok s" and "map_of s (pl_key (pyTenant r) (pyEventID r)) = Some r"
    and "\<forall>t. OpPurge t \<in> set ops \<longrightarrow> t \<le> now" and "\<not> pl_expired now r"
  shows "map_of (fold pl_apply ops s) (pl_key (pyTenant r) (pyEventID r)) = Some r"
  using assms
proof (induction ops arbitrary: s)
  case (Cons op ops)
  have "map_of (pl_apply op s) (pl_key (pyTenant r) (pyEventID r)) = Some r"
    using Cons.prems by (intro kept_step) (auto dest: pl_expired_mono)
  with Cons show ?case by (simp add: pl_ok_apply)
qed simp

text \<open>
  A captured response is what is read back, for as long as it may be read: after the first capture for an
  event, whatever further captures and sweeps run, a read before the expiry returns that first record, so a later
  capture cannot replace the body behind the hash of the audit event; and every read, at any time, returns a
  record that is not expired and belongs to the tenant and event asked for.
\<close>

theorem payload_first_write_kept:
  assumes "pl_ok s" and "map_of s (pl_key (pyTenant r) (pyEventID r)) = None"
    and "\<forall>t. OpPurge t \<in> set ops \<longrightarrow> t \<le> now" and "\<not> pl_expired now r"
  shows "pl_Get now (pyTenant r) (pyEventID r) (fold pl_apply (OpPut r # ops) s) = Some r
    \<and> (\<forall>t tenant e q. pl_Get t tenant e (fold pl_apply (OpPut r # ops) s) = Some q \<and> no_nul tenant
          \<and> no_nul (pyTenant q) \<longrightarrow> pyTenant q = tenant \<and> pyEventID q = e \<and> \<not> pl_expired t q)"
proof
  let ?s = "pl_apply (OpPut r) s"
  have ok: "pl_ok ?s" using assms(1) by (rule pl_ok_apply)
  have "map_of ?s (pl_key (pyTenant r) (pyEventID r)) = Some r"
    using assms(2) by (simp add: pl_Put_def update_conv')
  from kept_run [OF ok this assms(3,4)]
  show "pl_Get now (pyTenant r) (pyEventID r) (fold pl_apply (OpPut r # ops) s) = Some r"
    using assms(4) by (simp add: pl_Get_def)
  have "pl_ok (fold pl_apply (OpPut r # ops) s)" using assms(1) by (rule pl_ok_run)
  then show "\<forall>t tenant e q. pl_Get t tenant e (fold pl_apply (OpPut r # ops) s) = Some q \<and> no_nul tenant
      \<and> no_nul (pyTenant q) \<longrightarrow> pyTenant q = tenant \<and> pyEventID q = e \<and> \<not> pl_expired t q"
    by (auto simp: pl_Get_def pl_ok_def split: option.splits if_splits dest!: map_of_SomeD dest: pl_key_inj)
qed

definition sample_payload :: PayloadRecord where
  "sample_payload = \<lparr>pyEventID = ''e1'', pyTenant = ''acme'', pyAgentID = ''a'', pyTool = ''read'', pyRawSHA256 = ''00'',
     pyRawBytes = 5, pyBody = ''hello'', pyRedacted = False, pyCapturedAt = 1, pyExpiresAt = 100\<rparr>"

theorem payload_first_write_kept_witness:
  "pl_Get 50 ''acme'' ''e1'' (fold pl_apply [OpPut sample_payload, OpPurge 20,
     OpPut (sample_payload\<lparr>pyBody := ''tampered''\<rparr>)] pl_NewMemory) = Some sample_payload"
  using payload_first_write_kept [of pl_NewMemory sample_payload
      "[OpPurge 20, OpPut (sample_payload\<lparr>pyBody := ''tampered''\<rparr>)]" 50]
  by (simp add: pl_ok_def pl_NewMemory_def sample_payload_def pl_expired_def is_zero_def)

end
