(* ===== verification/ActionIr.thy ===== *)
theory ActionIr
  imports Json Encoding
begin

text \<open>
  Package \<open>internal/actionir\<close>: the resolver that turns a tool call into its canonical effect. The arguments are
  an association list whose order is the order in which Go iterates the map, which the language leaves open
  (one order for the loops of a call).
  Three things of the standard library come as the fields of \<open>golib\<close>: the Unicode case mappings
  \<open>strings.ToLower\<close> and \<open>strings.ToUpper\<close>, and \<open>int64(v * 100)\<close> on a \<open>float64\<close>, whose value outside the range
  of the integers depends on the machine. The regular expressions are the functions they denote: after the
  text is reduced to lower-case ASCII words, \<open>\b(w)\b\<close> matches exactly when \<open>w\<close> is one of the words.
\<close>

record golib =
  glLower :: "string \<Rightarrow> string"
  glUpper :: "string \<Rightarrow> string"
  glCents :: "rat \<Rightarrow> int"

datatype Op = OpRead | OpCreate | OpWrite | OpDelete | OpPay | OpExecute | OpSend | OpUnknown

datatype IrScope = ScopeSingle | ScopeBounded | ScopeUnbounded

record ActionIR =
  irOp :: Op
  irResource :: string
  irScope :: IrScope
  irMagnitudeCents :: int
  irCurrency :: string
  irDestination :: string
  irReversible :: bool
  irCanonical :: string
  irSignals :: "string list"

subsection \<open>Texts\<close>

fun contains_str :: "string \<Rightarrow> string \<Rightarrow> bool" where
  "contains_str [] s = (s = [])"
| "contains_str (c # cs) s = (has_prefix (c # cs) s \<or> contains_str cs s)"

fun split_when :: "(char \<Rightarrow> bool) \<Rightarrow> string \<Rightarrow> string list" where
  "split_when p [] = [[]]"
| "split_when p (x # xs) =
     (if p x then [] # split_when p xs
      else case split_when p xs of [] \<Rightarrow> [[x]] | w # ws \<Rightarrow> (x # w) # ws)"

fun first_some :: "('a \<Rightarrow> 'b option) \<Rightarrow> 'a list \<Rightarrow> 'b option" where
  "first_some f [] = None"
| "first_some f (x # xs) = (case f x of Some y \<Rightarrow> Some y | None \<Rightarrow> first_some f xs)"

definition alnum :: "char \<Rightarrow> bool" where
  "alnum c \<longleftrightarrow> c \<in> set ''abcdefghijklmnopqrstuvwxyz0123456789''"

definition digit :: "char \<Rightarrow> bool" where
  "digit c \<longleftrightarrow> c \<in> set ''0123456789''"

text \<open>The words of the spaced form, and the tight form.\<close>

definition ir_words :: "string \<Rightarrow> string list" where
  "ir_words s = filter (\<lambda>w. w \<noteq> []) (split_when (\<lambda>c. \<not> alnum c) s)"

definition ir_tight :: "string \<Rightarrow> string" where
  "ir_tight s = filter alnum s"

definition has_word :: "string list \<Rightarrow> string list \<Rightarrow> bool" where
  "has_word ws alternatives \<longleftrightarrow> list_ex (\<lambda>w. w \<in> set alternatives) ws"

definition dangerDelete :: "string list" where
  "dangerDelete = [''delete'', ''drop'', ''truncate'', ''destroy'', ''wipe'', ''purge'']"
definition dangerPay :: "string list" where
  "dangerPay = [''payment'', ''transfer'', ''purchase'', ''checkout'', ''remit'', ''disburse'']"
definition dangerExec :: "string list" where
  "dangerExec = [''execute'', ''shell'', ''spawn'', ''system'', ''eval'']"

definition reVerbPay :: "string list" where "reVerbPay = [''pay'', ''order'', ''wire'']"
definition reVerbCreate :: "string list" where
  "reVerbCreate = [''create'', ''add'', ''new'', ''register'', ''onboard'', ''insert'']"
definition reVerbWrite :: "string list" where
  "reVerbWrite = [''update'', ''write'', ''modify'', ''edit'', ''approve'', ''set'', ''patch'', ''put'']"
definition reVerbSend :: "string list" where
  "reVerbSend = [''send'', ''email'', ''mail'', ''notify'', ''dispatch'']"
definition reVerbRead :: "string list" where
  "reVerbRead = [''read'', ''get'', ''list'', ''fetch'', ''view'', ''show'', ''lookup'', ''search'', ''query'', ''select'']"
definition reVerbDelSp :: "string list" where
  "reVerbDelSp = [''delete'', ''drop'', ''truncate'', ''destroy'', ''wipe'', ''purge'', ''remove'']"
definition reUnbounded :: "string list" where
  "reUnbounded = [''all'', ''everything'', ''any'', ''entire'', ''global'']"
definition reNoun :: "string list" where
  "reNoun = [''supplier'', ''vendor'', ''invoice'', ''order'', ''payment'', ''customer'', ''employee'', ''record'',
     ''table'', ''database'', ''file'', ''user'', ''account'', ''purchase'']"

definition containsAny :: "string \<Rightarrow> string list \<Rightarrow> bool" where
  "containsAny h subs = list_ex (contains_str h) subs"

definition classify :: "string list \<Rightarrow> string \<Rightarrow> Op" where
  "classify ws tight =
     (if containsAny tight dangerDelete then OpDelete
      else if containsAny tight dangerPay \<or> has_word ws reVerbPay then OpPay
      else if containsAny tight dangerExec then OpExecute
      else if has_word ws reVerbCreate then OpCreate
      else if has_word ws reVerbWrite then OpWrite
      else if has_word ws reVerbSend then OpSend
      else if has_word ws reVerbRead then OpRead
      else OpUnknown)"

subsection \<open>Decoding\<close>

definition isMostlyPrintable :: "bytes \<Rightarrow> bool" where
  "isMostlyPrintable b \<longleftrightarrow>
     b \<noteq> [] \<and> 4 * length b < 5 * length (filter (\<lambda>c. 32 \<le> (of_char c :: nat) \<and> (of_char c :: nat) < 127) b)"

definition hex_char :: "char \<Rightarrow> bool" where
  "hex_char c \<longleftrightarrow> c \<in> set ''0123456789abcdefABCDEF''"

definition reHex :: "string \<Rightarrow> bool" where
  "reHex s \<longleftrightarrow> 6 \<le> length s \<and> list_all hex_char s"

definition reB64 :: "string \<Rightarrow> bool" where
  "reB64 s \<longleftrightarrow>
     (let body = takeWhile (\<lambda>c. c \<in> set std_alphabet) s; rest = drop (length body) s in
      6 \<le> length body \<and> length rest \<le> 2 \<and> list_all (\<lambda>c. c = CHR ''='') rest)"

fun hex_decode :: "string \<Rightarrow> bytes" where
  "hex_decode (a # b # cs) = char_of (hex_val (lower_char a) * 16 + hex_val (lower_char b)) # hex_decode cs"
| "hex_decode _ = []"

definition try_base64 :: "string \<Rightarrow> bytes option" where
  "try_base64 s =
     (if reB64 s then (case padded_decode std_alphabet s of
        Some dec \<Rightarrow> if isMostlyPrintable dec then Some dec else None | None \<Rightarrow> None) else None)"

definition try_hex :: "string \<Rightarrow> bytes option" where
  "try_hex s =
     (if reHex s \<and> even (length s) then
        (let dec = hex_decode s in if isMostlyPrintable dec then Some dec else None) else None)"

definition decodeToken :: "golib \<Rightarrow> string \<Rightarrow> string \<times> string list" where
  "decodeToken lib s =
     (let s0 = trim_space s;
          (s1, g1) = (case try_base64 s0 of Some d \<Rightarrow> (d, [''decoded_base64'']) | None \<Rightarrow> (s0, []));
          (s2, g2) = (case try_hex s1 of Some d \<Rightarrow> (d, [''decoded_hex'']) | None \<Rightarrow> (s1, []))
      in (glLower lib s2, g1 @ g2))"

definition decodeOnly :: "golib \<Rightarrow> string \<Rightarrow> string" where
  "decodeOnly lib s = fst (decodeToken lib s)"

subsection \<open>Amounts\<close>

definition money_char :: "char \<Rightarrow> bool" where
  "money_char c \<longleftrightarrow> digit c \<or> c \<in> set ''.,_ ''"

text \<open>The first match of the expression for an amount: from the first digit as far as amounts go, to a digit.\<close>

definition reMoney :: "string \<Rightarrow> string" where
  "reMoney s = rev (dropWhile (\<lambda>c. \<not> digit c) (rev (takeWhile money_char (dropWhile (\<lambda>c. \<not> digit c) s))))"

definition stripSeparators :: "string \<Rightarrow> string" where
  "stripSeparators s = filter (\<lambda>c. c \<noteq> CHR '','' \<and> c \<noteq> CHR ''.'') s"

definition dec_value :: "string \<Rightarrow> int" where
  "dec_value s = foldl (\<lambda>n c. 10 * n + int (digit_val c)) 0 s"

definition parseMoney :: "string \<Rightarrow> int" where
  "parseMoney s =
     (let m = reMoney s in
      if m = [] then -1
      else
        (let m = filter (\<lambda>c. c \<noteq> CHR '' '' \<and> c \<noteq> CHR ''_'') m;
             tail = rev (takeWhile (\<lambda>c. c \<noteq> CHR ''.'' \<and> c \<noteq> CHR '','') (rev m));
             decimal = (length tail = 2 \<and> length tail < length m);
             whole = stripSeparators (if decimal then take (length m - 3) m else m);
             cents = (if decimal then dec_value tail else 0)
         in if whole = [] then -1
            else if 2 ^ 63 \<le> dec_value whole then -1
            else wrap64 (wrap64 (dec_value whole * 100) + cents)))"

definition detectCurrency :: "golib \<Rightarrow> string \<Rightarrow> string" where
  "detectCurrency lib s =
     (let u = glUpper lib s in
      if contains_str u ''EUR'' \<or> contains_str s [CHR 0xE2, CHR 0x82, CHR 0xAC] then ''EUR''
      else if contains_str u ''USD'' \<or> contains_str s ''$'' then ''USD''
      else if contains_str u ''GBP'' \<or> contains_str s [CHR 0xC2, CHR 0xA3] then ''GBP''
      else [])"

definition keyHasToken :: "golib \<Rightarrow> string \<Rightarrow> string \<Rightarrow> bool" where
  "keyHasToken lib key token \<longleftrightarrow> token \<in> set (split_when (\<lambda>c. \<not> alnum c) (glLower lib key))"

definition moneyKeys :: "string list" where
  "moneyKeys = [''amount'', ''total'', ''value'', ''sum'', ''price'', ''cost'', ''limit'']"

text \<open>Decoded JSON has no Go integers, so of the four value cases two are reached.\<close>

definition amount_of :: "golib \<Rightarrow> json \<Rightarrow> (int \<times> string) option" where
  "amount_of lib v =
     (case v of
        JNum q \<Rightarrow> Some (glCents lib q, [])
      | JStr s \<Rightarrow> (let c = parseMoney (decodeOnly lib s) in if 0 \<le> c then Some (c, detectCurrency lib s) else None)
      | _ \<Rightarrow> None)"

definition extractAmount :: "golib \<Rightarrow> (string \<times> json) list \<Rightarrow> int \<times> string" where
  "extractAmount lib m =
     (case first_some (\<lambda>k. first_some (\<lambda>(ak, av). if keyHasToken lib ak k then amount_of lib av else None) m) moneyKeys of
        Some r \<Rightarrow> r | None \<Rightarrow> (0, []))"

subsection \<open>Destinations\<close>

definition destKeys :: "string list" where
  "destKeys = [''payee'', ''supplier'', ''vendor'', ''recipient'', ''beneficiary'', ''destination'', ''to'']"

definition firstStringKey :: "golib \<Rightarrow> (string \<times> json) list \<Rightarrow> string list \<Rightarrow> string" where
  "firstStringKey lib m keys =
     (case first_some (\<lambda>k. first_some (\<lambda>(ak, av). if glLower lib ak = k then
              (case av of JStr s \<Rightarrow> Some s | _ \<Rightarrow> None) else None) m) keys of
        Some s \<Rightarrow> s | None \<Rightarrow> [])"

definition dest_token :: "golib \<Rightarrow> string \<times> json \<Rightarrow> string option" where
  "dest_token lib kv =
     (case snd kv of
        JStr s \<Rightarrow>
          (let ts = split_when (\<lambda>c. \<not> alnum c) (glLower lib (fst kv)) in
           if list_ex (\<lambda>t. t \<in> set (destKeys @ [''account''])) ts \<and> ''from'' \<notin> set ts then Some s else None)
      | _ \<Rightarrow> None)"

definition extractDestination :: "golib \<Rightarrow> (string \<times> json) list \<Rightarrow> string" where
  "extractDestination lib m =
     (let d = firstStringKey lib m destKeys in
      if d \<noteq> [] then d
      else case first_some (dest_token lib) m of Some s \<Rightarrow> s | None \<Rightarrow> [])"

definition hasFilterKey :: "golib \<Rightarrow> (string \<times> json) list \<Rightarrow> bool" where
  "hasFilterKey lib m =
     list_ex (\<lambda>(k, v). let lk = glLower lib k in
       contains_str lk ''id'' \<or> contains_str lk ''where'' \<or> contains_str lk ''filter'' \<or> lk = ''key'') m"

subsection \<open>Resolution\<close>

definition keep_first :: "'a list \<Rightarrow> 'a list" where
  "keep_first xs = rev (remdups (rev xs))"

definition arg_list :: "args \<Rightarrow> (string \<times> json) list" where
  "arg_list m = (case m of None \<Rightarrow> [] | Some kvs \<Rightarrow> kvs)"

definition string_args :: "(string \<times> json) list \<Rightarrow> string list" where
  "string_args m = concat (map (\<lambda>(k, v). case v of JStr s \<Rightarrow> [s] | _ \<Rightarrow> []) m)"

definition Resolve :: "golib \<Rightarrow> string \<Rightarrow> args \<Rightarrow> ActionIR" where
  "Resolve lib tool m =
     (let parts = map (decodeToken lib) (tool # string_args (arg_list m));
          combined = str_join '' '' (map fst parts);
          ws = ir_words combined;
          op = classify ws (ir_tight combined);
          signals = concat (map snd parts)
            @ (if op = OpDelete \<and> \<not> has_word ws reVerbDelSp then [''deobfuscated''] else []);
          (cents, currency) = extractAmount lib (arg_list m)
      in \<lparr>irOp = op,
          irResource = (case List.find (\<lambda>w. w \<in> set reNoun) ws of Some w \<Rightarrow> w | None \<Rightarrow> []),
          irScope = (if has_word ws reUnbounded then ScopeUnbounded
                     else if hasFilterKey lib (arg_list m) then ScopeBounded else ScopeSingle),
          irMagnitudeCents = cents, irCurrency = currency,
          irDestination = extractDestination lib (arg_list m),
          irReversible = (op \<notin> {OpDelete, OpPay, OpExecute, OpSend}),
          irCanonical = trim_space combined, irSignals = keep_first signals\<rparr>)"

subsection \<open>Formatting does not change an amount\<close>

lemma takeWhile_all: "list_all P xs \<Longrightarrow> takeWhile P xs = xs"
  by (induction xs) auto

lemma reMoney_id:
  assumes "s \<noteq> []" and "digit (hd s)" and "digit (last s)" and "list_all money_char s"
  shows "reMoney s = s"
proof -
  obtain c cs where s: "s = c # cs" using assms(1) by (cases s) auto
  have "dropWhile (\<lambda>c. \<not> digit c) s = s" using assms(2) by (simp add: s)
  moreover have "takeWhile money_char s = s" using assms(4) by (rule takeWhile_all)
  moreover have "dropWhile (\<lambda>c. \<not> digit c) (rev s) = rev s"
    using assms(1,3) by (metis (no_types, lifting) dropWhile_eq_self_iff hd_rev)
  ultimately show ?thesis by (simp only: reMoney_def rev_rev_ident)
qed

lemma filter_money_digits:
  "list_all money_char s \<Longrightarrow>
    filter (\<lambda>c. c \<noteq> CHR '','' \<and> c \<noteq> CHR ''.'') (filter (\<lambda>c. c \<noteq> CHR '' '' \<and> c \<noteq> CHR ''_'') s) = filter digit s"
  by (induction s) (auto simp: money_char_def digit_def)

text \<open>The digits after the last decimal point or comma, spaces and underscores aside.\<close>

definition last_group :: "string \<Rightarrow> string" where
  "last_group s = rev (takeWhile (\<lambda>c. c \<noteq> CHR ''.'' \<and> c \<noteq> CHR '','')
     (rev (filter (\<lambda>c. c \<noteq> CHR '' '' \<and> c \<noteq> CHR ''_'') s)))"

text \<open>
  Formatting does not change an amount: a text that starts and ends with a digit and otherwise has digits,
  points, commas, underscores and spaces, and whose last group is not two digits long (which would make it the
  cents), is read as one hundred times the number its digits spell, whatever separators group them, as long as
  that many cents fit a signed 64-bit integer.
\<close>

theorem amount_grouping_irrelevant:
  assumes "s \<noteq> []" and "digit (hd s)" and "digit (last s)" and "list_all money_char s"
    and "length (last_group s) \<noteq> 2" and "dec_value (filter digit s) * 100 < 2 ^ 63"
  shows "parseMoney s = dec_value (filter digit s) * 100"
proof -
  have dv: "0 \<le> dec_value t" for t
  proof (induction t rule: rev_induct)
    case (snoc c t)
    then show ?case by (simp add: dec_value_def)
  qed (simp add: dec_value_def)
  have "hd s \<in> set s" using assms(1) by simp
  then have ne: "filter digit s \<noteq> []" using assms(2) by (auto simp: filter_empty_conv)
  have small: "dec_value (filter digit s) < 2 ^ 63" using assms(6) dv [of "filter digit s"] by linarith
  have w: "wrap64 (dec_value (filter digit s) * 100) = dec_value (filter digit s) * 100"
    using assms(6) dv [of "filter digit s"] by (simp add: wrap64_def)
  have "length (takeWhile (\<lambda>c. c \<noteq> CHR ''.'' \<and> c \<noteq> CHR '','')
      (rev (filter (\<lambda>c. c \<noteq> CHR '' '' \<and> c \<noteq> CHR ''_'') s))) \<noteq> 2"
    using assms(5) by (simp add: last_group_def)
  then show ?thesis
    using assms(1) ne small w
    by (simp add: parseMoney_def reMoney_id [OF assms(1-4)] Let_def stripSeparators_def
        filter_money_digits [OF assms(4)] del: filter_filter)
qed

theorem amount_grouping_irrelevant_witness:
  "parseMoney ''5.000'' = 500000 \<and> parseMoney ''5 000'' = 500000 \<and> parseMoney ''1_234,567'' = 123456700"
  using amount_grouping_irrelevant [of "''5.000''"] amount_grouping_irrelevant [of "''5 000''"]
    amount_grouping_irrelevant [of "''1_234,567''"]
  by (simp add: digit_def money_char_def last_group_def dec_value_def digit_val_def)

text \<open>A larger amount wraps around: this one is read as eighty-four cents.\<close>

theorem amount_overflow_wraps:
  "parseMoney ''184467440737095517'' = 84 \<and> parseMoney ''92233720368547759'' < 0"
  by (simp add: parseMoney_def reMoney_def stripSeparators_def dec_value_def digit_def money_char_def
      digit_val_def wrap64_def)

end
