(* ===== verification/ActionGuard.thy ===== *)
theory ActionGuard
  imports ActionIr
begin

text \<open>
  Package \<open>internal/actionguard\<close>: mandatory holds on dangerous effects, the correlation of the actions of a
  session, and the feed of known-bad indicators (\<open>threatintel.go\<close>). The guard's state is the map of its
  sessions; \<open>Check\<close> holds the mutex, so calls are atomic steps. A compiled deny pattern is the predicate it
  matches; compiling one is the argument \<open>compile\<close>. The texts \<open>fmt.Sprintf\<close> builds with \<open>%q\<close> take the quoting
  function \<open>quote\<close>.
\<close>

datatype AgVerdict = AgAllow | AgBlock | AgEscalate

record AgResult =
  agVerdict :: AgVerdict
  agReason :: string
  agRule :: string
  agIR :: ActionIR

record ThreatFeed =
  tfDenyDest :: "string list"
  tfDenyTool :: "(string \<Rightarrow> bool) list"
  tfBadSequence :: "Op list list"

record AgConfig =
  acEscalateOverCents :: int
  acBlockUnboundedDelete :: bool
  acFeed :: "ThreatFeed option"

definition ag_DefaultConfig :: AgConfig where
  "ag_DefaultConfig = \<lparr>acEscalateOverCents = 500000, acBlockUnboundedDelete = True, acFeed = None\<rparr>"

record ag_session =
  seCreated :: "string list"
  seHistory :: "ActionIR list"

type_synonym Guard = "string \<rightharpoonup> ag_session"

definition ag_New :: Guard where "ag_New = Map.empty"

text \<open>\<open>\s\<close> is a tab, line feed, form feed, carriage return or space; runs become one space.\<close>

definition ws_char :: "char \<Rightarrow> bool" where
  "ws_char c \<longleftrightarrow> c \<in> {CHR 0x09, CHR 0x0A, CHR 0x0C, CHR 0x0D, CHR 0x20}"

fun collapse_ws :: "bool \<Rightarrow> string \<Rightarrow> string" where
  "collapse_ws after_ws [] = []"
| "collapse_ws after_ws (c # cs) =
     (if ws_char c then (if after_ws then collapse_ws True cs else CHR 0x20 # collapse_ws True cs)
      else c # collapse_ws False cs)"

definition ag_norm :: "golib \<Rightarrow> string \<Rightarrow> string" where
  "ag_norm lib s = trim_space (collapse_ws False (glLower lib s))"

subsection \<open>Threat feed\<close>

definition NewThreatFeed :: "golib \<Rightarrow> (string \<Rightarrow> (string \<Rightarrow> bool) option) \<Rightarrow> string list \<Rightarrow> string list \<Rightarrow> Op list list
    \<Rightarrow> string + ThreatFeed" where
  "NewThreatFeed lib compile denyDestinations denyTools badSequences =
     (case List.find (\<lambda>p. compile p = None) denyTools of
        Some p \<Rightarrow> Inl p
      | None \<Rightarrow>
          Inr \<lparr>tfDenyDest = filter (\<lambda>n. n \<noteq> []) (map (ag_norm lib) denyDestinations),
               tfDenyTool = map (\<lambda>p. the (compile p)) denyTools,
               tfBadSequence = filter (\<lambda>q. q \<noteq> []) badSequences\<rparr>)"

definition endsWithSeq :: "Op list \<Rightarrow> Op list \<Rightarrow> bool" where
  "endsWithSeq ops q \<longleftrightarrow>
     \<not> (q = [] \<or> length ops < length q) \<and> drop (length ops - length q) ops = q"

definition tf_match :: "golib \<Rightarrow> (string \<Rightarrow> string) \<Rightarrow> ThreatFeed \<Rightarrow> string \<Rightarrow> ActionIR \<Rightarrow> ActionIR list
    \<Rightarrow> (AgVerdict \<times> string \<times> string) option" where
  "tf_match lib quote f tool ir history =
     (if irDestination ir \<noteq> [] \<and> ag_norm lib (irDestination ir) \<in> set (tfDenyDest f) then
        Some (AgBlock, ''destination '' @ quote (irDestination ir) @ '' matches a known-bad threat-intel indicator'',
          ''threat.deny_destination'')
      else if list_ex (\<lambda>re. re tool) (tfDenyTool f) then
        Some (AgBlock, ''tool '' @ quote tool @ '' matches a known-bad threat-intel pattern'', ''threat.deny_tool'')
      else if list_ex (endsWithSeq (map irOp history @ [irOp ir])) (tfBadSequence f) then
        Some (AgEscalate, ''action completes a known-bad sequence from the threat-intel feed'', ''threat.bad_sequence'')
      else None)"

subsection \<open>The guard\<close>

definition createdNames :: "golib \<Rightarrow> ActionIR \<Rightarrow> args \<Rightarrow> string list" where
  "createdNames lib ir m =
     (if irDestination ir \<noteq> [] then [irDestination ir] else [])
     @ concat (map (\<lambda>(k, v).
         if glLower lib k \<in> {''name'', ''supplier'', ''vendor'', ''payee'', ''beneficiary''}
         then (case v of JStr s \<Rightarrow> [s] | _ \<Rightarrow> []) else []) (arg_list m))"

definition ag_record :: "golib \<Rightarrow> ActionIR \<Rightarrow> args \<Rightarrow> ag_session \<Rightarrow> ag_session" where
  "ag_record lib ir m s =
     \<lparr>seCreated = (if irOp ir = OpCreate
                   then map (ag_norm lib) (filter (\<lambda>n. n \<noteq> []) (createdNames lib ir m)) @ seCreated s
                   else seCreated s),
      seHistory = seHistory s @ [ir]\<rparr>"

definition session_of :: "Guard \<Rightarrow> string \<Rightarrow> ag_session" where
  "session_of g sid = (case g sid of Some s \<Rightarrow> s | None \<Rightarrow> \<lparr>seCreated = [], seHistory = []\<rparr>)"

definition ag_verdict :: "golib \<Rightarrow> (string \<Rightarrow> string) \<Rightarrow> AgConfig \<Rightarrow> ag_session \<Rightarrow> string \<Rightarrow> ActionIR
    \<Rightarrow> AgVerdict \<times> string \<times> string" where
  "ag_verdict lib quote cfg s tool ir =
     (case (case acFeed cfg of None \<Rightarrow> None | Some f \<Rightarrow> tf_match lib quote f tool ir (seHistory s)) of
        Some hit \<Rightarrow> hit
      | None \<Rightarrow>
          if acBlockUnboundedDelete cfg \<and> irOp ir = OpDelete \<and> irScope ir = ScopeUnbounded then
            (AgBlock, ''unbounded delete is not permitted'', ''hold.unbounded_delete'')
          else if irOp ir = OpPay \<and> irDestination ir \<noteq> [] \<and> ag_norm lib (irDestination ir) \<in> set (seCreated s) then
            (AgEscalate, ''payment to '' @ quote (irDestination ir) @ '', a party created earlier in this session'',
             ''plan.pay_to_self_created_party'')
          else if \<not> irReversible ir \<and> 0 < acEscalateOverCents cfg \<and> acEscalateOverCents cfg \<le> irMagnitudeCents ir then
            (AgEscalate, ''irreversible action of '' @ show_int (irMagnitudeCents ir) @ '' cents requires human approval'',
             ''hold.high_value_irreversible'')
          else (AgAllow, [], []))"

definition ag_Check :: "golib \<Rightarrow> (string \<Rightarrow> string) \<Rightarrow> AgConfig \<Rightarrow> string \<Rightarrow> string \<Rightarrow> args \<Rightarrow> Guard
    \<Rightarrow> AgResult \<times> Guard" where
  "ag_Check lib quote cfg sid tool m g =
     (let ir = Resolve lib tool m;
          s = session_of g sid;
          (v, reason, rule) = ag_verdict lib quote cfg s tool ir
      in (\<lparr>agVerdict = v, agReason = reason, agRule = rule, agIR = ir\<rparr>, g(sid \<mapsto> ag_record lib ir m s)))"

definition ag_Forget :: "string \<Rightarrow> Guard \<Rightarrow> Guard" where
  "ag_Forget sid g = g(sid := None)"

subsection \<open>Runs of the guard\<close>

datatype ag_event = AgCall string string args | AgForget string

fun ag_step :: "golib \<Rightarrow> (string \<Rightarrow> string) \<Rightarrow> AgConfig \<Rightarrow> ag_event \<Rightarrow> Guard \<Rightarrow> Guard" where
  "ag_step lib quote cfg (AgCall sid tool m) g = snd (ag_Check lib quote cfg sid tool m g)"
| "ag_step lib quote cfg (AgForget sid) g = ag_Forget sid g"

text \<open>The names a call of a session creates, as they are remembered.\<close>

fun ag_creates :: "golib \<Rightarrow> string \<Rightarrow> ag_event \<Rightarrow> string set" where
  "ag_creates lib sid (AgCall s tool m) =
     (if s = sid \<and> irOp (Resolve lib tool m) = OpCreate
      then ag_norm lib ` {n \<in> set (createdNames lib (Resolve lib tool m) m). n \<noteq> []} else {})"
| "ag_creates lib sid (AgForget s) = {}"

lemma snd_ag_Check [simp]:
  "snd (ag_Check lib quote cfg sid tool m g) = g(sid \<mapsto> ag_record lib (Resolve lib tool m) m (session_of g sid))"
  by (simp add: ag_Check_def case_prod_unfold Let_def)

lemma ag_Check_verdict:
  "agVerdict (fst (ag_Check lib quote cfg sid tool m g))
    = fst (ag_verdict lib quote cfg (session_of g sid) tool (Resolve lib tool m))"
  by (simp add: ag_Check_def case_prod_unfold Let_def)

lemma created_step:
  assumes "e \<noteq> AgForget sid"
  shows "set (seCreated (session_of (ag_step lib quote cfg e g) sid))
    = set (seCreated (session_of g sid)) \<union> ag_creates lib sid e"
  using assms
  by (cases e) (auto simp: session_of_def ag_record_def ag_Forget_def split: option.splits)

lemma created_run:
  "AgForget sid \<notin> set es \<Longrightarrow>
    set (seCreated (session_of (fold (ag_step lib quote cfg) es g) sid))
      = set (seCreated (session_of g sid)) \<union> (\<Union>e \<in> set es. ag_creates lib sid e)"
proof (induction es arbitrary: g)
  case (Cons e es)
  then have "e \<noteq> AgForget sid" by auto
  with Cons show ?case by (simp add: created_step Un_assoc)
qed simp

lemma ag_verdict_Allow:
  assumes "fst (ag_verdict lib quote cfg s tool ir) = AgAllow"
  shows "\<not> (acBlockUnboundedDelete cfg \<and> irOp ir = OpDelete \<and> irScope ir = ScopeUnbounded)"
    and "\<not> (irOp ir = OpPay \<and> irDestination ir \<noteq> [] \<and> ag_norm lib (irDestination ir) \<in> set (seCreated s))"
    and "\<not> (\<not> irReversible ir \<and> 0 < acEscalateOverCents cfg \<and> acEscalateOverCents cfg \<le> irMagnitudeCents ir)"
    and "\<And>f. acFeed cfg = Some f \<Longrightarrow> tf_match lib quote f tool ir (seHistory s) = None"
  using assms
  by (auto simp: ag_verdict_def tf_match_def split: option.splits if_splits)

text \<open>The operations a session has attempted since it was last forgotten, in order.\<close>

fun ag_trail :: "golib \<Rightarrow> string \<Rightarrow> Op list \<Rightarrow> ag_event list \<Rightarrow> Op list" where
  "ag_trail lib sid ops [] = ops"
| "ag_trail lib sid ops (AgCall s tool m # es) =
     ag_trail lib sid (if s = sid then ops @ [irOp (Resolve lib tool m)] else ops) es"
| "ag_trail lib sid ops (AgForget s # es) = ag_trail lib sid (if s = sid then [] else ops) es"

lemma ag_trail_Cons: "ag_trail lib sid ops (e # es) = ag_trail lib sid (ag_trail lib sid ops [e]) es"
  by (cases e) simp_all

lemma history_run:
  "map irOp (seHistory (session_of (fold (ag_step lib quote cfg) es g) sid))
    = ag_trail lib sid (map irOp (seHistory (session_of g sid))) es"
proof (induction es arbitrary: g)
  case (Cons e es)
  have "map irOp (seHistory (session_of (ag_step lib quote cfg e g) sid))
    = ag_trail lib sid (map irOp (seHistory (session_of g sid))) [e]"
    by (cases e) (auto simp: session_of_def ag_record_def ag_Forget_def split: option.splits)
  with Cons [of "ag_step lib quote cfg e g"] show ?case
    by (subst ag_trail_Cons) (simp only: fold_simps)
qed simp

lemma endsWithSeq_suffix: "endsWithSeq ops q \<longleftrightarrow> q \<noteq> [] \<and> (\<exists>pre. ops = pre @ q)"
  by (auto simp: endsWithSeq_def intro: exI [of _ "take (length ops - length q) ops"])
    (metis append_take_drop_id)

text \<open>
  C29. What the action guard lets through. In every session, however its calls are interleaved with those of
  other sessions, a call that the guard allows is not a delete without bounds when those are blocked, moves less
  than the threshold if it cannot be undone, goes to no destination and no tool the feed denies, does not end a
  bad sequence of the feed when its operation is put after those the session attempted since it was last forgotten,
  and is not a payment to a party that a call of the same session created before, unless the session was forgotten
  in between.
\<close>

theorem action_guard_holds:
  assumes "agVerdict (fst (ag_Check lib quote cfg sid tool m
      (fold (ag_step lib quote cfg) (before @ e # between) g))) = AgAllow"
    and "AgForget sid \<notin> set between" and "ir = Resolve lib tool m"
  shows "\<not> (acBlockUnboundedDelete cfg \<and> irOp ir = OpDelete \<and> irScope ir = ScopeUnbounded)
    \<and> (\<not> irReversible ir \<and> 0 < acEscalateOverCents cfg \<longrightarrow> irMagnitudeCents ir < acEscalateOverCents cfg)
    \<and> (irOp ir = OpPay \<and> irDestination ir \<noteq> [] \<longrightarrow> ag_norm lib (irDestination ir) \<notin> ag_creates lib sid e)
    \<and> (\<forall>f. acFeed cfg = Some f \<longrightarrow> ag_norm lib (irDestination ir) \<notin> set (tfDenyDest f) \<or> irDestination ir = [])
    \<and> (\<forall>f. acFeed cfg = Some f \<longrightarrow> \<not> list_ex (\<lambda>re. re tool) (tfDenyTool f))
    \<and> (\<forall>f q pre. acFeed cfg = Some f \<and> q \<in> set (tfBadSequence f) \<and> q \<noteq> [] \<longrightarrow>
         ag_trail lib sid (map irOp (seHistory (session_of g sid))) (before @ e # between) @ [irOp ir] \<noteq> pre @ q)"
proof -
  let ?g = "fold (ag_step lib quote cfg) (before @ e # between) g"
  have v: "fst (ag_verdict lib quote cfg (session_of ?g sid) tool ir) = AgAllow"
    using assms(1,3) by (simp only: ag_Check_verdict)
  have "ag_creates lib sid e \<subseteq> set (seCreated (session_of ?g sid))"
  proof (cases "e = AgForget sid")
    case False
    then show ?thesis
      using assms(2) created_run [of sid "e # between" lib quote cfg "fold (ag_step lib quote cfg) before g"] by auto
  qed simp
  moreover have "\<not> list_ex (endsWithSeq (map irOp (seHistory (session_of ?g sid)) @ [irOp ir])) (tfBadSequence f)"
    "\<not> list_ex (\<lambda>re. re tool) (tfDenyTool f)"
    "irDestination ir = [] \<or> ag_norm lib (irDestination ir) \<notin> set (tfDenyDest f)" if "acFeed cfg = Some f" for f
    using ag_verdict_Allow(4) [OF v that] by (auto simp: tf_match_def split: if_splits)
  ultimately show ?thesis
    using ag_verdict_Allow(1-3) [OF v] unfolding history_run list_ex_iff endsWithSeq_suffix by auto
qed

definition ascii_upper :: "string \<Rightarrow> string" where
  "ascii_upper = map (\<lambda>c. let n = of_char c :: nat in if 97 \<le> n \<and> n \<le> 122 then char_of (n - 32) else c)"

definition ascii_lib :: golib where
  "ascii_lib = \<lparr>glLower = to_lower, glUpper = ascii_upper, glCents = (\<lambda>q. \<lfloor>100 * q\<rfloor>)\<rparr>"

definition sample_pay :: args where
  "sample_pay = Some [(''payee'', JStr ''Acme''), (''amount'', JStr ''49'')]"

text \<open>A feed that denies a destination, every tool of length three, and a creation followed by a payment.\<close>

definition sample_guard :: AgConfig where
  "sample_guard = ag_DefaultConfig\<lparr>acFeed := Some \<lparr>tfDenyDest = [''mallory''],
     tfDenyTool = [\<lambda>t. length t = 3], tfBadSequence = [[OpDelete, OpPay]]\<rparr>\<rparr>"

definition sample_create :: ag_event where
  "sample_create = AgCall ''s'' ''create_supplier'' (Some [(''name'', JStr ''Evil'')])"

theorem action_guard_holds_witness:
  "ag_norm ascii_lib (irDestination (Resolve ascii_lib ''pay_invoice'' sample_pay)) \<notin> ag_creates ascii_lib ''s'' sample_create
   \<and> (\<forall>pre. ag_trail ascii_lib ''s'' [] [sample_create] @ [OpPay] \<noteq> pre @ [OpDelete, OpPay])"
proof -
  have allow: "agVerdict (fst (ag_Check ascii_lib (\<lambda>s. s) sample_guard ''s'' ''pay_invoice'' sample_pay
      (fold (ag_step ascii_lib (\<lambda>s. s) sample_guard) ([] @ sample_create # []) ag_New))) = AgAllow"
    by code_simp
  have pay: "irOp (Resolve ascii_lib ''pay_invoice'' sample_pay) = OpPay"
    "irDestination (Resolve ascii_lib ''pay_invoice'' sample_pay) \<noteq> []"
    by code_simp+
  have start: "map irOp (seHistory (session_of ag_New ''s'')) = []"
    by (simp add: session_of_def ag_New_def)
  have feed: "acFeed sample_guard = Some \<lparr>tfDenyDest = [''mallory''], tfDenyTool = [\<lambda>t. length t = 3],
      tfBadSequence = [[OpDelete, OpPay]]\<rparr>"
    by (simp add: sample_guard_def)
  note g = action_guard_holds [OF allow _ refl, unfolded start pay(1) append_Nil]
  have "ag_trail ascii_lib ''s'' [] [sample_create] @ [OpPay] \<noteq> pre @ [OpDelete, OpPay]" for pre
    using g feed by force
  with g pay(2) show ?thesis by simp
qed

text \<open>
  Two gaps of the magnitude. An amount beyond the range of the integers wraps to a few cents and passes the hold;
  and with two money-bearing arguments the order of the map decides which one counts.
\<close>

definition fee_first :: args where
  "fee_first = Some [(''amount_fee'', JStr ''1''), (''amount_eur'', JStr ''9000'')]"
definition fee_last :: args where
  "fee_last = Some [(''amount_eur'', JStr ''9000''), (''amount_fee'', JStr ''1'')]"
definition huge_pay :: args where
  "huge_pay = Some [(''amount'', JStr ''184467440737095517'')]"

definition ir_money :: "ActionIR \<Rightarrow> Op \<times> bool \<times> int \<times> string" where
  "ir_money ir = (irOp ir, irReversible ir, irMagnitudeCents ir, irDestination ir)"

lemma pay_amounts:
  "ir_money (Resolve ascii_lib ''pay'' fee_first) = (OpPay, False, 100, [])"
  "ir_money (Resolve ascii_lib ''pay'' fee_last) = (OpPay, False, 900000, [])"
  "ir_money (Resolve ascii_lib ''pay'' huge_pay) = (OpPay, False, 84, [])"
  by code_simp+

theorem guard_magnitude_gaps:
  "agVerdict (fst (ag_Check ascii_lib quote ag_DefaultConfig sid ''pay'' huge_pay ag_New)) = AgAllow
   \<and> agVerdict (fst (ag_Check ascii_lib quote ag_DefaultConfig sid ''pay'' fee_first ag_New)) = AgAllow
   \<and> agVerdict (fst (ag_Check ascii_lib quote ag_DefaultConfig sid ''pay'' fee_last ag_New)) = AgEscalate"
proof -
  have v: "fst (ag_verdict lib quote ag_DefaultConfig s tool ir) = (if c \<ge> 500000 then AgEscalate else AgAllow)"
    if "ir_money ir = (OpPay, False, c, [])" for lib s tool ir c
    using that by (simp add: ag_verdict_def ag_DefaultConfig_def ir_money_def)
  show ?thesis
    by (simp add: ag_Check_verdict v [OF pay_amounts(1)] v [OF pay_amounts(2)] v [OF pay_amounts(3)])
qed

end
