(* ===== verification/RefVerify.thy ===== *)
theory RefVerify
  imports ActionGuard "HOL-Library.AList"
begin

text \<open>
  Package \<open>internal/refverify\<close>: verification of the payee of a payment against the vendor master. A master is a
  lookup that fails (\<^const>\<open>Inl\<close>), does not know the payee, or returns its record; the static master
  (\<open>refverify.go\<close>) and the cached one over the system of record (\<open>http_master.go\<close>) are modelled. The HTTP
  exchange of the latter, up to the decoded answer, is the argument \<open>fetch\<close>. \<open>quote\<close> is \<open>%q\<close>.
\<close>

datatype RvVerdict = RvAllow | RvQuarantine | RvBlock

record VendorRecord =
  vrPayee :: string
  vrName :: string

type_synonym VendorMaster = "string \<Rightarrow> string + VendorRecord option"

definition strip_ws :: "string \<Rightarrow> string" where
  "strip_ws s = filter (\<lambda>c. \<not> ws_char c) s"

definition normKey :: "golib \<Rightarrow> string \<Rightarrow> string" where
  "normKey lib s = glUpper lib (strip_ws (trim_space s))"

definition normName :: "golib \<Rightarrow> string \<Rightarrow> string" where
  "normName lib s = trim_space (collapse_ws False (glLower lib s))"

type_synonym StaticVendorMaster = "(string \<times> VendorRecord) list"

definition addAlias :: "golib \<Rightarrow> string \<Rightarrow> VendorRecord \<Rightarrow> StaticVendorMaster \<Rightarrow> StaticVendorMaster" where
  "addAlias lib a r m = (let k = normKey lib a in if k = [] then m else AList.update k r m)"

definition NewStaticVendorMaster :: "golib \<Rightarrow> VendorRecord list \<Rightarrow> StaticVendorMaster" where
  "NewStaticVendorMaster lib records = fold (\<lambda>r. addAlias lib (vrPayee r) r) records []"

definition static_Lookup :: "golib \<Rightarrow> StaticVendorMaster \<Rightarrow> VendorMaster" where
  "static_Lookup lib m payee = Inr (map_of m (normKey lib payee))"

text \<open>\<open>LoadConfigFile\<close> after decoding: an alias becomes a record of its own with the vendor's name.\<close>

definition vendor_records :: "(string \<times> string \<times> string list) list \<Rightarrow> VendorRecord list" where
  "vendor_records vs =
     concat (map (\<lambda>(payee, name, aliases).
       \<lparr>vrPayee = payee, vrName = name\<rparr> # map (\<lambda>a. \<lparr>vrPayee = a, vrName = name\<rparr>) aliases) vs)"

subsection \<open>The cached system of record\<close>

record sor_entry =
  soRec :: "VendorRecord option"
  soExp :: gotime

datatype sor_answer = SorError string | SorStatus int | SorBody string string "bool option"

definition sor_fetch :: "(string \<Rightarrow> sor_answer) \<Rightarrow> string \<Rightarrow> string + VendorRecord option" where
  "sor_fetch fetch key =
     (case fetch key of
        SorError e \<Rightarrow> Inl e
      | SorStatus code \<Rightarrow>
          if code = 404 then Inr None else Inl (''system-of-record returned status '' @ show_int code)
      | SorBody payee name found \<Rightarrow>
          if found = Some False then Inr None
          else if trim_space payee = [] \<and> trim_space name = [] then Inr None
          else Inr (Some \<lparr>vrPayee = (if payee = [] then key else payee), vrName = name\<rparr>))"

definition http_Lookup :: "golib \<Rightarrow> (string \<Rightarrow> sor_answer) \<Rightarrow> int \<Rightarrow> gotime \<Rightarrow> string \<Rightarrow> (string \<times> sor_entry) list
    \<Rightarrow> (string + VendorRecord option) \<times> (string \<times> sor_entry) list" where
  "http_Lookup lib fetch ttl now payee cache =
     (let key = normKey lib payee in
      if key = [] then (Inr None, cache)
      else case (if 0 < ttl then map_of cache key else None) of
        Some e \<Rightarrow>
          if now < soExp e then (Inr (soRec e), cache)
          else (case sor_fetch fetch key of
                  Inl err \<Rightarrow> (Inl err, cache)
                | Inr r \<Rightarrow> (Inr r, AList.update key \<lparr>soRec = r, soExp = now + ttl\<rparr> cache))
      | None \<Rightarrow>
          (case sor_fetch fetch key of
             Inl err \<Rightarrow> (Inl err, cache)
           | Inr r \<Rightarrow> (Inr r, if 0 < ttl then AList.update key \<lparr>soRec = r, soExp = now + ttl\<rparr> cache else cache)))"

subsection \<open>The verifier\<close>

record RvConfig =
  rcMaster :: "VendorMaster option"
  rcMinCents :: int
  rcFailClosed :: bool

record RvResult =
  rvVerdict :: RvVerdict
  rvReasonText :: string
  rvRule :: string
  rvIR :: ActionIR

definition assertedName :: "golib \<Rightarrow> args \<Rightarrow> string" where
  "assertedName lib m =
     (case first_some (\<lambda>(k, v).
         if glLower lib k \<in> {''payee_name'', ''beneficiary_name'', ''name''} then
           (case v of JStr s \<Rightarrow> if trim_space s \<noteq> [] then Some s else None | _ \<Rightarrow> None)
         else None) (arg_list m) of
        Some s \<Rightarrow> s | None \<Rightarrow> [])"

definition rv_Check :: "golib \<Rightarrow> (string \<Rightarrow> string) \<Rightarrow> RvConfig \<Rightarrow> string \<Rightarrow> args \<Rightarrow> RvResult" where
  "rv_Check lib quote cfg tool m =
     (let ir = Resolve lib tool m;
          res = (\<lambda>v reason rule. \<lparr>rvVerdict = v, rvReasonText = reason, rvRule = rule, rvIR = ir\<rparr>);
          payee = irDestination ir in
      if irOp ir \<noteq> OpPay then res RvAllow [] ''refverify.not_payment''
      else if 0 < rcMinCents cfg \<and> irMagnitudeCents ir < rcMinCents cfg then res RvAllow [] ''refverify.below_threshold''
      else if payee = [] then
        (if rcFailClosed cfg then res RvQuarantine ''payment has no identifiable payee to verify'' ''refverify.no_payee''
         else res RvAllow [] ''refverify.no_payee'')
      else case rcMaster cfg of
        None \<Rightarrow>
          (if rcFailClosed cfg then res RvQuarantine ''vendor-master reference is unavailable'' ''refverify.no_source''
           else res RvAllow [] ''refverify.no_source'')
      | Some lookup \<Rightarrow>
          (case lookup payee of
             Inl err \<Rightarrow>
               res RvQuarantine (''vendor-master lookup for '' @ quote payee @ '' failed: '' @ err)
                 ''refverify.source_unavailable''
           | Inr None \<Rightarrow>
               res RvQuarantine (''payee '' @ quote payee @ '' is not in the vendor master'')
                 ''refverify.payee_not_in_master''
           | Inr (Some r) \<Rightarrow>
               (let claimed = assertedName lib m in
                if claimed \<noteq> [] \<and> vrName r \<noteq> [] \<and> normName lib claimed \<noteq> normName lib (vrName r) then
                  res RvQuarantine (''asserted payee name '' @ quote claimed @ '' does not match vendor master (''
                      @ quote (vrName r) @ '') for '' @ quote payee) ''refverify.name_mismatch''
                else res RvAllow [] ''refverify.match'')))"

lemma static_master_sound:
  assumes "map_of (fold (\<lambda>r. addAlias lib (vrPayee r) r) rs m) k = Some r"
  shows "map_of m k = Some r \<or> r \<in> set rs \<and> normKey lib (vrPayee r) = k"
  using assms
proof (induction rs arbitrary: m)
  case (Cons q rs)
  from Cons.IH [of "addAlias lib (vrPayee q) q m"] Cons.prems show ?case
    by (auto simp: addAlias_def Let_def update_conv' split: if_splits)
qed simp

lemma rv_Allow:
  assumes "rvVerdict (rv_Check lib quote cfg tool m) = RvAllow" and "rcFailClosed cfg"
    and "irOp (Resolve lib tool m) = OpPay" and "rcMinCents cfg \<le> irMagnitudeCents (Resolve lib tool m)"
  obtains lookup r where "rcMaster cfg = Some lookup" "irDestination (Resolve lib tool m) \<noteq> []"
    "lookup (irDestination (Resolve lib tool m)) = Inr (Some r)"
    "assertedName lib m = [] \<or> vrName r = [] \<or> normName lib (assertedName lib m) = normName lib (vrName r)"
  using assms
  by (auto simp: rv_Check_def Let_def split: if_splits option.splits sum.splits)

lemma http_Lookup_known:
  assumes "fst (http_Lookup lib fetch ttl now payee cache) = Inr (Some r)"
  shows "normKey lib payee \<noteq> [] \<and> (sor_fetch fetch (normKey lib payee) = Inr (Some r) \<or>
    (\<exists>e. map_of cache (normKey lib payee) = Some e \<and> now < soExp e \<and> soRec e = Some r))"
  using assms by (auto simp: http_Lookup_def Let_def split: if_splits option.splits sum.splits)

text \<open>
  C30. The payee of a payment is verified. With the verifier set to fail closed, a call that resolves to a
  payment of at least the configured minimum (every payment, when that is zero) passes only if it names a payee,
  there is a vendor master, the master knows the payee, and the name the call asserts, if it asserts one, agrees
  with the name on record, if there is one. With the static master to know the payee is to have a record whose
  payee is the same up to case and spacing; with the cached system of record it is a record that system returns
  now, or returned in an answer that has not expired. Payments below the minimum are not verified, and with
  fail-closed off a payment without a payee or without a master passes.
\<close>

theorem payment_payee_verified:
  assumes "rvVerdict (rv_Check lib quote cfg tool m) = RvAllow" and "rcFailClosed cfg"
    and "irOp (Resolve lib tool m) = OpPay" and "rcMinCents cfg \<le> irMagnitudeCents (Resolve lib tool m)"
    and "payee = irDestination (Resolve lib tool m)"
  shows "payee \<noteq> [] \<and> (\<exists>lookup r. rcMaster cfg = Some lookup \<and> lookup payee = Inr (Some r)
    \<and> (assertedName lib m = [] \<or> vrName r = [] \<or> normName lib (assertedName lib m) = normName lib (vrName r))
    \<and> (\<forall>rs. lookup = static_Lookup lib (NewStaticVendorMaster lib rs) \<longrightarrow>
         r \<in> set rs \<and> normKey lib payee = normKey lib (vrPayee r))
    \<and> (\<forall>fetch ttl now cache. lookup = (\<lambda>p. fst (http_Lookup lib fetch ttl now p cache)) \<longrightarrow>
         sor_fetch fetch (normKey lib payee) = Inr (Some r) \<or>
         (\<exists>e. map_of cache (normKey lib payee) = Some e \<and> now < soExp e \<and> soRec e = Some r)))"
proof -
  obtain lookup r where a: "rcMaster cfg = Some lookup" "payee \<noteq> []" "lookup payee = Inr (Some r)"
    "assertedName lib m = [] \<or> vrName r = [] \<or> normName lib (assertedName lib m) = normName lib (vrName r)"
    unfolding assms(5) by (rule rv_Allow [OF assms(1-4)])
  have "r \<in> set rs \<and> normKey lib payee = normKey lib (vrPayee r)"
    if "lookup = static_Lookup lib (NewStaticVendorMaster lib rs)" for rs
    using that a(3) static_master_sound [of lib rs "[]" "normKey lib payee" r]
    by (auto simp: static_Lookup_def NewStaticVendorMaster_def)
  moreover have "sor_fetch fetch (normKey lib payee) = Inr (Some r) \<or>
      (\<exists>e. map_of cache (normKey lib payee) = Some e \<and> now < soExp e \<and> soRec e = Some r)"
    if "lookup = (\<lambda>p. fst (http_Lookup lib fetch ttl now p cache))" for fetch ttl now cache
    using http_Lookup_known [of lib fetch ttl now payee cache r] a(3) that by blast
  ultimately show ?thesis using a by blast
qed

definition sample_master :: "VendorRecord list" where
  "sample_master = [\<lparr>vrPayee = ''ac me'', vrName = ''Acme BV''\<rparr>]"

definition sample_rv :: RvConfig where
  "sample_rv = \<lparr>rcMaster = Some (static_Lookup ascii_lib (NewStaticVendorMaster ascii_lib sample_master)),
     rcMinCents = 100, rcFailClosed = True\<rparr>"

theorem payment_payee_verified_witness:
  "\<exists>r \<in> set sample_master.
     normKey ascii_lib (irDestination (Resolve ascii_lib ''pay_invoice'' sample_pay)) = normKey ascii_lib (vrPayee r)
       \<and> (assertedName ascii_lib sample_pay = [] \<or> vrName r = []
           \<or> normName ascii_lib (assertedName ascii_lib sample_pay) = normName ascii_lib (vrName r))"
proof -
  have ok: "rvVerdict (rv_Check ascii_lib (\<lambda>s. s) sample_rv ''pay_invoice'' sample_pay) = RvAllow"
    "irOp (Resolve ascii_lib ''pay_invoice'' sample_pay) = OpPay"
    "rcMinCents sample_rv \<le> irMagnitudeCents (Resolve ascii_lib ''pay_invoice'' sample_pay)" by code_simp+
  have cfg: "rcFailClosed sample_rv"
    "rcMaster sample_rv = Some (static_Lookup ascii_lib (NewStaticVendorMaster ascii_lib sample_master))"
    by (simp_all add: sample_rv_def)
  from payment_payee_verified [OF ok(1) cfg(1) ok(2,3) refl] obtain lookup r
    where "rcMaster sample_rv = Some lookup"
      and n: "assertedName ascii_lib sample_pay = [] \<or> vrName r = []
        \<or> normName ascii_lib (assertedName ascii_lib sample_pay) = normName ascii_lib (vrName r)"
      and "\<forall>rs. lookup = static_Lookup ascii_lib (NewStaticVendorMaster ascii_lib rs) \<longrightarrow> r \<in> set rs \<and>
        normKey ascii_lib (irDestination (Resolve ascii_lib ''pay_invoice'' sample_pay)) = normKey ascii_lib (vrPayee r)"
    by blast
  with cfg(2) have "r \<in> set sample_master"
    "normKey ascii_lib (irDestination (Resolve ascii_lib ''pay_invoice'' sample_pay)) = normKey ascii_lib (vrPayee r)"
    by simp_all
  with n show ?thesis by blast
qed

end
