(* ===== verification/Deception.thy ===== *)
theory Deception
  imports RefVerify Mcp "HOL-Library.Product_Lexorder"
begin

text \<open>
  Package \<open>internal/deception\<close>: recognising a call that touches a decoy (\<open>deception.go\<close>). The maps of the static
  registry are association lists in which the last decoy written under a key comes first. \<open>touches\<close> is the
  specification: what it means for a call to touch a decoy, kind by kind.
\<close>

datatype Kind = HoneyTool | HoneyCredential | HoneyRecord | DecoyToken | DecoyZone | InjectionCanary | Breadcrumb
  | OtherKind string

datatype OnTrip = OnTripAlert | OnTripHold | OnTripContain | OnTripSandbox | OtherOnTrip string

datatype Severity = SevCritical | SevHigh | SevMedium

datatype DeAction = ActionContained | ActionHeld | ActionAlerted

record Decoy =
  dcID :: string
  dcName :: string
  dcKind :: Kind
  dcKey :: string
  dcPillar :: string
  dcOnTrip :: OnTrip
  dcSynthetic :: string
  dcResponseActions :: "string list"

definition HasResponseAction :: "Decoy \<Rightarrow> string \<Rightarrow> bool" where
  "HasResponseAction d name = list_ex (\<lambda>a. a = name) (dcResponseActions d)"

definition de_norm :: "golib \<Rightarrow> string \<Rightarrow> string" where
  "de_norm lib s = glLower lib (strip_ws (trim_space s))"

record DeInput =
  diTool :: string
  diTokenID :: string
  diZone :: string
  diCredentialID :: string
  diValues :: "string list"
  diContent :: string

fun json_strings :: "json \<Rightarrow> string list" where
  "json_strings (JStr s) = (if s = [] then [] else [s])"
| "json_strings (JObj m) = concat (map (\<lambda>(k, v). json_strings v) m)"
| "json_strings (JArr xs) = concat (map json_strings xs)"
| "json_strings v = []"

definition ValuesFromArgs :: "args \<Rightarrow> string list" where
  "ValuesFromArgs m = concat (map (\<lambda>(k, v). json_strings v) (arg_list m))"

definition ContentFromArgs :: "(rat \<Rightarrow> string) \<Rightarrow> args \<Rightarrow> string" where
  "ContentFromArgs num m = (if arg_list m = [] then [] else marshal_args num m)"

subsection \<open>The registry\<close>

record StaticRegistry =
  srTools :: "(string \<times> Decoy) list"
  srTokens :: "(string \<times> Decoy) list"
  srZones :: "(string \<times> Decoy) list"
  srCreds :: "(string \<times> Decoy) list"
  srValues :: "(string \<times> Decoy) list"
  srCanaries :: "(string \<times> Decoy) list"

definition index_by :: "(Decoy \<Rightarrow> string) \<Rightarrow> Kind list \<Rightarrow> Decoy list \<Rightarrow> (string \<times> Decoy) list" where
  "index_by key kinds ds = rev (map (\<lambda>d. (key d, d)) (filter (\<lambda>d. dcKind d \<in> set kinds) ds))"

text \<open>Canaries are scanned longest marker first, then in lexical order.\<close>

definition NewStaticRegistry :: "golib \<Rightarrow> Decoy list \<Rightarrow> StaticRegistry" where
  "NewStaticRegistry lib decoys =
     (let ds = filter (\<lambda>d. dcKey d \<noteq> []) decoys; nk = (\<lambda>d. de_norm lib (dcKey d)) in
      \<lparr>srTools = index_by nk [HoneyTool] ds,
       srTokens = index_by dcKey [DecoyToken] ds,
       srZones = index_by nk [DecoyZone] ds,
       srCreds = index_by dcKey [HoneyCredential] ds,
       srValues = index_by nk [HoneyCredential, HoneyRecord] ds,
       srCanaries = sort_key (\<lambda>c. (- int (length (fst c)), fst c))
         (filter (\<lambda>c. fst c \<noteq> []) (map (\<lambda>d. (nk d, d)) (filter (\<lambda>d. dcKind d = InjectionCanary) ds)))\<rparr>)"

definition look :: "(string \<times> Decoy) list \<Rightarrow> string \<Rightarrow> string \<Rightarrow> Decoy option" where
  "look m present key = (if present = [] then None else map_of m key)"

definition match_canary :: "golib \<Rightarrow> StaticRegistry \<Rightarrow> DeInput \<Rightarrow> Decoy option" where
  "match_canary lib r inp =
     (let hay = de_norm lib (diContent inp); vals = map (de_norm lib) (filter (\<lambda>v. v \<noteq> []) (diValues inp)) in
      map_option snd (List.find (\<lambda>c. (hay \<noteq> [] \<and> contains_str hay (fst c)) \<or> list_ex (\<lambda>v. contains_str v (fst c)) vals)
        (srCanaries r)))"

definition de_Match :: "golib \<Rightarrow> StaticRegistry \<Rightarrow> DeInput \<Rightarrow> Decoy option" where
  "de_Match lib r inp =
     first_some id
       [look (srTokens r) (diTokenID inp) (diTokenID inp),
        look (srTools r) (diTool inp) (de_norm lib (diTool inp)),
        look (srCreds r) (diCredentialID inp) (diCredentialID inp),
        first_some (\<lambda>v. look (srValues r) v (de_norm lib v)) (diValues inp),
        look (srZones r) (diZone inp) (de_norm lib (diZone inp)),
        match_canary lib r inp]"

subsection \<open>The detector\<close>

definition de_outcome :: "OnTrip \<Rightarrow> Severity \<times> DeAction \<times> bool" where
  "de_outcome t =
     (case t of
        OnTripContain \<Rightarrow> (SevCritical, ActionContained, True)
      | OnTripHold \<Rightarrow> (SevHigh, ActionHeld, False)
      | OnTripSandbox \<Rightarrow> (SevCritical, ActionAlerted, False)
      | _ \<Rightarrow> (SevMedium, ActionAlerted, False))"

definition reasonFor :: "Decoy \<Rightarrow> DeAction \<Rightarrow> string" where
  "reasonFor d a =
     (if dcOnTrip d = OnTripSandbox then
        ''agent entered sandbox decoy '' @ dcName d @ ''; served synthetic response, chain being captured''
      else case a of
        ActionContained \<Rightarrow>
          ''agent touched decoy '' @ dcName d @ '', in no token'' @ [CHR 0x27] @ ''s scope; kill switch fired, token revoked''
      | ActionHeld \<Rightarrow> ''agent acted on decoy '' @ dcName d @ ''; held for the incident responder''
      | ActionAlerted \<Rightarrow> ''agent acted on decoy '' @ dcName d @ ''; flagged and alerted'')"

record DeResult =
  drDecoy :: Decoy
  drSeverity :: Severity
  drAction :: DeAction
  drContain :: bool
  drSandbox :: bool
  drSynthetic :: string
  drResponseActions :: "string list"
  drReason :: string

text \<open>The result of a trip; a result that did not trip has no other content and is \<^const>\<open>None\<close>.\<close>

definition de_Check :: "golib \<Rightarrow> StaticRegistry option \<Rightarrow> DeInput \<Rightarrow> DeResult option" where
  "de_Check lib reg inp =
     (case reg of
        None \<Rightarrow> None
      | Some r \<Rightarrow>
          (case de_Match lib r inp of
             None \<Rightarrow> None
           | Some d \<Rightarrow>
               (case de_outcome (dcOnTrip d) of (sev, act, contain) \<Rightarrow>
                  Some \<lparr>drDecoy = d, drSeverity = sev, drAction = act, drContain = contain,
                        drSandbox = (dcOnTrip d = OnTripSandbox), drSynthetic = dcSynthetic d,
                        drResponseActions = dcResponseActions d, drReason = reasonFor d act\<rparr>)))"

subsection \<open>Exactly the touches trip\<close>

definition touches :: "golib \<Rightarrow> DeInput \<Rightarrow> Decoy \<Rightarrow> bool" where
  "touches lib inp d \<longleftrightarrow> dcKey d \<noteq> [] \<and>
     (let nk = de_norm lib (dcKey d); value = (\<exists>v \<in> set (diValues inp). v \<noteq> [] \<and> de_norm lib v = nk) in
      case dcKind d of
        HoneyTool \<Rightarrow> diTool inp \<noteq> [] \<and> de_norm lib (diTool inp) = nk
      | DecoyToken \<Rightarrow> diTokenID inp \<noteq> [] \<and> diTokenID inp = dcKey d
      | DecoyZone \<Rightarrow> diZone inp \<noteq> [] \<and> de_norm lib (diZone inp) = nk
      | HoneyCredential \<Rightarrow> (diCredentialID inp \<noteq> [] \<and> diCredentialID inp = dcKey d) \<or> value
      | HoneyRecord \<Rightarrow> value
      | InjectionCanary \<Rightarrow> nk \<noteq> [] \<and> (contains_str (de_norm lib (diContent inp)) nk
          \<or> (\<exists>v \<in> set (diValues inp). v \<noteq> [] \<and> contains_str (de_norm lib v) nk))
      | _ \<Rightarrow> False)"

lemma first_some_None: "first_some f xs = None \<longleftrightarrow> (\<forall>x \<in> set xs. f x = None)"
  by (induction xs) (auto split: option.splits)

lemma first_some_Some: "first_some f xs = Some y \<Longrightarrow> \<exists>x \<in> set xs. f x = Some y"
  by (induction xs) (auto split: option.splits)

lemma index_by_Some:
  "map_of (index_by key kinds ds) k = Some d \<Longrightarrow> d \<in> set ds \<and> dcKind d \<in> set kinds \<and> key d = k"
  by (auto simp: index_by_def dest!: map_of_SomeD)

lemma index_by_None:
  "map_of (index_by key kinds ds) k = None \<longleftrightarrow> (\<forall>d \<in> set ds. dcKind d \<in> set kinds \<longrightarrow> key d \<noteq> k)"
  by (auto simp: index_by_def map_of_eq_None_iff image_image)

lemma set_canaries:
  "set (srCanaries (NewStaticRegistry lib ds)) =
     {(de_norm lib (dcKey d), d) | d. d \<in> set ds \<and> dcKey d \<noteq> [] \<and> dcKind d = InjectionCanary \<and> de_norm lib (dcKey d) \<noteq> []}"
  by (auto simp: NewStaticRegistry_def Let_def)

definition canary_hit :: "golib \<Rightarrow> DeInput \<Rightarrow> string \<Rightarrow> bool" where
  "canary_hit lib inp nk \<longleftrightarrow> contains_str (de_norm lib (diContent inp)) nk
     \<or> (\<exists>v \<in> set (diValues inp). v \<noteq> [] \<and> contains_str (de_norm lib v) nk)"

lemma canary_test:
  "nk \<noteq> [] \<Longrightarrow>
    ((de_norm lib (diContent inp) \<noteq> [] \<and> contains_str (de_norm lib (diContent inp)) nk)
      \<or> list_ex (\<lambda>v. contains_str v nk) (map (de_norm lib) (filter (\<lambda>v. v \<noteq> []) (diValues inp))))
    \<longleftrightarrow> canary_hit lib inp nk"
  by (auto simp: canary_hit_def list_ex_iff)

lemma find_Some_in: "List.find P xs = Some x \<Longrightarrow> x \<in> set xs \<and> P x"
  by (induction xs) (auto split: if_splits)

lemma match_canary_Some:
  assumes "match_canary lib (NewStaticRegistry lib ds) inp = Some d"
  shows "d \<in> set ds \<and> touches lib inp d"
proof -
  obtain c where c: "List.find (\<lambda>c. (de_norm lib (diContent inp) \<noteq> []
        \<and> contains_str (de_norm lib (diContent inp)) (fst c))
      \<or> list_ex (\<lambda>v. contains_str v (fst c)) (map (de_norm lib) (filter (\<lambda>v. v \<noteq> []) (diValues inp))))
      (srCanaries (NewStaticRegistry lib ds)) = Some c" "snd c = d"
    using assms unfolding match_canary_def Let_def map_option_eq_Some by blast
  obtain nk where "(nk, d) \<in> set (srCanaries (NewStaticRegistry lib ds))"
    and hit: "(de_norm lib (diContent inp) \<noteq> [] \<and> contains_str (de_norm lib (diContent inp)) nk)
      \<or> list_ex (\<lambda>v. contains_str v nk) (map (de_norm lib) (filter (\<lambda>v. v \<noteq> []) (diValues inp)))"
    using find_Some_in [OF c(1)] c(2) by (cases c) auto
  then have "d \<in> set ds" "dcKey d \<noteq> []" "dcKind d = InjectionCanary" "nk = de_norm lib (dcKey d)" "nk \<noteq> []"
    by (auto simp: set_canaries)
  with hit canary_test [of nk lib inp] show ?thesis by (simp add: touches_def Let_def canary_hit_def)
qed

lemma match_canary_None:
  assumes "match_canary lib (NewStaticRegistry lib ds) inp = None" and "d \<in> set ds" and "dcKind d = InjectionCanary"
  shows "\<not> touches lib inp d"
proof
  assume t: "touches lib inp d"
  then have *: "(de_norm lib (dcKey d), d) \<in> set (srCanaries (NewStaticRegistry lib ds))" "de_norm lib (dcKey d) \<noteq> []"
    "canary_hit lib inp (de_norm lib (dcKey d))"
    using assms(2,3) by (auto simp: set_canaries touches_def Let_def canary_hit_def)
  from assms(1) have "\<forall>c \<in> set (srCanaries (NewStaticRegistry lib ds)).
      \<not> ((de_norm lib (diContent inp) \<noteq> [] \<and> contains_str (de_norm lib (diContent inp)) (fst c))
        \<or> list_ex (\<lambda>v. contains_str v (fst c)) (map (de_norm lib) (filter (\<lambda>v. v \<noteq> []) (diValues inp))))"
    by (auto simp: match_canary_def Let_def find_None_iff)
  with * canary_test show False by fastforce
qed

lemma look_Some:
  "look (index_by key kinds ds) p k = Some d \<Longrightarrow> p \<noteq> [] \<and> d \<in> set ds \<and> dcKind d \<in> set kinds \<and> key d = k"
  by (auto simp: look_def dest: index_by_Some split: if_splits)

lemma look_None:
  "look (index_by key kinds ds) p k = None \<longleftrightarrow> p = [] \<or> (\<forall>d \<in> set ds. dcKind d \<in> set kinds \<longrightarrow> key d \<noteq> k)"
  by (simp add: look_def index_by_None)

lemma de_Match_Some:
  assumes "de_Match lib (NewStaticRegistry lib ds) inp = Some d"
  shows "d \<in> set ds \<and> touches lib inp d"
proof -
  let ?r = "NewStaticRegistry lib ds"
  from assms consider
      "look (srTokens ?r) (diTokenID inp) (diTokenID inp) = Some d"
    | "look (srTools ?r) (diTool inp) (de_norm lib (diTool inp)) = Some d"
    | "look (srCreds ?r) (diCredentialID inp) (diCredentialID inp) = Some d"
    | v where "v \<in> set (diValues inp)" "look (srValues ?r) v (de_norm lib v) = Some d"
    | "look (srZones ?r) (diZone inp) (de_norm lib (diZone inp)) = Some d"
    | "match_canary lib ?r inp = Some d"
    by (auto simp: de_Match_def split: option.splits dest!: first_some_Some)
  then show ?thesis
  proof cases
    case (4 v)
    then have "v \<noteq> [] \<and> d \<in> set ds \<and> dcKey d \<noteq> [] \<and> dcKind d \<in> {HoneyCredential, HoneyRecord}
        \<and> de_norm lib (dcKey d) = de_norm lib v"
      by (auto simp: NewStaticRegistry_def Let_def dest!: look_Some)
    with 4(1) show ?thesis by (auto simp: touches_def Let_def intro: bexI [of _ v])
  next
    case 6
    then show ?thesis by (rule match_canary_Some)
  qed (auto simp: NewStaticRegistry_def Let_def touches_def dest!: look_Some)
qed

lemma de_Match_None:
  assumes "de_Match lib (NewStaticRegistry lib ds) inp = None" and "d \<in> set ds"
  shows "\<not> touches lib inp d"
proof (cases "dcKind d = InjectionCanary")
  case True
  have "match_canary lib (NewStaticRegistry lib ds) inp = None"
    using assms(1) by (auto simp: de_Match_def split: option.splits)
  from match_canary_None [OF this assms(2) True] show ?thesis .
next
  case False
  let ?r = "NewStaticRegistry lib ds"
  have none: "look (srTokens ?r) (diTokenID inp) (diTokenID inp) = None"
    "look (srTools ?r) (diTool inp) (de_norm lib (diTool inp)) = None"
    "look (srCreds ?r) (diCredentialID inp) (diCredentialID inp) = None"
    "\<forall>v \<in> set (diValues inp). look (srValues ?r) v (de_norm lib v) = None"
    "look (srZones ?r) (diZone inp) (de_norm lib (diZone inp)) = None"
    using assms(1) by (simp_all add: de_Match_def first_some_None split: option.splits)
  show ?thesis
  proof (cases "dcKey d = []")
    case True
    then show ?thesis by (simp add: touches_def)
  next
    case nonempty: False
    from none(4) have vals: "\<not> (\<exists>v \<in> set (diValues inp). v \<noteq> [] \<and> de_norm lib v = de_norm lib (dcKey d))"
      if "dcKind d \<in> {HoneyCredential, HoneyRecord}"
      using that assms(2) nonempty by (fastforce simp: NewStaticRegistry_def Let_def look_None)
    show ?thesis
      using False none(1-3,5) vals assms(2) nonempty
      by (cases "dcKind d") (auto simp: NewStaticRegistry_def Let_def look_None touches_def)
  qed
qed

text \<open>
  C32. The detector trips on exactly the calls that touch a decoy: over the registry of any set of decoys, a call
  trips if and only if it touches one of them, a trip names a decoy the call touches, and the call is contained
  exactly when that decoy says so, never when it is a sandbox.
\<close>

theorem deception_exact:
  "(de_Check lib (Some (NewStaticRegistry lib ds)) inp \<noteq> None \<longleftrightarrow> (\<exists>d \<in> set ds. touches lib inp d))
   \<and> (\<forall>r. de_Check lib (Some (NewStaticRegistry lib ds)) inp = Some r \<longrightarrow>
        drDecoy r \<in> set ds \<and> touches lib inp (drDecoy r)
        \<and> (drContain r \<longleftrightarrow> dcOnTrip (drDecoy r) = OnTripContain)
        \<and> (drSandbox r \<longleftrightarrow> dcOnTrip (drDecoy r) = OnTripSandbox))"
proof (cases "de_Match lib (NewStaticRegistry lib ds) inp")
  case None
  then show ?thesis using de_Match_None [OF None] by (auto simp: de_Check_def)
next
  case (Some d)
  then show ?thesis
    using de_Match_Some [OF Some]
    by (auto simp: de_Check_def de_outcome_def split: OnTrip.splits)
qed

definition sample_decoy :: Decoy where
  "sample_decoy = \<lparr>dcID = ''d1'', dcName = ''admin payments'', dcKind = HoneyTool, dcKey = ''admin_payments'',
     dcPillar = [], dcOnTrip = OnTripContain, dcSynthetic = [], dcResponseActions = []\<rparr>"

definition sample_touch :: DeInput where
  "sample_touch = \<lparr>diTool = '' Admin_Payments'', diTokenID = ''jti-1'', diZone = [], diCredentialID = [],
     diValues = [], diContent = []\<rparr>"

theorem deception_exact_witness:
  "\<exists>r. de_Check ascii_lib (Some (NewStaticRegistry ascii_lib [sample_decoy])) sample_touch = Some r
     \<and> drDecoy r = sample_decoy \<and> drContain r"
proof -
  have "touches ascii_lib sample_touch sample_decoy" by code_simp
  then obtain r where r: "de_Check ascii_lib (Some (NewStaticRegistry ascii_lib [sample_decoy])) sample_touch = Some r"
    using deception_exact [of ascii_lib "[sample_decoy]" sample_touch] by auto
  then have "drDecoy r = sample_decoy \<and> (drContain r \<longleftrightarrow> dcOnTrip (drDecoy r) = OnTripContain)"
    using deception_exact [of ascii_lib "[sample_decoy]" sample_touch] by simp
  with r show ?thesis by (simp add: sample_decoy_def)
qed

end
