(* ===== verification/Bundle.thy ===== *)
theory Bundle
  imports RefVerify AuditEvent "HOL-Library.Char_ord" "HOL-Library.List_Lexorder"
begin

text \<open>
  Packages \<open>internal/bundle\<close> and \<open>internal/bundleadapter\<close>: signed policy bundles, the registry that holds the active
  one per subject (\<open>loader.go\<close>), the evaluator (\<open>evaluator.go\<close>) and the adapters of its seams. Ed25519
  verification, SHA-256 and the formatting of a time are arguments. The HTTP transport of \<open>subscriber.go\<close> is
  not modelled beyond its use of the registry.
\<close>

record BundleCaveats =
  bcAllowedTools :: "string list"
  bcAllowedMcpServers :: "string list"
  bcZone :: string
  bcValidUntil :: gotime
  bcMaxExecutionCostCents :: int
  bcRateLimitPerMin :: int
  bcMaxCalls :: int
  bcMaxRiskScore :: int
  bcObserveOnly :: bool

record MagnitudeCheck =
  mcEnabled :: bool
  mcMaxCents :: int
  mcOnExceeded :: string

record ActionGuardHook =
  ahInspectPayload :: bool
  ahIrreversibleActions :: "string list"
  ahMagnitudeCheck :: MagnitudeCheck

record BundleVendorMaster =
  vmEnabled :: bool
  vmCheckType :: string

record CompiledGateBundle =
  cbBundleID :: string
  cbGrantID :: string
  cbVersion :: string
  cbCompiledAt :: gotime
  cbSignature :: bytes
  cbSubject :: string
  cbDelegatedFrom :: string
  cbCaveats :: BundleCaveats
  cbActionGuard :: "ActionGuardHook option"
  cbRefVerification :: "BundleVendorMaster option"
  cbEmitProof :: bool
  cbProofDomain :: string

subsection \<open>Canonical bytes (loader.go)\<close>

text \<open>A JSON string without HTML escaping.\<close>

function json_escape_plain :: "string \<Rightarrow> string" where
  "json_escape_plain [] = []"
| "json_escape_plain (c # cs) =
     (if (of_char c :: nat) < 128
      then (if c \<in> {CHR ''<'', CHR ''>'', CHR ''&''} then [c] else escape_ascii c) @ json_escape_plain cs
      else let (r, w) = decode_rune (c # cs) in
        (if r = rune_error \<and> w = 1 then [CHR 0x5C, CHR ''u'', CHR ''f'', CHR ''f'', CHR ''f'', CHR ''d'']
         else if r = 0x2028 \<or> r = 0x2029
           then [CHR 0x5C, CHR ''u'', CHR ''2'', CHR ''0'', CHR ''2'', hex_digit (r mod 16)]
         else take w (c # cs)) @ json_escape_plain (drop (w - 1) cs))"
  by pat_completeness auto
termination
  by (relation "measure length") auto

definition jstr :: "string \<Rightarrow> string" where
  "jstr s = CHR 0x22 # json_escape_plain s @ [CHR 0x22]"

datatype jcsval = CBool bool | CStr string | CInt int | CList "string list" | CMap "(string \<times> jcsval) list"

fun jcs :: "jcsval \<Rightarrow> string" where
  "jcs (CBool b) = (if b then ''true'' else ''false'')"
| "jcs (CStr s) = jstr s"
| "jcs (CInt i) = show_int i"
| "jcs (CList xs) = ''['' @ commas (map jstr xs) @ '']''"
| "jcs (CMap m) =
     ''{'' @ commas (map (\<lambda>(k, t). jstr k @ '':'' @ t) (sort_key fst (map (\<lambda>(k, v). (k, jcs v)) m))) @ ''}''"

definition utcSeconds :: "(gotime \<Rightarrow> string) \<Rightarrow> gotime \<Rightarrow> string" where
  "utcSeconds fmt t = (if is_zero t then [] else fmt t @ ''Z'')"

definition sortedCopy :: "string list \<Rightarrow> string list" where
  "sortedCopy xs = sort xs"

definition signingView :: "(gotime \<Rightarrow> string) \<Rightarrow> CompiledGateBundle \<Rightarrow> jcsval" where
  "signingView fmt b =
     (let c = cbCaveats b; ag = cbActionGuard b; rv = cbRefVerification b in
      CMap
        [(''bundle_id'', CStr (cbBundleID b)),
         (''grant_id'', CStr (cbGrantID b)),
         (''version'', CStr (cbVersion b)),
         (''compiled_at'', CStr (utcSeconds fmt (cbCompiledAt b))),
         (''subject'', CStr (cbSubject b)),
         (''delegated_from'', CStr (cbDelegatedFrom b)),
         (''caveats'', CMap
           [(''allowed_tools'', CList (sortedCopy (bcAllowedTools c))),
            (''allowed_mcp_servers'', CList (sortedCopy (bcAllowedMcpServers c))),
            (''zone'', CStr (bcZone c)),
            (''valid_until'', CStr (utcSeconds fmt (bcValidUntil c))),
            (''max_execution_cost_cents'', CInt (bcMaxExecutionCostCents c)),
            (''rate_limit_per_min'', CInt (bcRateLimitPerMin c)),
            (''max_calls'', CInt (bcMaxCalls c)),
            (''max_risk_score'', CInt (bcMaxRiskScore c)),
            (''observe_only'', CBool (bcObserveOnly c))]),
         (''runtime_guard'', CMap
           [(''actionguard'', CMap
              [(''enabled'', CBool (ag \<noteq> None)),
               (''inspect_payload'', CBool (case ag of None \<Rightarrow> False | Some h \<Rightarrow> ahInspectPayload h)),
               (''irreversible_actions'', CList (sortedCopy (case ag of None \<Rightarrow> [] | Some h \<Rightarrow> ahIrreversibleActions h))),
               (''max_cents'', CInt (case ag of None \<Rightarrow> 0 | Some h \<Rightarrow> mcMaxCents (ahMagnitudeCheck h))),
               (''on_exceeded'', CStr (case ag of None \<Rightarrow> [] | Some h \<Rightarrow> mcOnExceeded (ahMagnitudeCheck h)))]),
            (''vendor_master'', CMap
              [(''enabled'', CBool (case rv of None \<Rightarrow> False | Some v \<Rightarrow> vmEnabled v)),
               (''check_type'', CStr (case rv of None \<Rightarrow> [] | Some v \<Rightarrow> vmCheckType v))])]),
         (''attestation'', CMap
           [(''emit_proof'', CBool (cbEmitProof b)),
            (''proof_domain'', CStr (cbProofDomain b))])])"

definition bundle_Canonical :: "(gotime \<Rightarrow> string) \<Rightarrow> CompiledGateBundle \<Rightarrow> bytes" where
  "bundle_Canonical fmt b = jcs (signingView fmt b)"

definition bundle_Digest :: "(bytes \<Rightarrow> bytes) \<Rightarrow> (gotime \<Rightarrow> string) \<Rightarrow> CompiledGateBundle \<Rightarrow> string" where
  "bundle_Digest S fmt b = ''sha256:'' @ hex_encode (S (bundle_Canonical fmt b))"

subsection \<open>The registry\<close>

record BundleRegistry =
  brBySubject :: "(string \<times> CompiledGateBundle) list"
  brPublicKey :: bytes
  brAllowUnsigned :: bool

datatype bundle_error = ErrUnsigned | ErrNoPublicKey | ErrInvalidSignature | ErrNilBundle | ErrNoSubjectBundle

definition NewBundleRegistry :: "bytes \<Rightarrow> BundleRegistry" where
  "NewBundleRegistry pub = \<lparr>brBySubject = [], brPublicKey = pub, brAllowUnsigned = False\<rparr>"

definition bundle_Verify :: "(bytes \<Rightarrow> bytes \<Rightarrow> bytes \<Rightarrow> bool) \<Rightarrow> (gotime \<Rightarrow> string) \<Rightarrow> BundleRegistry \<Rightarrow> CompiledGateBundle
    \<Rightarrow> bundle_error option" where
  "bundle_Verify ed fmt r b =
     (if cbSignature b = [] then (if brAllowUnsigned r then None else Some ErrUnsigned)
      else if brPublicKey r = [] then Some ErrNoPublicKey
      else if \<not> ed (brPublicKey r) (bundle_Canonical fmt b) (cbSignature b) then Some ErrInvalidSignature
      else None)"

definition LoadAndSwap :: "(bytes \<Rightarrow> bytes \<Rightarrow> bytes \<Rightarrow> bool) \<Rightarrow> (gotime \<Rightarrow> string) \<Rightarrow> CompiledGateBundle option
    \<Rightarrow> BundleRegistry \<Rightarrow> bundle_error option \<times> BundleRegistry" where
  "LoadAndSwap ed fmt bo r =
     (case bo of
        None \<Rightarrow> (Some ErrNilBundle, r)
      | Some b \<Rightarrow>
          if cbSubject b = [] then (Some ErrNoSubjectBundle, r)
          else case bundle_Verify ed fmt r b of
            Some e \<Rightarrow> (Some e, r)
          | None \<Rightarrow> (None, r\<lparr>brBySubject := AList.update (cbSubject b) b (brBySubject r)\<rparr>))"

definition GetActive :: "BundleRegistry \<Rightarrow> string \<Rightarrow> CompiledGateBundle option" where
  "GetActive r subject = map_of (brBySubject r) subject"

definition bundle_Remove :: "string \<Rightarrow> BundleRegistry \<Rightarrow> BundleRegistry" where
  "bundle_Remove subject r = r\<lparr>brBySubject := AList.delete subject (brBySubject r)\<rparr>"

subsection \<open>The evaluator\<close>

datatype BundleDecision = DecisionPermit | DecisionDeny | DecisionEscalateB | DecisionRestrict

fun bundle_decision_text :: "BundleDecision \<Rightarrow> string" where
  "bundle_decision_text DecisionPermit = ''PERMIT''"
| "bundle_decision_text DecisionDeny = ''DENY''"
| "bundle_decision_text DecisionEscalateB = ''ESCALATE''"
| "bundle_decision_text DecisionRestrict = ''RESTRICT''"

record EvaluationRequest =
  eqSubject :: string
  eqTool :: string
  eqPayloadCents :: int
  eqCounterparty :: string
  eqSessionID :: string
  eqNow :: gotime

record EvaluationResult =
  evrDecision :: BundleDecision
  evrCheck :: string
  evrReason :: string
  evrBundleID :: string
  evrBundleDigest :: string
  evrMonitor :: bool

record ProofRecord =
  pfSubject :: string
  pfTool :: string
  pfDecision :: BundleDecision
  pfCheck :: string
  pfReason :: string
  pfBundleID :: string
  pfBundleDigest :: string
  pfAt :: gotime

text \<open>The seams: the magnitude guard, the vendor verifier and the audit sink may each be absent.\<close>

record Evaluator =
  daMag :: "(string \<Rightarrow> int \<Rightarrow> int \<Rightarrow> string list \<Rightarrow> bool \<times> string) option"
  daVendor :: "(string \<Rightarrow> bool \<times> string) option"
  daAudit :: bool

text \<open>\<open>decide\<close>: observe-only turns anything but a permit into a monitored permit.\<close>

definition bundle_decide :: "CompiledGateBundle \<Rightarrow> EvaluationResult \<Rightarrow> EvaluationResult" where
  "bundle_decide b res =
     (if bcObserveOnly (cbCaveats b) \<and> evrDecision res \<noteq> DecisionPermit then
        res\<lparr>evrReason := ''monitor: would '' @ bundle_decision_text (evrDecision res) @ '' ('' @ evrReason res @ '')'',
            evrDecision := DecisionPermit, evrMonitor := True\<rparr>
      else res)"

definition mk_result :: "CompiledGateBundle \<Rightarrow> string \<Rightarrow> BundleDecision \<Rightarrow> string \<Rightarrow> string \<Rightarrow> EvaluationResult" where
  "mk_result b digest d check reason =
     \<lparr>evrDecision = d, evrCheck = check, evrReason = reason, evrBundleID = cbBundleID b, evrBundleDigest = digest,
      evrMonitor = False\<rparr>"

text \<open>The two paths on the active bundle, before observe-only is applied. \<open>quote\<close> is \<open>%q\<close>.\<close>

definition bundle_paths :: "(string \<Rightarrow> string) \<Rightarrow> Evaluator \<Rightarrow> CompiledGateBundle \<Rightarrow> string \<Rightarrow> EvaluationRequest \<Rightarrow> gotime
    \<Rightarrow> EvaluationResult" where
  "bundle_paths quote ev b digest req now =
     (let cav = cbCaveats b; res = mk_result b digest in
      if \<not> is_zero (bcValidUntil cav) \<and> bcValidUntil cav < now then
        res DecisionDeny ''capability'' ''grant validity window expired''
      else if bcAllowedTools cav \<noteq> [] \<and> eqTool req \<notin> set (bcAllowedTools cav) then
        res DecisionDeny ''capability'' (''tool '' @ quote (eqTool req) @ '' not permitted by static grant'')
      else
        (case (case cbActionGuard b of
                 Some ag \<Rightarrow>
                   (if ahInspectPayload ag \<and> mcEnabled (ahMagnitudeCheck ag) then
                      (case daMag ev of
                         Some mag \<Rightarrow> Some (mag (eqTool req) (eqPayloadCents req) (mcMaxCents (ahMagnitudeCheck ag))
                            (ahIrreversibleActions ag))
                       | None \<Rightarrow> None)
                    else None)
               | None \<Rightarrow> None) of
           Some (True, reason) \<Rightarrow> res DecisionEscalateB ''actionguard_magnitude'' reason
         | _ \<Rightarrow>
             (case (case cbRefVerification b of
                      Some vm \<Rightarrow>
                        (if vmEnabled vm \<and> eqCounterparty req \<noteq> [] then
                           (case daVendor ev of Some ven \<Rightarrow> Some (ven (eqCounterparty req)) | None \<Rightarrow> None)
                         else None)
                    | None \<Rightarrow> None) of
                Some (False, reason) \<Rightarrow> res DecisionEscalateB ''refverify_vendor_master'' reason
              | _ \<Rightarrow> res DecisionPermit ''policy'' ''allowed by intentgrant bundle'')))"

definition Evaluate :: "(bytes \<Rightarrow> bytes) \<Rightarrow> (gotime \<Rightarrow> string) \<Rightarrow> (string \<Rightarrow> string) \<Rightarrow> Evaluator \<Rightarrow> BundleRegistry \<Rightarrow> gotime
    \<Rightarrow> EvaluationRequest \<Rightarrow> EvaluationResult \<times> ProofRecord option" where
  "Evaluate S fmt quote ev r clock req =
     (let now = (if is_zero (eqNow req) then clock else eqNow req);
          (res, emit) =
            (case GetActive r (eqSubject req) of
               None \<Rightarrow>
                 (\<lparr>evrDecision = DecisionDeny, evrCheck = ''system'', evrReason = ''no active policy bundle for subject'',
                   evrBundleID = [], evrBundleDigest = [], evrMonitor = False\<rparr>, True)
             | Some b \<Rightarrow> (bundle_decide b (bundle_paths quote ev b (bundle_Digest S fmt b) req now), cbEmitProof b))
      in (res,
          if daAudit ev \<and> emit then
            Some \<lparr>pfSubject = eqSubject req, pfTool = eqTool req, pfDecision = evrDecision res, pfCheck = evrCheck res,
                  pfReason = evrReason res, pfBundleID = evrBundleID res, pfBundleDigest = evrBundleDigest res,
                  pfAt = now\<rparr>
          else None))"

subsection \<open>The adapters (bundleadapter)\<close>

definition adapter_Escalate :: "string \<Rightarrow> int \<Rightarrow> int \<Rightarrow> string list \<Rightarrow> bool \<times> string" where
  "adapter_Escalate tool payloadCents maxCents irreversible =
     (if maxCents \<le> 0 \<or> payloadCents \<le> 0 then (False, [])
      else if tool \<notin> set irreversible then (False, [])
      else if maxCents < payloadCents then
        (True, ''payload magnitude '' @ show_int payloadCents @ '' cents exceeds bundle threshold ''
           @ show_int maxCents @ '' cents; holding for human approval'')
      else (False, []))"

definition VendorApproved :: "(string \<Rightarrow> string) \<Rightarrow> VendorMaster option \<Rightarrow> bool \<Rightarrow> string \<Rightarrow> bool \<times> string" where
  "VendorApproved quote master failClosed counterparty =
     (case master of
        None \<Rightarrow> if failClosed then (False, ''vendor master unavailable; holding (fail-closed)'') else (True, [])
      | Some lookup \<Rightarrow>
          if counterparty = [] then
            (if failClosed then (False, ''no counterparty on the call; holding (fail-closed)'') else (True, []))
          else case lookup counterparty of
            Inl _ \<Rightarrow> (False, ''vendor master lookup error; holding (fail-closed)'')
          | Inr None \<Rightarrow> (False, ''payee '' @ quote counterparty @ '' is not on the approved vendor master; quarantine'')
          | Inr (Some _) \<Rightarrow> (True, []))"

definition mapDecision :: "BundleDecision \<Rightarrow> string" where
  "mapDecision d =
     (case d of DecisionPermit \<Rightarrow> DecisionAllow | DecisionEscalateB \<Rightarrow> DecisionEscalate | _ \<Rightarrow> DecisionBlock)"

definition proof_event :: "string \<Rightarrow> ProofRecord \<Rightarrow> Event" where
  "proof_event ts p =
     (NewEvent ts (mapDecision (pfDecision p)) (pfTool p))
       \<lparr>evEventName := ''intentgrant.proof'', evAgentID := pfSubject p, evReason := pfReason p,
        evBundleID := pfBundleID p, evBundleDigest := pfBundleDigest p,
        evSummary := bundle_decision_text (pfDecision p) @ '' '' @ pfTool p @ '' ['' @ pfCheck p @ '']''\<rparr>"

definition NewEvaluator :: "(string \<Rightarrow> string) \<Rightarrow> VendorMaster option \<Rightarrow> bool \<Rightarrow> Evaluator" where
  "NewEvaluator quote master failClosed =
     \<lparr>daMag = Some adapter_Escalate, daVendor = Some (VendorApproved quote master failClosed), daAudit = True\<rparr>"

subsection \<open>What a permit means\<close>

datatype registry_op = OpLoad "CompiledGateBundle option" | OpDrop string

fun registry_apply :: "(bytes \<Rightarrow> bytes \<Rightarrow> bytes \<Rightarrow> bool) \<Rightarrow> (gotime \<Rightarrow> string) \<Rightarrow> registry_op \<Rightarrow> BundleRegistry \<Rightarrow> BundleRegistry" where
  "registry_apply ed fmt (OpLoad bo) r = snd (LoadAndSwap ed fmt bo r)"
| "registry_apply ed fmt (OpDrop subject) r = bundle_Remove subject r"

definition registry_ok :: "(bytes \<Rightarrow> bytes \<Rightarrow> bytes \<Rightarrow> bool) \<Rightarrow> (gotime \<Rightarrow> string) \<Rightarrow> bytes \<Rightarrow> BundleRegistry \<Rightarrow> bool" where
  "registry_ok ed fmt pub r \<longleftrightarrow> brPublicKey r = pub \<and> \<not> brAllowUnsigned r
     \<and> (\<forall>s b. GetActive r s = Some b \<longrightarrow> cbSubject b = s \<and> cbSignature b \<noteq> []
          \<and> ed pub (bundle_Canonical fmt b) (cbSignature b))"

lemma registry_ok_apply:
  assumes "registry_ok ed fmt pub r"
  shows "registry_ok ed fmt pub (registry_apply ed fmt op r)"
proof (cases op)
  case (OpLoad bo)
  then show ?thesis
    using assms
    by (auto simp: registry_ok_def LoadAndSwap_def bundle_Verify_def GetActive_def update_conv'
        split: option.splits if_splits)
next
  case (OpDrop s)
  then show ?thesis
    using assms by (auto simp: registry_ok_def bundle_Remove_def GetActive_def delete_conv' split: if_splits)
qed

lemma registry_ok_run: "registry_ok ed fmt pub r \<Longrightarrow> registry_ok ed fmt pub (fold (registry_apply ed fmt) ops r)"
  by (induction ops arbitrary: r) (simp_all add: registry_ok_apply)

lemma registry_ok_new: "registry_ok ed fmt pub (NewBundleRegistry pub)"
  by (simp add: registry_ok_def NewBundleRegistry_def GetActive_def)

text \<open>What a bundle requires of a call, read off its fields.\<close>

definition bundle_allows :: "CompiledGateBundle \<Rightarrow> EvaluationRequest \<Rightarrow> gotime \<Rightarrow> (string \<Rightarrow> bool) \<Rightarrow> bool" where
  "bundle_allows b req now approved \<longleftrightarrow>
     (is_zero (bcValidUntil (cbCaveats b)) \<or> now \<le> bcValidUntil (cbCaveats b))
     \<and> (bcAllowedTools (cbCaveats b) = [] \<or> eqTool req \<in> set (bcAllowedTools (cbCaveats b)))
     \<and> (\<forall>ag. cbActionGuard b = Some ag \<and> ahInspectPayload ag \<and> mcEnabled (ahMagnitudeCheck ag)
          \<and> 0 < mcMaxCents (ahMagnitudeCheck ag) \<and> eqTool req \<in> set (ahIrreversibleActions ag)
          \<longrightarrow> eqPayloadCents req \<le> mcMaxCents (ahMagnitudeCheck ag))
     \<and> (\<forall>vm. cbRefVerification b = Some vm \<and> vmEnabled vm \<and> eqCounterparty req \<noteq> [] \<longrightarrow> approved (eqCounterparty req))"

lemma bundle_paths_permit:
  "evrDecision (bundle_paths quote (NewEvaluator quote master fc) b digest req now) = DecisionPermit \<longleftrightarrow>
     bundle_allows b req now (\<lambda>c. fst (VendorApproved quote master fc c))"
proof -
  have mag: "fst (adapter_Escalate t p m irr) \<longleftrightarrow> 0 < m \<and> 0 < p \<and> t \<in> set irr \<and> m < p" for t p m irr
    by (auto simp: adapter_Escalate_def)
  show ?thesis
    by (cases "VendorApproved quote master fc (eqCounterparty req)")
       (auto simp: bundle_paths_def bundle_allows_def NewEvaluator_def mk_result_def Let_def adapter_Escalate_def
         split: option.splits bool.splits prod.splits)
qed

text \<open>
  C17. What a permit of the bundle evaluator means: after any history of loads and removals, with unsigned bundles
  not allowed, a call is permitted exactly when its subject has an active bundle that either only observes or
  whose validity, tool list, magnitude ceiling and vendor check the call meets; and the active bundle names that
  subject and carries a valid signature of the configured key over its canonical bytes.
\<close>

theorem bundle_permit_iff:
  assumes "r = fold (registry_apply ed fmt) ops (NewBundleRegistry pub)"
    and "now = (if is_zero (eqNow req) then clock else eqNow req)"
  shows "(evrDecision (fst (Evaluate S fmt quote (NewEvaluator quote master fc) r clock req)) = DecisionPermit \<longleftrightarrow>
      (\<exists>b. GetActive r (eqSubject req) = Some b
        \<and> (bcObserveOnly (cbCaveats b) \<or> bundle_allows b req now (\<lambda>c. fst (VendorApproved quote master fc c)))))
    \<and> (\<forall>b. GetActive r (eqSubject req) = Some b \<longrightarrow>
          cbSubject b = eqSubject req \<and> ed pub (bundle_Canonical fmt b) (cbSignature b))"
proof
  have "registry_ok ed fmt pub r" unfolding assms(1) by (intro registry_ok_run registry_ok_new)
  then show "\<forall>b. GetActive r (eqSubject req) = Some b \<longrightarrow>
      cbSubject b = eqSubject req \<and> ed pub (bundle_Canonical fmt b) (cbSignature b)"
    by (simp add: registry_ok_def)
  show "evrDecision (fst (Evaluate S fmt quote (NewEvaluator quote master fc) r clock req)) = DecisionPermit \<longleftrightarrow>
      (\<exists>b. GetActive r (eqSubject req) = Some b
        \<and> (bcObserveOnly (cbCaveats b) \<or> bundle_allows b req now (\<lambda>c. fst (VendorApproved quote master fc c))))"
    using assms(2)
    by (auto simp: Evaluate_def bundle_decide_def bundle_paths_permit Let_def split: option.splits)
qed

definition sample_bundle :: CompiledGateBundle where
  "sample_bundle = \<lparr>cbBundleID = ''b1'', cbGrantID = ''g1'', cbVersion = ''1'', cbCompiledAt = 0, cbSignature = ''sig'',
     cbSubject = ''ap-agent'', cbDelegatedFrom = ''alice'',
     cbCaveats = \<lparr>bcAllowedTools = [''pay''], bcAllowedMcpServers = [], bcZone = [], bcValidUntil = 0,
       bcMaxExecutionCostCents = 0, bcRateLimitPerMin = 0, bcMaxCalls = 0, bcMaxRiskScore = 0, bcObserveOnly = False\<rparr>,
     cbActionGuard = Some \<lparr>ahInspectPayload = True, ahIrreversibleActions = [''pay''],
       ahMagnitudeCheck = \<lparr>mcEnabled = True, mcMaxCents = 1000, mcOnExceeded = ''escalate_to_human''\<rparr>\<rparr>,
     cbRefVerification = None, cbEmitProof = True, cbProofDomain = ''Proof''\<rparr>"

definition sample_request :: "int \<Rightarrow> EvaluationRequest" where
  "sample_request cents = \<lparr>eqSubject = ''ap-agent'', eqTool = ''pay'', eqPayloadCents = cents, eqCounterparty = [],
     eqSessionID = [], eqNow = 5\<rparr>"

definition sample_registry :: BundleRegistry where
  "sample_registry = fold (registry_apply (\<lambda>k m s. s = ''sig'') (\<lambda>t. [])) [OpLoad (Some sample_bundle)] (NewBundleRegistry ''pk'')"

lemma sample_active: "GetActive sample_registry ''ap-agent'' = Some sample_bundle"
  by (simp add: sample_registry_def LoadAndSwap_def bundle_Verify_def NewBundleRegistry_def GetActive_def
      sample_bundle_def)

theorem bundle_permit_iff_witness:
  "evrDecision (fst (Evaluate (\<lambda>b. b) (\<lambda>t. []) (\<lambda>s. s) (NewEvaluator (\<lambda>s. s) None True) sample_registry 0
      (sample_request 900))) = DecisionPermit
   \<and> evrDecision (fst (Evaluate (\<lambda>b. b) (\<lambda>t. []) (\<lambda>s. s) (NewEvaluator (\<lambda>s. s) None True) sample_registry 0
      (sample_request 1100))) \<noteq> DecisionPermit"
proof -
  have now: "(5 :: gotime) = (if is_zero (eqNow (sample_request c)) then 0 else eqNow (sample_request c))" for c
    by (simp add: sample_request_def is_zero_def)
  have "bundle_allows sample_bundle (sample_request c) 5 a \<longleftrightarrow> c \<le> 1000" for c a
    by (simp add: bundle_allows_def sample_bundle_def sample_request_def is_zero_def)
  moreover have "\<not> bcObserveOnly (cbCaveats sample_bundle)" by (simp add: sample_bundle_def)
  moreover have "GetActive sample_registry (eqSubject (sample_request c)) = Some sample_bundle" for c
    by (simp add: sample_active sample_request_def)
  ultimately show ?thesis
    using bundle_permit_iff [OF sample_registry_def now, of "\<lambda>b. b" "\<lambda>s. s" None True 900]
      bundle_permit_iff [OF sample_registry_def now, of "\<lambda>b. b" "\<lambda>s. s" None True 1100]
    by simp
qed

text \<open>
  C40. The switch of the magnitude check is outside the signature: turning the check of any bundle off leaves its
  canonical bytes, its digest and the outcome of verification as they were, while the ceiling no longer applies:
  whatever the amount, the changed bundle lets the call pass if only the magnitude held it.
\<close>

theorem magnitude_switch_unsigned:
  assumes "cbActionGuard b = Some h"
    and "b' = b\<lparr>cbActionGuard := Some (h\<lparr>ahMagnitudeCheck := (ahMagnitudeCheck h)\<lparr>mcEnabled := False\<rparr>\<rparr>)\<rparr>"
  shows "bundle_Canonical fmt b' = bundle_Canonical fmt b \<and> bundle_Digest S fmt b' = bundle_Digest S fmt b
    \<and> bundle_Verify ed fmt r b' = bundle_Verify ed fmt r b
    \<and> (bundle_allows b (req\<lparr>eqPayloadCents := 0\<rparr>) now approved \<longrightarrow> bundle_allows b' req now approved)"
proof -
  have "signingView fmt b' = signingView fmt b" using assms by (simp add: signingView_def)
  then have canon: "bundle_Canonical fmt b' = bundle_Canonical fmt b" by (simp add: bundle_Canonical_def)
  moreover have "bundle_Verify ed fmt r b' = bundle_Verify ed fmt r b"
    using canon assms(2) by (simp add: bundle_Verify_def)
  moreover have "bundle_allows b (req\<lparr>eqPayloadCents := 0\<rparr>) now approved \<longrightarrow> bundle_allows b' req now approved"
    using assms by (auto simp: bundle_allows_def)
  ultimately show ?thesis by (simp add: bundle_Digest_def)
qed

theorem magnitude_switch_unsigned_witness:
  "\<exists>b'. bundle_Canonical (\<lambda>t. []) b' = bundle_Canonical (\<lambda>t. []) sample_bundle
     \<and> bundle_allows b' (sample_request 99999999) 5 (\<lambda>c. True) \<and> \<not> bundle_allows sample_bundle (sample_request 99999999) 5 (\<lambda>c. True)"
proof -
  have ag: "cbActionGuard sample_bundle = Some (the (cbActionGuard sample_bundle))" by (simp add: sample_bundle_def)
  have "bundle_allows sample_bundle ((sample_request 99999999)\<lparr>eqPayloadCents := 0\<rparr>) 5 (\<lambda>c. True)"
    "\<not> bundle_allows sample_bundle (sample_request 99999999) 5 (\<lambda>c. True)"
    by (simp_all add: bundle_allows_def sample_bundle_def sample_request_def is_zero_def)
  with magnitude_switch_unsigned [OF ag refl, of "\<lambda>t. []" "\<lambda>b. b" "\<lambda>k m s. True" "NewBundleRegistry []"
      "sample_request 99999999" 5 "\<lambda>c. True"]
  show ?thesis by blast
qed

end
