(* ===== verification/Gateway.thy ===== *)
theory Gateway
  imports Budget Revocation KillSwitch TenantScope TaskBinder Approvals EastWest Provenance AuditEvent FaultIsolation
    Mcp Obo Extractor Payloads ActionGuard RefVerify Deception Bundle
begin

text \<open>
  Package \<open>internal/handlers\<close>, first part: the configuration of the \<open>/v1/mcp\<close> handler, the state a request acts
  on, the audit helpers, and the checks of the pipeline (\<open>mcp.go\<close>, \<open>mcp_provenance.go\<close>, \<open>mcp_bundle.go\<close>,
  \<open>mcp_capture.go\<close>). Where the handler holds an interface (kill switch, revocations, budget, tasks, approvals,
  payloads) or talks to another process (upstream, extractor service, policy engine), its operations act on a
  state \<open>'st\<close> and may fail; the concrete packages are the models of the other theories. What the handler takes from
  packages not modelled here (PII filters, output schemas) and from \<open>encoding/json\<close> decoding are functions of
  the configuration and of the environment. Logging, metrics and the best-effort reporters run beside
  the request and are left out.
\<close>

subsection \<open>Errors and their texts\<close>

datatype go_error =
    CapText string
  | ECap cap_error
  | EObo obo_error
  | EExtract extract_error
  | EProv prov_error
  | EBudget budget_error
  | EText string

subsection \<open>The request, the environment, the configuration\<close>

record HttpRequest =
  hAuthorization :: string
  hIntentPrompt :: string
  hTaskId :: string
  hProvenance :: string
  hObo :: string
  hApprovalId :: string
  hRemoteAddr :: string

record provenanceWireEntry =
  pwID :: string
  pwSessionID :: string
  pwTimestamp :: int
  pwData :: string
  pwPrevHash :: string
  pwHMAC :: string

datatype clock_point = AtCaveats | AtObo | AtContain | AtBind | AtBundle | AtEastWest | AtPolicyZones | AtAcquire | AtRelease
  | AtCapture | AtExpiry

text \<open>
  The environment: the clock at each point where the code reads it, the time stamp and latency of the \<open>n\<close>-th
  audit event, the fresh event id, the hash functions, the texts of errors of other packages, decoding, and
  the compaction \<open>json.Marshal\<close> applies to a \<open>json.RawMessage\<close> inside a value.
\<close>

record env =
  eClock :: "clock_point \<Rightarrow> gotime"
  eStamp :: "nat \<Rightarrow> string"
  eLatency :: "nat \<Rightarrow> int"
  eEventID :: string
  eHmac :: "bytes \<Rightarrow> bytes \<Rightarrow> bytes"
  eSha :: "bytes \<Rightarrow> bytes"
  eHkdf :: "bytes \<Rightarrow> bytes \<Rightarrow> bytes \<Rightarrow> nat \<Rightarrow> bytes option"
  eLib :: golib
  eNum :: "rat \<Rightarrow> string"
  eFmt :: "gotime \<Rightarrow> string"
  eDur :: "int \<Rightarrow> string"
  eQuote :: "string \<Rightarrow> string"
  eText :: "go_error \<Rightarrow> string"
  eToken :: "bytes \<Rightarrow> Token option"
  eOboPayload :: "bytes \<Rightarrow> obo_payload option"
  eWire :: "bytes \<Rightarrow> string + provenanceWireEntry list"
  eParams :: "raw \<Rightarrow> string + ToolCallParams"
  eRequest :: "bytes \<Rightarrow> string + Request"
  eResponse :: "bytes \<Rightarrow> string + Response"
  eObject :: "raw \<Rightarrow> string + (string \<times> raw) list option"
  eCompact :: "raw \<Rightarrow> raw"
  eMarshalRequest :: "Request \<Rightarrow> string + bytes"
  eMarshalResponse :: "Response \<Rightarrow> bytes option"

definition err_text :: "env \<Rightarrow> go_error \<Rightarrow> string" where
  "err_text env e = (case e of CapText s \<Rightarrow> s | EText s \<Rightarrow> s | _ \<Rightarrow> eText env e)"

record 'st KillSwitchI =
  kiActive :: "'st \<Rightarrow> string \<Rightarrow> string \<Rightarrow> string + KillEntry option"
  kiEngage :: "gotime \<Rightarrow> KillEntry \<Rightarrow> 'st \<Rightarrow> 'st"

record 'st RevocationI =
  riIsRevoked :: "'st \<Rightarrow> string \<Rightarrow> string \<Rightarrow> string + bool"
  riRevoke :: "gotime \<Rightarrow> string \<Rightarrow> string \<Rightarrow> string \<Rightarrow> 'st \<Rightarrow> 'st"

record 'st ApprovalsI =
  aiEnqueue :: "PendingRequest \<Rightarrow> 'st \<Rightarrow> (string + PendingRequest) \<times> 'st"
  aiWait :: "int \<Rightarrow> string \<Rightarrow> 'st \<Rightarrow> (string + PendingRequest) \<times> 'st"
  aiGet :: "string \<Rightarrow> 'st \<Rightarrow> string + PendingRequest"

record 'st TaskI =
  tiConfig :: TaskConfig
  tiGet :: "'st \<Rightarrow> string \<Rightarrow> string \<Rightarrow> string + Task option"
  tiUpsert :: "Task \<Rightarrow> 'st \<Rightarrow> string option \<times> 'st"

record PIIFilterSpec =
  psEnabled :: bool
  psPatterns :: "string list"
  psDefaultAction :: string
  psPerPatternAction :: "(string \<times> string) list"
  psCustomPatterns :: "(string \<times> string) list"

datatype PiiAction = PiiAllow | PiiRedact | PiiBlock | PiiEscalate

record PiiDecision =
  pdAction :: PiiAction
  pdCounts :: "(string \<times> int) list"
  pdClasses :: "string list"

record PIIFilter =
  pfRequest :: "(string \<times> json) list \<Rightarrow> PiiDecision \<times> (string \<times> json) list"
  pfResult :: "raw \<Rightarrow> raw \<times> PiiDecision"

datatype OsAction = OsAllow | OsStrip | OsBlock

record OsResult =
  osViolations :: bool
  osCounts :: "(string \<times> int) list"
  osStripped :: raw

record InputCap =
  icSubject :: string
  icTenant :: string
  icZone :: string
  icStepUpAt :: int

record InputEastWest =
  iwCallerAgent :: string
  iwCallerZone :: string
  iwCalleeAgent :: string
  iwCalleeZone :: string

record PolicyInput =
  inTool :: string
  inArgs :: args
  inAgentID :: string
  inIntent :: "(string \<times> string list \<times> string list \<times> rat) option"
  inCapability :: "InputCap option"
  inUser :: "(string \<times> (string \<times> string) list) option"
  inEastWest :: "InputEastWest option"

record PolicyDecision =
  plAllow :: bool
  plEscalate :: bool
  plReason :: string
  plRequiresStepUp :: bool
  plPIIFilter :: "PIIFilterSpec option"

datatype UpstreamKind = UpTransport | UpTimeout | UpHTTP

fun upstream_kind_String :: "UpstreamKind \<Rightarrow> string" where
  "upstream_kind_String UpTransport = ''transport''"
| "upstream_kind_String UpTimeout = ''timeout''"
| "upstream_kind_String UpHTTP = ''upstream_http''"

record UpstreamError =
  ueKind :: UpstreamKind
  ueStatus :: int
  ueText :: string

record UpstreamResponse =
  urStatus :: int
  urBody :: bytes

record 'st MCPHandlerConfig =
  cfMasterKey :: bytes
  cfOBOKey :: bytes
  cfRequireCapability :: bool
  cfExtractor :: "(string \<times> (string \<Rightarrow> string \<Rightarrow> 'st \<Rightarrow> (string + ExtractedIntent) \<times> 'st)) option"
  cfRequireIntent :: bool
  cfPolicy :: "(PolicyInput \<Rightarrow> 'st \<Rightarrow> string + PolicyDecision) option"
  cfBudget :: "(string \<Rightarrow> int \<Rightarrow> 'st \<Rightarrow> (string + int) \<times> 'st) option"
  cfRequireBudget :: bool
  cfUpstream :: "(bytes \<Rightarrow> (string \<times> string) option \<Rightarrow> 'st \<Rightarrow> (UpstreamError + UpstreamResponse) \<times> 'st) option"
  cfCredentials :: "string \<Rightarrow> (string \<times> string) option"
  cfRevocation :: "'st RevocationI option"
  cfKillSwitch :: "'st KillSwitchI option"
  cfTaskBinder :: "'st TaskI option"
  cfApprovals :: "'st ApprovalsI option"
  cfActionGuard :: "AgConfig option"
  cfRefVerify :: "RvConfig option"
  cfBundle :: "(BundleRegistry \<times> Evaluator) option"
  cfDeception :: "StaticRegistry option"
  cfEastWest :: "ew_state option"
  cfZoneScope :: "(string \<rightharpoonup> compiledScope) option"
  cfApprovalTimeout :: int
  cfApprovalAsync :: bool
  cfArgRedaction :: RedactionMode
  cfProvenanceEnabled :: bool
  cfPIIFilter :: "PIIFilter option"
  cfNewFilter :: "PIIFilterSpec \<Rightarrow> PIIFilter option"
  cfOutputSchemas :: "(string \<Rightarrow> ((raw \<Rightarrow> OsResult) \<times> OsAction) option) option"
  cfPayloads :: "(PayloadRecord \<Rightarrow> 'st \<Rightarrow> bool \<times> 'st) option"
  cfPayloadPolicy :: PayloadPolicy
  cfTenantScope :: "Enforcer option"
  cfFaultIsolation :: "FiConfig option"

text \<open>What a request acts on: the backends, the in-process state, and the trails it leaves.\<close>

record 'st world =
  wStore :: 'st
  wLru :: lru
  wGuard :: Guard
  wIsolator :: Isolator
  wAudit :: "Event list"
  wForwards :: "(bytes \<times> (string \<times> string) option) list"

subsection \<open>Results of the checks\<close>

record capabilityCheckResult =
  crAgentID :: string
  crSummary :: string
  crToken :: "Token option"
  crUser :: "Principal option"
  crErr :: "go_error option"

record intentCheckResult =
  inrSummary :: string
  inrIntent :: "ExtractedIntent option"
  inrErr :: "go_error option"

record policyCheckResult =
  prcSummary :: string
  prcErr :: "go_error option"
  prcEscalate :: bool
  prcReason :: string
  prcStepUp :: bool
  prcPII :: "PIIFilterSpec option"

definition cap_fail :: "Token option \<Rightarrow> go_error \<Rightarrow> capabilityCheckResult" where
  "cap_fail t e = \<lparr>crAgentID = (case t of None \<Rightarrow> [] | Some tok \<Rightarrow> tkSubject tok), crSummary = [], crToken = t,
     crUser = None, crErr = Some e\<rparr>"

definition cap_tenant :: "capabilityCheckResult \<Rightarrow> string" where
  "cap_tenant c = (case crToken c of None \<Rightarrow> [] | Some t \<Rightarrow> tkTenant t)"

definition cap_zone :: "capabilityCheckResult \<Rightarrow> string" where
  "cap_zone c = (case crToken c of None \<Rightarrow> [] | Some t \<Rightarrow> tkZone t)"

definition cap_jti :: "capabilityCheckResult \<Rightarrow> string" where
  "cap_jti c = (case crToken c of None \<Rightarrow> [] | Some t \<Rightarrow> tkID t)"

end
