(* ===== verification/Checks.thy ===== *)
theory Checks
  imports Gateway
begin

text \<open>
  The checks of the \<open>tools/call\<close> pipeline and the audit helpers of \<open>mcp.go\<close>, \<open>mcp_provenance.go\<close> and
  \<open>mcp_bundle.go\<close>. A check reads the world, and the ones that act on it return it updated.
\<close>

subsection \<open>Capability\<close>

definition errMissingCapability :: go_error where
  "errMissingCapability = CapText ''capability token required (INTENTGATE_REQUIRE_CAPABILITY=true)''"
definition errMissingIntent :: go_error where
  "errMissingIntent = CapText ''intent prompt required (INTENTGATE_REQUIRE_INTENT=true)''"
definition errExtractorNotConfigured :: go_error where
  "errExtractorNotConfigured = CapText ''intent prompt provided but no extractor URL is configured''"
definition errMissingBudgetToken :: go_error where
  "errMissingBudgetToken = CapText ''budget enforcement requires a verified capability token''"

text \<open>The kill switch and the revocation store, on a verified token: the error that ends the check, if any.\<close>

definition kill_check :: "'st KillSwitchI option \<Rightarrow> Token \<Rightarrow> 'st \<Rightarrow> go_error option" where
  "kill_check ks tok st =
     (case ks of
        None \<Rightarrow> None
      | Some k \<Rightarrow>
          (case kiActive k st (tkTenant tok) (tkSubject tok) of
             Inl _ \<Rightarrow> Some (CapText ''kill switch store unavailable; request halted (fail-closed)'')
           | Inr (Some e) \<Rightarrow> Some (CapText (''halted by kill switch ('' @ keType e @ '')''))
           | Inr None \<Rightarrow> None))"

definition revocation_check :: "'st RevocationI option \<Rightarrow> Token \<Rightarrow> 'st \<Rightarrow> go_error option" where
  "revocation_check rs tok st =
     (case rs of
        None \<Rightarrow> None
      | Some r \<Rightarrow>
          (case riIsRevoked r st (tkID tok) (tkTenant tok) of
             Inl _ \<Rightarrow> Some (CapText ''revocation store unavailable; token rejected (fail-closed)'')
           | Inr True \<Rightarrow> Some (CapText ''token revoked'')
           | Inr False \<Rightarrow> None))"

definition obo_check :: "env \<Rightarrow> bytes \<Rightarrow> string \<Rightarrow> go_error + Principal option" where
  "obo_check env key header =
     (if header = [] then Inr None
      else if key = [] then
        Inl (CapText ''on-behalf-of token presented but gateway has no OBO key configured'')
      else case obo_Verify (eHmac env) (eOboPayload env) (eClock env AtObo) key header of
        Inl e \<Rightarrow> Inl (CapText (''invalid on-behalf-of token: '' @ err_text env (EObo e)))
      | Inr p \<Rightarrow> Inr (Some p))"

definition call_context :: "Token \<Rightarrow> string \<Rightarrow> bool \<Rightarrow> RequestContext" where
  "call_context tok tool eastWest =
     \<lparr>rcAgentID = tkSubject tok, rcTool = tool, rcNow = 0, rcEastWest = eastWest, rcRisk = 0\<rparr>"

definition runCapabilityCheck :: "'st MCPHandlerConfig \<Rightarrow> env \<Rightarrow> HttpRequest \<Rightarrow> string \<Rightarrow> bool \<Rightarrow> 'st \<Rightarrow> capabilityCheckResult" where
  "runCapabilityCheck cfg env r tool eastWest st =
     (case FromAuthorizationHeader (hAuthorization r) of
        Inl e \<Rightarrow> cap_fail None (ECap e)
      | Inr encoded \<Rightarrow>
          if encoded = [] then
            (if cfRequireCapability cfg then cap_fail None errMissingCapability
             else \<lparr>crAgentID = [], crSummary = ''skipped (no token)'', crToken = None, crUser = None, crErr = None\<rparr>)
          else case Decode (eToken env) encoded of
            Inl e \<Rightarrow> cap_fail None (ECap e)
          | Inr tok \<Rightarrow>
              (case Verify (eHmac env) tok (cfMasterKey cfg) of
                 Some e \<Rightarrow> cap_fail None (ECap e)
               | None \<Rightarrow>
                   (case kill_check (cfKillSwitch cfg) tok st of
                      Some e \<Rightarrow> cap_fail (Some tok) e
                    | None \<Rightarrow>
                        (case revocation_check (cfRevocation cfg) tok st of
                           Some e \<Rightarrow> cap_fail (Some tok) e
                         | None \<Rightarrow>
                             (case obo_check env (cfOBOKey cfg) (hObo r) of
                                Inl e \<Rightarrow> cap_fail (Some tok) e
                              | Inr user \<Rightarrow>
                                  (case cap_Check tok (call_context tok tool eastWest) (eClock env AtCaveats) of
                                     Some e \<Rightarrow> cap_fail (Some tok) (ECap e)
                                   | None \<Rightarrow>
                                       \<lparr>crAgentID = tkSubject tok,
                                        crSummary = (if eastWest
                                          then ''ok (east-west; north-south tool scope deferred to east-west policy)''
                                          else ''ok''),
                                        crToken = Some tok, crUser = user, crErr = None\<rparr>))))))"

subsection \<open>Intent\<close>

definition runIntentCheck :: "'st MCPHandlerConfig \<Rightarrow> env \<Rightarrow> HttpRequest \<Rightarrow> string \<Rightarrow> string \<Rightarrow> 'st world
    \<Rightarrow> intentCheckResult \<times> 'st world" where
  "runIntentCheck cfg env r tool agentID w =
     (let prompt = hIntentPrompt r;
          fail = (\<lambda>i e. \<lparr>inrSummary = [], inrIntent = i, inrErr = Some e\<rparr>);
          skip = (\<lambda>s. \<lparr>inrSummary = s, inrIntent = None, inrErr = None\<rparr>) in
      if prompt = [] then
        (if cfRequireIntent cfg then (fail None errMissingIntent, w) else (skip ''skipped (no prompt header)'', w))
      else case cfExtractor cfg of
        None \<Rightarrow>
          (if cfRequireIntent cfg then (fail None errExtractorNotConfigured, w)
           else (skip ''skipped (no extractor configured)'', w))
      | Some (baseURL, fetch) \<Rightarrow>
          (case Extract (promptKey (eSha env)) fetch baseURL prompt agentID (wLru w, wStore w) of
             (res, (c, st)) \<Rightarrow>
               (let w' = w\<lparr>wLru := c, wStore := st\<rparr> in
                case res of
                  Inl e \<Rightarrow> (fail None (EExtract e), w')
                | Inr i \<Rightarrow>
                    (case Allows i tool of
                       (False, reason) \<Rightarrow> (fail (Some i) (CapText reason), w')
                     | (True, reason) \<Rightarrow>
                         (\<lparr>inrSummary = ''ok: '' @ reason, inrIntent = Some i, inrErr = None\<rparr>, w')))))"

subsection \<open>Provenance\<close>

text \<open>One wire entry: its three encoded fields and its session id, in the order the loop looks at them.\<close>

definition wire_entry :: "env \<Rightarrow> string \<Rightarrow> nat \<Rightarrow> provenanceWireEntry \<Rightarrow> go_error + Envelope" where
  "wire_entry env capJTI i e =
     (let bad = (\<lambda>f. Inl (EText (''entry '' @ show_nat i @ '': '' @ f @ '' field is not valid base64url: ''
            @ eText env (ECap ErrTokenBase64)))) in
      case rawurl_decode (pwData e) of
        None \<Rightarrow> bad ''data''
      | Some d \<Rightarrow>
          (case rawurl_decode (pwPrevHash e) of
             None \<Rightarrow> bad ''prev_hash''
           | Some p \<Rightarrow>
               (case rawurl_decode (pwHMAC e) of
                  None \<Rightarrow> bad ''hmac''
                | Some h \<Rightarrow>
                    if pwSessionID e \<noteq> capJTI then
                      Inl (EText (''entry '' @ show_nat i @ '': session_id '' @ eQuote env (pwSessionID e)
                        @ '' does not match capability jti '' @ eQuote env capJTI))
                    else Inr \<lparr>envID = pwID e, envSessionID = pwSessionID e, envTimestamp = pwTimestamp e, envData = d,
                              envPrevHash = p, envHMAC = h\<rparr>)))"

fun wire_chain :: "env \<Rightarrow> string \<Rightarrow> nat \<Rightarrow> provenanceWireEntry list \<Rightarrow> go_error + Envelope list" where
  "wire_chain env capJTI i [] = Inr []"
| "wire_chain env capJTI i (e # es) =
     (case wire_entry env capJTI i e of
        Inl err \<Rightarrow> Inl err
      | Inr v \<Rightarrow> (case wire_chain env capJTI (Suc i) es of Inl err \<Rightarrow> Inl err | Inr vs \<Rightarrow> Inr (v # vs)))"

text \<open>The summary, or the error; the entry count and the error kind only go to the logs.\<close>

definition runProvenanceCheck :: "'st MCPHandlerConfig \<Rightarrow> env \<Rightarrow> string \<Rightarrow> string \<Rightarrow> go_error + string" where
  "runProvenanceCheck cfg env headerValue capJTI =
     (if \<not> cfProvenanceEnabled cfg then Inr ''skipped''
      else if cfMasterKey cfg = [] then Inr ''skipped''
      else if headerValue = [] then Inr ''no_header''
      else if capJTI = [] then Inl (EText ''provenance header present but no capability jti to derive session key'')
      else case rawurl_decode headerValue of
        None \<Rightarrow> Inl (EText (''provenance header is not valid base64url: '' @ eText env (ECap ErrTokenBase64)))
      | Some rawJSON \<Rightarrow>
          (case eWire env rawJSON of
             Inl e \<Rightarrow> Inl (EText (''provenance header is not a valid JSON array: '' @ e))
           | Inr wire \<Rightarrow>
               if wire = [] then Inr ''no_header''
               else case wire_chain env capJTI 0 wire of
                 Inl e \<Rightarrow> Inl e
               | Inr chain \<Rightarrow>
                   (case DeriveSessionKey (eHkdf env) (cfMasterKey cfg) capJTI of
                      Inl e \<Rightarrow> Inl (EText (''derive session key: '' @ err_text env (EProv e)))
                    | Inr sessionKey \<Rightarrow>
                        (case prov_VerifyChain (eHmac env) (eSha env) sessionKey chain of
                           Some e \<Rightarrow> Inl (EProv e)
                         | None \<Rightarrow> Inr (''verified ('' @ show_nat (length chain) @ '' entries)'')))))"

subsection \<open>Policy\<close>

definition stepUpAt :: "Token \<Rightarrow> int" where
  "stepUpAt t = foldl (\<lambda>m c. if cvType c = CaveatStepUp \<and> m < cvStepUpAt c then cvStepUpAt c else m) 0 (tkCaveats t)"

definition policy_input :: "'st MCPHandlerConfig \<Rightarrow> env \<Rightarrow> ToolCallParams \<Rightarrow> capabilityCheckResult \<Rightarrow> intentCheckResult
    \<Rightarrow> PolicyInput" where
  "policy_input cfg env params cap int' =
     \<lparr>inTool = tpName params, inArgs = tpArguments params, inAgentID = crAgentID cap,
      inIntent = (case inrIntent int' of
          None \<Rightarrow> None
        | Some i \<Rightarrow> Some (eiSummary i, eiAllowedTools i, eiForbiddenTools i, eiConfidence i)),
      inCapability =
        (if crAgentID cap \<noteq> [] \<or> crToken cap \<noteq> None then
           Some (case crToken cap of
               None \<Rightarrow> \<lparr>icSubject = crAgentID cap, icTenant = [], icZone = [], icStepUpAt = 0\<rparr>
             | Some t \<Rightarrow> \<lparr>icSubject = crAgentID cap, icTenant = tkTenant t, icZone = tkZone t, icStepUpAt = stepUpAt t\<rparr>)
         else None),
      inUser = (case crUser cap of None \<Rightarrow> None | Some u \<Rightarrow> Some (prnOnBehalfOf u, prnAttrs u)),
      inEastWest = (case cfEastWest cfg of
          None \<Rightarrow> None
        | Some g \<Rightarrow>
            (let e = ew_Check g (eClock env AtPolicyZones) (crAgentID cap) (cap_zone cap) (tpName params) in
             if erEastWest e then
               Some \<lparr>iwCallerAgent = erCallerAgent e, iwCallerZone = erCallerZone e,
                     iwCalleeAgent = erCalleeAgent e, iwCalleeZone = erCalleeZone e\<rparr>
             else None))\<rparr>"

definition policy_result :: "PolicyDecision \<Rightarrow> policyCheckResult" where
  "policy_result d =
     (if plEscalate d then
        \<lparr>prcSummary = ''escalate: '' @ plReason d, prcErr = None, prcEscalate = True, prcReason = plReason d,
         prcStepUp = plRequiresStepUp d, prcPII = plPIIFilter d\<rparr>
      else if \<not> plAllow d then
        \<lparr>prcSummary = [], prcErr = Some (CapText (plReason d)), prcEscalate = False, prcReason = [],
         prcStepUp = plRequiresStepUp d, prcPII = None\<rparr>
      else
        \<lparr>prcSummary = (if plReason d \<noteq> [] then ''ok: '' @ plReason d else ''ok''), prcErr = None, prcEscalate = False,
         prcReason = [], prcStepUp = plRequiresStepUp d, prcPII = plPIIFilter d\<rparr>)"

definition runPolicyCheck :: "'st MCPHandlerConfig \<Rightarrow> env \<Rightarrow> ToolCallParams \<Rightarrow> capabilityCheckResult \<Rightarrow> intentCheckResult
    \<Rightarrow> 'st \<Rightarrow> policyCheckResult" where
  "runPolicyCheck cfg env params cap int' st =
     (case cfPolicy cfg of
        None \<Rightarrow> \<lparr>prcSummary = ''skipped (no policy engine)'', prcErr = None, prcEscalate = False, prcReason = [],
                prcStepUp = False, prcPII = None\<rparr>
      | Some evaluate \<Rightarrow>
          (case evaluate (policy_input cfg env params cap int') st of
             Inl e \<Rightarrow> \<lparr>prcSummary = [], prcErr = Some (EText e), prcEscalate = False, prcReason = [], prcStepUp = False,
                      prcPII = None\<rparr>
           | Inr d \<Rightarrow> policy_result d))"

subsection \<open>Budget\<close>

definition runBudgetCheck :: "'st MCPHandlerConfig \<Rightarrow> capabilityCheckResult \<Rightarrow> 'st \<Rightarrow> (go_error + string) \<times> 'st" where
  "runBudgetCheck cfg cap st =
     (case crToken cap of
        None \<Rightarrow> (if cfRequireBudget cfg then Inl errMissingBudgetToken else Inr ''skipped (no token)'', st)
      | Some tok \<Rightarrow>
          (case budget_Check (cfBudget cfg) tok st of
             (Inl e, st') \<Rightarrow> (Inl (EBudget e), st')
           | (Inr d, st') \<Rightarrow>
               (if \<not> bdAllowed d then Inl (CapText (bdReason d))
                else if 0 < bdUsed d then Inr (''ok: '' @ show_int (bdUsed d) @ '' call(s)'')
                else Inr (bdReason d), st')))"

subsection \<open>Compiled authority\<close>

definition counterpartyKeys :: "string list" where
  "counterpartyKeys = [''payee'', ''recipient'', ''vendor'', ''counterparty'', ''destination'', ''beneficiary'', ''to'']"

definition extractCounterparty :: "args \<Rightarrow> string" where
  "extractCounterparty m =
     (case first_some (\<lambda>k. case args_lookup m k of Some (JStr s) \<Rightarrow> if s \<noteq> [] then Some s else None | _ \<Rightarrow> None)
        counterpartyKeys of
        Some s \<Rightarrow> s | None \<Rightarrow> [])"

text \<open>The decision of the active bundle, when one governs the subject, and the proof record it emits.\<close>

definition bundleDecision :: "'st MCPHandlerConfig \<Rightarrow> env \<Rightarrow> string \<Rightarrow> ToolCallParams \<Rightarrow> string
    \<Rightarrow> (EvaluationResult \<times> ProofRecord option) option" where
  "bundleDecision cfg env subject params sessionID =
     (case cfBundle cfg of
        None \<Rightarrow> None
      | Some (reg, ev) \<Rightarrow>
          (case GetActive reg subject of
             None \<Rightarrow> None
           | Some _ \<Rightarrow>
               Some (Evaluate (eSha env) (eFmt env) (eQuote env) ev reg (eClock env AtBundle)
                 \<lparr>eqSubject = subject, eqTool = tpName params,
                  eqPayloadCents = irMagnitudeCents (Resolve (eLib env) (tpName params) (tpArguments params)),
                  eqCounterparty = extractCounterparty (tpArguments params), eqSessionID = sessionID, eqNow = 0\<rparr>)))"

subsection \<open>Audit\<close>

text \<open>The call as the later stages see it.\<close>

record call =
  clHttp :: HttpRequest
  clReq :: Request
  clParams :: ToolCallParams
  clCap :: capabilityCheckResult
  clInt :: intentCheckResult

definition call_event :: "'st MCPHandlerConfig \<Rightarrow> env \<Rightarrow> call \<Rightarrow> string \<Rightarrow> string \<Rightarrow> string \<Rightarrow> nat \<Rightarrow> Event" where
  "call_event cfg env c decision check reason n =
     (NewEvent (eStamp env n) decision (tpName (clParams c)))
       \<lparr>evCheck := check, evReason := reason, evAgentID := crAgentID (clCap c),
        evArgKeys := map fst (arg_list (tpArguments (clParams c))),
        evArgValues := RedactArgs (tpArguments (clParams c)) (cfArgRedaction cfg),
        evLatencyMS := eLatency env n, evRemoteIP := hRemoteAddr (clHttp c),
        evCapabilityTokenID := cap_jti (clCap c),
        evRootCapabilityTokenID := (case crToken (clCap c) of None \<Rightarrow> [] | Some t \<Rightarrow> tkRootID t),
        evCaveatCount := (case crToken (clCap c) of None \<Rightarrow> 0 | Some t \<Rightarrow> int (CaveatCount t)),
        evTenant := cap_tenant (clCap c),
        evIntentSummary := (case inrIntent (clInt c) of None \<Rightarrow> [] | Some i \<Rightarrow> eiSummary i)\<rparr>"

definition withRequiresStepUp :: "bool \<Rightarrow> Event \<Rightarrow> Event" where
  "withRequiresStepUp b e = (if b then e\<lparr>evRequiresStepUp := True\<rparr> else e)"

definition withEventID :: "string \<Rightarrow> Event \<Rightarrow> Event" where
  "withEventID i e = (if i \<noteq> [] then e\<lparr>evEventID := i\<rparr> else e)"

definition emit :: "Event \<Rightarrow> 'st world \<Rightarrow> 'st world" where
  "emit e w = w\<lparr>wAudit := wAudit w @ [e]\<rparr>"

definition emitAudit :: "'st MCPHandlerConfig \<Rightarrow> env \<Rightarrow> call \<Rightarrow> string \<Rightarrow> string \<Rightarrow> string \<Rightarrow> int \<Rightarrow> (Event \<Rightarrow> Event)
    \<Rightarrow> 'st world \<Rightarrow> 'st world" where
  "emitAudit cfg env c decision check reason upstreamStatus opts w =
     emit (opts ((call_event cfg env c decision check reason (length (wAudit w)))
       \<lparr>evUpstreamStatus := upstreamStatus\<rparr>)) w"

definition emitApprovalAudit :: "'st MCPHandlerConfig \<Rightarrow> env \<Rightarrow> call \<Rightarrow> string \<Rightarrow> string \<Rightarrow> string \<Rightarrow> string \<Rightarrow> string
    \<Rightarrow> (Event \<Rightarrow> Event) \<Rightarrow> 'st world \<Rightarrow> 'st world" where
  "emitApprovalAudit cfg env c decision originCheck reason pendingID decidedBy opts w =
     emit (opts ((call_event cfg env c decision originCheck reason (length (wAudit w)))
       \<lparr>evPendingID := pendingID, evDecidedBy := decidedBy\<rparr>)) w"

end
