(* ===== verification/Stages.thy ===== *)
theory Stages
  imports Checks
begin

text \<open>
  The stages of \<open>handleToolsCall\<close> (\<open>mcp.go\<close>) up to the forward, in the order of the code. A stage acts on the
  world and either returns early with a JSON-RPC response (\<open>Inl\<close>) or hands what it learned to the rest of the
  pipeline (\<open>Inr\<close>); \<open>and_then\<close> is the sequence. Every early return of the code is an \<open>Inl\<close> here, with the
  audit event the code emits before it.
\<close>

type_synonym ('a, 'st) step = "'st world \<Rightarrow> (Response + 'a) \<times> 'st world"

definition and_then :: "('a, 'st) step \<Rightarrow> ('a \<Rightarrow> ('b, 'st) step) \<Rightarrow> ('b, 'st) step" where
  "and_then m f w = (case m w of (Inl r, w') \<Rightarrow> (Inl r, w') | (Inr a, w') \<Rightarrow> f a w')"

definition go_on :: "'a \<Rightarrow> ('a, 'st) step" where
  "go_on a w = (Inr a, w)"

text \<open>An error response to the call, and a block: the audit event and the response.\<close>

definition fail_call :: "call \<Rightarrow> int \<Rightarrow> string \<Rightarrow> json option \<Rightarrow> Response" where
  "fail_call c code message data = NewErrorResponse (rqID (clReq c)) code message data"

definition block :: "'st MCPHandlerConfig \<Rightarrow> env \<Rightarrow> call \<Rightarrow> string \<Rightarrow> string \<Rightarrow> bool \<Rightarrow> int \<Rightarrow> string \<Rightarrow> json option
    \<Rightarrow> ('a, 'st) step" where
  "block cfg env c check reason stepUp code message data w =
     (Inl (fail_call c code message data),
      emitAudit cfg env c DecisionBlock check reason 0 (withRequiresStepUp stepUp) w)"

subsection \<open>Human approval\<close>

definition defaultApprovalTimeout :: int where "defaultApprovalTimeout = 5 * 60 * second"
definition headerApprovalID :: string where "headerApprovalID = ''X-IntentGate-Approval-Id''"

definition intentSummary :: "intentCheckResult \<Rightarrow> string" where
  "intentSummary r = (case inrIntent r of None \<Rightarrow> [] | Some i \<Rightarrow> eiSummary i)"

definition safeDecidedBy :: "PendingRequest \<Rightarrow> string" where
  "safeDecidedBy p = (if prDecidedBy p = [] then ''(anonymous)'' else prDecidedBy p)"

definition sameApprovalCall :: "(rat \<Rightarrow> string) \<Rightarrow> PendingRequest \<Rightarrow> string \<Rightarrow> string \<Rightarrow> ToolCallParams \<Rightarrow> bool" where
  "sameApprovalCall num row agentID tenant params =
     (if prAgentID row \<noteq> agentID \<or> prTool row \<noteq> tpName params \<or> prTenant row \<noteq> tenant then False
      else marshal_args num (prArgs row) = marshal_args num (tpArguments params))"

fun status_text :: "ApprovalStatus \<Rightarrow> string" where
  "status_text StatusPending = ''pending''"
| "status_text StatusApproved = ''approved''"
| "status_text StatusRejected = ''rejected''"
| "status_text StatusTimeout = ''timeout''"

definition decided_text :: "string \<Rightarrow> PendingRequest \<Rightarrow> string" where
  "decided_text what row =
     what @ '' by '' @ safeDecidedBy row @ (if prDecideNote row \<noteq> [] then '': '' @ prDecideNote row else [])"

definition pending_data :: "PendingRequest \<Rightarrow> json" where
  "pending_data row = JObj [(''pending_id'', JStr (prPendingID row)), (''status'', JStr ''pending''),
     (''resume_header'', JStr headerApprovalID)]"

text \<open>An early return of the approval flow: a block recorded with the id of the pending row.\<close>

definition approval_block :: "'st MCPHandlerConfig \<Rightarrow> env \<Rightarrow> call \<Rightarrow> string \<Rightarrow> bool \<Rightarrow> string \<Rightarrow> string \<Rightarrow> string \<Rightarrow> string
    \<Rightarrow> ('a, 'st) step" where
  "approval_block cfg env c originCheck stepUp pid decidedBy message reason w =
     (Inl (fail_call c CodePolicyFailed message (Some (JStr reason))),
      emitApprovalAudit cfg env c DecisionBlock originCheck reason pid decidedBy (withRequiresStepUp stepUp) w)"

definition approval_allow :: "'st MCPHandlerConfig \<Rightarrow> env \<Rightarrow> call \<Rightarrow> string \<Rightarrow> bool \<Rightarrow> string \<Rightarrow> PendingRequest \<Rightarrow> (unit, 'st) step" where
  "approval_allow cfg env c originCheck stepUp pid row w =
     (Inr (), emitApprovalAudit cfg env c DecisionAllow originCheck (decided_text ''approved'' row) pid (prDecidedBy row)
        (withRequiresStepUp stepUp) w)"

definition resumeApproval :: "'st MCPHandlerConfig \<Rightarrow> env \<Rightarrow> call \<Rightarrow> 'st ApprovalsI \<Rightarrow> string \<Rightarrow> bool \<Rightarrow> string \<Rightarrow> (unit, 'st) step" where
  "resumeApproval cfg env c q originCheck stepUp resumeID w =
     (case aiGet q resumeID (wStore w) of
        Inl _ \<Rightarrow> approval_block cfg env c originCheck stepUp resumeID [] ''approval id not found''
                  (''approval id not found or expired: '' @ resumeID) w
      | Inr row \<Rightarrow>
          if \<not> sameApprovalCall (eNum env) row (crAgentID (clCap c)) (cap_tenant (clCap c)) (clParams c) then
            approval_block cfg env c originCheck stepUp (prPendingID row) [] ''approval mismatch''
              ''resume approval id does not match this call'' w
          else case prStatus row of
            StatusPending \<Rightarrow> (Inl (fail_call c CodeApprovalPending ''approval pending'' (Some (pending_data row))), w)
          | StatusApproved \<Rightarrow> approval_allow cfg env c originCheck stepUp (prPendingID row) row w
          | StatusRejected \<Rightarrow>
              approval_block cfg env c originCheck stepUp (prPendingID row) (prDecidedBy row)
                ''policy: rejected by reviewer'' (decided_text ''rejected'' row) w
          | StatusTimeout \<Rightarrow>
              approval_block cfg env c originCheck stepUp (prPendingID row) []
                ''policy: approval window expired'' ''approval window expired'' w)"

definition pending_of :: "call \<Rightarrow> string \<Rightarrow> bool \<Rightarrow> PendingRequest" where
  "pending_of c policyReason stepUp =
     \<lparr>prPendingID = [], prTenant = cap_tenant (clCap c), prCapabilityTokenID = cap_jti (clCap c),
      prRootCapabilityTokenID = (case crToken (clCap c) of None \<Rightarrow> [] | Some t \<Rightarrow> tkRootID t),
      prAgentID = crAgentID (clCap c), prTool = tpName (clParams c), prArgs = tpArguments (clParams c),
      prIntentSummary = intentSummary (clInt c), prReason = policyReason, prStatus = StatusPending,
      prCreatedAt = 0, prDecidedAt = None, prDecidedBy = [], prDecideNote = [], prRequiresStepUp = stepUp\<rparr>"

text \<open>What the handler does with the row that \<open>Wait\<close> returns.\<close>

definition waited :: "'st MCPHandlerConfig \<Rightarrow> env \<Rightarrow> call \<Rightarrow> string \<Rightarrow> bool \<Rightarrow> int \<Rightarrow> string \<Rightarrow> string + PendingRequest
    \<Rightarrow> (unit, 'st) step" where
  "waited cfg env c originCheck stepUp timeout pid res =
     (case res of
        Inl e \<Rightarrow> approval_block cfg env c originCheck stepUp pid [] ''policy escalation failed'' (''approval wait: '' @ e)
      | Inr final \<Rightarrow>
          (case prStatus final of
             StatusApproved \<Rightarrow> approval_allow cfg env c originCheck stepUp pid final
           | StatusRejected \<Rightarrow>
               approval_block cfg env c originCheck stepUp pid (prDecidedBy final)
                 ''policy: rejected by reviewer'' (decided_text ''rejected'' final)
           | StatusTimeout \<Rightarrow>
               approval_block cfg env c originCheck stepUp pid []
                 ''policy: approval window expired'' (''approval window expired ('' @ eDur env timeout @ '')'')
           | StatusPending \<Rightarrow>
               approval_block cfg env c originCheck stepUp pid []
                 ''policy escalation failed'' (''unexpected approval status: '' @ status_text (prStatus final))))"

definition runApprovalFlow :: "'st MCPHandlerConfig \<Rightarrow> env \<Rightarrow> call \<Rightarrow> string \<Rightarrow> string \<Rightarrow> bool \<Rightarrow> (unit, 'st) step" where
  "runApprovalFlow cfg env c originCheck policyReason stepUp w =
     (case cfApprovals cfg of
        None \<Rightarrow>
          (let reason = ''escalation required but no approvals queue configured (set INTENTGATE_APPROVAL_QUEUE)'' in
           block cfg env c originCheck reason stepUp CodePolicyFailed ''policy escalation required'' (Some (JStr reason)) w)
      | Some q \<Rightarrow>
          (let resumeID = trim_space (hApprovalId (clHttp c)) in
           if cfApprovalAsync cfg \<and> resumeID \<noteq> [] then resumeApproval cfg env c q originCheck stepUp resumeID w
           else case aiEnqueue q (pending_of c policyReason stepUp) (wStore w) of
             (Inl e, st) \<Rightarrow>
               (let reason = ''approval queue: '' @ e in
                block cfg env c originCheck reason stepUp CodePolicyFailed ''policy escalation failed'' (Some (JStr reason))
                  (w\<lparr>wStore := st\<rparr>))
           | (Inr row, st) \<Rightarrow>
               (let w1 = emitApprovalAudit cfg env c DecisionEscalate originCheck (''escalate: '' @ policyReason)
                      (prPendingID row) [] (withRequiresStepUp stepUp) (w\<lparr>wStore := st\<rparr>) in
                if cfApprovalAsync cfg then
                  (Inl (fail_call c CodeApprovalPending ''approval pending'' (Some (pending_data row))), w1)
                else
                  (let timeout = (if cfApprovalTimeout cfg \<le> 0 then defaultApprovalTimeout else cfApprovalTimeout cfg) in
                   case aiWait q timeout (prPendingID row) (wStore w1) of
                     (res, st') \<Rightarrow>
                       waited cfg env c originCheck stepUp timeout (prPendingID row) res (w1\<lparr>wStore := st'\<rparr>)))))"

subsection \<open>Deception\<close>

text \<open>
  A decoy touch: in sandbox mode the synthetic result is served and nothing is contained; otherwise the
  agent's kill and the revocation of its token are set when the decoy says so (their errors are ignored), and
  the call is blocked.
\<close>

definition contain :: "'st MCPHandlerConfig \<Rightarrow> env \<Rightarrow> call \<Rightarrow> DeResult \<Rightarrow> 'st \<Rightarrow> 'st" where
  "contain cfg env c d st =
     (if \<not> drContain d then st
      else
        (let st1 = (case cfKillSwitch cfg of
               Some k \<Rightarrow>
                 (if crAgentID (clCap c) \<noteq> [] then
                    kiEngage k (eClock env AtContain)
                      \<lparr>keType = ScopeAgent, keTenant = cap_tenant (clCap c), keValue = crAgentID (clCap c),
                       keReason = drReason d, keSetAt = eClock env AtContain, keSetBy = []\<rparr> st
                  else st)
             | None \<Rightarrow> st)
         in case cfRevocation cfg of
              Some r \<Rightarrow>
                (if cap_jti (clCap c) \<noteq> [] then
                   riRevoke r (eClock env AtContain) (cap_jti (clCap c)) (drReason d) (cap_tenant (clCap c)) st1
                 else st1)
            | None \<Rightarrow> st1))"

definition decoyInput :: "env \<Rightarrow> call \<Rightarrow> DeInput" where
  "decoyInput env c =
     \<lparr>diTool = tpName (clParams c), diTokenID = cap_jti (clCap c), diZone = [], diCredentialID = [],
      diValues = ValuesFromArgs (tpArguments (clParams c)),
      diContent = ContentFromArgs (eNum env) (tpArguments (clParams c))\<rparr>"

definition deceptionStage :: "'st MCPHandlerConfig \<Rightarrow> env \<Rightarrow> call \<Rightarrow> (unit, 'st) step" where
  "deceptionStage cfg env c w =
     (case de_Check (eLib env) (cfDeception cfg) (decoyInput env c) of
        None \<Rightarrow> go_on () w
      | Some d \<Rightarrow>
          if drSandbox d then
            (Inl (NewResultResponse (rqID (clReq c)) (enc_ToolCallResult
               \<lparr>trContent = [\<lparr>cbType = ''text'', cbText = (if drSynthetic d = [] then ''{}'' else drSynthetic d)\<rparr>],
                trIsError = False, trIntentGate = None\<rparr>)),
             emitAudit cfg env c DecisionEscalate CheckDeception (drReason d) 0 id w)
          else
            block cfg env c CheckDeception (drReason d) False CodePolicyFailed ''deception: decoy touched''
              (Some (JStr (drReason d))) (w\<lparr>wStore := contain cfg env c d (wStore w)\<rparr>))"

subsection \<open>Capability, intent, task binding, provenance\<close>

definition capabilityStage :: "'st MCPHandlerConfig \<Rightarrow> env \<Rightarrow> call \<Rightarrow> (unit, 'st) step" where
  "capabilityStage cfg env c =
     (case crErr (clCap c) of
        None \<Rightarrow> go_on ()
      | Some e \<Rightarrow>
          block cfg env c CheckCapability (err_text env e) False CodeCapabilityFailed ''capability check failed''
            (Some (JStr (err_text env e))))"

definition intentStage :: "'st MCPHandlerConfig \<Rightarrow> env \<Rightarrow> call \<Rightarrow> bool \<Rightarrow> (intentCheckResult, 'st) step" where
  "intentStage cfg env c eastWest w =
     (if eastWest then
        go_on \<lparr>inrSummary = ''skipped (east-west call)'', inrIntent = None, inrErr = None\<rparr> w
      else case runIntentCheck cfg env (clHttp c) (tpName (clParams c)) (crAgentID (clCap c)) w of
        (i, w') \<Rightarrow>
          (case inrErr i of
             None \<Rightarrow> go_on i w'
           | Some e \<Rightarrow>
               block cfg env (c\<lparr>clInt := i\<rparr>) CheckIntent (err_text env e) False CodeIntentFailed ''intent check failed''
                 (Some (JStr (err_text env e))) w'))"

text \<open>An error of the task store is only logged: \<open>Bind\<close> then allows.\<close>

definition taskStage :: "'st MCPHandlerConfig \<Rightarrow> env \<Rightarrow> call \<Rightarrow> (unit, 'st) step" where
  "taskStage cfg env c w =
     (case cfTaskBinder cfg of
        None \<Rightarrow> go_on () w
      | Some t \<Rightarrow>
          if \<not> tcEnabled (tiConfig t) \<or> hTaskId (clHttp c) = [] then go_on () w
          else
            (case Bind (tiGet t) (tiUpsert t) (tiConfig t) (eClock env AtBind) (cap_tenant (clCap c)) (crAgentID (clCap c))
                (hTaskId (clHttp c)) (tpName (clParams c))
                (case inrIntent (clInt c) of None \<Rightarrow> [] | Some i \<Rightarrow> eiAllowedTools i)
                (intentSummary (clInt c)) (wStore w) of
               ((r, _), st) \<Rightarrow>
                 (let w' = w\<lparr>wStore := st\<rparr>;
                      text = (\<lambda>what. ''task drift '' @ what @ '' (drift='' @ show_int (brDrift r) @ ''): '' @ brReason r) in
                  case brOutcome r of
                    OutcomeBlock \<Rightarrow>
                      block cfg env c CheckIntent (text ''halted'') False CodeIntentFailed ''task drift: session halted''
                        (Some (JStr (brReason r))) w'
                  | OutcomeFlag \<Rightarrow> go_on () (emitAudit cfg env c DecisionAllow CheckIntent (text ''flagged'') 0 id w')
                  | OutcomeAllow \<Rightarrow> go_on () w')))"

definition provenanceStage :: "'st MCPHandlerConfig \<Rightarrow> env \<Rightarrow> call \<Rightarrow> (unit, 'st) step" where
  "provenanceStage cfg env c =
     (case runProvenanceCheck cfg env (hProvenance (clHttp c)) (cap_jti (clCap c)) of
        Inr _ \<Rightarrow> go_on ()
      | Inl e \<Rightarrow>
          block cfg env c CheckProvenance (err_text env e) False CodeProvenanceFailed ''provenance check failed''
            (Some (JStr (err_text env e))))"

subsection \<open>Compiled authority, effect guard, reference verification\<close>

definition emit_proof :: "env \<Rightarrow> ProofRecord option \<Rightarrow> 'st world \<Rightarrow> 'st world" where
  "emit_proof env p w =
     (case p of None \<Rightarrow> w | Some pr \<Rightarrow> emit (proof_event (eStamp env (length (wAudit w))) pr) w)"

definition bundleStage :: "'st MCPHandlerConfig \<Rightarrow> env \<Rightarrow> call \<Rightarrow> (unit, 'st) step" where
  "bundleStage cfg env c w =
     (case bundleDecision cfg env (crAgentID (clCap c)) (clParams c) (hTaskId (clHttp c)) of
        None \<Rightarrow> go_on () w
      | Some (res, p) \<Rightarrow>
          (let w' = emit_proof env p w in
           case evrDecision res of
             DecisionPermit \<Rightarrow> go_on () w'
           | DecisionEscalateB \<Rightarrow> runApprovalFlow cfg env c CheckPolicy (evrReason res) False w'
           | _ \<Rightarrow>
               block cfg env c CheckPolicy (''intentgrant bundle: '' @ evrReason res) False CodePolicyFailed
                 ''intentgrant policy denied'' (Some (JStr (evrReason res))) w'))"

definition guardSession :: "call \<Rightarrow> string" where
  "guardSession c = (if hTaskId (clHttp c) = [] then crAgentID (clCap c) else hTaskId (clHttp c))"

definition actionGuardStage :: "'st MCPHandlerConfig \<Rightarrow> env \<Rightarrow> call \<Rightarrow> (unit, 'st) step" where
  "actionGuardStage cfg env c w =
     (case cfActionGuard cfg of
        None \<Rightarrow> go_on () w
      | Some ag \<Rightarrow>
          (case ag_Check (eLib env) (eQuote env) ag (guardSession c) (tpName (clParams c)) (tpArguments (clParams c)) (wGuard w) of
             (r, g) \<Rightarrow>
               (let w' = w\<lparr>wGuard := g\<rparr> in
                case agVerdict r of
                  AgBlock \<Rightarrow>
                    block cfg env c CheckActionGuard (''action guard blocked ('' @ agRule r @ ''): '' @ agReason r) False
                      CodePolicyFailed ''action guard blocked'' (Some (JStr (agReason r))) w'
                | AgEscalate \<Rightarrow> runApprovalFlow cfg env c CheckPolicy (agReason r) False w'
                | AgAllow \<Rightarrow> go_on () w')))"

definition refVerifyStage :: "'st MCPHandlerConfig \<Rightarrow> env \<Rightarrow> call \<Rightarrow> (unit, 'st) step" where
  "refVerifyStage cfg env c =
     (case cfRefVerify cfg of
        None \<Rightarrow> go_on ()
      | Some rc \<Rightarrow>
          (let r = rv_Check (eLib env) (eQuote env) rc (tpName (clParams c)) (tpArguments (clParams c)) in
           case rvVerdict r of
             RvBlock \<Rightarrow>
               block cfg env c CheckRefVerify
                 (''reference verification blocked ('' @ rvRule r @ ''): '' @ rvReasonText r) False CodePolicyFailed
                 ''reference verification failed'' (Some (JStr (rvReasonText r)))
           | RvQuarantine \<Rightarrow>
               runApprovalFlow cfg env c CheckRefVerify
                 (''reference verification quarantine ('' @ rvRule r @ ''): '' @ rvReasonText r) False
           | RvAllow \<Rightarrow> go_on ()))"

subsection \<open>Segmentation\<close>

definition zoneLabel :: "string \<Rightarrow> string" where
  "zoneLabel z = (if z = [] then ''(none)'' else z)"

fun ew_reason_text :: "(string \<Rightarrow> string) \<Rightarrow> ew_reason \<Rightarrow> string" where
  "ew_reason_text q EwNone = []"
| "ew_reason_text q (RulePermits a b) = ''rule permits '' @ a @ '' -> '' @ b"
| "ew_reason_text q (PatternPermits f t a b) = ''rule '' @ f @ '' -> '' @ t @ '' permits '' @ a @ '' -> '' @ b"
| "ew_reason_text q (LabelPermits cz tz a b) =
     ''rule permits '' @ zoneLabel cz @ '' -> '' @ zoneLabel tz @ '', which covers '' @ a @ '' -> '' @ b"
| "ew_reason_text q (SharedLabel a b z) =
     a @ '' and '' @ b @ '' both carry label '' @ q z @ '' and intra-label calls are enabled; no rule names this pair''"
| "ew_reason_text q (ObserveMode a b) =
     ''observe mode: no rule permits '' @ a @ '' -> '' @ b @ '', so this would be blocked once enforcement is on''"
| "ew_reason_text q (NoRuleUnlabelled a b) =
     ''no rule permits '' @ a @ '' -> '' @ b @ '', and '' @ b
       @ '' carries no label either, so no label rule can cover it (add a rule for this pair, or label the agent)''"
| "ew_reason_text q (NoRule a b) = ''no rule permits '' @ a @ '' -> '' @ b @ '' (default-deny)''"

fun zs_reason_text :: "(string \<Rightarrow> string) \<Rightarrow> zs_reason \<Rightarrow> string" where
  "zs_reason_text q ZsNone = []"
| "zs_reason_text q (ZoneNotInTenant z t) = ''zone '' @ q z @ '' is not permitted in tenant '' @ q t"
| "zs_reason_text q (ToolPermitted tool z) = ''tool '' @ q tool @ '' permitted for zone '' @ q z"
| "zs_reason_text q (ToolOutOfScope tool z) =
     ''tool '' @ q tool @ '' is not in the north-south scope for zone '' @ q z"

text \<open>The result says whether the call is an agent-to-agent call, which the zone scope then skips.\<close>

definition eastWestStage :: "'st MCPHandlerConfig \<Rightarrow> env \<Rightarrow> call \<Rightarrow> (bool, 'st) step" where
  "eastWestStage cfg env c =
     (case cfEastWest cfg of
        None \<Rightarrow> go_on False
      | Some g \<Rightarrow>
          (let r = ew_Check g (eClock env AtEastWest) (crAgentID (clCap c)) (cap_zone (clCap c)) (tpName (clParams c));
               deny = (\<lambda>pre reason. block cfg env c CheckEastWest (pre @ reason) False CodePolicyFailed
                  ''east-west denied'' (Some (JStr reason))) in
           if \<not> erEastWest r then go_on False
           else if erVerdict r = VerdictDeny then deny ''east-west denied: '' (ew_reason_text (eQuote env) (erReason r))
           else case crToken (clCap c) of
             None \<Rightarrow> go_on True
           | Some tok \<Rightarrow>
               if CanCall tok (erCalleeAgent r) (erCalleeZone r) then go_on True
               else deny ''east-west denied by token: ''
                 (''token does not permit calling agent '' @ eQuote env (erCalleeAgent r)
                  @ '' (zone '' @ eQuote env (erCalleeZone r) @ '')'')))"

definition zoneScopeStage :: "'st MCPHandlerConfig \<Rightarrow> env \<Rightarrow> call \<Rightarrow> bool \<Rightarrow> (unit, 'st) step" where
  "zoneScopeStage cfg env c eastWest =
     (case cfZoneScope cfg of
        None \<Rightarrow> go_on ()
      | Some g \<Rightarrow>
          if eastWest then go_on ()
          else
            (let r = zs_Check g (cap_zone (clCap c)) (cap_tenant (clCap c)) (tpName (clParams c));
                 reason = zs_reason_text (eQuote env) (zrReason r) in
             if zrEnforced r \<and> zrVerdict r = VerdictDeny then
               block cfg env c CheckZoneScope (''zone scope denied: '' @ reason) False CodePolicyFailed
                 ''zone scope denied'' (Some (JStr reason))
             else go_on ()))"

subsection \<open>Policy, budget\<close>

definition policyStage :: "'st MCPHandlerConfig \<Rightarrow> env \<Rightarrow> call \<Rightarrow> (policyCheckResult, 'st) step" where
  "policyStage cfg env c w =
     (let p = runPolicyCheck cfg env (clParams c) (clCap c) (clInt c) (wStore w) in
      case prcErr p of
        None \<Rightarrow> go_on p w
      | Some e \<Rightarrow>
          block cfg env c CheckPolicy (err_text env e) (prcStepUp p) CodePolicyFailed ''policy check failed''
            (Some (JStr (err_text env e))) w)"

definition escalateStage :: "'st MCPHandlerConfig \<Rightarrow> env \<Rightarrow> call \<Rightarrow> policyCheckResult \<Rightarrow> (unit, 'st) step" where
  "escalateStage cfg env c p =
     (if prcEscalate p then runApprovalFlow cfg env c CheckPolicy (prcReason p) (prcStepUp p) else go_on ())"

definition budgetStage :: "'st MCPHandlerConfig \<Rightarrow> env \<Rightarrow> call \<Rightarrow> (unit, 'st) step" where
  "budgetStage cfg env c w =
     (case runBudgetCheck cfg (clCap c) (wStore w) of
        (Inr _, st) \<Rightarrow> go_on () (w\<lparr>wStore := st\<rparr>)
      | (Inl e, st) \<Rightarrow>
          block cfg env c CheckBudget (err_text env e) False CodeBudgetFailed ''budget check failed''
            (Some (JStr (err_text env e))) (w\<lparr>wStore := st\<rparr>))"

subsection \<open>Request PII filter, tenant scope\<close>

text \<open>A filter built from the policy's override when it is valid, the static one otherwise.\<close>

definition requestPIIFilter :: "'st MCPHandlerConfig \<Rightarrow> PIIFilterSpec option \<Rightarrow> PIIFilter option" where
  "requestPIIFilter cfg override =
     (case override of
        None \<Rightarrow> cfPIIFilter cfg
      | Some spec \<Rightarrow> (case cfNewFilter cfg spec of Some f \<Rightarrow> Some f | None \<Rightarrow> cfPIIFilter cfg))"

text \<open>\<open>%v\<close> of a slice of strings and of a map with string keys; counts as a JSON object.\<close>

definition fmt_strings :: "string list \<Rightarrow> string" where
  "fmt_strings xs = ''['' @ str_join '' '' xs @ '']''"

definition fmt_counts :: "(string \<times> int) list \<Rightarrow> string" where
  "fmt_counts m = ''map['' @ str_join '' '' (map (\<lambda>(k, n). k @ '':'' @ show_int n) (sort_key fst m)) @ '']''"

definition json_counts :: "(string \<times> int) list \<Rightarrow> json" where
  "json_counts m = JObj (map (\<lambda>(k, n). (k, JNum (of_int n))) m)"

definition set_args :: "args \<Rightarrow> call \<Rightarrow> call" where
  "set_args m c = c\<lparr>clParams := (clParams c)\<lparr>tpArguments := m\<rparr>\<rparr>"

definition requestPIIStage :: "'st MCPHandlerConfig \<Rightarrow> env \<Rightarrow> call \<Rightarrow> policyCheckResult \<Rightarrow> (call, 'st) step" where
  "requestPIIStage cfg env c p w =
     (case (requestPIIFilter cfg (prcPII p), tpArguments (clParams c)) of
        (Some f, Some (kv # kvs)) \<Rightarrow>
          (case pfRequest f (kv # kvs) of
             (d, m) \<Rightarrow>
               (let c' = set_args (Some m) c;
                    text = (\<lambda>what. ''pii filter '' @ what @ '' request (classes='' @ fmt_strings (pdClasses d) @ '')'') in
                if pdAction d = PiiBlock \<or> pdAction d = PiiEscalate then
                  block cfg env c' CheckPII (text ''blocked'') (prcStepUp p) CodePIIBlocked ''request blocked by pii filter''
                    (Some (JObj [(''counts'', json_counts (pdCounts d)), (''classes'', JArr (map JStr (pdClasses d))),
                       (''direction'', JStr ''request'')])) w
                else if pdAction d = PiiRedact then
                  go_on c' (emitAudit cfg env c' DecisionAllow CheckPII (text ''redacted'') 0
                    (withRequiresStepUp (prcStepUp p)) w)
                else go_on c' w))
      | _ \<Rightarrow> go_on c w)"

fun violation_text :: "ViolationKind \<Rightarrow> string" where
  "violation_text NoViolation = []"
| "violation_text KindMissing = ''missing''"
| "violation_text KindWildcard = ''wildcard''"
| "violation_text KindMismatch = ''mismatch''"

definition tenantScopeStage :: "'st MCPHandlerConfig \<Rightarrow> env \<Rightarrow> call \<Rightarrow> policyCheckResult \<Rightarrow> (call, 'st) step" where
  "tenantScopeStage cfg env c p w =
     (case cfTenantScope cfg of
        None \<Rightarrow> go_on c w
      | Some en \<Rightarrow>
          if \<not> IsScoped en (tpName (clParams c)) then go_on c w
          else
            (case ts_Check (Some en) (tpName (clParams c)) (cap_tenant (clCap c)) (tpArguments (clParams c)) of
               (d, m) \<Rightarrow>
                 (let c' = set_args m c; tool = tpName (clParams c) in
                  if sdViolation d \<noteq> NoViolation \<and> \<not> Allowed d then
                    block cfg env c' CheckTenantScope
                      (''tenant scope '' @ violation_text (sdViolation d) @ '' on tool '' @ eQuote env tool) (prcStepUp p)
                      CodeTenantScopeViolation ''tenant scope violation''
                      (Some (JObj [(''violation'', JStr (violation_text (sdViolation d))), (''tool'', JStr tool)])) w
                  else if sdMutated d then
                    go_on c' (emitAudit cfg env c' DecisionAllow CheckTenantScope
                      (''tenant scope injected on tool '' @ eQuote env tool) 0 (withRequiresStepUp (prcStepUp p)) w)
                  else go_on c' w)))"

end
