(* ===== verification/Pipeline.thy ===== *)
theory Pipeline
  imports Stages
begin

text \<open>
  The rest of \<open>mcp.go\<close>: forwarding an authorised call to the upstream, the whole of \<open>handleToolsCall\<close>, the
  passthrough of discovery methods, and the dispatch of \<open>ServeHTTP\<close>. A reply is a response or the panic of a
  write to a nil map; the response of a notification is not written.
\<close>

datatype reply = Reply Response | Panicked

subsection \<open>Forwarding\<close>

text \<open>\<^const>\<open>None\<close> is the panic: a result \<open>null\<close> decodes to a nil map, and writing to it panics.\<close>

definition injectIntentGateMetadata :: "env \<Rightarrow> raw \<Rightarrow> IntentGateMetadata \<Rightarrow> raw option" where
  "injectIntentGateMetadata env result meta =
     (case eObject env result of
        Inl _ \<Rightarrow> Some result
      | Inr None \<Rightarrow> None
      | Inr (Some kvs) \<Rightarrow>
          Some (json_braces (sort_key fst (map (\<lambda>(k, v). (k, eCompact env v))
            (AList.update ''_intentgate'' (enc_metadata meta) kvs)))))"

text \<open>What \<open>capturePayload\<close> does to the store, and the annotation it returns for the audit event.\<close>

definition capturePayload :: "'st MCPHandlerConfig \<Rightarrow> env \<Rightarrow> call \<Rightarrow> bytes \<Rightarrow> Response \<Rightarrow> 'st \<Rightarrow> (Event \<Rightarrow> Event) \<times> 'st" where
  "capturePayload cfg env c rawUpstream delivered st =
     (let pol0 = cfPayloadPolicy cfg; tool = tpName (clParams c) in
      if \<not> ShouldCapture pol0 tool \<or> rawUpstream = [] then (id, st)
      else
        (let pol = Normalise pol0;
             rawHash = HashRaw (eSha env) rawUpstream;
             annotate = (\<lambda>stored e. e\<lparr>evResultSHA256 := rawHash, evResultBytes := int (length rawUpstream),
                evResultStored := stored\<rparr>) in
         case (cfPayloads cfg, eMarshalResponse env delivered) of
           (Some put, Some body0) \<Rightarrow>
             (case Truncate pol body0 of
                (body, truncated) \<Rightarrow>
                  (case put \<lparr>pyEventID = eEventID env, pyTenant = cap_tenant (clCap c), pyAgentID = crAgentID (clCap c),
                        pyTool = tool, pyRawSHA256 = rawHash, pyRawBytes = int (length rawUpstream), pyBody = body,
                        pyRedacted = (truncated \<or> length body \<noteq> length rawUpstream \<or> body \<noteq> rawUpstream),
                        pyCapturedAt = eClock env AtCapture, pyExpiresAt = eClock env AtExpiry + ppTTL pol\<rparr> st of
                     (ok, st') \<Rightarrow> (annotate ok, st')))
         | _ \<Rightarrow> (annotate False, st)))"

text \<open>A block after the forward carries the status of the upstream.\<close>

definition up_block :: "'st MCPHandlerConfig \<Rightarrow> env \<Rightarrow> call \<Rightarrow> bool \<Rightarrow> string \<Rightarrow> string \<Rightarrow> int \<Rightarrow> int \<Rightarrow> string \<Rightarrow> json option
    \<Rightarrow> ('a, 'st) step" where
  "up_block cfg env c stepUp check reason status code message data w =
     (Inl (fail_call c code message data),
      emitAudit cfg env c DecisionBlock check reason status (withRequiresStepUp stepUp) w)"

definition up_note :: "'st MCPHandlerConfig \<Rightarrow> env \<Rightarrow> call \<Rightarrow> bool \<Rightarrow> string \<Rightarrow> string \<Rightarrow> int \<Rightarrow> 'st world \<Rightarrow> 'st world" where
  "up_note cfg env c stepUp check reason status w =
     emitAudit cfg env c DecisionAllow check reason status (withRequiresStepUp stepUp) w"

text \<open>The permit of the fault isolator, when there is one.\<close>

definition acquireStage :: "'st MCPHandlerConfig \<Rightarrow> env \<Rightarrow> call \<Rightarrow> bool \<Rightarrow> (unit, 'st) step" where
  "acquireStage cfg env c stepUp w =
     (case cfFaultIsolation cfg of
        None \<Rightarrow> go_on () w
      | Some fc \<Rightarrow>
          (case fi_Acquire fc (eClock env AtAcquire) (tpName (clParams c)) (wIsolator w) of
             (None, i) \<Rightarrow> go_on () (w\<lparr>wIsolator := i\<rparr>)
           | (Some e, i) \<Rightarrow>
               (let reason = (if e = ErrBulkheadFull then ''bulkhead_full'' else ''circuit_open'') in
                up_block cfg env c stepUp CheckFaultIsolation (''upstream forward refused: '' @ reason) 0
                  CodeUpstreamUnavailable ''upstream temporarily unavailable''
                  (Some (JObj [(''reason'', JStr reason), (''tool'', JStr (tpName (clParams c)))])) (w\<lparr>wIsolator := i\<rparr>))))"

text \<open>The call to the upstream, and the outcome recorded with the isolator.\<close>

definition send :: "'st MCPHandlerConfig \<Rightarrow> env \<Rightarrow> (bytes \<Rightarrow> (string \<times> string) option \<Rightarrow> 'st \<Rightarrow> (UpstreamError + UpstreamResponse) \<times> 'st)
    \<Rightarrow> string \<Rightarrow> bytes \<Rightarrow> 'st world \<Rightarrow> (UpstreamError + UpstreamResponse) \<times> 'st world" where
  "send cfg env up tool body w =
     (let cred = cfCredentials cfg tool in
      case up body cred (wStore w) of
        (res, st) \<Rightarrow>
          (let w1 = w\<lparr>wStore := st, wForwards := wForwards w @ [(body, cred)]\<rparr>;
               outcome = (case res of
                   Inl _ \<Rightarrow> FiOutcome.OutcomeFailure
                 | Inr u \<Rightarrow> if 500 \<le> urStatus u then FiOutcome.OutcomeFailure else FiOutcome.OutcomeSuccess) in
           (res, case cfFaultIsolation cfg of
                   None \<Rightarrow> w1
                 | Some fc \<Rightarrow> w1\<lparr>wIsolator := fi_release fc (eClock env AtRelease) outcome tool (wIsolator w1)\<rparr>)))"

text \<open>The upstream's answer: an operational failure or a body that is no JSON-RPC response ends the call.\<close>

definition upstreamStage :: "'st MCPHandlerConfig \<Rightarrow> env \<Rightarrow> call \<Rightarrow> bool
    \<Rightarrow> (bytes \<Rightarrow> (string \<times> string) option \<Rightarrow> 'st \<Rightarrow> (UpstreamError + UpstreamResponse) \<times> 'st) \<Rightarrow> bytes
    \<Rightarrow> (UpstreamResponse \<times> Response, 'st) step" where
  "upstreamStage cfg env c stepUp up body w =
     (case send cfg env up (tpName (clParams c)) body w of
        (Inl e, w') \<Rightarrow>
          up_block cfg env c stepUp CheckUpstream (ueText e) (ueStatus e) CodeInternalError
            (''upstream '' @ upstream_kind_String (ueKind e))
            (Some (JObj [(''upstream_status'', JNum (of_int (ueStatus e))), (''detail'', JStr (ueText e))])) w'
      | (Inr u, w') \<Rightarrow>
          (case eResponse env (urBody u) of
             Inl e \<Rightarrow>
               up_block cfg env c stepUp CheckUpstream (''upstream returned non-JSON-RPC body: '' @ e) (urStatus u)
                 CodeInternalError ''upstream returned non-JSON-RPC body'' (Some (JStr e)) w'
           | Inr parsed \<Rightarrow> go_on (u, parsed) w'))"

definition responsePIIStage :: "'st MCPHandlerConfig \<Rightarrow> env \<Rightarrow> call \<Rightarrow> bool \<Rightarrow> PIIFilterSpec option \<Rightarrow> int \<Rightarrow> Response
    \<Rightarrow> (Response, 'st) step" where
  "responsePIIStage cfg env c stepUp override status parsed w =
     (case (requestPIIFilter cfg override, rpResult parsed) of
        (Some f, Some result) \<Rightarrow>
          (case pfResult f result of
             (redacted, d) \<Rightarrow>
               (let text = (\<lambda>what. ''pii filter '' @ what @ '' response (classes='' @ fmt_strings (pdClasses d) @ '')'') in
                if pdAction d = PiiBlock \<or> pdAction d = PiiEscalate then
                  up_block cfg env c stepUp CheckPII (text ''blocked'') status CodePIIBlocked ''response blocked by pii filter''
                    (Some (JObj [(''counts'', json_counts (pdCounts d)), (''classes'', JArr (map JStr (pdClasses d)))])) w
                else if pdAction d = PiiRedact then
                  go_on (parsed\<lparr>rpResult := Some redacted\<rparr>) (up_note cfg env c stepUp CheckPII (text ''redacted'') status w)
                else go_on parsed w))
      | _ \<Rightarrow> go_on parsed w)"

definition outputSchemaStage :: "'st MCPHandlerConfig \<Rightarrow> env \<Rightarrow> call \<Rightarrow> bool \<Rightarrow> int \<Rightarrow> Response \<Rightarrow> (Response, 'st) step" where
  "outputSchemaStage cfg env c stepUp status parsed w =
     (case (cfOutputSchemas cfg, rpResult parsed) of
        (Some registry, Some result) \<Rightarrow>
          (case registry (tpName (clParams c)) of
             None \<Rightarrow> go_on parsed w
           | Some (validate, action) \<Rightarrow>
               (let r = validate result; kinds = '' (kinds='' @ fmt_counts (osCounts r) @ '')'' in
                if \<not> osViolations r then go_on parsed w
                else case action of
                  OsBlock \<Rightarrow>
                    up_block cfg env c stepUp CheckOutputSchema (''output schema blocked response'' @ kinds) status
                      CodeOutputSchemaViolation ''response blocked by output schema''
                      (Some (JObj [(''counts'', json_counts (osCounts r)), (''tool'', JStr (tpName (clParams c)))])) w
                | OsStrip \<Rightarrow>
                    go_on (parsed\<lparr>rpResult := Some (osStripped r)\<rparr>)
                      (up_note cfg env c stepUp CheckOutputSchema (''output schema stripped response'' @ kinds) status w)
                | OsAllow \<Rightarrow>
                    go_on parsed
                      (up_note cfg env c stepUp CheckOutputSchema (''output schema violations logged'' @ kinds) status w)))
      | _ \<Rightarrow> go_on parsed w)"

definition responseStages :: "'st MCPHandlerConfig \<Rightarrow> env \<Rightarrow> call \<Rightarrow> policyCheckResult \<Rightarrow> UpstreamResponse \<times> Response
    \<Rightarrow> (UpstreamResponse \<times> Response, 'st) step" where
  "responseStages cfg env c p up =
     (case up of (u, parsed) \<Rightarrow>
        and_then (responsePIIStage cfg env c (prcStepUp p) (prcPII p) (urStatus u) parsed) (\<lambda>parsed.
        and_then (outputSchemaStage cfg env c (prcStepUp p) (urStatus u) parsed) (\<lambda>parsed.
        go_on (u, parsed))))"

text \<open>The last part: metadata, capture, the audit event of the forward.\<close>

definition deliver :: "'st MCPHandlerConfig \<Rightarrow> env \<Rightarrow> call \<Rightarrow> bool \<Rightarrow> UpstreamResponse \<Rightarrow> Response \<Rightarrow> 'st world \<Rightarrow> reply \<times> 'st world" where
  "deliver cfg env c stepUp u parsed w =
     (let meta = \<lparr>imDecision = ''allow'', imReason = ''forwarded'', imCheck = [], imLatencyMS = eLatency env (length (wAudit w))\<rparr>;
          injected = (case rpResult parsed of
              None \<Rightarrow> Some None
            | Some result \<Rightarrow> map_option Some (injectIntentGateMetadata env result meta)) in
      case injected of
        None \<Rightarrow> (Panicked, w)
      | Some result \<Rightarrow>
          (let resp = parsed\<lparr>rpResult := result\<rparr> in
           case capturePayload cfg env c (urBody u) resp (wStore w) of
             (annotate, st) \<Rightarrow>
               (Reply resp,
                emitAudit cfg env c DecisionAllow CheckUpstream ''forwarded'' (urStatus u)
                  (annotate \<circ> withEventID (eEventID env) \<circ> withRequiresStepUp stepUp) (w\<lparr>wStore := st\<rparr>))))"

definition finish :: "(Response + 'a) \<times> 'st world \<Rightarrow> ('a \<Rightarrow> 'st world \<Rightarrow> reply \<times> 'st world) \<Rightarrow> reply \<times> 'st world" where
  "finish r k = (case r of (Inl resp, w) \<Rightarrow> (Reply resp, w) | (Inr a, w) \<Rightarrow> k a w)"

definition forwardToUpstream :: "'st MCPHandlerConfig \<Rightarrow> env
    \<Rightarrow> (bytes \<Rightarrow> (string \<times> string) option \<Rightarrow> 'st \<Rightarrow> (UpstreamError + UpstreamResponse) \<times> 'st)
    \<Rightarrow> call \<Rightarrow> policyCheckResult \<Rightarrow> 'st world \<Rightarrow> reply \<times> 'st world" where
  "forwardToUpstream cfg env up c p w =
     (let stepUp = prcStepUp p in
      case eMarshalRequest env (clReq c) of
        Inl e \<Rightarrow>
          finish (up_block cfg env c stepUp CheckUpstream (''failed to re-serialize request: '' @ e) 0 CodeInternalError
            ''failed to encode upstream request'' (Some (JStr e)) w) (\<lambda>(u, parsed). deliver cfg env c stepUp u parsed)
      | Inr body \<Rightarrow>
          finish
            (and_then (acquireStage cfg env c stepUp) (\<lambda>_.
             and_then (upstreamStage cfg env c stepUp up body) (responseStages cfg env c p)) w)
            (\<lambda>(u, parsed). deliver cfg env c stepUp u parsed))"

definition stubAllow :: "'st MCPHandlerConfig \<Rightarrow> env \<Rightarrow> call \<Rightarrow> policyCheckResult \<Rightarrow> 'st world \<Rightarrow> reply \<times> 'st world" where
  "stubAllow cfg env c p w =
     (let w' = emitAudit cfg env c DecisionAllow CheckNone ''all four checks passed (stub upstream)'' 0
            (withRequiresStepUp (prcStepUp p)) w in
      (Reply (NewResultResponse (rqID (clReq c)) (enc_ToolCallResult
         \<lparr>trContent = [\<lparr>cbType = ''text'', cbText = ''stub: no upstream configured; gateway authorized this call''\<rparr>],
          trIsError = False,
          trIntentGate = Some \<lparr>imDecision = ''allow'', imReason = ''stub: no upstream configured'', imCheck = [],
             imLatencyMS = eLatency env (length (wAudit w'))\<rparr>\<rparr>)), w'))"

subsection \<open>The pipeline\<close>

definition noIntent :: intentCheckResult where
  "noIntent = \<lparr>inrSummary = [], inrIntent = None, inrErr = None\<rparr>"

definition isEastWest :: "'st MCPHandlerConfig \<Rightarrow> string \<Rightarrow> bool" where
  "isEastWest cfg tool = (case cfEastWest cfg of None \<Rightarrow> False | Some g \<Rightarrow> calleeAgent g tool \<noteq> None)"

text \<open>Every stage from the decoy check to the tenant scope: the call as it is forwarded, and the policy's result.\<close>

definition authorize :: "'st MCPHandlerConfig \<Rightarrow> env \<Rightarrow> call \<Rightarrow> (call \<times> policyCheckResult, 'st) step" where
  "authorize cfg env c0 =
     (let ew = isEastWest cfg (tpName (clParams c0)) in
      and_then (deceptionStage cfg env c0) (\<lambda>_.
      and_then (capabilityStage cfg env c0) (\<lambda>_.
      and_then (intentStage cfg env c0 ew) (\<lambda>i.
      let c = c0\<lparr>clInt := i\<rparr> in
      and_then (taskStage cfg env c) (\<lambda>_.
      and_then (provenanceStage cfg env c) (\<lambda>_.
      and_then (bundleStage cfg env c) (\<lambda>_.
      and_then (actionGuardStage cfg env c) (\<lambda>_.
      and_then (refVerifyStage cfg env c) (\<lambda>_.
      and_then (eastWestStage cfg env c) (\<lambda>ew'.
      and_then (zoneScopeStage cfg env c ew') (\<lambda>_.
      and_then (policyStage cfg env c) (\<lambda>p.
      and_then (escalateStage cfg env c p) (\<lambda>_.
      and_then (budgetStage cfg env c) (\<lambda>_.
      and_then (requestPIIStage cfg env c p) (\<lambda>c.
      and_then (tenantScopeStage cfg env c p) (\<lambda>c.
      go_on (c, p)))))))))))))))))"

definition handleToolsCall :: "'st MCPHandlerConfig \<Rightarrow> env \<Rightarrow> HttpRequest \<Rightarrow> Request \<Rightarrow> 'st world \<Rightarrow> reply \<times> 'st world" where
  "handleToolsCall cfg env r req w =
     (case eParams env (rqParams req) of
        Inl e \<Rightarrow> (Reply (NewErrorResponse (rqID req) CodeInvalidParams ''invalid tools/call params'' (Some (JStr e))), w)
      | Inr params \<Rightarrow>
          if tpName params = [] then
            (Reply (NewErrorResponse (rqID req) CodeInvalidParams ''params.name is required'' None), w)
          else
            (let c = \<lparr>clHttp = r, clReq = req, clParams = params,
                clCap = runCapabilityCheck cfg env r (tpName params) (isEastWest cfg (tpName params)) (wStore w),
                clInt = noIntent\<rparr> in
             finish (authorize cfg env c w) (\<lambda>(c', p).
               case cfUpstream cfg of
                 None \<Rightarrow> stubAllow cfg env c' p
               | Some up \<Rightarrow> forwardToUpstream cfg env up c' p)))"

subsection \<open>Passthrough and dispatch\<close>

definition handlePassthrough :: "'st MCPHandlerConfig \<Rightarrow> env \<Rightarrow> Request \<Rightarrow> bytes \<Rightarrow> 'st world \<Rightarrow> Response \<times> 'st world" where
  "handlePassthrough cfg env req body w =
     (case cfUpstream cfg of
        Some up \<Rightarrow>
          (case up body None (wStore w) of
             (res, st) \<Rightarrow>
               (let w' = w\<lparr>wStore := st, wForwards := wForwards w @ [(body, None)]\<rparr> in
                case res of
                  Inl e \<Rightarrow>
                    (NewErrorResponse (rqID req) CodeInternalError (''upstream '' @ upstream_kind_String (ueKind e))
                       (Some (JObj [(''upstream_status'', JNum (of_int (ueStatus e))), (''detail'', JStr (ueText e))])), w')
                | Inr u \<Rightarrow>
                    (case eResponse env (urBody u) of
                       Inl e \<Rightarrow> (NewErrorResponse (rqID req) CodeInternalError ''upstream returned non-JSON-RPC body''
                                  (Some (JStr e)), w')
                     | Inr parsed \<Rightarrow> (parsed, w'))))
      | None \<Rightarrow>
          (if rqMethod req = MethodInitialize then (NewResultResponse (rqID req) enc_InitializeResult, w)
           else if rqMethod req = MethodToolsList then
             (NewResultResponse (rqID req) (json_braces [(''tools'', ''[]'')]), w)
           else if rqMethod req = MethodPing then (NewResultResponse (rqID req) (json_braces []), w)
           else (NewErrorResponse (rqID req) CodeMethodNotFound (''method not implemented in passthrough: '' @ rqMethod req)
                   None, w)))"

datatype http_reply = Body Response | NoContent | Crashed

definition answer :: "Request \<Rightarrow> reply \<Rightarrow> http_reply" where
  "answer req rep =
     (case rep of Panicked \<Rightarrow> Crashed | Reply resp \<Rightarrow> if IsNotification req then NoContent else Body resp)"

text \<open>The body is what could be read within the limit, or the error of reading it.\<close>

definition ServeHTTP :: "'st MCPHandlerConfig \<Rightarrow> env \<Rightarrow> HttpRequest \<Rightarrow> string + bytes \<Rightarrow> 'st world \<Rightarrow> http_reply \<times> 'st world" where
  "ServeHTTP cfg env r input w =
     (case input of
        Inl e \<Rightarrow> (Body (NewErrorResponse [] CodeParseError ''failed to read request body'' (Some (JStr e))), w)
      | Inr body \<Rightarrow>
          (case eRequest env body of
             Inl e \<Rightarrow> (Body (NewErrorResponse [] CodeParseError ''invalid JSON'' (Some (JStr e))), w)
           | Inr req \<Rightarrow>
               (case request_Validate req of
                  Some e \<Rightarrow> (Body (NewErrorResponse (rqID req) CodeInvalidRequest (request_error_text e) None), w)
                | None \<Rightarrow>
                    if rqMethod req = MethodToolsCall then
                      (case handleToolsCall cfg env r req w of (rep, w') \<Rightarrow> (answer req rep, w'))
                    else if rqMethod req \<in> {MethodToolsList, MethodInitialize, MethodPing} then
                      (case handlePassthrough cfg env req body w of (resp, w') \<Rightarrow> (answer req (Reply resp), w'))
                    else
                      (answer req (Reply (NewErrorResponse (rqID req) CodeMethodNotFound
                         (''method not implemented in v0.1: '' @ rqMethod req) None)), w))))"

end
