(* ===== verification/Mediation.thy ===== *)
theory Mediation
  imports Pipeline "HOL-Library.Sublist"
begin

text \<open>
  What a call has passed when it reaches the upstream. The locale \<open>frame\<close> proves once, for any relation between
  worlds that audit events and backend updates respect, that every stage respects it (\<open>quiet\<close>); its
  instances are that nothing is forwarded while the trail grows, and that the session state of the effect guard
  and the state of the fault isolator stay. \<open>authorize_passed\<close> lists what the stages have established when the call
  reaches the forward: each verdict is a relation between the backends before and after its check, so that the
  verdicts of one run are chained through the states that run went through.
\<close>


lemma and_then_Inr: "and_then m f w = (Inr b, w'') \<longleftrightarrow> (\<exists>a w'. m w = (Inr a, w') \<and> f a w' = (Inr b, w''))"
  by (auto simp: and_then_def split: prod.splits sum.splits)

lemma go_on_Inr [simp]: "go_on a w = (Inr b, w') \<longleftrightarrow> b = a \<and> w' = w"
  by (auto simp: go_on_def)

lemma block_not_Inr [simp]: "block cfg env c check reason s code msg d w \<noteq> (Inr b, w')"
  by (simp add: block_def)

subsection \<open>What a step leaves alone\<close>

text \<open>A relation between worlds that the audit trail and the backends may pass freely.\<close>

locale frame =
  fixes rel :: "'st world \<Rightarrow> 'st world \<Rightarrow> bool"
  assumes rel_refl: "rel w w"
    and rel_trans: "rel w w1 \<Longrightarrow> rel w1 w2 \<Longrightarrow> rel w w2"
    and rel_emit: "rel w (emit e w)"
    and rel_store: "rel w (w\<lparr>wStore := st\<rparr>)"
    and rel_lru: "rel w (w\<lparr>wLru := l\<rparr>)"

locale guard_frame = frame rel for rel :: "'st world \<Rightarrow> 'st world \<Rightarrow> bool" +
  assumes rel_guard: "rel w (w\<lparr>wGuard := g\<rparr>)"

definition quiet :: "('st world \<Rightarrow> 'st world \<Rightarrow> bool) \<Rightarrow> ('a, 'st) step \<Rightarrow> bool" where
  "quiet rel m \<longleftrightarrow> (\<forall>w. rel w (snd (m w)))"

lemma quietI: "(\<And>w. rel w (snd (m w))) \<Longrightarrow> quiet rel m"
  by (simp add: quiet_def)

context frame
begin

lemma emit_kept: "rel w w1 \<Longrightarrow> rel w (emit e w1)"
  using rel_trans rel_emit by blast

lemma store_kept: "rel w w1 \<Longrightarrow> rel w (w1\<lparr>wStore := st\<rparr>)"
  using rel_trans rel_store by blast

lemma lru_kept: "rel w w1 \<Longrightarrow> rel w (w1\<lparr>wLru := l\<rparr>)"
  using rel_trans rel_lru by blast

lemma audit_kept:
  "rel w w1 \<Longrightarrow> rel w (emitAudit cfg env c d chk r n opts w1)"
  "rel w w1 \<Longrightarrow> rel w (emitApprovalAudit cfg env c d chk r pid db opts w1)"
  by (simp_all add: emitAudit_def emitApprovalAudit_def emit_kept)

text \<open>Running a quiet step from a world that is already related.\<close>

lemma step_kept: "quiet rel m \<Longrightarrow> rel w w1 \<Longrightarrow> rel w (snd (m w1))"
  unfolding quiet_def by (blast intro: rel_trans)

lemmas kept_rules = rel_refl emit_kept store_kept lru_kept audit_kept step_kept

lemma quiet_go_on: "quiet rel (go_on a)"
  by (simp add: quiet_def go_on_def rel_refl)

lemma quiet_and_then:
  assumes "quiet rel m" and "\<And>a. quiet rel (f a)"
  shows "quiet rel (and_then m f)"
proof (rule quietI)
  fix w
  have "rel w (snd (m w))" using assms(1) by (simp add: quiet_def)
  then show "rel w (snd (and_then m f w))"
    using step_kept [OF assms(2)] by (auto simp: and_then_def split: prod.splits sum.splits)
qed

lemma quiet_block: "quiet rel (block cfg env c chk reason s code msg d)"
  by (auto simp: quiet_def block_def intro: kept_rules)

lemma quiet_approval:
  "quiet rel (approval_block cfg env c chk s pid db msg reason)" "quiet rel (approval_allow cfg env c chk s pid row)"
  by (auto simp: quiet_def approval_block_def approval_allow_def intro: kept_rules)

lemmas quiet_basic = quiet_go_on quiet_and_then quiet_block quiet_approval

lemma quiet_waited: "quiet rel (waited cfg env c chk s timeout pid res)"
  by (auto simp: waited_def intro: quiet_basic split: sum.splits ApprovalStatus.splits)

lemma quiet_resume: "quiet rel (resumeApproval cfg env c q chk s rid)"
  unfolding resumeApproval_def
  by (rule quietI) (auto intro: quiet_basic kept_rules split: sum.splits ApprovalStatus.splits)

lemma quiet_approvalFlow: "quiet rel (runApprovalFlow cfg env c chk reason s)"
  unfolding runApprovalFlow_def Let_def
  by (rule quietI) (auto intro!: kept_rules quiet_basic quiet_waited quiet_resume
      split: option.splits prod.splits sum.splits)

lemmas quiet_steps = quiet_basic quiet_approvalFlow kept_rules

lemma kept_runIntentCheck: "rel w (snd (runIntentCheck cfg env r tool agent w))"
  by (auto simp: runIntentCheck_def Let_def intro: kept_rules split: option.splits prod.splits sum.splits bool.splits)

lemma quiet_front:
  "quiet rel (deceptionStage cfg env c)" "quiet rel (capabilityStage cfg env c)" "quiet rel (taskStage cfg env c)"
  "quiet rel (provenanceStage cfg env c)" "quiet rel (bundleStage cfg env c)" "quiet rel (refVerifyStage cfg env c)"
  subgoal unfolding deceptionStage_def
    by (rule quietI) (auto intro!: quiet_steps split: option.splits)
  subgoal unfolding capabilityStage_def by (auto intro!: quiet_steps split: option.splits)
  subgoal unfolding taskStage_def Let_def
    by (rule quietI) (auto intro!: quiet_steps split: option.splits prod.splits Outcome.splits)
  subgoal unfolding provenanceStage_def by (auto intro!: quiet_steps split: sum.splits)
  subgoal unfolding bundleStage_def emit_proof_def Let_def
    by (rule quietI) (auto intro!: quiet_steps split: option.splits prod.splits BundleDecision.splits)
  subgoal unfolding refVerifyStage_def Let_def
    by (auto intro!: quiet_steps split: option.splits RvVerdict.splits)
  done

lemma quiet_intentStage: "quiet rel (intentStage cfg env c ew)"
proof (rule quietI)
  fix w
  show "rel w (snd (intentStage cfg env c ew w))"
    using kept_runIntentCheck [of w cfg env "clHttp c" "tpName (clParams c)" "crAgentID (clCap c)"]
    by (auto simp: intentStage_def intro!: quiet_steps split: option.splits prod.splits)
qed

lemma quiet_back:
  "quiet rel (eastWestStage cfg env c)" "quiet rel (zoneScopeStage cfg env c ew)" "quiet rel (policyStage cfg env c)"
  "quiet rel (escalateStage cfg env c p)" "quiet rel (budgetStage cfg env c)" "quiet rel (requestPIIStage cfg env c p)"
  "quiet rel (tenantScopeStage cfg env c p)"
  subgoal unfolding eastWestStage_def Let_def by (auto intro!: quiet_steps split: option.splits)
  subgoal unfolding zoneScopeStage_def Let_def by (auto intro!: quiet_steps split: option.splits)
  subgoal unfolding policyStage_def Let_def
    by (rule quietI) (auto simp: go_on_def block_def intro: quiet_steps split: option.splits)
  subgoal unfolding escalateStage_def by (auto intro!: quiet_steps)
  subgoal unfolding budgetStage_def
    by (rule quietI) (auto intro!: quiet_steps split: prod.splits sum.splits)
  subgoal unfolding requestPIIStage_def Let_def
    by (rule quietI) (auto intro!: quiet_steps split: option.splits prod.splits list.splits)
  subgoal unfolding tenantScopeStage_def Let_def
    by (rule quietI) (auto intro!: quiet_steps split: option.splits prod.splits)
  done

end

context guard_frame
begin

lemma quiet_actionGuard: "quiet rel (actionGuardStage cfg env c)"
proof (rule quietI)
  fix w
  have g: "rel w (w\<lparr>wGuard := g\<rparr>)" for g by (rule rel_guard)
  show "rel w (snd (actionGuardStage cfg env c w))"
    unfolding actionGuardStage_def Let_def
    by (auto intro!: quiet_steps g split: option.splits prod.splits AgVerdict.splits)
qed

lemma quiet_authorize: "quiet rel (authorize cfg env c)"
  unfolding authorize_def Let_def
  by (intro quiet_front quiet_back quiet_intentStage quiet_actionGuard quiet_and_then quiet_go_on)

end

text \<open>Nothing is forwarded and the audit trail only grows; the session state of the effect guard is unchanged.\<close>

definition kept :: "'st world \<Rightarrow> 'st world \<Rightarrow> bool" where
  "kept w w' \<longleftrightarrow> wForwards w' = wForwards w \<and> prefix (wAudit w) (wAudit w')"

definition same_guard :: "'st world \<Rightarrow> 'st world \<Rightarrow> bool" where
  "same_guard w w' \<longleftrightarrow> wGuard w' = wGuard w"

lemma emit_simps [simp]:
  "wForwards (emit e w) = wForwards w" "wAudit (emit e w) = wAudit w @ [e]" "wStore (emit e w) = wStore w"
  "wGuard (emit e w) = wGuard w"
  by (simp_all add: emit_def)

interpretation trail: guard_frame kept
  by unfold_locales (auto simp: kept_def intro: prefix_order.order_trans)

interpretation sessions: frame same_guard
  by unfold_locales (auto simp: same_guard_def)

definition same_isolator :: "'st world \<Rightarrow> 'st world \<Rightarrow> bool" where
  "same_isolator w w' \<longleftrightarrow> wIsolator w' = wIsolator w"

lemma emit_isolator [simp]: "wIsolator (emit e w) = wIsolator w"
  by (simp add: emit_def)

interpretation isolators: guard_frame same_isolator
  by unfold_locales (auto simp: same_isolator_def)

subsection \<open>What a call that goes on has passed\<close>

text \<open>
  A human approved this escalation: the stored row of a resumed call, or the row \<open>Wait\<close> returned for the row
  this call enqueued. \<open>st\<close> and \<open>st'\<close> are the backends before and after.
\<close>

definition human_approved :: "'st MCPHandlerConfig \<Rightarrow> env \<Rightarrow> call \<Rightarrow> string \<Rightarrow> bool \<Rightarrow> 'st \<Rightarrow> 'st \<Rightarrow> bool" where
  "human_approved cfg env c reason stepUp st st' \<longleftrightarrow> (\<exists>q row. cfApprovals cfg = Some q \<and> prStatus row = StatusApproved \<and>
     (cfApprovalAsync cfg \<and> aiGet q (trim_space (hApprovalId (clHttp c))) st = Inr row
        \<and> sameApprovalCall (eNum env) row (crAgentID (clCap c)) (cap_tenant (clCap c)) (clParams c) \<and> st' = st
      \<or> (\<exists>held st1 t. aiEnqueue q (pending_of c reason stepUp) st = (Inr held, st1)
           \<and> aiWait q t (prPendingID held) st1 = (Inr row, st'))))"

lemma audit_store [simp]:
  "wStore (emitApprovalAudit cfg env c d chk r pid db opts w) = wStore w"
  "wStore (emitAudit cfg env c d chk r n opts w) = wStore w" "wStore (emit_proof env pr w) = wStore w"
  by (simp_all add: emitApprovalAudit_def emitAudit_def emit_proof_def split: option.splits)

lemma approval_block_not_Inr [simp]: "approval_block cfg env c chk s pid db msg reason w \<noteq> (Inr a, w')"
  by (simp add: approval_block_def)

lemma resume_passed:
  "resumeApproval cfg env c q chk s rid w = (Inr a, w') \<Longrightarrow>
   \<exists>row. aiGet q rid (wStore w) = Inr row \<and> prStatus row = StatusApproved \<and> wStore w' = wStore w
     \<and> sameApprovalCall (eNum env) row (crAgentID (clCap c)) (cap_tenant (clCap c)) (clParams c)"
  by (auto simp: resumeApproval_def approval_allow_def split: sum.splits if_splits ApprovalStatus.splits)

lemma waited_passed:
  "waited cfg env c chk s t pid res w = (Inr a, w') \<Longrightarrow>
     \<exists>row. res = Inr row \<and> prStatus row = StatusApproved \<and> wStore w' = wStore w"
  by (auto simp: waited_def approval_allow_def split: sum.splits ApprovalStatus.splits)

lemma approval_passed:
  assumes "runApprovalFlow cfg env c chk reason s w = (Inr a, w')"
  shows "human_approved cfg env c reason s (wStore w) (wStore w')"
  using assms unfolding runApprovalFlow_def human_approved_def Let_def
  by (auto split: option.splits if_splits prod.splits sum.splits dest!: resume_passed waited_passed) blast+

text \<open>
  The stages' verdicts on a call, in the order of the pipeline. Each relates the backends \<open>st\<close> that its check
  consulted to the backends \<open>st'\<close> it left; the effect guard and the fault isolator are those the call found.
\<close>

definition escalation_ok :: "'st MCPHandlerConfig \<Rightarrow> env \<Rightarrow> call \<Rightarrow> bool \<Rightarrow> string \<Rightarrow> bool \<Rightarrow> 'st \<Rightarrow> 'st \<Rightarrow> bool" where
  "escalation_ok cfg env c escalated reason stepUp st st' \<longleftrightarrow>
     (if escalated then human_approved cfg env c reason stepUp st st' else st' = st)"

text \<open>The declared intent: an agent-to-agent call skips it; otherwise \<open>runIntentCheck\<close> reported no error.\<close>

definition intent_ok :: "'st MCPHandlerConfig \<Rightarrow> env \<Rightarrow> call \<Rightarrow> intentCheckResult \<Rightarrow> 'st world \<Rightarrow> 'st \<Rightarrow> bool" where
  "intent_ok cfg env c i w st' \<longleftrightarrow> inrErr i = None \<and>
     (if isEastWest cfg (tpName (clParams c)) then st' = wStore w
      else \<exists>w'. runIntentCheck cfg env (clHttp c) (tpName (clParams c)) (crAgentID (clCap c)) w = (i, w') \<and> wStore w' = st')"

text \<open>The task: with binding enabled and a task named, \<open>Bind\<close> did not halt the session.\<close>

definition task_passed :: "'st MCPHandlerConfig \<Rightarrow> env \<Rightarrow> call \<Rightarrow> 'st \<Rightarrow> 'st \<Rightarrow> bool" where
  "task_passed cfg env c st st' \<longleftrightarrow>
     (case cfTaskBinder cfg of
        None \<Rightarrow> st' = st
      | Some t \<Rightarrow>
          if \<not> tcEnabled (tiConfig t) \<or> hTaskId (clHttp c) = [] then st' = st
          else \<exists>res e. Bind (tiGet t) (tiUpsert t) (tiConfig t) (eClock env AtBind) (cap_tenant (clCap c)) (crAgentID (clCap c))
                (hTaskId (clHttp c)) (tpName (clParams c))
                (case inrIntent (clInt c) of None \<Rightarrow> [] | Some i \<Rightarrow> eiAllowedTools i)
                (intentSummary (clInt c)) st = ((res, e), st') \<and> brOutcome res \<noteq> OutcomeBlock)"

definition bundle_passed :: "'st MCPHandlerConfig \<Rightarrow> env \<Rightarrow> call \<Rightarrow> 'st \<Rightarrow> 'st \<Rightarrow> bool" where
  "bundle_passed cfg env c st st' \<longleftrightarrow>
     (case bundleDecision cfg env (crAgentID (clCap c)) (clParams c) (hTaskId (clHttp c)) of
        None \<Rightarrow> st' = st
      | Some (res, _) \<Rightarrow> evrDecision res \<in> {DecisionPermit, DecisionEscalateB}
          \<and> escalation_ok cfg env c (evrDecision res = DecisionEscalateB) (evrReason res) False st st')"

definition guard_passed :: "'st MCPHandlerConfig \<Rightarrow> env \<Rightarrow> call \<Rightarrow> Guard \<Rightarrow> 'st \<Rightarrow> 'st \<Rightarrow> bool" where
  "guard_passed cfg env c g st st' \<longleftrightarrow>
     (case cfActionGuard cfg of
        None \<Rightarrow> st' = st
      | Some ag \<Rightarrow>
          (let r = fst (ag_Check (eLib env) (eQuote env) ag (guardSession c) (tpName (clParams c))
                    (tpArguments (clParams c)) g) in
           agVerdict r \<noteq> AgBlock \<and> escalation_ok cfg env c (agVerdict r = AgEscalate) (agReason r) False st st'))"

definition payee_passed :: "'st MCPHandlerConfig \<Rightarrow> env \<Rightarrow> call \<Rightarrow> 'st \<Rightarrow> 'st \<Rightarrow> bool" where
  "payee_passed cfg env c st st' \<longleftrightarrow>
     (case cfRefVerify cfg of
        None \<Rightarrow> st' = st
      | Some rc \<Rightarrow>
          (let r = rv_Check (eLib env) (eQuote env) rc (tpName (clParams c)) (tpArguments (clParams c)) in
           rvVerdict r \<noteq> RvBlock
           \<and> escalation_ok cfg env c (rvVerdict r = RvQuarantine)
               (''reference verification quarantine ('' @ rvRule r @ ''): '' @ rvReasonText r) False st st'))"

definition segment_passed :: "'st MCPHandlerConfig \<Rightarrow> env \<Rightarrow> call \<Rightarrow> bool" where
  "segment_passed cfg env c \<longleftrightarrow>
     (case cfEastWest cfg of
        None \<Rightarrow> True
      | Some g \<Rightarrow>
          (let r = ew_Check g (eClock env AtEastWest) (crAgentID (clCap c)) (cap_zone (clCap c)) (tpName (clParams c)) in
           erEastWest r \<longrightarrow> erVerdict r = VerdictAllow
             \<and> (\<forall>tok. crToken (clCap c) = Some tok \<longrightarrow> CanCall tok (erCalleeAgent r) (erCalleeZone r))))
     \<and> (isEastWest cfg (tpName (clParams c)) \<or>
        (case cfZoneScope cfg of
           None \<Rightarrow> True
         | Some z \<Rightarrow> zrVerdict (zs_Check z (cap_zone (clCap c)) (cap_tenant (clCap c)) (tpName (clParams c))) = VerdictAllow))"

definition policy_passed :: "'st MCPHandlerConfig \<Rightarrow> env \<Rightarrow> call \<Rightarrow> policyCheckResult \<Rightarrow> 'st \<Rightarrow> 'st \<Rightarrow> bool" where
  "policy_passed cfg env c p st st' \<longleftrightarrow>
     p = runPolicyCheck cfg env (clParams c) (clCap c) (clInt c) st \<and> prcErr p = None
     \<and> escalation_ok cfg env c (prcEscalate p) (prcReason p) (prcStepUp p) st st'"

text \<open>The request filter in force neither blocked nor escalated; \<open>m'\<close> are the arguments it leaves.\<close>

definition request_filtered :: "'st MCPHandlerConfig \<Rightarrow> policyCheckResult \<Rightarrow> args \<Rightarrow> args \<Rightarrow> bool" where
  "request_filtered cfg p m m' \<longleftrightarrow>
     (case (requestPIIFilter cfg (prcPII p), m) of
        (Some f, Some (kv # kvs)) \<Rightarrow>
          pdAction (fst (pfRequest f (kv # kvs))) \<notin> {PiiBlock, PiiEscalate} \<and> m' = Some (snd (pfRequest f (kv # kvs)))
      | _ \<Rightarrow> m' = m)"

text \<open>
  Tenant scope, on the arguments \<open>m\<close> the filter left: outside the telemetry mode they name the token's tenant at the
  scoped path, or the action is to inject it, nothing is there yet, and it can be written.
\<close>

definition tenant_passed :: "'st MCPHandlerConfig \<Rightarrow> call \<Rightarrow> args \<Rightarrow> bool" where
  "tenant_passed cfg c m \<longleftrightarrow>
     (case cfTenantScope cfg of
        None \<Rightarrow> True
      | Some en \<Rightarrow>
          (case enScoped en (tpName (clParams c)) of
             None \<Rightarrow> True
           | Some path \<Rightarrow>
               (let action = (case enPerTool en (tpName (clParams c)) of Some a \<Rightarrow> a | None \<Rightarrow> enDefault en);
                    tenant = cap_tenant (clCap c) in
                action = ActionAllow
                \<or> tenant \<noteq> [] \<and> (readPath m path = Some (JStr tenant)
                    \<or> action = ActionInject \<and> readPath m path = None \<and> \<not> isl (writePath m path tenant)))))"

text \<open>The fault isolator gave the call a permit.\<close>

definition isolator_passed :: "'st MCPHandlerConfig \<Rightarrow> env \<Rightarrow> string \<Rightarrow> Isolator \<Rightarrow> bool" where
  "isolator_passed cfg env tool is \<longleftrightarrow>
     (case cfFaultIsolation cfg of
        None \<Rightarrow> True
      | Some fc \<Rightarrow> fst (fi_Acquire fc (eClock env AtAcquire) tool is) = None)"

lemma deception_passed:
  "deceptionStage cfg env c w = (Inr a, w') \<Longrightarrow> w' = w \<and> de_Check (eLib env) (cfDeception cfg) (decoyInput env c) = None"
  by (auto simp: deceptionStage_def split: option.splits if_splits)

lemma capability_passed: "capabilityStage cfg env c w = (Inr a, w') \<Longrightarrow> w' = w \<and> crErr (clCap c) = None"
  by (auto simp: capabilityStage_def split: option.splits)

lemma intent_passed:
  "intentStage cfg env c ew w = (Inr i, w') \<Longrightarrow> inrErr i = None
     \<and> (\<not> ew \<longrightarrow> runIntentCheck cfg env (clHttp c) (tpName (clParams c)) (crAgentID (clCap c)) w = (i, w'))"
  by (auto simp: intentStage_def split: if_splits prod.splits option.splits)

lemma intent_ok_stage:
  "intentStage cfg env c (isEastWest cfg (tpName (clParams c))) w = (Inr i, w') \<Longrightarrow> intent_ok cfg env c i w (wStore w')"
  by (auto simp: intentStage_def intent_ok_def split: if_splits prod.splits option.splits)

lemma task_stage_passed: "taskStage cfg env c w = (Inr a, w') \<Longrightarrow> task_passed cfg env c (wStore w) (wStore w')"
  by (auto simp: taskStage_def task_passed_def Let_def split: option.splits if_splits prod.splits Outcome.splits)

lemma provenance_passed:
  "provenanceStage cfg env c w = (Inr a, w') \<Longrightarrow>
     w' = w \<and> (\<exists>s. runProvenanceCheck cfg env (hProvenance (clHttp c)) (cap_jti (clCap c)) = Inr s)"
  by (auto simp: provenanceStage_def split: sum.splits)

lemma bundle_stage_passed: "bundleStage cfg env c w = (Inr a, w') \<Longrightarrow> bundle_passed cfg env c (wStore w) (wStore w')"
  by (auto simp: bundleStage_def bundle_passed_def escalation_ok_def Let_def dest!: approval_passed
      split: option.splits prod.splits BundleDecision.splits)

lemma guard_stage_passed:
  "actionGuardStage cfg env c w = (Inr a, w') \<Longrightarrow> guard_passed cfg env c (wGuard w) (wStore w) (wStore w')"
  by (auto simp: actionGuardStage_def guard_passed_def escalation_ok_def Let_def dest!: approval_passed
      split: option.splits prod.splits AgVerdict.splits)

lemma refverify_stage_passed: "refVerifyStage cfg env c w = (Inr a, w') \<Longrightarrow> payee_passed cfg env c (wStore w) (wStore w')"
  by (auto simp: refVerifyStage_def payee_passed_def escalation_ok_def Let_def dest!: approval_passed
      split: option.splits RvVerdict.splits)

lemma segment_store:
  "eastWestStage cfg env c w = (Inr ew, w') \<Longrightarrow> w' = w" "zoneScopeStage cfg env c b w = (Inr a, w') \<Longrightarrow> w' = w"
  by (auto simp: eastWestStage_def zoneScopeStage_def Let_def split: option.splits if_splits)

lemma eastwest_flag: "erEastWest (ew_Check g now agent zone tool) \<longleftrightarrow> calleeAgent g tool \<noteq> None"
  by (auto simp: ew_Check_def Let_def split: option.splits if_splits)

lemma segment_stages_passed:
  assumes "eastWestStage cfg env c w = (Inr ew, w')" and "zoneScopeStage cfg env c ew w1 = (Inr a, w2)"
  shows "segment_passed cfg env c"
proof -
  have "ew \<Longrightarrow> isEastWest cfg (tpName (clParams c))"
    using assms(1) by (auto simp: eastWestStage_def isEastWest_def eastwest_flag Let_def split: option.splits if_splits)
  moreover have "\<not> ew \<Longrightarrow> zrVerdict (zs_Check z (cap_zone (clCap c)) (cap_tenant (clCap c)) (tpName (clParams c))) = VerdictAllow"
    if "cfZoneScope cfg = Some z" for z
    using assms(2) that
    by (auto simp: zoneScopeStage_def zs_Check_def Let_def split: option.splits if_splits)
  ultimately show ?thesis
    using assms(1) unfolding segment_passed_def eastWestStage_def Let_def
    by (cases "cfEastWest cfg"; cases "cfZoneScope cfg")
      (auto split: if_splits option.splits, (metis Verdict.exhaust)+)
qed

lemma policy_stages_passed:
  assumes "policyStage cfg env c w = (Inr p, w1)" and "escalateStage cfg env c p w1 = (Inr a, w2)"
  shows "policy_passed cfg env c p (wStore w) (wStore w2)"
  using assms
  by (auto simp: policyStage_def escalateStage_def policy_passed_def escalation_ok_def Let_def dest!: approval_passed
      split: option.splits if_splits)

lemma budget_passed:
  "budgetStage cfg env c w = (Inr a, w') \<Longrightarrow> \<exists>s. runBudgetCheck cfg (clCap c) (wStore w) = (Inr s, wStore w')"
  by (auto simp: budgetStage_def split: prod.splits sum.splits)

text \<open>The last two stages only rewrite the arguments.\<close>

definition call_kept :: "call \<Rightarrow> call \<Rightarrow> bool" where
  "call_kept c c' \<longleftrightarrow> clHttp c' = clHttp c \<and> clReq c' = clReq c \<and> clCap c' = clCap c
     \<and> tpName (clParams c') = tpName (clParams c)"

lemma call_kept_simps [simp]: "call_kept c c" "call_kept c (set_args m c)"
  by (simp_all add: call_kept_def set_args_def)

lemma call_kept_trans: "call_kept c c1 \<Longrightarrow> call_kept c1 c2 \<Longrightarrow> call_kept c c2"
  by (simp add: call_kept_def)

lemma pii_passed: "requestPIIStage cfg env c p w = (Inr c', w') \<Longrightarrow> call_kept c c'"
  by (auto simp: requestPIIStage_def Let_def split: option.splits list.splits prod.splits if_splits)

lemma filter_passed:
  "requestPIIStage cfg env c p w = (Inr c', w') \<Longrightarrow>
     request_filtered cfg p (tpArguments (clParams c)) (tpArguments (clParams c'))"
  by (auto simp: requestPIIStage_def request_filtered_def set_args_def Let_def
      split: option.splits list.splits prod.splits if_splits)

lemma ts_Check_action:
  "ts_Check (Some en) tool tenant m = (d, m') \<Longrightarrow> enScoped en tool = Some path \<Longrightarrow> sdAction d = ActionAllow \<Longrightarrow>
   (case enPerTool en tool of Some a \<Rightarrow> a | None \<Rightarrow> enDefault en) = ActionAllow"
  by (auto simp: ts_Check_def Let_def ts_actions split: option.splits if_splits sum.splits json.splits)

lemma ts_Check_named:
  assumes "ts_Check (Some en) tool tenant m = (d, m')" and "enScoped en tool = Some path" and "Allowed d"
    and "(case enPerTool en tool of Some a \<Rightarrow> a | None \<Rightarrow> enDefault en) \<noteq> ActionAllow"
  shows "tenant \<noteq> [] \<and> (readPath m path = Some (JStr tenant)
    \<or> (case enPerTool en tool of Some a \<Rightarrow> a | None \<Rightarrow> enDefault en) = ActionInject
       \<and> readPath m path = None \<and> \<not> isl (writePath m path tenant))"
  using assms
  by (auto simp: ts_Check_def Let_def Allowed_def ts_actions split: option.splits if_splits sum.splits json.splits)

lemma tenant_passed_step:
  assumes "tenantScopeStage cfg env c p w = (Inr c', w')"
  shows "call_kept c c' \<and> tenant_passed cfg c (tpArguments (clParams c))"
proof (cases "cfTenantScope cfg")
  case None
  with assms show ?thesis by (simp add: tenantScopeStage_def tenant_passed_def)
next
  case (Some en)
  show ?thesis
  proof (cases "enScoped en (tpName (clParams c))")
    case None
    with assms Some show ?thesis by (simp add: tenantScopeStage_def tenant_passed_def IsScoped_def)
  next
    case path: (Some path)
    obtain d m where d: "ts_Check (Some en) (tpName (clParams c)) (cap_tenant (clCap c)) (tpArguments (clParams c)) = (d, m)"
      by fastforce
    with assms Some path have ok: "Allowed d" "c' = set_args m c"
      by (auto simp: tenantScopeStage_def IsScoped_def Let_def Allowed_def split: if_splits)
    with ts_Check_named [OF d path ok(1)] path Some show ?thesis
      by (auto simp: tenant_passed_def Let_def)
  qed
qed

lemma tenant_passed_kept: "call_kept c c1 \<Longrightarrow> tenant_passed cfg c1 m \<longleftrightarrow> tenant_passed cfg c m"
  unfolding tenant_passed_def call_kept_def by (elim conjE) (simp only:)

lemma authorize_passed:
  assumes "authorize cfg env c0 w = (Inr (c', p), w')"
  obtains i st1 st2 st3 st4 st5 st6 st7 s m where "crErr (clCap c0) = None"
    and "de_Check (eLib env) (cfDeception cfg) (decoyInput env c0) = None"
    and "intent_ok cfg env c0 i w st1" and "task_passed cfg env (c0\<lparr>clInt := i\<rparr>) st1 st2"
    and "\<exists>pv. runProvenanceCheck cfg env (hProvenance (clHttp c0)) (cap_jti (clCap c0)) = Inr pv"
    and "bundle_passed cfg env (c0\<lparr>clInt := i\<rparr>) st2 st3" and "guard_passed cfg env (c0\<lparr>clInt := i\<rparr>) (wGuard w) st3 st4"
    and "payee_passed cfg env (c0\<lparr>clInt := i\<rparr>) st4 st5" and "segment_passed cfg env (c0\<lparr>clInt := i\<rparr>)"
    and "policy_passed cfg env (c0\<lparr>clInt := i\<rparr>) p st5 st6"
    and "runBudgetCheck cfg (clCap c0) st6 = (Inr s, st7)"
    and "request_filtered cfg p (tpArguments (clParams c0)) m" and "tenant_passed cfg c0 m" and "call_kept c0 c'"
proof -
  let ?ew = "isEastWest cfg (tpName (clParams c0))"
  from assms obtain i w1 w2 w3 w4 w5 w6 w7 ew w8 w9 w10 w11 w12 w13 w14 c1 where st:
    "deceptionStage cfg env c0 w = (Inr (), w1)" "capabilityStage cfg env c0 w1 = (Inr (), w2)"
    "intentStage cfg env c0 ?ew w2 = (Inr i, w3)" "taskStage cfg env (c0\<lparr>clInt := i\<rparr>) w3 = (Inr (), w4)"
    "provenanceStage cfg env (c0\<lparr>clInt := i\<rparr>) w4 = (Inr (), w5)"
    "bundleStage cfg env (c0\<lparr>clInt := i\<rparr>) w5 = (Inr (), w6)"
    "actionGuardStage cfg env (c0\<lparr>clInt := i\<rparr>) w6 = (Inr (), w7)"
    "refVerifyStage cfg env (c0\<lparr>clInt := i\<rparr>) w7 = (Inr (), w8)"
    "eastWestStage cfg env (c0\<lparr>clInt := i\<rparr>) w8 = (Inr ew, w9)"
    "zoneScopeStage cfg env (c0\<lparr>clInt := i\<rparr>) ew w9 = (Inr (), w10)"
    "policyStage cfg env (c0\<lparr>clInt := i\<rparr>) w10 = (Inr p, w11)"
    "escalateStage cfg env (c0\<lparr>clInt := i\<rparr>) p w11 = (Inr (), w12)"
    "budgetStage cfg env (c0\<lparr>clInt := i\<rparr>) w12 = (Inr (), w13)"
    "requestPIIStage cfg env (c0\<lparr>clInt := i\<rparr>) p w13 = (Inr c1, w14)"
    "tenantScopeStage cfg env c1 p w14 = (Inr c', w')"
    unfolding authorize_def Let_def and_then_Inr by (auto 0 0)
  note w12 = deception_passed [OF st(1)] capability_passed [OF st(2)]
  have w2: "w2 = w" and w5: "w5 = w4" and w10: "w10 = w8"
    using w12 provenance_passed [OF st(5)] segment_store(1) [OF st(9)] segment_store(2) [OF st(10)] by simp_all
  have guard: "wGuard w6 = wGuard w"
    using w12 sessions.quiet_intentStage [of cfg env c0 ?ew] sessions.quiet_front(3,4,5) [of cfg env "c0\<lparr>clInt := i\<rparr>"]
      st(3-6) unfolding quiet_def same_guard_def by (metis snd_conv)
  have k1: "call_kept c0 c1" using pii_passed [OF st(14)] by (simp add: call_kept_def)
  have kept: "call_kept c0 c'" using call_kept_trans [OF k1] tenant_passed_step [OF st(15)] by blast
  obtain s where s: "runBudgetCheck cfg (clCap c0) (wStore w12) = (Inr s, wStore w13)"
    using budget_passed [OF st(13)] by auto
  have m: "request_filtered cfg p (tpArguments (clParams c0)) (tpArguments (clParams c1))"
    "tenant_passed cfg c0 (tpArguments (clParams c1))"
    using filter_passed [OF st(14)] conjunct2 [OF tenant_passed_step [OF st(15)], unfolded tenant_passed_kept [OF k1]]
    by simp_all
  have pv: "\<exists>pv. runProvenanceCheck cfg env (hProvenance (clHttp c0)) (cap_jti (clCap c0)) = Inr pv"
    using provenance_passed [OF st(5)] by simp
  show thesis
    by (rule that [OF conjunct2 [OF w12(2)] conjunct2 [OF w12(1)] intent_ok_stage [OF st(3), unfolded w2]
          task_stage_passed [OF st(4)] pv bundle_stage_passed [OF st(6), unfolded w5]
          guard_stage_passed [OF st(7), unfolded guard] refverify_stage_passed [OF st(8)]
          segment_stages_passed [OF st(9,10)] policy_stages_passed [OF st(11,12), unfolded w10] s m kept])
qed

subsection \<open>The forward\<close>

lemma kept_isolator: "kept w w1 \<Longrightarrow> kept w (w1\<lparr>wIsolator := i\<rparr>)"
  by (simp add: kept_def)

lemma up_block_kept: "quiet kept (up_block cfg env c s chk reason n code msg d)"
  by (auto simp: quiet_def up_block_def intro: trail.kept_rules)

lemma up_note_kept: "kept w w1 \<Longrightarrow> kept w (up_note cfg env c s chk reason n w1)"
  by (auto simp: up_note_def intro: trail.kept_rules)

lemmas forward_rules = trail.kept_rules trail.quiet_basic up_block_kept up_note_kept kept_isolator

lemma quiet_acquire: "quiet kept (acquireStage cfg env c s)"
  unfolding acquireStage_def Let_def
  by (rule quietI) (auto intro!: forward_rules split: option.splits prod.splits)

lemma quiet_responsePII: "quiet kept (responsePIIStage cfg env c s ov n parsed)"
  unfolding responsePIIStage_def Let_def
  by (rule quietI) (auto intro!: forward_rules split: option.splits prod.splits)

lemma quiet_outputSchema: "quiet kept (outputSchemaStage cfg env c s n parsed)"
  unfolding outputSchemaStage_def Let_def
  by (rule quietI) (auto intro!: forward_rules split: option.splits prod.splits OsAction.splits)

lemma deliver_kept: "kept w (snd (deliver cfg env c s u parsed w))"
  by (auto simp: deliver_def Let_def intro!: forward_rules split: option.splits prod.splits)

lemma upstream_sends:
  "wForwards (snd (upstreamStage cfg env c s up body w)) = wForwards w @ [(body, cfCredentials cfg (tpName (clParams c)))]"
  by (auto simp: upstreamStage_def send_def up_block_def emitAudit_def go_on_def Let_def
      split: prod.splits sum.splits option.splits)

lemma quiet_forwards: "quiet kept m \<Longrightarrow> m w = (r, w') \<Longrightarrow> wForwards w' = wForwards w"
  unfolding quiet_def kept_def by (metis snd_conv)

lemma quiet_response: "quiet kept (responseStages cfg env c p x)"
  by (cases x) (auto simp: responseStages_def intro!: quiet_responsePII quiet_outputSchema trail.quiet_basic)

lemma finish_kept:
  assumes "finish r k = (rep, w')" and "\<And>a u. kept u (snd (k a u))"
  shows "kept (snd r) w'"
  using assms by (cases r; cases "fst r") (auto simp: finish_def trail.rel_refl, metis snd_conv)

text \<open>From the upstream's answer on, nothing more is sent.\<close>

lemma answered_once:
  assumes "finish (and_then (upstreamStage cfg env c s up body) (responseStages cfg env c p) w)
      (\<lambda>(u, parsed). deliver cfg env c s u parsed) = (rep, w')"
  shows "wForwards w' = wForwards w @ [(body, cfCredentials cfg (tpName (clParams c)))]"
proof -
  let ?m = "and_then (upstreamStage cfg env c s up body) (responseStages cfg env c p)"
  have "wForwards w' = wForwards (snd (?m w))"
    using finish_kept [OF assms] deliver_kept by (fastforce simp: kept_def case_prod_unfold)
  also have "\<dots> = wForwards (snd (upstreamStage cfg env c s up body w))"
    using quiet_response [of cfg env c p]
    by (auto simp: and_then_def quiet_def kept_def split: prod.splits sum.splits)
  finally show ?thesis by (simp add: upstream_sends)
qed

lemma acquire_passed: "acquireStage cfg env c s w = (Inr x, w') \<Longrightarrow> isolator_passed cfg env (tpName (clParams c)) (wIsolator w)"
  by (auto simp: acquireStage_def isolator_passed_def up_block_def Let_def split: option.splits prod.splits)

text \<open>What is sent is the request as it was received, with the credential of the tool, and at most once.\<close>

lemma forward_sends:
  assumes "forwardToUpstream cfg env up c p w = (rep, w')"
  shows "wForwards w' = wForwards w \<or>
    (\<exists>body. eMarshalRequest env (clReq c) = Inr body \<and> isolator_passed cfg env (tpName (clParams c)) (wIsolator w)
       \<and> wForwards w' = wForwards w @ [(body, cfCredentials cfg (tpName (clParams c)))])"
proof (cases "eMarshalRequest env (clReq c)")
  case (Inl e)
  with assms show ?thesis by (auto simp: forwardToUpstream_def finish_def up_block_def emitAudit_def)
next
  case (Inr body)
  obtain r1 w1 where a: "acquireStage cfg env c (prcStepUp p) w = (r1, w1)" by fastforce
  note f1 = quiet_forwards [OF quiet_acquire a]
  show ?thesis
  proof (cases r1)
    case (Inl resp)
    with assms Inr a f1 show ?thesis by (simp add: forwardToUpstream_def finish_def and_then_def)
  next
    case (Inr x)
    with assms \<open>eMarshalRequest env (clReq c) = Inr body\<close> a
    have "finish (and_then (upstreamStage cfg env c (prcStepUp p) up body) (responseStages cfg env c p) w1)
        (\<lambda>(u, parsed). deliver cfg env c (prcStepUp p) u parsed) = (rep, w')"
      by (simp add: forwardToUpstream_def and_then_def Let_def)
    from answered_once [OF this] f1 \<open>eMarshalRequest env (clReq c) = Inr body\<close> acquire_passed [OF a [unfolded Inr]]
    show ?thesis by simp
  qed
qed

subsection \<open>Complete mediation\<close>

text \<open>The call the capability check makes of a request.\<close>

definition received :: "'st MCPHandlerConfig \<Rightarrow> env \<Rightarrow> HttpRequest \<Rightarrow> Request \<Rightarrow> ToolCallParams \<Rightarrow> 'st \<Rightarrow> call" where
  "received cfg env r req params st =
     \<lparr>clHttp = r, clReq = req, clParams = params,
      clCap = runCapabilityCheck cfg env r (tpName params) (isEastWest cfg (tpName params)) st, clInt = noIntent\<rparr>"

lemma received_simps [simp]:
  "clHttp (received cfg env r req params st) = r" "clReq (received cfg env r req params st) = req"
  "clParams (received cfg env r req params st) = params"
  by (simp_all add: received_def)

lemma clInt_irrelevant [simp]:
  "decoyInput env (c\<lparr>clInt := i\<rparr>) = decoyInput env c" "call_kept (c\<lparr>clInt := i\<rparr>) c' \<longleftrightarrow> call_kept c c'"
  by (simp_all add: decoyInput_def call_kept_def)

lemma forwarded_call:
  assumes h: "handleToolsCall cfg env r req w = (rep, w')" and f: "wForwards w' \<noteq> wForwards w"
  obtains params c' p u body where "eParams env (rqParams req) = Inr params"
    and "authorize cfg env (received cfg env r req params (wStore w)) w = (Inr (c', p), u)"
    and "eMarshalRequest env req = Inr body"
    and "wForwards w' = wForwards w @ [(body, cfCredentials cfg (tpName params))]"
    and "isolator_passed cfg env (tpName params) (wIsolator w)"
proof (cases "eParams env (rqParams req)")
  case (Inl e)
  with h f show ?thesis by (simp add: handleToolsCall_def)
next
  case (Inr params)
  let ?c = "received cfg env r req params (wStore w)"
  have name: "tpName params \<noteq> []" using h f Inr by (auto simp: handleToolsCall_def)
  obtain res u where a: "authorize cfg env ?c w = (res, u)" by fastforce
  have fu: "wForwards u = wForwards w" using quiet_forwards [OF trail.quiet_authorize a] .
  from h Inr name a have fin: "finish (res, u) (\<lambda>(c', p).
      case cfUpstream cfg of None \<Rightarrow> stubAllow cfg env c' p | Some up \<Rightarrow> forwardToUpstream cfg env up c' p) = (rep, w')"
    by (simp add: handleToolsCall_def received_def Let_def)
  with f fu obtain c' p where res: "res = Inr (c', p)" by (auto simp: finish_def split: sum.splits)
  have kept: "call_kept ?c c'" using authorize_passed [OF a [unfolded res]] by blast
  from fin res f fu obtain up where up: "forwardToUpstream cfg env up c' p u = (rep, w')"
    by (auto simp: finish_def stubAllow_def Let_def emitAudit_def split: option.splits)
  from forward_sends [OF up] f fu kept obtain body where
    "eMarshalRequest env req = Inr body" "wForwards w' = wForwards w @ [(body, cfCredentials cfg (tpName params))]"
    "isolator_passed cfg env (tpName params) (wIsolator u)"
    by (auto simp: call_kept_def received_def)
  moreover have "wIsolator u = wIsolator w"
    using isolators.quiet_authorize [of cfg env ?c] a unfolding quiet_def same_isolator_def by (metis snd_conv)
  ultimately show ?thesis using that Inr a res by simp
qed

text \<open>What the capability check has established when it reports no error.\<close>

lemma capability_ok:
  assumes "crErr (runCapabilityCheck cfg env r tool ew st) = None"
  shows "(runCapabilityCheck cfg env r tool ew st =
        \<lparr>crAgentID = [], crSummary = ''skipped (no token)'', crToken = None, crUser = None, crErr = None\<rparr>
      \<and> \<not> cfRequireCapability cfg \<and> FromAuthorizationHeader (hAuthorization r) = Inr [])
    \<or> (\<exists>text tok. crToken (runCapabilityCheck cfg env r tool ew st) = Some tok
      \<and> crAgentID (runCapabilityCheck cfg env r tool ew st) = tkSubject tok
      \<and> FromAuthorizationHeader (hAuthorization r) = Inr text \<and> Decode (eToken env) text = Inr tok
      \<and> Verify (eHmac env) tok (cfMasterKey cfg) = None
      \<and> kill_check (cfKillSwitch cfg) tok st = None \<and> revocation_check (cfRevocation cfg) tok st = None
      \<and> cap_Check tok (call_context tok tool ew) (eClock env AtCaveats) = None)"
  using assms unfolding runCapabilityCheck_def
  by (simp add: cap_fail_def split: sum.split_asm if_split_asm option.split_asm)

end
