(* ===== verification/Trail.thy ===== *)
theory Trail
  imports Mediation
begin

text \<open>
  The audit trail of the pipeline: every answered \<open>tools/call\<close> leaves an event of its own as the last one, and
  the decision on it agrees with what the caller was told, in each direction: a block with an error of the gateway, an
  escalation with the synthetic answer of a decoy or with a parked call's id, an allow with the stub's answer or the
  upstream's. \<open>recorded\<close> states this of a step that ends the call, \<open>accounted\<close> of the whole call.
\<close>

named_theorems recorded_intros \<open>steps whose early returns are on the audit trail\<close>

text \<open>The audit trail only grows.\<close>

definition grown :: "'st world \<Rightarrow> 'st world \<Rightarrow> bool" where
  "grown w w' \<longleftrightarrow> prefix (wAudit w) (wAudit w')"

interpretation growth: guard_frame grown
  by unfold_locales (auto simp: grown_def intro: prefix_order.order_trans)

definition names_call :: "call \<Rightarrow> Event \<Rightarrow> bool" where
  "names_call c e \<longleftrightarrow> evTool e = tpName (clParams c) \<and> evAgentID e = crAgentID (clCap c)
     \<and> evCapabilityTokenID e = cap_jti (clCap c) \<and> evTenant e = cap_tenant (clCap c)"

definition refusal :: "Response \<Rightarrow> bool" where
  "refusal r \<longleftrightarrow> rpResult r = None \<and> rpError r \<noteq> None"

definition pending_reply :: "Response \<Rightarrow> bool" where
  "pending_reply r \<longleftrightarrow> (\<exists>e. rpError r = Some e \<and> reCode e = CodeApprovalPending)"

text \<open>An answer that carries a result and no error.\<close>

definition served :: "Response \<Rightarrow> bool" where
  "served r \<longleftrightarrow> rpResult r \<noteq> None \<and> rpError r = None"

text \<open>
  The last event \<open>e\<close> of a call that ended early agrees with the answer: a block goes with a refusal; an escalation goes
  with the synthetic result of a decoy, or with the answer that the call is parked, under the id both carry.
\<close>

definition early_agrees :: "Event \<Rightarrow> Response \<Rightarrow> bool" where
  "early_agrees e r \<longleftrightarrow>
     evDecision e = DecisionBlock \<and> refusal r
     \<or> evDecision e = DecisionEscalate \<and> evCheck e = CheckDeception \<and> served r
     \<or> evDecision e = DecisionEscalate \<and> pending_reply r
        \<and> (\<exists>row x. rpError r = Some x \<and> reData x = Some (pending_data row) \<and> prPendingID row = evPendingID e)"

definition ends_with :: "call \<Rightarrow> Response \<Rightarrow> 'st world \<Rightarrow> 'st world \<Rightarrow> bool" where
  "ends_with c r w w' \<longleftrightarrow> (\<exists>es e. wAudit w' = wAudit w @ es @ [e] \<and> names_call c e \<and> early_agrees e r)"

text \<open>A retry with the id of a parked call that is still pending: it is told so, and leaves no event of its own.\<close>

definition polled :: "call \<Rightarrow> Response \<Rightarrow> bool" where
  "polled c r \<longleftrightarrow> pending_reply r \<and> trim_space (hApprovalId (clHttp c)) \<noteq> []"

text \<open>A step that ends the call leaves its event, unless the answer is one of the excused ones \<open>P\<close>.\<close>

definition told :: "(Response \<Rightarrow> bool) \<Rightarrow> call \<Rightarrow> 'st world \<Rightarrow> (Response + 'a) \<times> 'st world \<Rightarrow> bool" where
  "told P c w res \<longleftrightarrow> (case res of (Inl r, w') \<Rightarrow> ends_with c r w w' \<or> P r | (Inr _, _) \<Rightarrow> True)"

definition recorded :: "(Response \<Rightarrow> bool) \<Rightarrow> call \<Rightarrow> ('a, 'st) step \<Rightarrow> bool" where
  "recorded P c m \<longleftrightarrow> (\<forall>w. told P c w (m w))"

lemma recordedI: "(\<And>w. told P c w (m w)) \<Longrightarrow> recorded P c m"
  by (simp add: recorded_def)

lemma told_simps [simp]:
  "told P c w (Inr a, w')" "told P c w (Inl r, w') \<longleftrightarrow> ends_with c r w w' \<or> P r" "told P c w (go_on a w1)"
  by (simp_all add: told_def go_on_def)

lemma ends_with_later: "ends_with c r w1 w' \<Longrightarrow> grown w w1 \<Longrightarrow> ends_with c r w w'"
  unfolding ends_with_def grown_def prefix_def by (metis append.assoc)

text \<open>A recorded step run from a world the trail has only grown in.\<close>

lemma told_step [recorded_intros]: "recorded P c m \<Longrightarrow> grown w w1 \<Longrightarrow> told P c w (m w1)"
  unfolding recorded_def told_def by (auto split: prod.splits sum.splits dest: ends_with_later) (metis ends_with_later)

lemma recorded_kept:
  fixes m :: "('a, 'b) step"
  assumes "call_kept c c'" and "recorded P c' m"
  shows "recorded P c m"
proof -
  have "names_call c' = names_call c" using assms(1) by (intro ext) (simp add: names_call_def call_kept_def)
  then have "ends_with c' r w w' = ends_with c r w w'" for r and w w' :: "'b world" by (simp add: ends_with_def)
  then have "told P c' w res = told P c w res" for w :: "'b world" and res :: "(Response + 'a) \<times> 'b world"
    by (cases res; cases "fst res") auto
  with assms(2) show ?thesis by (simp add: recorded_def)
qed

lemma polled_kept: "call_kept c c' \<Longrightarrow> polled c' = polled c"
  by (intro ext) (simp add: polled_def call_kept_def)

lemma recorded_go_on [recorded_intros]: "recorded P c (go_on a)"
  by (simp add: recorded_def)

lemma recorded_and_then:
  assumes "recorded P c m" and "quiet grown m" and "\<And>a w w'. m w = (Inr a, w') \<Longrightarrow> recorded P c (f a)"
  shows "recorded P c (and_then m f)"
proof (rule recordedI)
  fix w
  obtain x w1 where x: "m w = (x, w1)" by fastforce
  have kept: "grown w w1" using assms(2) x unfolding quiet_def by (metis snd_conv)
  show "told P c w (and_then m f w)"
  proof (cases x)
    case (Inl y)
    with assms(1) x show ?thesis by (auto simp: and_then_def recorded_def dest: spec [of _ w])
  next
    case (Inr a)
    with x have "recorded P c (f a)" using assms(3) by blast
    from told_step [OF this kept] x Inr show ?thesis by (simp add: and_then_def)
  qed
qed

subsection \<open>Events\<close>

lemma call_event_names:
  "names_call c (call_event cfg env c d chk reason n)" "evDecision (call_event cfg env c d chk reason n) = d"
  by (simp_all add: names_call_def call_event_def NewEvent_def)

lemma option_names [simp]:
  "names_call c (withRequiresStepUp s e) \<longleftrightarrow> names_call c e" "evDecision (withRequiresStepUp s e) = evDecision e"
  by (simp_all add: withRequiresStepUp_def names_call_def)

lemma update_names [simp]:
  "names_call c (e\<lparr>evUpstreamStatus := n\<rparr>) \<longleftrightarrow> names_call c e"
  "names_call c (e\<lparr>evPendingID := p, evDecidedBy := db\<rparr>) \<longleftrightarrow> names_call c e"
  by (simp_all add: names_call_def)

lemma refusal_fail [simp]: "refusal (fail_call c code msg d)"
  by (simp add: refusal_def fail_call_def NewErrorResponse_def)

lemma option_fields [simp]:
  "evCheck (withRequiresStepUp s e) = evCheck e" "evPendingID (withRequiresStepUp s e) = evPendingID e"
  by (simp_all add: withRequiresStepUp_def)

lemma call_event_check [simp]: "evCheck (call_event cfg env c d chk reason n) = chk"
  by (simp add: call_event_def)

lemma ends_with_block:
  "ends_with c (fail_call c code msg d) w (emitAudit cfg env c DecisionBlock chk reason n (withRequiresStepUp s) w)"
  "ends_with c (fail_call c code msg d) w
     (emitApprovalAudit cfg env c DecisionBlock chk reason pid db (withRequiresStepUp s) w)"
  by (auto simp: ends_with_def early_agrees_def emitAudit_def emitApprovalAudit_def emit_def call_event_names
      intro!: exI [of _ "[]"])

lemma ends_with_decoy:
  "ends_with c (NewResultResponse rid enc) w (emitAudit cfg env c DecisionEscalate CheckDeception reason n id w)"
  by (auto simp: ends_with_def early_agrees_def served_def NewResultResponse_def emitAudit_def emit_def call_event_names
      intro!: exI [of _ "[]"])

lemma ends_with_parked:
  "ends_with c (fail_call c CodeApprovalPending msg (Some (pending_data row))) w
     (emitApprovalAudit cfg env c DecisionEscalate chk reason (prPendingID row) db (withRequiresStepUp s) w)"
  by (auto simp: ends_with_def early_agrees_def pending_reply_def fail_call_def NewErrorResponse_def
      emitApprovalAudit_def emit_def call_event_names intro!: exI [of _ "[]"])

lemma recorded_block [recorded_intros]:
  "recorded P c (block cfg env c chk reason s code msg d)" "recorded P c (approval_block cfg env c chk s pid db msg reason)"
  "recorded P c (up_block cfg env c s chk reason n code msg d)"
  by (auto simp: recorded_def block_def approval_block_def up_block_def ends_with_block)

lemma recorded_allow [recorded_intros]: "recorded P c (approval_allow cfg env c chk s pid row)"
  by (simp add: recorded_def approval_allow_def)

lemma pending_fail [simp]: "pending_reply (fail_call c CodeApprovalPending msg d)"
  by (simp add: pending_reply_def fail_call_def NewErrorResponse_def)

subsection \<open>The stages\<close>

text \<open>A step that first lets the trail grow and then runs a recorded step.\<close>

lemma recorded_waited [recorded_intros]: "recorded P c (waited cfg env c chk s t pid res)"
  by (auto simp: waited_def intro: recorded_intros split: sum.splits ApprovalStatus.splits)

lemma recorded_resume [recorded_intros]:
  "trim_space (hApprovalId (clHttp c)) \<noteq> [] \<Longrightarrow> recorded (polled c) c (resumeApproval cfg env c q chk s rid)"
  unfolding resumeApproval_def
  by (rule recordedI) (auto simp: polled_def intro: recorded_intros growth.kept_rules split: sum.splits ApprovalStatus.splits)

lemmas trail_intros = recorded_intros growth.kept_rules

lemma recorded_approvalFlow [recorded_intros]: "recorded (polled c) c (runApprovalFlow cfg env c chk reason s)"
  unfolding runApprovalFlow_def Let_def
  by (rule recordedI)
    (auto intro!: recorded_intros growth.kept_rules ends_with_later [OF ends_with_parked growth.rel_store]
      split: option.splits prod.splits sum.splits)

lemma recorded_front:
  "recorded (polled c) c (deceptionStage cfg env c)" "recorded (polled c) c (capabilityStage cfg env c)" "recorded (polled c) c (taskStage cfg env c)"
  "recorded (polled c) c (provenanceStage cfg env c)" "recorded (polled c) c (bundleStage cfg env c)" "recorded (polled c) c (refVerifyStage cfg env c)"
  subgoal unfolding deceptionStage_def
    by (rule recordedI) (auto intro!: recorded_intros growth.kept_rules ends_with_decoy split: option.splits)
  subgoal unfolding capabilityStage_def by (auto intro!: recorded_intros split: option.splits)
  subgoal unfolding taskStage_def Let_def
    by (rule recordedI) (auto intro!: recorded_intros growth.kept_rules split: option.splits prod.splits Outcome.splits)
  subgoal unfolding provenanceStage_def by (auto intro!: recorded_intros split: sum.splits)
  subgoal unfolding bundleStage_def emit_proof_def Let_def
    by (rule recordedI)
      (auto intro!: recorded_intros growth.kept_rules split: option.splits prod.splits BundleDecision.splits)
  subgoal unfolding refVerifyStage_def Let_def
    by (auto intro!: recorded_intros split: option.splits RvVerdict.splits)
  done

lemma recorded_actionGuard: "recorded (polled c) c (actionGuardStage cfg env c)"
  unfolding actionGuardStage_def Let_def
  by (rule recordedI)
    (auto intro!: recorded_intros growth.rel_guard split: option.splits prod.splits AgVerdict.splits)

lemma recorded_intent: "recorded (polled c) c (intentStage cfg env c ew)"
proof (rule recordedI)
  fix w
  obtain i w1 where i: "runIntentCheck cfg env (clHttp c) (tpName (clParams c)) (crAgentID (clCap c)) w = (i, w1)"
    by fastforce
  then have "grown w w1" using growth.kept_runIntentCheck by (metis snd_conv)
  moreover have "recorded (polled c) c (block cfg env (c\<lparr>clInt := i\<rparr>) chk reason s code msg d)" for chk reason s code msg d
    by (rule recorded_kept [OF _ recorded_block(1)]) (simp add: call_kept_def)
  ultimately show "told (polled c) c w (intentStage cfg env c ew w)"
    by (auto simp: intentStage_def i intro!: told_step split: option.splits)
qed

lemma recorded_back:
  "recorded (polled c) c (eastWestStage cfg env c)" "recorded (polled c) c (zoneScopeStage cfg env c ew)" "recorded (polled c) c (policyStage cfg env c)"
  "recorded (polled c) c (escalateStage cfg env c p)" "recorded (polled c) c (budgetStage cfg env c)"
  subgoal unfolding eastWestStage_def Let_def by (auto intro!: recorded_intros split: option.splits)
  subgoal unfolding zoneScopeStage_def Let_def by (auto intro!: recorded_intros split: option.splits)
  subgoal unfolding policyStage_def Let_def
    by (rule recordedI) (auto simp: block_def ends_with_block split: option.splits)
  subgoal unfolding escalateStage_def by (auto intro!: recorded_intros)
  subgoal unfolding budgetStage_def
    by (rule recordedI) (auto intro!: recorded_intros growth.kept_rules split: prod.splits sum.splits)
  done

lemma recorded_set_args: "recorded (polled c) c (block cfg env (set_args m c) chk reason s code msg d)"
  by (rule recorded_kept [OF _ recorded_block(1)]) simp

lemma recorded_args:
  "recorded (polled c) c (requestPIIStage cfg env c p)" "recorded (polled c) c (tenantScopeStage cfg env c p)"
  subgoal unfolding requestPIIStage_def Let_def
    by (rule recordedI) (auto intro!: told_step recorded_set_args growth.kept_rules
        split: option.splits prod.splits list.splits)
  subgoal unfolding tenantScopeStage_def Let_def
    by (rule recordedI) (auto intro!: told_step recorded_set_args growth.kept_rules split: option.splits prod.splits)
  done

lemma recorded_authorize: "recorded (polled c) c (authorize cfg env c)"
proof -
  have int: "recorded (polled c) c m" if "recorded (polled (c\<lparr>clInt := i\<rparr>)) (c\<lparr>clInt := i\<rparr>) m" for i and m :: "('b, 'a) step"
    using that polled_kept [of c "c\<lparr>clInt := i\<rparr>"] recorded_kept [of c "c\<lparr>clInt := i\<rparr>"] by (simp add: call_kept_def)
  have args: "recorded (polled c) c (tenantScopeStage cfg env c1 p)"
    if "requestPIIStage cfg env (c\<lparr>clInt := i\<rparr>) p w = (Inr c1, w')" for c1 i p w w'
  proof -
    have k: "call_kept c c1" using pii_passed [OF that] by (simp add: call_kept_def)
    from recorded_kept [OF k recorded_args(2)] show ?thesis by (simp add: polled_kept [OF k])
  qed
  show ?thesis
    unfolding authorize_def Let_def
    by (intro recorded_and_then recorded_go_on recorded_intent int [OF recorded_front(3)] int [OF recorded_front(4)]
        int [OF recorded_front(5)] int [OF recorded_front(6)] int [OF recorded_actionGuard] int [OF recorded_back(1)]
        int [OF recorded_back(2)] int [OF recorded_back(3)] int [OF recorded_back(4)] int [OF recorded_back(5)]
        int [OF recorded_args(1)] recorded_front(1,2) growth.quiet_front growth.quiet_back growth.quiet_intentStage
        growth.quiet_actionGuard)
      (rule args)
qed

subsection \<open>The forward and the whole call\<close>

text \<open>
  An allow goes with the answer of the stub, when no upstream is configured, and otherwise with the answer of the
  upstream to this call's one forward: the same id and the same error or lack of one, a result exactly if there was one,
  and the status on the event.
\<close>

definition delivered :: "'st MCPHandlerConfig \<Rightarrow> env \<Rightarrow> call \<Rightarrow> Event \<Rightarrow> Response \<Rightarrow> 'st world \<Rightarrow> 'st world \<Rightarrow> bool" where
  "delivered cfg env c e r w w' \<longleftrightarrow>
     (case cfUpstream cfg of
        None \<Rightarrow> served r \<and> wForwards w' = wForwards w
      | Some up \<Rightarrow>
          (\<exists>body st u st' parsed. wForwards w' = wForwards w @ [(body, cfCredentials cfg (tpName (clParams c)))]
             \<and> up body (cfCredentials cfg (tpName (clParams c))) st = (Inr u, st') \<and> eResponse env (urBody u) = Inr parsed
             \<and> evUpstreamStatus e = urStatus u \<and> rpID r = rpID parsed \<and> rpError r = rpError parsed
             \<and> (rpResult r = None \<longleftrightarrow> rpResult parsed = None)))"

text \<open>
  An answered call: the trail ends with an event of the call, and its decision is what the caller was told. Only a poll
  of a call that is still pending may leave none, and it is not forwarded.
\<close>

definition accounted :: "'st MCPHandlerConfig \<Rightarrow> env \<Rightarrow> call \<Rightarrow> Response \<Rightarrow> 'st world \<Rightarrow> 'st world \<Rightarrow> bool" where
  "accounted cfg env c r w w' \<longleftrightarrow> polled c r \<and> kept w w' \<or> (\<exists>es e. wAudit w' = wAudit w @ es @ [e] \<and> names_call c e
     \<and> (early_agrees e r \<or> evDecision e = DecisionAllow \<and> delivered cfg env c e r w w'))"

lemma told_accounted:
  "told P c w (Inl r, w') \<Longrightarrow> (P r \<Longrightarrow> polled c r \<and> kept w w') \<Longrightarrow> accounted cfg env c r w w'"
  by (auto simp: accounted_def ends_with_def)

lemma accounted_later:
  assumes "accounted cfg env c r w1 w'" "kept w w1"
  shows "accounted cfg env c r w w'"
proof -
  have f: "wForwards w1 = wForwards w" using assms(2) by (simp add: kept_def)
  have "delivered cfg env c e r w w' = delivered cfg env c e r w1 w'" for e
    unfolding delivered_def f by (rule refl)
  moreover obtain fs where "wAudit w1 = wAudit w @ fs" using assms(2) by (auto simp: kept_def prefix_def)
  moreover have "kept w w'" if "kept w1 w'" using assms(2) that by (rule trail.rel_trans)
  ultimately show ?thesis using assms(1) unfolding accounted_def by (metis append.assoc)
qed

lemma accounted_kept: "call_kept c c' \<Longrightarrow> accounted cfg env c' r w w' \<Longrightarrow> accounted cfg env c r w w'"
  unfolding accounted_def delivered_def polled_def names_call_def call_kept_def by (elim conjE) (simp only:)

lemma accounted_allow:
  assumes "\<And>e. names_call c (f e) \<longleftrightarrow> names_call c e" and "\<And>e. evDecision (f e) = evDecision e"
    and "\<And>e. evUpstreamStatus (f e) = evUpstreamStatus e"
    and "\<And>e. evUpstreamStatus e = n \<Longrightarrow> delivered cfg env c e r w0 (emitAudit cfg env c DecisionAllow chk reason n f w)"
    and "grown w0 w"
  shows "accounted cfg env c r w0 (emitAudit cfg env c DecisionAllow chk reason n f w)"
proof -
  from assms(5) obtain fs where "wAudit w = wAudit w0 @ fs" by (auto simp: grown_def prefix_def)
  moreover define e where "e = f ((call_event cfg env c DecisionAllow chk reason (length (wAudit w)))\<lparr>evUpstreamStatus := n\<rparr>)"
  ultimately have "wAudit (emitAudit cfg env c DecisionAllow chk reason n f w) = wAudit w0 @ fs @ [e]"
    by (simp add: emitAudit_def)
  moreover have "names_call c e" "evDecision e = DecisionAllow" "evUpstreamStatus e = n"
    by (simp_all add: e_def assms(1-3) call_event_names)
  ultimately show ?thesis using assms(4) unfolding accounted_def by blast
qed

lemma capture_names:
  "names_call c (fst (capturePayload cfg env c' raw d st) e) \<longleftrightarrow> names_call c e"
  "evDecision (fst (capturePayload cfg env c' raw d st) e) = evDecision e"
  "evUpstreamStatus (fst (capturePayload cfg env c' raw d st) e) = evUpstreamStatus e"
  by (auto simp: capturePayload_def names_call_def Let_def split: option.splits prod.splits)

lemma withEventID_names [simp]:
  "names_call c (withEventID i e) \<longleftrightarrow> names_call c e" "evDecision (withEventID i e) = evDecision e"
  "evUpstreamStatus (withEventID i e) = evUpstreamStatus e" "evUpstreamStatus (withRequiresStepUp s e) = evUpstreamStatus e"
  by (simp_all add: withEventID_def withRequiresStepUp_def names_call_def)

text \<open>What \<open>deliver\<close> answers and writes, for a call whose forward is already on record.\<close>

lemma deliver_accounted:
  assumes "deliver cfg env c s u parsed w = (Reply r, w')" and "grown w0 w" and "cfUpstream cfg = Some up"
    and "wForwards w = wForwards w0 @ [(body, cfCredentials cfg (tpName (clParams c)))]"
    and "up body (cfCredentials cfg (tpName (clParams c))) st = (Inr u, st')" "eResponse env (urBody u) = Inr first"
    and "rpID parsed = rpID first" "rpError parsed = rpError first" "rpResult parsed = None \<longleftrightarrow> rpResult first = None"
  shows "accounted cfg env c r w0 w'"
proof -
  define meta where "meta = \<lparr>imDecision = ''allow'', imReason = ''forwarded'', imCheck = [],
      imLatencyMS = eLatency env (length (wAudit w))\<rparr>"
  define inj where "inj = (case rpResult parsed of None \<Rightarrow> Some None
      | Some result \<Rightarrow> map_option Some (injectIntentGateMetadata env result meta))"
  note d = assms(1) [unfolded deliver_def Let_def, folded meta_def, folded inj_def]
  from d obtain x where x: "inj = Some x" by (cases inj) simp_all
  obtain a st1 where cap: "capturePayload cfg env c (urBody u) (parsed\<lparr>rpResult := x\<rparr>) (wStore w) = (a, st1)" by fastforce
  from d x cap have r: "r = parsed\<lparr>rpResult := x\<rparr>"
    and w': "w' = emitAudit cfg env c DecisionAllow CheckUpstream ''forwarded'' (urStatus u)
        (a \<circ> withEventID (eEventID env) \<circ> withRequiresStepUp s) (w\<lparr>wStore := st1\<rparr>)" by simp_all
  have none: "x = None \<longleftrightarrow> rpResult parsed = None" using x by (auto simp: inj_def split: option.splits)
  have a: "names_call c (a e) = names_call c e" "evDecision (a e) = evDecision e" "evUpstreamStatus (a e) = evUpstreamStatus e"
    for e using capture_names(1) [of c cfg env c "urBody u" "parsed\<lparr>rpResult := x\<rparr>" "wStore w" e]
      capture_names(2,3) [of cfg env c "urBody u" "parsed\<lparr>rpResult := x\<rparr>" "wStore w" e] by (simp_all add: cap)
  have g: "grown w0 (w\<lparr>wStore := st1\<rparr>)" using assms(2) by (rule growth.store_kept)
  have f: "wForwards w' = wForwards w0 @ [(body, cfCredentials cfg (tpName (clParams c)))]"
    using assms(4) by (simp add: w' emitAudit_def)
  have "delivered cfg env c e r w0 w'" if "evUpstreamStatus e = urStatus u" for e
    unfolding delivered_def assms(3) option.case
    using f assms(5,6) that by (intro exI [of _ body] exI [of _ st] exI [of _ u] exI [of _ st'] exI [of _ first])
      (simp add: r none assms(7-9))
  then show ?thesis unfolding w' by (intro accounted_allow g) (simp_all add: a)
qed

lemma response_keeps:
  assumes "responseStages cfg env c p (u, parsed) w = (Inr (u', parsed'), w')"
  shows "u' = u \<and> rpID parsed' = rpID parsed \<and> rpError parsed' = rpError parsed
    \<and> (rpResult parsed' = None \<longleftrightarrow> rpResult parsed = None)"
proof -
  from assms obtain q w1 where q: "responsePIIStage cfg env c (prcStepUp p) (prcPII p) (urStatus u) parsed w = (Inr q, w1)"
    "outputSchemaStage cfg env c (prcStepUp p) (urStatus u) q w1 = (Inr parsed', w')" "u' = u"
    by (auto simp: responseStages_def and_then_Inr)
  have "rpID q = rpID parsed \<and> rpError q = rpError parsed \<and> (rpResult q = None \<longleftrightarrow> rpResult parsed = None)"
    using q(1) by (auto simp: responsePIIStage_def up_block_def Let_def split: option.splits prod.splits if_splits)
  moreover have "rpID parsed' = rpID q \<and> rpError parsed' = rpError q \<and> (rpResult parsed' = None \<longleftrightarrow> rpResult q = None)"
    using q(2) by (auto simp: outputSchemaStage_def up_block_def Let_def
        split: option.splits prod.splits if_splits OsAction.splits)
  ultimately show ?thesis using q(3) by simp
qed

lemma upstream_answer:
  assumes "upstreamStage cfg env c s up body w = (Inr (u, parsed), w')"
  shows "\<exists>st st'. up body (cfCredentials cfg (tpName (clParams c))) st = (Inr u, st') \<and> eResponse env (urBody u) = Inr parsed"
  using assms
  by (auto simp: upstreamStage_def send_def up_block_def Let_def split: prod.splits sum.splits option.splits)

lemma quiet_grown: "quiet kept m \<Longrightarrow> quiet grown m"
  by (simp add: quiet_def kept_def grown_def)

lemma quiet_upstream: "quiet grown (upstreamStage cfg env c s up body)"
proof (rule quietI)
  fix w
  have send: "grown w (snd (send cfg env up (tpName (clParams c)) body w))"
    by (auto simp: send_def grown_def Let_def split: prod.splits sum.splits option.splits)
  then show "grown w (snd (upstreamStage cfg env c s up body w))"
    by (auto simp: upstreamStage_def intro!: growth.kept_rules growth.quiet_basic quiet_grown up_block_kept
        split: prod.splits sum.splits)
qed

text \<open>From the forward on, no answer is excused.\<close>

abbreviation nobody :: "Response \<Rightarrow> bool" where
  "nobody \<equiv> (\<lambda>_. False)"

lemma recorded_forward:
  "recorded nobody c (acquireStage cfg env c s)" "recorded nobody c (upstreamStage cfg env c s up body)"
  "recorded nobody c (responseStages cfg env c p x)"
proof -
  have i: "grown w (w\<lparr>wIsolator := i\<rparr>)" for w :: "'a world" and i by (simp add: grown_def)
  show "recorded nobody c (acquireStage cfg env c s)"
    unfolding acquireStage_def Let_def
    by (rule recordedI) (auto intro!: recorded_intros i split: option.splits prod.splits)
next
  show "recorded nobody c (upstreamStage cfg env c s up body)"
  proof (rule recordedI)
    fix w
    have send: "grown w (snd (send cfg env up (tpName (clParams c)) body w))"
      by (auto simp: send_def grown_def Let_def split: prod.splits sum.splits option.splits)
    then show "told nobody c w (upstreamStage cfg env c s up body w)"
      by (auto simp: upstreamStage_def intro!: recorded_intros split: prod.splits sum.splits)
  qed
next
  have "recorded nobody c (responsePIIStage cfg env c s ov n parsed)" for s ov n parsed
    unfolding responsePIIStage_def Let_def
    by (rule recordedI) (auto intro!: recorded_intros growth.kept_rules split: option.splits prod.splits)
  moreover have "recorded nobody c (outputSchemaStage cfg env c s n parsed)" for s n parsed
    unfolding outputSchemaStage_def Let_def
    by (rule recordedI) (auto intro!: recorded_intros growth.kept_rules split: option.splits prod.splits OsAction.splits)
  ultimately show "recorded nobody c (responseStages cfg env c p x)"
    unfolding responseStages_def
    by (cases x) (auto intro!: recorded_and_then recorded_go_on quiet_grown quiet_responsePII quiet_outputSchema)
qed

lemma finish_accounted:
  assumes "finish (m w) k = (Reply r, w')" and "recorded P c m" and "\<And>r u. m w = (Inl r, u) \<Longrightarrow> P r \<Longrightarrow> polled c r \<and> kept w u"
    and "\<And>a u r w'. m w = (Inr a, u) \<Longrightarrow> k a u = (Reply r, w') \<Longrightarrow> accounted cfg env c r w w'"
  shows "accounted cfg env c r w w'"
proof -
  obtain x u where x: "m w = (x, u)" by fastforce
  show ?thesis
  proof (cases x)
    case (Inl y)
    with assms(1) x have "m w = (Inl r, w')" by (simp add: finish_def)
    then show ?thesis using told_accounted [of P c w r w'] assms(2,3) unfolding recorded_def by metis
  next
    case (Inr a)
    with assms(1) x have "k a u = (Reply r, w')" by (simp add: finish_def)
    with assms(4) x Inr show ?thesis by simp
  qed
qed

lemma forward_accounted:
  assumes "forwardToUpstream cfg env up c p w = (Reply r, w')" and "cfUpstream cfg = Some up"
  shows "accounted cfg env c r w w'"
proof (cases "eMarshalRequest env (clReq c)")
  case (Inl e)
  with assms show ?thesis
    by (auto simp: forwardToUpstream_def finish_def up_block_def ends_with_block intro!: told_accounted [of nobody])
next
  case (Inr body)
  let ?m = "and_then (acquireStage cfg env c (prcStepUp p))
      (\<lambda>_. and_then (upstreamStage cfg env c (prcStepUp p) up body) (responseStages cfg env c p))"
  have rec: "recorded nobody c ?m"
    by (intro recorded_and_then recorded_forward quiet_grown quiet_acquire quiet_upstream)
  have fin: "finish (?m w) (\<lambda>(u, parsed). deliver cfg env c (prcStepUp p) u parsed) = (Reply r, w')"
    using assms(1) Inr by (simp add: forwardToUpstream_def Let_def)
  have "accounted cfg env c r2 w w2" if m: "?m w = (Inr (u, q), v)" and d: "deliver cfg env c (prcStepUp p) u q v = (Reply r2, w2)"
    for u q v r2 w2
  proof -
    from m obtain x wa u1 parsed wb where a: "acquireStage cfg env c (prcStepUp p) w = (Inr x, wa)"
      and b: "upstreamStage cfg env c (prcStepUp p) up body wa = (Inr (u1, parsed), wb)"
      and rs: "responseStages cfg env c p (u1, parsed) wb = (Inr (u, q), v)"
      by (auto simp: and_then_Inr)
    have "quiet grown ?m"
      by (intro growth.quiet_and_then quiet_grown quiet_acquire quiet_upstream quiet_response)
    then have "grown w (snd (?m w))" unfolding quiet_def by blast
    with m have g: "grown w v" by simp
    have "wForwards wa = wForwards w" "wForwards v = wForwards wb"
      using quiet_forwards [OF quiet_acquire a] quiet_forwards [OF quiet_response rs] by simp_all
    moreover have "wForwards wb = wForwards wa @ [(body, cfCredentials cfg (tpName (clParams c)))]"
      using upstream_sends [of cfg env c "prcStepUp p" up body wa] b by simp
    ultimately have f: "wForwards v = wForwards w @ [(body, cfCredentials cfg (tpName (clParams c)))]" by simp
    obtain st st' where up: "up body (cfCredentials cfg (tpName (clParams c))) st = (Inr u1, st')"
      "eResponse env (urBody u1) = Inr parsed" using upstream_answer [OF b] by blast
    have k: "u1 = u" "rpID q = rpID parsed" "rpError q = rpError parsed" "rpResult q = None \<longleftrightarrow> rpResult parsed = None"
      using response_keeps [OF rs] by simp_all
    show ?thesis by (rule deliver_accounted [OF d g assms(2) f up [unfolded k(1)] k(2-4)])
  qed
  then show ?thesis by (intro finish_accounted [OF fin rec]) auto
qed

lemma stub_accounted:
  assumes "cfUpstream cfg = None"
  shows "accounted cfg env c (NewResultResponse i enc) w
    (emitAudit cfg env c DecisionAllow chk reason n (withRequiresStepUp s) w)"
  using assms by (intro accounted_allow growth.rel_refl)
    (auto simp: delivered_def served_def NewResultResponse_def emitAudit_def)

end
