(* ===== verification/Backends.thy ===== *)
theory Backends
  imports Trail
begin

text \<open>
  The handler over the in-memory backends, as a gateway with no database runs: the interfaces the
  configuration holds, filled with the stores of the other theories. The locale \<open>containment\<close> is what the
  decoy stage relies on of the kill switch and the revocation store; the in-memory pair interprets it.
\<close>

record backends =
  bkKill :: KillStore
  bkRev :: RevocationStore
  bkBudget :: BudgetMemoryStore
  bkTasks :: TaskStore
  bkPayloads :: PayloadStore

definition mem_backends :: backends where
  "mem_backends = \<lparr>bkKill = kill_NewMemoryStore, bkRev = rev_NewMemoryStore, bkBudget = Map.empty, bkTasks = [],
     bkPayloads = pl_NewMemory\<rparr>"

definition mem_kill :: "backends KillSwitchI" where
  "mem_kill = \<lparr>kiActive = (\<lambda>b tenant agent. Inr (Active (bkKill b) tenant agent)),
     kiEngage = (\<lambda>now e b. b\<lparr>bkKill := snd (Engage now e (bkKill b))\<rparr>)\<rparr>"

definition mem_revocation :: "backends RevocationI" where
  "mem_revocation = \<lparr>riIsRevoked = (\<lambda>b jti tenant. Inr (IsRevoked (bkRev b) jti tenant)),
     riRevoke = (\<lambda>now jti reason tenant b. b\<lparr>bkRev := Revoke now jti reason tenant (bkRev b)\<rparr>)\<rparr>"

definition mem_budget :: "gotime \<Rightarrow> string \<Rightarrow> int \<Rightarrow> backends \<Rightarrow> (string + int) \<times> backends" where
  "mem_budget now key ttl b = (case mem_store now key ttl (bkBudget b) of (r, m) \<Rightarrow> (r, b\<lparr>bkBudget := m\<rparr>))"

definition mem_tasks :: "TaskConfig \<Rightarrow> backends TaskI" where
  "mem_tasks tc = \<lparr>tiConfig = tc, tiGet = (\<lambda>b. task_Get (bkTasks b)),
     tiUpsert = (\<lambda>t b. case task_Upsert t (bkTasks b) of (e, s) \<Rightarrow> (e, b\<lparr>bkTasks := s\<rparr>))\<rparr>"

definition mem_payloads :: "PayloadRecord \<Rightarrow> backends \<Rightarrow> bool \<times> backends" where
  "mem_payloads rec b = (True, b\<lparr>bkPayloads := pl_Put rec (bkPayloads b)\<rparr>)"

subsection \<open>What the decoy stage relies on\<close>

locale containment =
  fixes ks :: "'st KillSwitchI" and rs :: "'st RevocationI"
  assumes engage_halts: "kill_Validate e = None \<Longrightarrow> keType e = ScopeAgent \<Longrightarrow>
      \<exists>x. kiActive ks (kiEngage ks now e st) (keTenant e) (keValue e) = Inr (Some x)"
    and revoke_keeps_kills: "kiActive ks (riRevoke rs now jti reason tenant st) = kiActive ks st"
    and revoke_revokes: "riIsRevoked rs (riRevoke rs now jti reason tenant st) jti tenant = Inr True"
begin

text \<open>After a containment the token, and everything derived from it, is refused by the revocation store.\<close>

lemma contained_token_refused:
  assumes "cfRevocation cfg = Some rs" and "drContain d" and "crToken (clCap c) = Some tok" and "tkID tok \<noteq> []"
    and "tkID tok' = tkID tok" and "tkTenant tok' = tkTenant tok"
  shows "revocation_check (cfRevocation cfg) tok' (contain cfg env c d st) = Some (CapText ''token revoked'')"
  using assms revoke_revokes
  by (auto simp: revocation_check_def contain_def cap_jti_def cap_tenant_def Let_def split: option.splits)

text \<open>With a tenant, every other token of the agent is refused too: the kill covers the agent.\<close>

lemma contained_agent_halted:
  assumes "cfKillSwitch cfg = Some ks" and "cfRevocation cfg = Some rs" and "drContain d"
    and "crToken (clCap c) = Some tok" and "crAgentID (clCap c) = tkSubject tok"
    and "trim_space (tkTenant tok) \<noteq> []" and "trim_space (tkSubject tok) \<noteq> []"
    and "tkSubject tok' = tkSubject tok" and "tkTenant tok' = tkTenant tok"
  shows "kill_check (cfKillSwitch cfg) tok' (contain cfg env c d st) \<noteq> None"
proof -
  define e where "e = \<lparr>keType = ScopeAgent, keTenant = tkTenant tok, keValue = tkSubject tok, keReason = drReason d,
      keSetAt = eClock env AtContain, keSetBy = []\<rparr>"
  have "kill_Validate e = None" using assms(6,7) by (simp add: e_def kill_Validate_def scopes)
  then obtain x where x: "kiActive ks (kiEngage ks (eClock env AtContain) e st) (keTenant e) (keValue e) = Inr (Some x)"
    using engage_halts [of e] by (auto simp: e_def)
  have "tkSubject tok \<noteq> []" using assms(7) by auto
  with assms x show ?thesis
    by (auto simp: kill_check_def contain_def cap_tenant_def e_def [symmetric] revoke_keeps_kills Let_def)
      (auto simp: e_def)
qed

end

interpretation memory: containment mem_kill mem_revocation
proof (unfold_locales, goal_cases)
  case (1 e now st)
  then show ?case
    using engaged_halts [OF 1(1) _ Engage_engaged [OF 1(1)], of "keTenant e" "keValue e" now "bkKill st"]
    by (simp add: mem_kill_def covers_def)
next
  case (2 now jti reason tenant st)
  show ?case by (intro ext) (simp add: mem_kill_def mem_revocation_def)
next
  case (3 now jti reason tenant st)
  show ?case by (simp add: mem_revocation_def memrev.revoked_after)
qed

lemma decoy_contained:
  assumes "handleToolsCall cfg env r req w = (rep, w')" and "eParams env (rqParams req) = Inr params"
    and "tpName params \<noteq> []"
    and "de_Check (eLib env) (cfDeception cfg) (decoyInput env (received cfg env r req params (wStore w))) = Some d"
    and "drContain d"
  shows "wForwards w' = wForwards w \<and> wStore w' = contain cfg env (received cfg env r req params (wStore w)) d (wStore w)"
proof -
  have "\<not> drSandbox d" using assms(4,5)
    by (auto simp: de_Check_def de_outcome_def split: option.splits OnTrip.splits)
  with assms show ?thesis
    by (auto simp: handleToolsCall_def authorize_def and_then_def deceptionStage_def finish_def block_def emitAudit_def
        received_def Let_def)
qed

lemma revoked_refused:
  assumes "FromAuthorizationHeader (hAuthorization r) = Inr text" and "Decode (eToken env) text = Inr tok"
    and "text \<noteq> []" and "kill_check (cfKillSwitch cfg) tok st \<noteq> None \<or> revocation_check (cfRevocation cfg) tok st \<noteq> None"
  shows "crErr (runCapabilityCheck cfg env r tool ew st) \<noteq> None"
  using assms by (auto simp: runCapabilityCheck_def cap_fail_def split: option.splits sum.splits)

subsection \<open>A gateway in front of one tool server\<close>

text \<open>
  A small gateway over the in-memory backends: capabilities are required, the upstream answers \<open>{}\<close>, and the
  decoders know the one token and the one call of the example. The keyed hash is a constant text of 32 bytes.
\<close>

definition demo_hmac :: "bytes \<Rightarrow> bytes \<Rightarrow> bytes" where
  "demo_hmac k m = replicate 32 CHR ''A''"

definition demo_token :: Token where
  "demo_token = \<lparr>tkVersion = 4, tkID = ''t1'', tkRootID = ''t1'', tkIssuer = ''ig'', tkTenant = ''acme'', tkZone = ''default'',
     tkSubject = ''bot'', tkIssuedAt = 1, tkNotBefore = 0,
     tkCaveats = [zero_caveat\<lparr>cvType := CaveatToolWhitelist, cvTools := [''read'']\<rparr>],
     tkSignature = rawurl_encode (replicate 32 CHR ''A'')\<rparr>"

definition demo_params :: "string \<Rightarrow> ToolCallParams" where
  "demo_params tool = \<lparr>tpName = tool, tpArguments = Some [(''id'', JStr ''7'')]\<rparr>"

definition demo_env :: env where
  "demo_env =
     \<lparr>eClock = (\<lambda>_. 1000), eStamp = (\<lambda>_. ''now''), eLatency = (\<lambda>_. 0), eEventID = ''e1'', eHmac = demo_hmac, eSha = id,
      eHkdf = (\<lambda>_ _ _ _. None), eLib = ascii_lib, eNum = (\<lambda>_. ''0''), eFmt = (\<lambda>_. ''now''), eDur = (\<lambda>_. ''5m''),
      eQuote = id, eText = (\<lambda>_. ''error''), eToken = (\<lambda>_. Some demo_token), eOboPayload = (\<lambda>_. None),
      eWire = (\<lambda>_. Inl ''bad''), eParams = (\<lambda>raw. Inr (demo_params raw)),
      eRequest = (\<lambda>_. Inl ''bad''), eResponse = (\<lambda>b. Inr (NewResultResponse ''1'' b)), eObject = (\<lambda>_. Inr (Some [])),
      eCompact = id, eMarshalRequest = (\<lambda>q. Inr (rqParams q)), eMarshalResponse = (\<lambda>_. Some ''{}'')\<rparr>"

definition demo_decoy :: Decoy where
  "demo_decoy = \<lparr>dcID = ''d1'', dcName = ''vault'', dcKind = HoneyTool, dcKey = ''vault'', dcPillar = [],
     dcOnTrip = OnTripContain, dcSynthetic = [], dcResponseActions = []\<rparr>"

definition demo_cfg :: "backends MCPHandlerConfig" where
  "demo_cfg =
     \<lparr>cfMasterKey = ''key'', cfOBOKey = [], cfRequireCapability = True, cfExtractor = None, cfRequireIntent = False,
      cfPolicy = None, cfBudget = Some (mem_budget 1), cfRequireBudget = False,
      cfUpstream = Some (\<lambda>body cred st. (Inr \<lparr>urStatus = 200, urBody = ''{}''\<rparr>, st)), cfCredentials = (\<lambda>_. None),
      cfRevocation = Some mem_revocation, cfKillSwitch = Some mem_kill, cfTaskBinder = None, cfApprovals = None,
      cfActionGuard = None, cfRefVerify = None, cfBundle = None,
      cfDeception = Some (NewStaticRegistry ascii_lib [demo_decoy]), cfEastWest = None, cfZoneScope = None,
      cfApprovalTimeout = 0, cfApprovalAsync = False, cfArgRedaction = RedactOff, cfProvenanceEnabled = False,
      cfPIIFilter = None, cfNewFilter = (\<lambda>_. None), cfOutputSchemas = None, cfPayloads = Some mem_payloads,
      cfPayloadPolicy = \<lparr>ppEnabled = False, ppTools = [], ppTTL = 0, ppMaxBytes = 0\<rparr>, cfTenantScope = None,
      cfFaultIsolation = None\<rparr>"

definition demo_http :: HttpRequest where
  "demo_http = \<lparr>hAuthorization = ''Bearer dG9r'', hIntentPrompt = [], hTaskId = [], hProvenance = [], hObo = [],
     hApprovalId = [], hRemoteAddr = []\<rparr>"

definition demo_request :: "string \<Rightarrow> Request" where
  "demo_request tool = \<lparr>rqJSONRPC = Version, rqID = ''1'', rqMethod = MethodToolsCall, rqParams = tool\<rparr>"

definition demo_world :: "backends world" where
  "demo_world = \<lparr>wStore = mem_backends, wLru = newLRU 1, wGuard = ag_New, wIsolator = Map.empty, wAudit = [], wForwards = []\<rparr>"

lemma demo_fields [simp]:
  "cfExtractor demo_cfg = None" "cfRequireIntent demo_cfg = False" "cfPolicy demo_cfg = None" "cfRequireBudget demo_cfg = False"
  "cfTaskBinder demo_cfg = None" "cfApprovals demo_cfg = None" "cfActionGuard demo_cfg = None" "cfRefVerify demo_cfg = None"
  "cfBundle demo_cfg = None" "cfEastWest demo_cfg = None" "cfZoneScope demo_cfg = None" "cfProvenanceEnabled demo_cfg = False"
  "cfPIIFilter demo_cfg = None" "cfOutputSchemas demo_cfg = None" "cfTenantScope demo_cfg = None"
  "cfFaultIsolation demo_cfg = None" "cfBudget demo_cfg = Some (mem_budget 1)" "cfCredentials demo_cfg tool = None"
  "cfUpstream demo_cfg = Some (\<lambda>body cred st. (Inr \<lparr>urStatus = 200, urBody = ''{}''\<rparr>, st))"
  "ppEnabled (cfPayloadPolicy demo_cfg) = False" "requestPIIFilter demo_cfg x = None"
  by (simp_all only: demo_cfg_def MCPHandlerConfig.select_convs PayloadPolicy.select_convs requestPIIFilter_def)
    (simp split: option.split)

lemma demo_verified: "Verify (eHmac demo_env) demo_token (cfMasterKey demo_cfg) = None"
proof -
  have h: "eHmac demo_env = demo_hmac" "cfMasterKey demo_cfg = ''key''"
    by (simp_all only: demo_env_def demo_cfg_def env.select_convs MCPHandlerConfig.select_convs)
  have "Validate demo_token = None" by (simp add: Validate_def demo_token_def SchemaVersion_def)
  moreover have "computeSignature demo_hmac demo_token ''key'' = Inr (replicate 32 CHR ''A'')"
    by (simp add: computeSignature_def demo_token_def demo_hmac_def)
  ultimately show ?thesis unfolding h by (simp add: Verify_def demo_token_def)
qed

lemma demo_admitted:
  "runCapabilityCheck demo_cfg demo_env demo_http tool False mem_backends =
     (case cap_Check demo_token (call_context demo_token tool False) 1000 of
        Some e \<Rightarrow> cap_fail (Some demo_token) (ECap e)
      | None \<Rightarrow> \<lparr>crAgentID = ''bot'', crSummary = ''ok'', crToken = Some demo_token, crUser = None, crErr = None\<rparr>)"
proof -
  have f: "FromAuthorizationHeader (hAuthorization demo_http) = Inr ''dG9r''" "Decode (eToken demo_env) ''dG9r'' = Inr demo_token"
    "kill_check (cfKillSwitch demo_cfg) demo_token mem_backends = None"
    "revocation_check (cfRevocation demo_cfg) demo_token mem_backends = None"
    "obo_check demo_env (cfOBOKey demo_cfg) (hObo demo_http) = Inr None" "tkSubject demo_token = ''bot''"
    by code_simp+
  have "eClock demo_env AtCaveats = 1000" by (simp only: demo_env_def env.select_convs)
  with f demo_verified show ?thesis by (simp add: runCapabilityCheck_def cong: option.case_cong)
qed

lemma demo_capability:
  "runCapabilityCheck demo_cfg demo_env demo_http ''read'' False mem_backends =
     \<lparr>crAgentID = ''bot'', crSummary = ''ok'', crToken = Some demo_token, crUser = None, crErr = None\<rparr>"
proof -
  have "cap_Check demo_token (call_context demo_token ''read'' False) 1000 = None" by code_simp
  then show ?thesis by (simp add: demo_admitted)
qed

definition demo_call :: call where
  "demo_call = \<lparr>clHttp = demo_http, clReq = demo_request ''read'', clParams = demo_params ''read'',
     clCap = \<lparr>crAgentID = ''bot'', crSummary = ''ok'', crToken = Some demo_token, crUser = None, crErr = None\<rparr>,
     clInt = noIntent\<rparr>"

lemma demo_routing: "tpName (demo_params tool) = tool" "isEastWest demo_cfg tool = False" "wStore demo_world = mem_backends"
  by (simp_all add: demo_params_def isEastWest_def demo_world_def)

lemma demo_received:
  "received demo_cfg demo_env demo_http (demo_request ''read'') (demo_params ''read'') (wStore demo_world) = demo_call"
  by (simp add: received_def demo_routing demo_capability demo_call_def)

definition demo_input :: "string \<Rightarrow> string \<Rightarrow> DeInput" where
  "demo_input tool content =
     \<lparr>diTool = tool, diTokenID = ''t1'', diZone = [], diCredentialID = [], diValues = [''7''], diContent = content\<rparr>"

lemma demo_decoy_input:
  assumes "clParams c = demo_params tool" "crToken (clCap c) = Some demo_token"
  shows "decoyInput demo_env c = demo_input tool (diContent (decoyInput demo_env c))"
  using assms
  by (simp add: decoyInput_def demo_input_def demo_params_def cap_jti_def demo_token_def ValuesFromArgs_def arg_list_def)

lemma demo_decoys:
  "de_Check (eLib demo_env) (cfDeception demo_cfg) (demo_input ''read'' content) = None"
  "de_Check (eLib demo_env) (cfDeception demo_cfg) (demo_input ''vault'' content) =
     Some \<lparr>drDecoy = demo_decoy, drSeverity = SevCritical, drAction = ActionContained, drContain = True, drSandbox = False,
       drSynthetic = [], drResponseActions = [], drReason = reasonFor demo_decoy ActionContained\<rparr>"
  by code_simp+

lemma demo_no_decoy: "de_Check (eLib demo_env) (cfDeception demo_cfg) (decoyInput demo_env demo_call) = None"
  by (subst demo_decoy_input [of _ "''read''"]) (simp_all only: demo_decoys, simp_all add: demo_call_def)

lemma demo_budget: "budgetStage demo_cfg env c w = (Inr (), w)" if "crToken (clCap c) = Some demo_token"
proof -
  have "extractMaxCalls demo_token = []" by code_simp
  with that show ?thesis by (simp add: budgetStage_def runBudgetCheck_def budget_Check_def go_on_def)
qed

lemma demo_authorized:
  "\<exists>c p w. authorize demo_cfg demo_env demo_call demo_world = (Inr (c, p), w) \<and> clReq c = demo_request ''read''
     \<and> clParams c = demo_params ''read'' \<and> wForwards w = []"
proof -
  have c: "crErr (clCap demo_call) = None" "crToken (clCap demo_call) = Some demo_token" "clReq demo_call = demo_request ''read''"
    "clParams demo_call = demo_params ''read''" "hIntentPrompt (clHttp demo_call) = []" "wForwards demo_world = []"
    by (simp_all add: demo_call_def demo_http_def demo_world_def)
  show ?thesis
    by (simp add: authorize_def deceptionStage_def demo_no_decoy capabilityStage_def intentStage_def runIntentCheck_def
        provenanceStage_def runProvenanceCheck_def taskStage_def bundleStage_def bundleDecision_def actionGuardStage_def
        refVerifyStage_def eastWestStage_def zoneScopeStage_def policyStage_def runPolicyCheck_def escalateStage_def
        demo_budget requestPIIStage_def tenantScopeStage_def and_then_def go_on_def isEastWest_def c Let_def)
qed

lemma demo_forwards:
  "\<exists>resp w'. handleToolsCall demo_cfg demo_env demo_http (demo_request ''read'') demo_world = (Reply resp, w')
     \<and> wForwards w' = [(''read'', None)]"
proof -
  obtain c p w where a: "authorize demo_cfg demo_env demo_call demo_world = (Inr (c, p), w)" "clReq c = demo_request ''read''"
    "clParams c = demo_params ''read''" "wForwards w = []"
    using demo_authorized by blast
  have p: "eParams demo_env (rqParams (demo_request ''read'')) = Inr (demo_params ''read'')" "tpName (demo_params ''read'') \<noteq> []"
    by (simp_all add: demo_env_def demo_request_def demo_params_def)
  have e: "eMarshalRequest demo_env (demo_request ''read'') = Inr ''read''" "eObject demo_env raw = Inr (Some [])"
    "eResponse demo_env b = Inr (NewResultResponse ''1'' b)" for raw b
    by (simp_all add: demo_env_def demo_request_def)
  have "\<exists>resp w'. forwardToUpstream demo_cfg demo_env (\<lambda>body cred st. (Inr \<lparr>urStatus = 200, urBody = ''{}''\<rparr>, st)) c p w =
      (Reply resp, w') \<and> wForwards w' = [(''read'', None)]"
    by (simp add: forwardToUpstream_def a e acquireStage_def upstreamStage_def send_def responseStages_def
        responsePIIStage_def outputSchemaStage_def deliver_def injectIntentGateMetadata_def
        capturePayload_def ShouldCapture_def NewResultResponse_def and_then_def go_on_def finish_def emitAudit_def Let_def)
  then show ?thesis
    by (simp add: handleToolsCall_def p demo_received [unfolded received_def] a Let_def finish_def)
qed

lemma demo_touch:
  "de_Check (eLib demo_env) (cfDeception demo_cfg)
     (decoyInput demo_env (received demo_cfg demo_env demo_http (demo_request ''vault'') (demo_params ''vault'')
       (wStore demo_world))) =
     Some \<lparr>drDecoy = demo_decoy, drSeverity = SevCritical, drAction = ActionContained, drContain = True, drSandbox = False,
       drSynthetic = [], drResponseActions = [], drReason = reasonFor demo_decoy ActionContained\<rparr>"
  "crToken (clCap (received demo_cfg demo_env demo_http (demo_request ''vault'') (demo_params ''vault'') (wStore demo_world))) =
     Some demo_token"
proof -
  let ?c = "received demo_cfg demo_env demo_http (demo_request ''vault'') (demo_params ''vault'') (wStore demo_world)"
  have "crToken (runCapabilityCheck demo_cfg demo_env demo_http ''vault'' False mem_backends) = Some demo_token"
    by (simp add: demo_admitted cap_fail_def split: option.split)
  then show t: "crToken (clCap ?c) = Some demo_token"
    by (simp only: received_def call.select_convs demo_routing)
  show "de_Check (eLib demo_env) (cfDeception demo_cfg) (decoyInput demo_env ?c) =
     Some \<lparr>drDecoy = demo_decoy, drSeverity = SevCritical, drAction = ActionContained, drContain = True, drSandbox = False,
       drSynthetic = [], drResponseActions = [], drReason = reasonFor demo_decoy ActionContained\<rparr>"
    by (subst demo_decoy_input [OF received_simps(3) t]) (rule demo_decoys(2))
qed

end
