(* ===== verification/OutputSchema.thy ===== *)
theory OutputSchema
  imports Mcp
begin

text \<open>
  Package \<open>internal/outputschema\<close>: the declared shape of a tool's result. \<open>walk\<close> checks a value against a schema and
  builds the cleaned value; it returns what the Go function returns together with the violations it adds, in
  the order it adds them. A Go \<open>==\<close> on two maps or two slices panics, which is \<^const>\<open>None\<close>. \<open>conforms\<close> is the
  declarative reading of a schema. The reader of \<open>encoding/json\<close> and the texts of details, which format
  values with \<open>%v\<close> and \<open>%T\<close>, are arguments.
\<close>

subsection \<open>Schemas\<close>

definition OsActionAllow :: string where "OsActionAllow = ''allow''"
definition OsActionStrip :: string where "OsActionStrip = ''strip''"
definition OsActionBlock :: string where "OsActionBlock = ''block''"

lemmas os_actions = OsActionAllow_def OsActionStrip_def OsActionBlock_def

definition os_ParseAction :: "string \<Rightarrow> string + string" where
  "os_ParseAction s =
     (let t = to_lower (trim_space s) in
      if t = [] then Inr OsActionStrip
      else if t = ''allow'' then Inr OsActionAllow
      else if t = ''strip'' then Inr OsActionStrip
      else if t = ''block'' then Inr OsActionBlock
      else Inl s)"

text \<open>A sub-schema may be nil: a property or \<open>items\<close> declared as \<open>null\<close>.\<close>

datatype Schema = Schema
  (ssType: string) (ssProperties: "(string \<times> Schema option) list") (ssRequired: "string list")
  (ssAdditional: bool) (ssItems: "Schema option") (ssEnum: "json list")

datatype schemaJSON = SchemaJSON
  (sjType: string) (sjProperties: "(string \<times> schemaJSON option) list") (sjRequired: "string list")
  (sjAdditional: "bool option") (sjItems: "schemaJSON option") (sjEnum: "json list")

definition type_names :: "string list" where
  "type_names = [[], ''object'', ''array'', ''string'', ''number'', ''integer'', ''boolean'', ''null'']"

definition validateTypeName :: "string \<Rightarrow> string option" where
  "validateTypeName t = (if t \<in> set type_names then None else Some t)"

text \<open>The error names the unknown type; the texts that wrap it on the way up are left out.\<close>

fun fromJSON :: "schemaJSON \<Rightarrow> string + Schema"
and props_fromJSON :: "(string \<times> schemaJSON option) list \<Rightarrow> string + (string \<times> Schema option) list"
and opt_fromJSON :: "schemaJSON option \<Rightarrow> string + Schema option" where
  "fromJSON (SchemaJSON t ps req add items enum) =
     (case validateTypeName t of
        Some e \<Rightarrow> Inl e
      | None \<Rightarrow>
          (case props_fromJSON ps of
             Inl e \<Rightarrow> Inl e
           | Inr ps' \<Rightarrow>
               (case opt_fromJSON items of
                  Inl e \<Rightarrow> Inl e
                | Inr items' \<Rightarrow> Inr (Schema t ps' req (case add of Some b \<Rightarrow> b | None \<Rightarrow> False) items' enum))))"
| "props_fromJSON [] = Inr []"
| "props_fromJSON ((k, j) # ps) =
     (case opt_fromJSON j of
        Inl e \<Rightarrow> Inl e
      | Inr s \<Rightarrow> (case props_fromJSON ps of Inl e \<Rightarrow> Inl e | Inr ss \<Rightarrow> Inr ((k, s) # ss)))"
| "opt_fromJSON None = Inr None"
| "opt_fromJSON (Some j) = (case fromJSON j of Inl e \<Rightarrow> Inl e | Inr s \<Rightarrow> Inr (Some s))"

subsection \<open>Checking a value\<close>

record Violation =
  vioPointer :: string
  vioKind :: string
  vioDetail :: string

definition escapePtrSegment :: "string \<Rightarrow> string" where
  "escapePtrSegment s = concat (map (\<lambda>c. if c = CHR ''~'' then ''~0'' else if c = CHR ''/'' then ''~1'' else [c]) s)"

definition joinPtr :: "string \<Rightarrow> string \<Rightarrow> string" where
  "joinPtr parent key = parent @ ''/'' @ escapePtrSegment key"

text \<open>
  \<open>jsonEqual\<close> on decoded values: two numbers by value, otherwise Go's \<open>==\<close> on interfaces, which compares the
  dynamic types first and panics when both are maps or both are slices.
\<close>

fun jsonEqual :: "json \<Rightarrow> json \<Rightarrow> bool option" where
  "jsonEqual (JArr _) (JArr _) = None"
| "jsonEqual (JObj _) (JObj _) = None"
| "jsonEqual a b = Some (a = b)"

fun enum_has :: "json list \<Rightarrow> json \<Rightarrow> bool option" where
  "enum_has [] v = Some False"
| "enum_has (a # as) v =
     (case jsonEqual a v of None \<Rightarrow> None | Some True \<Rightarrow> Some True | Some False \<Rightarrow> enum_has as v)"

text \<open>The details of a violation: the wrong type, the value outside the enumeration.\<close>

record details =
  dtType :: "string \<Rightarrow> json \<Rightarrow> string"
  dtEnum :: "json \<Rightarrow> string"

type_synonym walked = "(Violation list \<times> json) option"

definition wrong :: "details \<Rightarrow> string \<Rightarrow> json \<Rightarrow> string \<Rightarrow> walked" where
  "wrong dt t node ptr =
     Some ([\<lparr>vioPointer = ptr, vioKind = ''wrong_type'', vioDetail = dtType dt t node\<rparr>], JNull)"

definition checkEnum :: "details \<Rightarrow> json list \<Rightarrow> json \<Rightarrow> string \<Rightarrow> walked" where
  "checkEnum dt enum v ptr =
     (if enum = [] then Some ([], v)
      else case enum_has enum v of
        None \<Rightarrow> None
      | Some True \<Rightarrow> Some ([], v)
      | Some False \<Rightarrow> Some ([\<lparr>vioPointer = ptr, vioKind = ''enum_violation'', vioDetail = dtEnum dt v\<rparr>], JNull))"

text \<open>\<open>v == float64(int64(v))\<close>: an integral number in the range of \<open>int64\<close>.\<close>

definition is_integer :: "rat \<Rightarrow> bool" where
  "is_integer q \<longleftrightarrow> of_int \<lfloor>q\<rfloor> = q \<and> - (2 ^ 63) \<le> \<lfloor>q\<rfloor> \<and> \<lfloor>q\<rfloor> < 2 ^ 63"

definition missing_required :: "string list \<Rightarrow> (string \<times> json) list \<Rightarrow> string \<Rightarrow> Violation list" where
  "missing_required req m ptr =
     map (\<lambda>n. \<lparr>vioPointer = joinPtr ptr n, vioKind = ''missing_required'', vioDetail = ''required property is absent''\<rparr>)
       (filter (\<lambda>n. map_of m n = None) req)"

text \<open>The members of an object and the items of an array, one after the other.\<close>

function (sequential) walk :: "details \<Rightarrow> Schema \<Rightarrow> json \<Rightarrow> string \<Rightarrow> walked"
and walk_member :: "details \<Rightarrow> Schema \<Rightarrow> string \<Rightarrow> json \<Rightarrow> string \<Rightarrow> (Violation list \<times> (string \<times> json) list) option"
and walk_members :: "details \<Rightarrow> Schema \<Rightarrow> (string \<times> json) list \<Rightarrow> string \<Rightarrow> (Violation list \<times> (string \<times> json) list) option"
and walk_items :: "details \<Rightarrow> Schema \<Rightarrow> nat \<Rightarrow> json list \<Rightarrow> string \<Rightarrow> (Violation list \<times> json list) option" where
  "walk dt s node ptr =
     (let t = ssType s in
      if t = [] then checkEnum dt (ssEnum s) node ptr
      else if t = ''object'' then
        (case node of
           JObj m \<Rightarrow>
             (case walk_members dt s m ptr of
                None \<Rightarrow> None
              | Some (vs, out) \<Rightarrow> Some (missing_required (ssRequired s) m ptr @ vs, JObj out))
         | _ \<Rightarrow> wrong dt t node ptr)
      else if t = ''array'' then
        (case node of
           JArr xs \<Rightarrow>
             (case ssItems s of
                None \<Rightarrow> Some ([], JArr xs)
              | Some i \<Rightarrow> (case walk_items dt i 0 xs ptr of None \<Rightarrow> None | Some (vs, out) \<Rightarrow> Some (vs, JArr out)))
         | _ \<Rightarrow> wrong dt t node ptr)
      else if t = ''string'' then (case node of JStr _ \<Rightarrow> checkEnum dt (ssEnum s) node ptr | _ \<Rightarrow> wrong dt t node ptr)
      else if t = ''number'' then (case node of JNum _ \<Rightarrow> checkEnum dt (ssEnum s) node ptr | _ \<Rightarrow> wrong dt t node ptr)
      else if t = ''integer'' then
        (case node of
           JNum q \<Rightarrow> if is_integer q then checkEnum dt (ssEnum s) node ptr else wrong dt t node ptr
         | _ \<Rightarrow> wrong dt t node ptr)
      else if t = ''boolean'' then (case node of JBool _ \<Rightarrow> checkEnum dt (ssEnum s) node ptr | _ \<Rightarrow> wrong dt t node ptr)
      else if t = ''null'' then (case node of JNull \<Rightarrow> Some ([], JNull) | _ \<Rightarrow> wrong dt t node ptr)
      else Some ([], node))"
| "walk_member dt s k v ptr =
     (case map_of (ssProperties s) k of
        Some None \<Rightarrow> Some ([], [(k, v)])
      | Some (Some sub) \<Rightarrow>
          (case walk dt sub v (joinPtr ptr k) of None \<Rightarrow> None | Some (vs, v') \<Rightarrow> Some (vs, [(k, v')]))
      | None \<Rightarrow>
          if ssAdditional s then Some ([], [(k, v)])
          else Some ([\<lparr>vioPointer = joinPtr ptr k, vioKind = ''extra_property'',
                       vioDetail = ''property not declared in schema''\<rparr>], []))"
| "walk_members dt s [] ptr = Some ([], [])"
| "walk_members dt s ((k, v) # m) ptr =
     (case walk_member dt s k v ptr of
        None \<Rightarrow> None
      | Some (vs, out) \<Rightarrow>
          (case walk_members dt s m ptr of
             None \<Rightarrow> None
           | Some (vs', out') \<Rightarrow> Some (vs @ vs', out @ out')))"
| "walk_items dt s i [] ptr = Some ([], [])"
| "walk_items dt s i (v # xs) ptr =
     (case walk dt s v (ptr @ ''/'' @ show_nat i) of
        None \<Rightarrow> None
      | Some (vs, v') \<Rightarrow>
          (case walk_items dt s (Suc i) xs ptr of
             None \<Rightarrow> None
           | Some (vs', out) \<Rightarrow> Some (vs @ vs', if v' = JNull then out else v' # out)))"
  by pat_completeness auto

text \<open>The walk ends because it descends into the value; a schema may be visited any number of times.\<close>

termination
  by (relation "measure (\<lambda>x. case x of
        Inl (Inl (dt, s, v, ptr)) \<Rightarrow> 2 * size v
      | Inl (Inr (dt, s, k, v, ptr)) \<Rightarrow> 2 * size v + 1
      | Inr (Inl (dt, s, m, ptr)) \<Rightarrow> 2 * size_list (size_prod (\<lambda>_. 0) size) m + 1
      | Inr (Inr (dt, s, i, xs, ptr)) \<Rightarrow> 2 * size_list size xs + 1)") auto

declare walk.simps [simp del]

subsection \<open>Results and the registry\<close>

record SchemaResult =
  srViolations :: "Violation list"
  srCounts :: "(string \<times> int) list"
  srStripped :: "raw option"

definition HasViolations :: "SchemaResult \<Rightarrow> bool" where
  "HasViolations r \<longleftrightarrow> srViolations r \<noteq> []"

text \<open>The counts by kind that \<open>add\<close> keeps.\<close>

definition CountsByKind :: "Violation list \<Rightarrow> (string \<times> int) list" where
  "CountsByKind vs = fold (\<lambda>v m. AList.update (vioKind v) ((case map_of m (vioKind v) of Some n \<Rightarrow> n | None \<Rightarrow> 0) + 1) m) vs []"

definition malformed :: "string \<Rightarrow> SchemaResult" where
  "malformed detail = \<lparr>srViolations = [\<lparr>vioPointer = [], vioKind = ''malformed'', vioDetail = detail\<rparr>],
     srCounts = [(''malformed'', 1)], srStripped = None\<rparr>"

text \<open>The values \<open>json.Marshal\<close> gets here always encode, so its error branch is not reached.\<close>

definition os_Validate :: "details \<Rightarrow> (raw \<Rightarrow> string + json) \<Rightarrow> (rat \<Rightarrow> string) \<Rightarrow> Schema option \<Rightarrow> raw \<Rightarrow> SchemaResult option" where
  "os_Validate dt decode num so raw =
     (case so of
        None \<Rightarrow> Some \<lparr>srViolations = [], srCounts = [], srStripped = Some raw\<rparr>
      | Some s \<Rightarrow>
          if raw = [] then Some (malformed ''empty response body'')
          else case decode raw of
            Inl e \<Rightarrow> Some (malformed e)
          | Inr node \<Rightarrow>
              (case walk dt s node [] of
                 None \<Rightarrow> None
               | Some (vs, cleaned) \<Rightarrow>
                   Some \<lparr>srViolations = vs, srCounts = CountsByKind vs, srStripped = Some (enc_json num cleaned)\<rparr>))"

record OsRegistry =
  orSchemas :: "(string \<times> Schema option) list"
  orDefault :: string
  orPerTool :: "(string \<times> string) list"

definition os_NewRegistry :: "string \<Rightarrow> OsRegistry" where
  "os_NewRegistry a = \<lparr>orSchemas = [], orDefault = (if a = [] then OsActionStrip else a), orPerTool = []\<rparr>"

definition os_AddTool :: "string \<Rightarrow> Schema option \<Rightarrow> OsRegistry \<Rightarrow> OsRegistry" where
  "os_AddTool name s r = r\<lparr>orSchemas := AList.update name s (orSchemas r)\<rparr>"

definition os_SetToolAction :: "string \<Rightarrow> string \<Rightarrow> OsRegistry \<Rightarrow> OsRegistry" where
  "os_SetToolAction name a r =
     (if a = [] then r\<lparr>orPerTool := AList.delete name (orPerTool r)\<rparr>
      else r\<lparr>orPerTool := AList.update name a (orPerTool r)\<rparr>)"

definition os_Lookup :: "OsRegistry option \<Rightarrow> string \<Rightarrow> (Schema option \<times> string) option" where
  "os_Lookup ro tool =
     (case ro of
        None \<Rightarrow> None
      | Some r \<Rightarrow>
          (case map_of (orSchemas r) tool of
             None \<Rightarrow> None
           | Some s \<Rightarrow> Some (s, case map_of (orPerTool r) tool of Some a \<Rightarrow> a | None \<Rightarrow> orDefault r)))"

text \<open>\<open>ToolNames\<close> sorts by insertion, moving each name left while it is smaller than its neighbour.\<close>

definition ToolNames :: "OsRegistry option \<Rightarrow> string list" where
  "ToolNames ro =
     (case ro of None \<Rightarrow> [] | Some r \<Rightarrow> foldl (\<lambda>sorted x. insort x sorted) [] (map fst (orSchemas r)))"

text \<open>\<open>LoadJSON\<close> after decoding: the default action and the tools in the order the map yields them.\<close>

fun load_tools :: "(string \<times> (string + Schema option) \<times> string) list \<Rightarrow> OsRegistry \<Rightarrow> string option \<times> OsRegistry" where
  "load_tools [] r = (None, r)"
| "load_tools ((name, parsed, action) # ts) r =
     (case parsed of
        Inl e \<Rightarrow> (Some e, r)
      | Inr s \<Rightarrow>
          (let r1 = os_AddTool name s r in
           if action = [] then load_tools ts r1
           else case os_ParseAction action of
             Inl e \<Rightarrow> (Some e, r1)
           | Inr a \<Rightarrow> load_tools ts (r1\<lparr>orPerTool := AList.update name a (orPerTool r1)\<rparr>)))"

definition os_LoadJSON :: "string \<Rightarrow> (string \<times> (string + Schema option) \<times> string) list \<Rightarrow> OsRegistry \<Rightarrow> string option \<times> OsRegistry" where
  "os_LoadJSON defaultAction tools r =
     (if defaultAction = [] then load_tools tools r
      else case os_ParseAction defaultAction of
        Inl e \<Rightarrow> (Some e, r)
      | Inr a \<Rightarrow> load_tools tools (r\<lparr>orDefault := a\<rparr>))"

subsection \<open>What a schema says\<close>

definition enum_ok :: "json list \<Rightarrow> json \<Rightarrow> bool" where
  "enum_ok enum v \<longleftrightarrow> enum = [] \<or> v \<in> set enum"

text \<open>The scalar types, by name.\<close>

definition scalar_ok :: "string \<Rightarrow> json \<Rightarrow> bool" where
  "scalar_ok t v \<longleftrightarrow>
     (if t = ''string'' then \<exists>x. v = JStr x
      else if t = ''number'' then \<exists>q. v = JNum q
      else if t = ''integer'' then \<exists>q. v = JNum q \<and> is_integer q
      else if t = ''boolean'' then \<exists>b. v = JBool b
      else True)"

lemma member_size: "(k, v) \<in> set m \<Longrightarrow> size v < Suc (size_list (size_prod (\<lambda>_. 0) size) m)"
  by (induction m) auto

lemma item_size: "v \<in> set xs \<Longrightarrow> size v < Suc (size_list size xs)"
  by (induction xs) auto

function conforms :: "Schema \<Rightarrow> json \<Rightarrow> bool" where
  "conforms s node =
     (let t = ssType s in
      if t = [] then enum_ok (ssEnum s) node
      else if t = ''object'' then
        (case node of
           JObj m \<Rightarrow> (\<forall>n \<in> set (ssRequired s). map_of m n \<noteq> None)
             \<and> (\<forall>kv \<in> set m. case map_of (ssProperties s) (fst kv) of
                    None \<Rightarrow> ssAdditional s
                  | Some None \<Rightarrow> True
                  | Some (Some sub) \<Rightarrow> conforms sub (snd kv))
         | _ \<Rightarrow> False)
      else if t = ''array'' then
        (case node of
           JArr xs \<Rightarrow> (case ssItems s of None \<Rightarrow> True | Some i \<Rightarrow> \<forall>v \<in> set xs. conforms i v)
         | _ \<Rightarrow> False)
      else if t = ''null'' then node = JNull
      else if t \<in> set type_names then scalar_ok t node \<and> enum_ok (ssEnum s) node
      else True)"
  by pat_completeness auto

termination
  by (relation "measure (size \<circ> snd)") (auto dest: member_size item_size)

declare conforms.simps [simp del]

text \<open>
  What may be left of a value: nulls, and what the schema declares; objects carry no undeclared
  property, and scalars have the declared type and value.
\<close>

function clean :: "Schema \<Rightarrow> json \<Rightarrow> bool" where
  "clean s node =
     (let t = ssType s in
      if node = JNull then True
      else if t = [] then enum_ok (ssEnum s) node
      else if t = ''object'' then
        (case node of
           JObj m \<Rightarrow> (\<forall>kv \<in> set m. case map_of (ssProperties s) (fst kv) of
                    None \<Rightarrow> ssAdditional s
                  | Some None \<Rightarrow> True
                  | Some (Some sub) \<Rightarrow> clean sub (snd kv))
         | _ \<Rightarrow> False)
      else if t = ''array'' then
        (case node of
           JArr xs \<Rightarrow> (case ssItems s of None \<Rightarrow> True | Some i \<Rightarrow> \<forall>v \<in> set xs. clean i v)
         | _ \<Rightarrow> False)
      else if t = ''null'' then False
      else if t \<in> set type_names then scalar_ok t node \<and> enum_ok (ssEnum s) node
      else True)"
  by pat_completeness auto

termination
  by (relation "measure (size \<circ> snd)") (auto dest: member_size item_size)

declare clean.simps [simp del]

lemma enum_has_iff: "enum_has enum v = Some b \<Longrightarrow> b \<longleftrightarrow> v \<in> set enum"
proof (induction enum)
  case (Cons a as)
  then show ?case
    by (cases "(a, v)" rule: jsonEqual.cases) (auto split: option.splits bool.splits if_splits)
qed simp

lemma checkEnum_iff:
  "checkEnum dt enum v ptr = Some (vs, out) \<Longrightarrow> (vs = [] \<longleftrightarrow> enum_ok enum v) \<and> (out = JNull \<or> out = v \<and> enum_ok enum v)"
  by (auto simp: checkEnum_def enum_ok_def split: if_splits option.splits bool.splits dest: enum_has_iff)

subsection \<open>The walk decides conformance and leaves only what is declared\<close>

lemmas walk_induct = walk_walk_member_walk_members_walk_items.induct

lemma wrong_iff [simp]: "wrong dt t node ptr = Some (vs, out) \<longleftrightarrow>
    vs = [\<lparr>vioPointer = ptr, vioKind = ''wrong_type'', vioDetail = dtType dt t node\<rparr>] \<and> out = JNull"
  by (auto simp: wrong_def)

lemma wrong_some [simp]: "wrong dt t node ptr \<noteq> None"
  by (simp add: wrong_def)

lemma missing_required_iff [simp]:
  "missing_required req m ptr = [] \<longleftrightarrow> (\<forall>n \<in> set req. map_of m n \<noteq> None)"
  by (auto simp: missing_required_def filter_empty_conv)

text \<open>One member of an object: what the schema says of it.\<close>

definition member_ok :: "(Schema \<Rightarrow> json \<Rightarrow> bool) \<Rightarrow> Schema \<Rightarrow> string \<times> json \<Rightarrow> bool" where
  "member_ok P s kv = (case map_of (ssProperties s) (fst kv) of
      None \<Rightarrow> ssAdditional s | Some None \<Rightarrow> True | Some (Some sub) \<Rightarrow> P sub (snd kv))"

lemma conforms_object: "ssType s = ''object'' \<Longrightarrow> conforms s (JObj m) \<longleftrightarrow>
    (\<forall>n \<in> set (ssRequired s). map_of m n \<noteq> None) \<and> (\<forall>kv \<in> set m. member_ok conforms s kv)"
  by (subst conforms.simps) (simp add: member_ok_def)

lemma clean_object: "ssType s = ''object'' \<Longrightarrow> clean s (JObj m) \<longleftrightarrow> (\<forall>kv \<in> set m. member_ok clean s kv)"
  by (subst clean.simps) (simp add: member_ok_def)

lemma conforms_array: "ssType s = ''array'' \<Longrightarrow> ssItems s = Some i \<Longrightarrow> conforms s (JArr xs) \<longleftrightarrow> (\<forall>v \<in> set xs. conforms i v)"
  by (subst conforms.simps) simp

lemma clean_array: "ssType s = ''array'' \<Longrightarrow> ssItems s = Some i \<Longrightarrow> clean s (JArr xs) \<longleftrightarrow> (\<forall>v \<in> set xs. clean i v)"
  by (subst clean.simps) simp

lemma walk_object: "ssType s = ''object'' \<Longrightarrow> walk dt s (JObj m) ptr =
    (case walk_members dt s m ptr of
       None \<Rightarrow> None | Some (vs, out) \<Rightarrow> Some (missing_required (ssRequired s) m ptr @ vs, JObj out))"
  by (subst walk.simps) simp

lemma walk_array: "ssType s = ''array'' \<Longrightarrow> ssItems s = Some i \<Longrightarrow> walk dt s (JArr xs) ptr =
    (case walk_items dt i 0 xs ptr of None \<Rightarrow> None | Some (vs, out) \<Rightarrow> Some (vs, JArr out))"
  by (subst walk.simps) simp

text \<open>Either the walk descends, into an object or into an array with an item schema, or it decides on the spot.\<close>

definition leaf :: "Schema \<Rightarrow> json \<Rightarrow> bool" where
  "leaf s node \<longleftrightarrow> \<not> (ssType s = ''object'' \<and> (\<exists>m. node = JObj m))
     \<and> \<not> (ssType s = ''array'' \<and> ssItems s \<noteq> None \<and> (\<exists>xs. node = JArr xs))"

lemma walk_cases:
  obtains (object) m where "ssType s = ''object''" "node = JObj m"
  | (array) xs i where "ssType s = ''array''" "ssItems s = Some i" "node = JArr xs"
  | (leaf) "leaf s node"
  unfolding leaf_def by blast

lemma walk_leaf_conforms: "leaf s node \<Longrightarrow> walk dt s node ptr = Some (vs, out) \<Longrightarrow> vs = [] \<longleftrightarrow> conforms s node"
  by (subst conforms.simps)
     (auto simp: walk.simps [of dt s node ptr] leaf_def Let_def scalar_ok_def type_names_def
       split: if_splits json.splits option.splits dest: checkEnum_iff)

lemma clean_null [simp]: "clean s JNull"
  by (subst clean.simps) simp

lemma walk_leaf_clean: "leaf s node \<Longrightarrow> walk dt s node ptr = Some (vs, out) \<Longrightarrow> clean s out"
  by (cases "out = JNull", simp, subst clean.simps)
     (auto simp: walk.simps [of dt s node ptr] leaf_def Let_def scalar_ok_def type_names_def
       split: if_splits json.splits option.splits dest!: checkEnum_iff)

lemma walk_conforms_all:
  "walk dt s node ptr = Some (vs, out) \<Longrightarrow> vs = [] \<longleftrightarrow> conforms s node"
  "walk_member dt s k v ptr = Some (vs, ms) \<Longrightarrow> vs = [] \<longleftrightarrow> member_ok conforms s (k, v)"
  "walk_members dt s m ptr = Some (vs, ms) \<Longrightarrow> vs = [] \<longleftrightarrow> (\<forall>kv \<in> set m. member_ok conforms s kv)"
  "walk_items dt s i xs ptr = Some (vs, ys) \<Longrightarrow> vs = [] \<longleftrightarrow> (\<forall>v \<in> set xs. conforms s v)"
proof (induction dt s node ptr and dt s k v ptr and dt s m ptr and dt s i xs ptr
    arbitrary: vs out and vs ms and vs ms and vs ys rule: walk_induct)
  case (1 dt s node ptr)
  then show ?case
  proof (cases s node rule: walk_cases)
    case (object m)
    with "1.prems" obtain us ms where w: "walk_members dt s m ptr = Some (us, ms)" "vs = missing_required (ssRequired s) m ptr @ us"
      by (auto simp: walk_object split: option.splits)
    with object "1.IH"(1) [OF refl _ _ object(2) w(1)] show ?thesis by (simp add: conforms_object)
  next
    case (array xs i)
    with "1.prems" obtain ys where w: "walk_items dt i 0 xs ptr = Some (vs, ys)"
      by (auto simp: walk_array split: option.splits)
    with array "1.IH"(2) [OF refl _ _ _ array(3) array(2) w] show ?thesis by (simp add: conforms_array)
  next
    case leaf
    then show ?thesis using "1.prems" by (rule walk_leaf_conforms)
  qed
next
  case (2 dt s k v ptr)
  then show ?case by (auto simp: member_ok_def split: option.splits if_splits)
next
  case (4 dt s k v m ptr)
  then show ?case by (auto split: option.splits)
next
  case (6 dt s i v xs ptr)
  then show ?case by (auto split: option.splits)
qed auto

lemma walk_clean_all:
  "walk dt s node ptr = Some (vs, out) \<Longrightarrow> clean s out"
  "walk_member dt s k v ptr = Some (vs, ms) \<Longrightarrow> \<forall>kv \<in> set ms. member_ok clean s kv"
  "walk_members dt s m ptr = Some (vs, ms) \<Longrightarrow> \<forall>kv \<in> set ms. member_ok clean s kv"
  "walk_items dt s i xs ptr = Some (vs, ys) \<Longrightarrow> \<forall>v \<in> set ys. clean s v"
proof (induction dt s node ptr and dt s k v ptr and dt s m ptr and dt s i xs ptr
    arbitrary: vs out and vs ms and vs ms and vs ys rule: walk_induct)
  case (1 dt s node ptr)
  then show ?case
  proof (cases s node rule: walk_cases)
    case (object m)
    with "1.prems" obtain us ms where w: "walk_members dt s m ptr = Some (us, ms)" "out = JObj ms"
      by (auto simp: walk_object split: option.splits)
    with object "1.IH"(1) [OF refl _ _ object(2) w(1)] show ?thesis by (simp add: clean_object)
  next
    case (array xs i)
    with "1.prems" obtain ys where w: "walk_items dt i 0 xs ptr = Some (vs, ys)" "out = JArr ys"
      by (auto simp: walk_array split: option.splits)
    with array "1.IH"(2) [OF refl _ _ _ array(3) array(2) w(1)] show ?thesis by (simp add: clean_array)
  next
    case leaf
    then show ?thesis using "1.prems" by (rule walk_leaf_clean)
  qed
next
  case (2 dt s k v ptr)
  then show ?case by (auto simp: member_ok_def split: option.splits if_splits)
next
  case (4 dt s k v m ptr)
  then show ?case by (fastforce split: option.splits)
next
  case (6 dt s i v xs ptr)
  then show ?case by (fastforce split: option.splits if_splits)
qed auto

subsection \<open>Enumerations of scalars\<close>

text \<open>The package documents enumerations of strings, numbers and booleans; with those no comparison panics.\<close>

definition is_scalar :: "json \<Rightarrow> bool" where
  "is_scalar v \<longleftrightarrow> (case v of JObj _ \<Rightarrow> False | JArr _ \<Rightarrow> False | _ \<Rightarrow> True)"

fun scalar_enums :: "Schema \<Rightarrow> bool" where
  "scalar_enums (Schema t ps req add items enum) \<longleftrightarrow>
     list_all is_scalar enum \<and> (\<forall>kv \<in> set ps. pred_option scalar_enums (snd kv)) \<and> pred_option scalar_enums items"

lemma scalar_enums_iff: "scalar_enums s \<longleftrightarrow>
    list_all is_scalar (ssEnum s) \<and> (\<forall>kv \<in> set (ssProperties s). pred_option scalar_enums (snd kv))
      \<and> pred_option scalar_enums (ssItems s)"
  by (cases s) simp

lemma scalar_enums_property: "scalar_enums s \<Longrightarrow> map_of (ssProperties s) k = Some (Some sub) \<Longrightarrow> scalar_enums sub"
  by (subst (asm) scalar_enums_iff) (force dest: map_of_SomeD)

lemma scalar_enums_items: "scalar_enums s \<Longrightarrow> ssItems s = Some i \<Longrightarrow> scalar_enums i"
  by (subst (asm) scalar_enums_iff) simp

lemma enum_has_total: "list_all is_scalar enum \<Longrightarrow> enum_has enum v \<noteq> None"
proof (induction enum)
  case (Cons a as)
  then show ?case
    by (cases "(a, v)" rule: jsonEqual.cases) (auto simp: is_scalar_def split: option.splits bool.splits)
qed simp

lemma checkEnum_total: "scalar_enums s \<Longrightarrow> checkEnum dt (ssEnum s) v ptr \<noteq> None"
  using enum_has_total [of "ssEnum s" v]
  by (subst (asm) scalar_enums_iff) (auto simp: checkEnum_def split: option.splits bool.splits)

lemma walk_leaf_total: "leaf s node \<Longrightarrow> scalar_enums s \<Longrightarrow> walk dt s node ptr \<noteq> None"
  using checkEnum_total [of s dt node ptr]
  by (auto simp: walk.simps [of dt s node ptr] leaf_def Let_def split: json.splits option.splits)

lemma walk_total_all:
  "scalar_enums s \<Longrightarrow> walk dt s node ptr \<noteq> None"
  "scalar_enums s \<Longrightarrow> walk_member dt s k v ptr \<noteq> None"
  "scalar_enums s \<Longrightarrow> walk_members dt s m ptr \<noteq> None"
  "scalar_enums s \<Longrightarrow> walk_items dt s i xs ptr \<noteq> None"
proof (induction dt s node ptr and dt s k v ptr and dt s m ptr and dt s i xs ptr rule: walk_induct)
  case (1 dt s node ptr)
  then show ?case
  proof (cases s node rule: walk_cases)
    case (object m)
    with "1.IH"(1) [OF refl _ _ object(2) "1.prems"] show ?thesis by (auto simp: walk_object)
  next
    case (array xs i)
    with "1.IH"(2) [OF refl _ _ _ array(3) array(2) scalar_enums_items [OF "1.prems" array(2)]] show ?thesis
      by (auto simp: walk_array)
  next
    case leaf
    then show ?thesis using "1.prems" by (rule walk_leaf_total)
  qed
next
  case (2 dt s k v ptr)
  then show ?case by (auto split: option.splits dest: scalar_enums_property)
next
  case (4 dt s k v m ptr)
  then show ?case by (fastforce simp del: walk_member.simps split: option.splits)
next
  case (6 dt s i v xs ptr)
  then show ?case by (fastforce split: option.splits)
qed auto

text \<open>
  C24. Validation against a schema whose enumerations hold scalars always ends with a result: it reports a
  violation exactly when the response does not conform to the schema, and what it offers to forward is the
  encoding of a value with nothing the schema does not declare.
\<close>

theorem validate_decides_conformance:
  assumes "scalar_enums s" "raw \<noteq> []" "decode raw = Inr node"
  shows "\<exists>r cleaned. os_Validate dt decode num (Some s) raw = Some r
    \<and> (HasViolations r \<longleftrightarrow> \<not> conforms s node)
    \<and> srStripped r = Some (enc_json num cleaned) \<and> clean s cleaned"
proof -
  obtain vs out where w: "walk dt s node [] = Some (vs, out)"
    using walk_total_all(1) [OF assms(1)] by fastforce
  from walk_conforms_all(1) [OF w] walk_clean_all(1) [OF w] show ?thesis
    using assms(2, 3) w by (auto simp: os_Validate_def HasViolations_def)
qed

text \<open>A customer record with an integer id and a status; the response carries a card number and a wrong status.\<close>

definition customer_schema :: Schema where
  "customer_schema = Schema ''object''
     [(''id'', Some (Schema ''integer'' [] [] False None [])),
      (''status'', Some (Schema ''string'' [] [] False None [JStr ''open'', JStr ''shut'']))]
     [''id''] False None []"

definition customer_reply :: json where
  "customer_reply = JObj [(''id'', JNum 7), (''card'', JStr ''4111''), (''status'', JStr ''open'')]"

lemma customer_scalar: "scalar_enums customer_schema"
  by (simp add: customer_schema_def is_scalar_def)

lemma validate_decides_conformance_witness:
  "\<exists>r cleaned. os_Validate \<lparr>dtType = (\<lambda>t v. t), dtEnum = (\<lambda>v. [])\<rparr> (\<lambda>r. Inr customer_reply) (\<lambda>q. ''7'')
       (Some customer_schema) ''{}'' = Some r
    \<and> (HasViolations r \<longleftrightarrow> \<not> conforms customer_schema customer_reply)
    \<and> srStripped r = Some (enc_json (\<lambda>q. ''7'') cleaned) \<and> clean customer_schema cleaned"
  by (rule validate_decides_conformance) (simp_all add: customer_scalar)

text \<open>Outside that limit the comparison of two objects panics.\<close>

lemma enum_object_panics: "walk dt (Schema [] [] [] False None [JObj []]) (JObj []) ptr = None"
  by (simp add: walk.simps checkEnum_def)

text \<open>A conforming response may still be changed: a null item of an array is dropped.\<close>

lemma null_item_dropped:
  "walk dt (Schema ''array'' [] [] False (Some (Schema [] [] [] False None [])) []) (JArr [JNull, JBool True]) ptr
    = Some ([], JArr [JBool True])"
  by (simp add: walk_array walk.simps checkEnum_def)

lemma ToolNames_sorted: "sorted (ToolNames ro)"
proof (cases ro)
  case (Some r)
  have "sorted xs \<Longrightarrow> sorted (foldl (\<lambda>acc x. insort x acc) xs ys)" for xs ys :: "string list"
    by (induction ys arbitrary: xs) (auto simp: sorted_insort)
  with Some show ?thesis by (simp add: ToolNames_def)
qed (simp add: ToolNames_def)

lemma ToolNames_mset: "mset (ToolNames (Some r)) = mset (map fst (orSchemas r))"
proof -
  have "mset (foldl (\<lambda>acc x. insort x acc) xs ys) = mset xs + mset ys" for xs ys :: "string list"
    by (induction ys arbitrary: xs) auto
  then show ?thesis by (simp add: ToolNames_def)
qed

lemma os_Lookup_AddTool: "os_Lookup (Some (os_AddTool n s r)) t =
    (if t = n then Some (s, case map_of (orPerTool r) t of Some a \<Rightarrow> a | None \<Rightarrow> orDefault r) else os_Lookup (Some r) t)"
  by (auto simp: os_Lookup_def os_AddTool_def update_conv' split: option.splits)

end
