(* ===== verification/PolicyStore.thy ===== *)
theory PolicyStore
  imports AuditEvent "HOL-Library.AList" "HOL-Library.List_Lexorder" "HOL-Library.Char_ord"
begin

text \<open>
  Package \<open>internal/policystore\<close>: drafts of Rego policies and the pointer, one per tenant, to the draft that
  is live (\<open>store.go\<close>, \<open>memory.go\<close>). A Go map is an association list without duplicate keys. Every operation
  takes the mutex, so a history of the store is a sequence of operations; \<open>perform\<close> runs one and \<open>history\<close> a
  sequence. A watch channel is its buffer: a send that finds four values in it is dropped. The results are the
  two facts the package promises: no pointer to a missing draft, and no approval by the proposer.
\<close>

datatype policystore_error = PsNotFound | PsActiveDraftDelete | PsNoProposal | PsSelfApproval | PsUnidentified

record Draft =
  dID :: string
  dName :: string
  dDescription :: string
  dRegoSource :: string
  dTenant :: string
  dCreatedAt :: gotime
  dUpdatedAt :: gotime
  dCreatedBy :: string

record ActivePolicy =
  paTenant :: string
  paCurrent :: string
  paPrevious :: string
  paPromotedAt :: gotime
  paPromotedBy :: string
  paProposed :: string
  paProposedBy :: string
  paProposedAt :: gotime
  paApprovedBy :: string

definition zero_active :: ActivePolicy where
  "zero_active = \<lparr>paTenant = [], paCurrent = [], paPrevious = [], paPromotedAt = 0, paPromotedBy = [],
     paProposed = [], paProposedBy = [], paProposedAt = 0, paApprovedBy = []\<rparr>"

record DraftFilter =
  dfTenant :: string
  dfLimit :: int
  dfOffset :: int

record MemoryStore =
  psDrafts :: "(string \<times> Draft) list"
  psActive :: "(string \<times> ActivePolicy) list"
  psWatchers :: "(nat \<times> ActivePolicy list) list"

definition ps_NewMemoryStore :: MemoryStore where
  "ps_NewMemoryStore = \<lparr>psDrafts = [], psActive = [], psWatchers = []\<rparr>"

text \<open>\<open>s.active[tenant]\<close>: the zero value when the row is absent.\<close>

definition active_row :: "MemoryStore \<Rightarrow> string \<Rightarrow> ActivePolicy" where
  "active_row s tenant = (case map_of (psActive s) tenant of Some a \<Rightarrow> a | None \<Rightarrow> zero_active)"

definition put_active :: "string \<Rightarrow> ActivePolicy \<Rightarrow> MemoryStore \<Rightarrow> MemoryStore" where
  "put_active tenant a s = s\<lparr>psActive := AList.update tenant a (psActive s)\<rparr>"

definition has_draft :: "MemoryStore \<Rightarrow> string \<Rightarrow> bool" where
  "has_draft s d \<longleftrightarrow> map_of (psDrafts s) d \<noteq> None"

subsection \<open>Watch channels\<close>

definition ps_Close :: "MemoryStore \<Rightarrow> MemoryStore" where
  "ps_Close s = s\<lparr>psWatchers := []\<rparr>"

definition Watch :: "nat \<Rightarrow> MemoryStore \<Rightarrow> MemoryStore" where
  "Watch chan s = s\<lparr>psWatchers := psWatchers s @ [(chan, [])]\<rparr>"

definition unsubscribe :: "nat \<Rightarrow> MemoryStore \<Rightarrow> MemoryStore" where
  "unsubscribe chan s =
     s\<lparr>psWatchers := takeWhile (\<lambda>c. fst c \<noteq> chan) (psWatchers s) @ drop 1 (dropWhile (\<lambda>c. fst c \<noteq> chan) (psWatchers s))\<rparr>"

definition notifyWatchers :: "ActivePolicy \<Rightarrow> MemoryStore \<Rightarrow> MemoryStore" where
  "notifyWatchers a s =
     s\<lparr>psWatchers := map (\<lambda>(chan, buf). if length buf < 4 then (chan, buf @ [a]) else (chan, buf)) (psWatchers s)\<rparr>"

subsection \<open>Drafts\<close>

text \<open>The eight random bytes are an argument.\<close>

definition newID :: "bytes \<Rightarrow> string" where
  "newID rnd = hex_encode (take 8 rnd)"

definition CreateDraft :: "bytes \<Rightarrow> gotime \<Rightarrow> Draft \<Rightarrow> MemoryStore \<Rightarrow> Draft \<times> MemoryStore" where
  "CreateDraft rnd now d s =
     (let d' = d\<lparr>dID := newID rnd, dCreatedAt := now, dUpdatedAt := now\<rparr> in
      (d', s\<lparr>psDrafts := AList.update (dID d') d' (psDrafts s)\<rparr>))"

definition UpdateDraft :: "gotime \<Rightarrow> Draft \<Rightarrow> MemoryStore \<Rightarrow> (policystore_error + Draft) \<times> MemoryStore" where
  "UpdateDraft now d s =
     (case map_of (psDrafts s) (dID d) of
        None \<Rightarrow> (Inl PsNotFound, s)
      | Some existing \<Rightarrow>
          (let d' = existing\<lparr>dName := dName d, dDescription := dDescription d, dRegoSource := dRegoSource d,
                             dUpdatedAt := now\<rparr> in
           (Inr d', s\<lparr>psDrafts := AList.update (dID d) d' (psDrafts s)\<rparr>)))"

definition GetDraft :: "string \<Rightarrow> MemoryStore \<Rightarrow> policystore_error + Draft" where
  "GetDraft d s = (case map_of (psDrafts s) d of None \<Rightarrow> Inl PsNotFound | Some x \<Rightarrow> Inr x)"

text \<open>A negative offset slices out of range, which panics: \<^const>\<open>None\<close>.\<close>

definition ListDrafts :: "DraftFilter \<Rightarrow> MemoryStore \<Rightarrow> Draft list option" where
  "ListDrafts f s =
     (let out = newest_first dUpdatedAt
            (filter (\<lambda>d. \<not> (dfTenant f \<noteq> [] \<and> dTenant d \<noteq> dfTenant f)) (map snd (psDrafts s)));
          limit = (if dfLimit f \<le> 0 then 100 else dfLimit f);
          limit = (if 1000 < limit then 1000 else limit) in
      if int (length out) \<le> dfOffset f then Some []
      else if dfOffset f < 0 then None
      else Some (take (nat limit) (drop (nat (dfOffset f)) out)))"

definition DeleteDraft :: "string \<Rightarrow> MemoryStore \<Rightarrow> policystore_error option \<times> MemoryStore" where
  "DeleteDraft d s =
     (if \<not> has_draft s d then (Some PsNotFound, s)
      else if list_ex (\<lambda>(t, a). paCurrent a = d \<or> paPrevious a = d) (psActive s) then (Some PsActiveDraftDelete, s)
      else (None, s\<lparr>psDrafts := AList.delete d (psDrafts s)\<rparr>))"

subsection \<open>The active pointer\<close>

definition ps_GetActive :: "string \<Rightarrow> MemoryStore \<Rightarrow> ActivePolicy" where
  "ps_GetActive tenant s = (active_row s tenant)\<lparr>paTenant := tenant\<rparr>"

definition ListActive :: "MemoryStore \<Rightarrow> ActivePolicy list" where
  "ListActive s =
     (case map_of (psActive s) [] of Some def \<Rightarrow> [def\<lparr>paTenant := []\<rparr>] | None \<Rightarrow> [])
     @ map (\<lambda>t. (active_row s t)\<lparr>paTenant := t\<rparr>) (sort (filter (\<lambda>t. t \<noteq> []) (map fst (psActive s))))"

definition Promote :: "gotime \<Rightarrow> string \<Rightarrow> string \<Rightarrow> string \<Rightarrow> MemoryStore \<Rightarrow> (policystore_error + ActivePolicy) \<times> MemoryStore" where
  "Promote now draftID promotedBy tenant s =
     (if \<not> has_draft s draftID then (Inl PsNotFound, s)
      else
        (let current = active_row s tenant in
         if paCurrent current = draftID then (Inr (current\<lparr>paTenant := tenant\<rparr>), s)
         else
           (let next = \<lparr>paTenant = tenant, paCurrent = draftID, paPrevious = paCurrent current, paPromotedAt = now,
                  paPromotedBy = promotedBy, paProposed = paProposed current, paProposedBy = paProposedBy current,
                  paProposedAt = paProposedAt current, paApprovedBy = []\<rparr> in
            (Inr next, notifyWatchers next (put_active tenant next s)))))"

definition Propose :: "gotime \<Rightarrow> string \<Rightarrow> string \<Rightarrow> string \<Rightarrow> MemoryStore \<Rightarrow> (policystore_error + ActivePolicy) \<times> MemoryStore" where
  "Propose now draftID proposedBy tenant s =
     (if proposedBy = [] then (Inl PsUnidentified, s)
      else if \<not> has_draft s draftID then (Inl PsNotFound, s)
      else
        (let next = (active_row s tenant)\<lparr>paTenant := tenant, paProposed := draftID, paProposedBy := proposedBy,
               paProposedAt := now\<rparr> in
         (Inr next, put_active tenant next s)))"

definition Approve :: "gotime \<Rightarrow> string \<Rightarrow> string \<Rightarrow> MemoryStore \<Rightarrow> (policystore_error + ActivePolicy) \<times> MemoryStore" where
  "Approve now approvedBy tenant s =
     (if approvedBy = [] then (Inl PsUnidentified, s)
      else
        (let current = active_row s tenant in
         if paProposed current = [] then (Inl PsNoProposal, s)
         else if paProposedBy current = [] then (Inl PsUnidentified, s)
         else if paProposedBy current = approvedBy then (Inl PsSelfApproval, s)
         else if \<not> has_draft s (paProposed current) then (Inl PsNotFound, s)
         else
           (let next = \<lparr>paTenant = tenant, paCurrent = paProposed current, paPrevious = paCurrent current,
                  paPromotedAt = now, paPromotedBy = paProposedBy current, paProposed = [], paProposedBy = [],
                  paProposedAt = 0, paApprovedBy = approvedBy\<rparr> in
            (Inr next, notifyWatchers next (put_active tenant next s)))))"

definition RejectProposal :: "string \<Rightarrow> MemoryStore \<Rightarrow> (policystore_error + ActivePolicy) \<times> MemoryStore" where
  "RejectProposal tenant s =
     (let current = active_row s tenant in
      if paProposed current = [] then (Inl PsNoProposal, s)
      else
        (let next = current\<lparr>paTenant := tenant, paProposed := [], paProposedBy := [], paProposedAt := 0\<rparr> in
         (Inr next, put_active tenant next s)))"

definition Rollback :: "gotime \<Rightarrow> string \<Rightarrow> string \<Rightarrow> MemoryStore \<Rightarrow> (policystore_error + ActivePolicy) \<times> MemoryStore" where
  "Rollback now rolledBackBy tenant s =
     (let current = active_row s tenant in
      if paPrevious current = [] then (Inl PsNotFound, s)
      else
        (let next = \<lparr>paTenant = tenant, paCurrent = paPrevious current, paPrevious = [], paPromotedAt = now,
               paPromotedBy = rolledBackBy, paProposed = paProposed current, paProposedBy = paProposedBy current,
               paProposedAt = paProposedAt current, paApprovedBy = []\<rparr> in
         (Inr next, notifyWatchers next (put_active tenant next s))))"

definition DeleteActive :: "string \<Rightarrow> MemoryStore \<Rightarrow> ActivePolicy \<times> MemoryStore" where
  "DeleteActive tenant s =
     (if tenant = [] then (active_row s [], s)
      else
        (let cleared = zero_active\<lparr>paTenant := tenant\<rparr> in
         (cleared, notifyWatchers cleared (s\<lparr>psActive := AList.delete tenant (psActive s)\<rparr>))))"

subsection \<open>Histories\<close>

datatype ps_op =
    PsCreate bytes gotime Draft
  | PsUpdate gotime Draft
  | PsDelete string
  | PsPromote gotime string string string
  | PsPropose gotime string string string
  | PsApprove gotime string string
  | PsReject string
  | PsRollback gotime string string
  | PsClear string
  | PsWatch nat
  | PsUnsubscribe nat
  | PsClose

fun perform :: "ps_op \<Rightarrow> MemoryStore \<Rightarrow> MemoryStore" where
  "perform (PsCreate rnd now d) s = snd (CreateDraft rnd now d s)"
| "perform (PsUpdate now d) s = snd (UpdateDraft now d s)"
| "perform (PsDelete d) s = snd (DeleteDraft d s)"
| "perform (PsPromote now d by t) s = snd (Promote now d by t s)"
| "perform (PsPropose now d by t) s = snd (Propose now d by t s)"
| "perform (PsApprove now by t) s = snd (Approve now by t s)"
| "perform (PsReject t) s = snd (RejectProposal t s)"
| "perform (PsRollback now by t) s = snd (Rollback now by t s)"
| "perform (PsClear t) s = snd (DeleteActive t s)"
| "perform (PsWatch chan) s = Watch chan s"
| "perform (PsUnsubscribe chan) s = unsubscribe chan s"
| "perform PsClose s = ps_Close s"

definition history :: "ps_op list \<Rightarrow> MemoryStore" where
  "history ops = fold perform ops ps_NewMemoryStore"

lemma history_nil [simp]: "history [] = ps_NewMemoryStore"
  and history_snoc [simp]: "history (ops @ [x]) = perform x (history ops)"
  by (simp_all add: history_def)

lemmas ps_ops_def = CreateDraft_def UpdateDraft_def DeleteDraft_def Promote_def Propose_def Approve_def
  RejectProposal_def Rollback_def DeleteActive_def Watch_def unsubscribe_def ps_Close_def

lemma rows_put [simp]: "active_row (put_active t a s) t' = (if t' = t then a else active_row s t')"
  by (simp add: active_row_def put_active_def update_conv')

lemma rows_cong [simp]:
  "active_row (s\<lparr>psDrafts := ds\<rparr>) t = active_row s t" "active_row (s\<lparr>psWatchers := ws\<rparr>) t = active_row s t"
  "active_row (notifyWatchers a s) t = active_row s t"
  "active_row (s\<lparr>psActive := AList.delete t' (psActive s)\<rparr>) t = (if t = t' then zero_active else active_row s t)"
  by (simp_all add: active_row_def notifyWatchers_def delete_conv')

lemma drafts_kept [simp]: "psDrafts (put_active t a s) = psDrafts s" "psWatchers (put_active t a s) = psWatchers s" "psDrafts (notifyWatchers a s) = psDrafts s"
  by (simp_all add: put_active_def notifyWatchers_def)

lemma row_new [simp]: "active_row ps_NewMemoryStore t = zero_active"
  by (simp add: active_row_def ps_NewMemoryStore_def)

lemma zero_active_simps [simp]: "paCurrent zero_active = []" "paPrevious zero_active = []" "paProposed zero_active = []"
  "paProposedBy zero_active = []" "paApprovedBy zero_active = []" "paPromotedBy zero_active = []"
  by (simp_all add: zero_active_def)

subsection \<open>No dangling pointer\<close>

definition points_at :: "ActivePolicy \<Rightarrow> string \<Rightarrow> bool" where
  "points_at a d \<longleftrightarrow> d \<noteq> [] \<and> (paCurrent a = d \<or> paPrevious a = d)"

text \<open>The invariant of the store: pointers lead to drafts, a proposal names its proposer, an approval names two people.\<close>

definition pointer_ok :: "MemoryStore \<Rightarrow> ActivePolicy \<Rightarrow> bool" where
  "pointer_ok s a \<longleftrightarrow> (\<forall>d. points_at a d \<longrightarrow> has_draft s d) \<and> (paProposed a \<noteq> [] \<longrightarrow> paProposedBy a \<noteq> [])
     \<and> (paApprovedBy a \<noteq> [] \<longrightarrow> paPromotedBy a \<noteq> [] \<and> paPromotedBy a \<noteq> paApprovedBy a)"

definition ps_ok :: "MemoryStore \<Rightarrow> bool" where
  "ps_ok s \<longleftrightarrow> (\<forall>t. pointer_ok s (active_row s t)) \<and> (\<forall>c \<in> set (psWatchers s). length (snd c) \<le> 4)
     \<and> (\<forall>d x. map_of (psDrafts s) d = Some x \<longrightarrow> dID x = d)"

lemma ps_okI:
  assumes "\<And>t. pointer_ok s (active_row s t)" "\<And>c. c \<in> set (psWatchers s) \<Longrightarrow> length (snd c) \<le> 4"
    "\<And>d x. map_of (psDrafts s) d = Some x \<Longrightarrow> dID x = d"
  shows "ps_ok s"
  using assms by (simp add: ps_ok_def)

lemma ps_okD:
  assumes "ps_ok s"
  shows "pointer_ok s (active_row s t)" "c \<in> set (psWatchers s) \<Longrightarrow> length (snd c) \<le> 4"
    "map_of (psDrafts s) d = Some x \<Longrightarrow> dID x = d"
  using assms by (auto simp: ps_ok_def)

lemma pointer_ok_zero [simp]: "pointer_ok s zero_active"
  by (simp add: pointer_ok_def points_at_def)

lemma pointer_ok_mono: "pointer_ok s a \<Longrightarrow> (\<And>d. points_at a d \<Longrightarrow> has_draft s d \<Longrightarrow> has_draft s' d) \<Longrightarrow> pointer_ok s' a"
  by (auto simp: pointer_ok_def)

lemma has_draft_cong [simp]: "has_draft (put_active t a s) d = has_draft s d" "has_draft (notifyWatchers a s) d = has_draft s d"
  "has_draft (s\<lparr>psActive := as\<rparr>) d = has_draft s d" "has_draft (s\<lparr>psWatchers := ws\<rparr>) d = has_draft s d"
  by (simp_all add: has_draft_def)

lemma pointer_ok_cong [simp]: "pointer_ok (put_active t a s) = pointer_ok s" "pointer_ok (notifyWatchers a s) = pointer_ok s"
  "pointer_ok (s\<lparr>psActive := as\<rparr>) = pointer_ok s" "pointer_ok (s\<lparr>psWatchers := ws\<rparr>) = pointer_ok s"
  by (simp_all add: pointer_ok_def fun_eq_iff)

lemma watchers_notify: "c \<in> set (psWatchers (notifyWatchers a s)) \<Longrightarrow>
    (\<And>c. c \<in> set (psWatchers s) \<Longrightarrow> length (snd c) \<le> 4) \<Longrightarrow> length (snd c) \<le> 4"
  by (fastforce simp: notifyWatchers_def split: if_splits prod.splits)

lemma ps_ok_put: "ps_ok s \<Longrightarrow> pointer_ok s a \<Longrightarrow> ps_ok (put_active t a s)"
  by (rule ps_okI) (auto dest: ps_okD)

lemma ps_ok_notify: "ps_ok s \<Longrightarrow> ps_ok (notifyWatchers a s)"
  by (rule ps_okI) (auto dest: ps_okD intro: watchers_notify)

lemma ps_ok_write: "ps_ok s \<Longrightarrow> dID x = d \<Longrightarrow> ps_ok (s\<lparr>psDrafts := AList.update d x (psDrafts s)\<rparr>)"
  by (rule ps_okI) (auto simp: has_draft_def update_conv' split: if_splits dest: ps_okD intro: pointer_ok_mono)

lemma ps_ok_delete:
  assumes "ps_ok s" and free: "\<not> list_ex (\<lambda>(t, a). paCurrent a = d \<or> paPrevious a = d) (psActive s)"
  shows "ps_ok (s\<lparr>psDrafts := AList.delete d (psDrafts s)\<rparr>)"
proof (rule ps_okI, goal_cases)
  case (1 t)
  have "\<not> points_at (active_row s t) d"
    using free by (auto simp: active_row_def points_at_def list_ex_iff split: option.splits dest: map_of_SomeD)
  then show ?case
    using ps_okD(1) [OF assms(1), of t]
    by (auto elim!: pointer_ok_mono simp: has_draft_def delete_conv')
next
  case (2 c)
  with assms(1) show ?case by (auto dest: ps_okD)
next
  case (3 d' x)
  with assms(1) show ?case by (auto simp: delete_conv' split: if_splits dest: ps_okD)
qed

lemma ps_ok_clear: "ps_ok s \<Longrightarrow> ps_ok (s\<lparr>psActive := AList.delete t (psActive s)\<rparr>)"
  by (rule ps_okI) (auto dest: ps_okD)

lemma ps_ok_watchers: "ps_ok s \<Longrightarrow> (\<And>c. c \<in> set ws \<Longrightarrow> c \<in> set (psWatchers s) \<or> snd c = []) \<Longrightarrow> ps_ok (s\<lparr>psWatchers := ws\<rparr>)"
  by (rule ps_okI) (auto dest: ps_okD, fastforce dest: ps_okD(2))

lemma ps_ok_publish: "ps_ok s \<Longrightarrow> pointer_ok s a \<Longrightarrow> ps_ok (notifyWatchers a (put_active t a s))"
  by (intro ps_ok_notify ps_ok_put)

lemma ps_ok_Promote: "ps_ok s \<Longrightarrow> ps_ok (snd (Promote now d by t s))"
  by (simp add: Promote_def Let_def, intro conjI impI ps_ok_publish ps_ok_put)
     (auto dest!: ps_okD(1) [of _ t] simp: pointer_ok_def points_at_def)

lemma ps_ok_Propose: "ps_ok s \<Longrightarrow> ps_ok (snd (Propose now d by t s))"
  by (simp add: Propose_def Let_def, intro conjI impI ps_ok_publish ps_ok_put)
     (auto dest!: ps_okD(1) [of _ t] simp: pointer_ok_def points_at_def)

lemma ps_ok_Approve: "ps_ok s \<Longrightarrow> ps_ok (snd (Approve now by t s))"
  by (simp add: Approve_def Let_def, intro conjI impI ps_ok_publish ps_ok_put)
     (auto dest!: ps_okD(1) [of _ t] simp: pointer_ok_def points_at_def)

lemma ps_ok_Rollback: "ps_ok s \<Longrightarrow> ps_ok (snd (Rollback now by t s))"
  by (simp add: Rollback_def Let_def, intro conjI impI ps_ok_publish ps_ok_put)
     (auto dest!: ps_okD(1) [of _ t] simp: pointer_ok_def points_at_def)

lemma ps_ok_Reject: "ps_ok s \<Longrightarrow> ps_ok (snd (RejectProposal t s))"
  by (simp add: RejectProposal_def Let_def, intro conjI impI ps_ok_publish ps_ok_put)
     (auto dest!: ps_okD(1) [of _ t] simp: pointer_ok_def points_at_def)

lemma ps_ok_perform: "ps_ok s \<Longrightarrow> ps_ok (perform x s)"
proof (induction x s rule: perform.induct)
  case (2 now d s)
  then show ?case by (auto simp: UpdateDraft_def Let_def split: option.splits dest: ps_okD intro!: ps_ok_write)
next
  case (11 chan s)
  have "set (drop 1 (dropWhile (\<lambda>c. fst c \<noteq> chan) (psWatchers s))) \<subseteq> set (psWatchers s)"
    by (meson order_trans set_drop_subset set_dropWhileD subsetI)
  with 11 show ?case by (auto simp: unsubscribe_def intro!: ps_ok_watchers dest: set_takeWhileD)
qed (auto simp: CreateDraft_def DeleteDraft_def DeleteActive_def Watch_def ps_Close_def Let_def
    intro!: ps_ok_write ps_ok_delete ps_ok_clear ps_ok_notify ps_ok_watchers ps_ok_Promote ps_ok_Propose ps_ok_Approve
      ps_ok_Rollback ps_ok_Reject)

lemma ps_ok_history: "ps_ok (history ops)"
proof (induction ops rule: rev_induct)
  case Nil
  show ?case by (rule ps_okI) (simp_all add: ps_NewMemoryStore_def active_row_def)
next
  case (snoc x ops)
  then show ?case by (simp add: ps_ok_perform)
qed

text \<open>
  C28. After any sequence of operations of the policy store, whatever their order, every tenant's current
  and previous pointer is empty or names a draft that exists; a pending proposal names its proposer, a recorded approval names two
  different people, and a watch channel never holds more than the four values of its buffer.
\<close>

theorem policy_store_type_safe: "ps_ok (history ops)"
  by (rule ps_ok_history)

subsection \<open>Separation of duties\<close>

fun direct :: "ps_op \<Rightarrow> bool" where
  "direct (PsPromote now d by t) = True"
| "direct _ = False"

definition pending :: "MemoryStore \<Rightarrow> string \<Rightarrow> string \<Rightarrow> string \<Rightarrow> bool" where
  "pending s t d p \<longleftrightarrow> d \<noteq> [] \<and> paProposed (active_row s t) = d \<and> paProposedBy (active_row s t) = p"

definition proposed_in :: "ps_op list \<Rightarrow> string \<Rightarrow> string \<Rightarrow> string \<Rightarrow> bool" where
  "proposed_in ops t d p \<longleftrightarrow> (\<exists>n. PsPropose n d p t \<in> set ops)"

text \<open>The draft was proposed for the tenant by one operator, and approved while that proposal was pending by another.\<close>

definition approved_in :: "ps_op list \<Rightarrow> string \<Rightarrow> string \<Rightarrow> bool" where
  "approved_in ops t d \<longleftrightarrow> (\<exists>before n q after p. ops = before @ PsApprove n q t # after
     \<and> proposed_in before t d p \<and> pending (history before) t d p \<and> p \<noteq> [] \<and> q \<noteq> [] \<and> p \<noteq> q)"

lemma approved_in_snoc [intro]: "approved_in ops t d \<Longrightarrow> approved_in (ops @ [x]) t d"
  unfolding approved_in_def by (metis append_Cons append_assoc)

lemma proposed_in_snoc [intro]: "proposed_in ops t d p \<Longrightarrow> proposed_in (ops @ [x]) t d p"
  by (auto simp: proposed_in_def)

text \<open>How one operation can change a row: where its proposal and its pointers come from.\<close>

lemma pending_perform: "pending (perform x s) t d p \<Longrightarrow> pending s t d p \<or> (\<exists>n. x = PsPropose n d p t)"
  by (induction x s rule: perform.induct)
    (auto simp: pending_def ps_ops_def Let_def split: option.splits if_splits)

lemma points_at_perform: "\<not> direct x \<Longrightarrow> points_at (active_row (perform x s) t) d \<Longrightarrow>
    points_at (active_row s t) d
    \<or> (\<exists>n q p. x = PsApprove n q t \<and> pending s t d p \<and> p \<noteq> [] \<and> q \<noteq> [] \<and> p \<noteq> q)"
  by (induction x s rule: perform.induct)
    (auto simp: pending_def points_at_def ps_ops_def Let_def split: option.splits if_splits)

lemma pending_proposed: "pending (history ops) t d p \<Longrightarrow> proposed_in ops t d p"
proof (induction ops rule: rev_induct)
  case (snoc x ops)
  then show ?case using pending_perform [of x "history ops" t d p] by (auto simp: proposed_in_def)
qed (auto simp: pending_def)

text \<open>
  Separation of duties: as long as nobody promotes a draft directly, in any sequence of store operations the
  draft a tenant's pointer names, as current policy or as the one to roll back to, was put forward for
  that tenant by one named operator and approved, while that very proposal was pending, by another.
\<close>

theorem four_eyes:
  assumes "list_all (\<lambda>x. \<not> direct x) ops" and "points_at (active_row (history ops) t) d"
  shows "approved_in ops t d"
  using assms
proof (induction ops rule: rev_induct)
  case (snoc x ops)
  from snoc.prems have "\<not> direct x" and "points_at (active_row (perform x (history ops)) t) d" by simp_all
  from points_at_perform [OF this] show ?case
  proof (elim disjE exE conjE)
    assume "points_at (active_row (history ops) t) d"
    with snoc show ?thesis by auto
  next
    fix n q p
    assume x: "x = PsApprove n q t" and p: "pending (history ops) t d p" and "p \<noteq> []" "q \<noteq> []" "p \<noteq> q"
    with pending_proposed [OF p] show ?thesis unfolding approved_in_def x by blast
  qed
qed (auto simp: points_at_def)

text \<open>Anna proposes a draft and Ben approves it.\<close>

definition sod_ops :: "ps_op list" where
  "sod_ops = [PsCreate (replicate 8 CHR ''a'') 5 (\<lparr>dID = [], dName = [], dDescription = [], dRegoSource = ''package p'',
      dTenant = [], dCreatedAt = 0, dUpdatedAt = 0, dCreatedBy = []\<rparr>),
    PsPropose 6 (newID (replicate 8 CHR ''a'')) ''anna'' ''t1'', PsApprove 7 ''ben'' ''t1'']"

lemma sod_live: "points_at (active_row (history sod_ops) ''t1'') (newID (replicate 8 CHR ''a''))"
  by code_simp

theorem four_eyes_witness: "approved_in sod_ops ''t1'' (newID (replicate 8 CHR ''a''))"
  by (rule four_eyes [OF _ sod_live]) (simp add: sod_ops_def)

text \<open>
  The approval is of the draft's identifier, not of its text: an update between the review and the approval, or after
  it, changes what the pointer leads to.
\<close>

lemma approved_source_can_change:
  assumes "GetDraft d s = Inr x" and "dID y = d"
  shows "\<exists>x'. GetDraft d (snd (UpdateDraft now y s)) = Inr x' \<and> dRegoSource x' = dRegoSource y
    \<and> active_row (snd (UpdateDraft now y s)) t = active_row s t"
  using assms by (auto simp: GetDraft_def UpdateDraft_def Let_def update_conv' split: option.splits)

subsection \<open>Listing, promotion and rollback\<close>

lemma ListDrafts_handler: "0 \<le> dfOffset f \<Longrightarrow> \<exists>ds. ListDrafts f s = Some ds \<and> length ds \<le> 1000
    \<and> sorted_wrt (\<lambda>a b. dUpdatedAt b \<le> dUpdatedAt a) ds
    \<and> (\<forall>d \<in> set ds. dfTenant f = [] \<or> dTenant d = dfTenant f)"
  by (auto simp: ListDrafts_def Let_def intro!: sorted_wrt_take sorted_wrt_drop newest_first_sorted
      dest!: in_set_takeD in_set_dropD)

text \<open>A rollback right after a promotion restores the policy that was live before it.\<close>

lemma rollback_promote:
  assumes "has_draft s d" "paCurrent (active_row s t) \<noteq> d" "paCurrent (active_row s t) \<noteq> []"
  shows "paCurrent (active_row (snd (Rollback now' by' t (snd (Promote now d by t s)))) t) = paCurrent (active_row s t)"
  using assms by (simp add: Promote_def Rollback_def Let_def)

end
