(* ===== verification/PolicyReload.thy ===== *)
theory PolicyReload
  imports Gateway
begin

text \<open>
  Package \<open>internal/policy\<close>, \<open>reloader.go\<close>: the compiled policies the gateway runs, a default one and one per tenant that has
  its own, and how a request finds its engine. Compilation and evaluation of Rego are the engine's: an engine is
  a value of type \<open>'e\<close>, and what it decides is an argument. The locale \<open>engine_slots\<close> is
  what the promotion endpoints rely on: swapping or dropping one tenant's engine touches no other tenant.
\<close>

record 'e Reloader =
  rlDefault :: 'e
  rlPerTenant :: "(string \<times> 'e) list"

definition NewReloader :: "'e \<Rightarrow> 'e Reloader" where
  "NewReloader initial = \<lparr>rlDefault = initial, rlPerTenant = []\<rparr>"

definition Current :: "'e Reloader \<Rightarrow> 'e" where
  "Current r = rlDefault r"

definition CurrentFor :: "'e Reloader \<Rightarrow> string \<Rightarrow> 'e" where
  "CurrentFor r tenant =
     (if tenant = [] then rlDefault r
      else case map_of (rlPerTenant r) tenant of Some eng \<Rightarrow> eng | None \<Rightarrow> rlDefault r)"

text \<open>An input that is not of type \<open>policy.Input\<close> has no tenant; the gateway passes no other.\<close>

definition extractTenant :: "PolicyInput \<Rightarrow> string" where
  "extractTenant i = (case inCapability i of None \<Rightarrow> [] | Some c \<Rightarrow> icTenant c)"

definition reload_Evaluate :: "('e \<Rightarrow> PolicyInput \<Rightarrow> string + PolicyDecision) \<Rightarrow> 'e Reloader \<Rightarrow> PolicyInput
    \<Rightarrow> string + PolicyDecision" where
  "reload_Evaluate eval r i =
     (let tenant = extractTenant i in
      if tenant \<noteq> [] then
        (case map_of (rlPerTenant r) tenant of Some eng \<Rightarrow> eval eng i | None \<Rightarrow> eval (rlDefault r) i)
      else eval (rlDefault r) i)"

text \<open>The engine swapped out is returned; a nil engine is refused.\<close>

definition SwapFor :: "string \<Rightarrow> 'e option \<Rightarrow> 'e Reloader \<Rightarrow> (string + 'e option) \<times> 'e Reloader" where
  "SwapFor tenant next r =
     (case next of
        None \<Rightarrow> (Inl ''policy: cannot swap to a nil engine'', r)
      | Some e \<Rightarrow>
          if tenant = [] then (Inr (Some (rlDefault r)), r\<lparr>rlDefault := e\<rparr>)
          else (Inr (map_of (rlPerTenant r) tenant), r\<lparr>rlPerTenant := AList.update tenant e (rlPerTenant r)\<rparr>))"

definition Swap :: "'e option \<Rightarrow> 'e Reloader \<Rightarrow> (string + 'e option) \<times> 'e Reloader" where
  "Swap next r = SwapFor [] next r"

definition RemoveFor :: "string \<Rightarrow> 'e Reloader \<Rightarrow> 'e Reloader" where
  "RemoveFor tenant r = (if tenant = [] then r else r\<lparr>rlPerTenant := AList.delete tenant (rlPerTenant r)\<rparr>)"

lemma Evaluate_current: "reload_Evaluate eval r i = eval (CurrentFor r (extractTenant i)) i"
  by (auto simp: reload_Evaluate_def CurrentFor_def Let_def split: option.splits)

subsection \<open>The contract of the slots\<close>

datatype 'e slot_op = SwapOp string 'e | RemoveOp string

fun slot_tenant :: "'e slot_op \<Rightarrow> string" where
  "slot_tenant (SwapOp t e) = t"
| "slot_tenant (RemoveOp t) = t"

locale engine_slots =
  fixes slot :: "'r \<Rightarrow> string \<Rightarrow> 'e option" and fallback :: "'r \<Rightarrow> 'e"
    and swap :: "string \<Rightarrow> 'e \<Rightarrow> 'r \<Rightarrow> 'r" and remove :: "string \<Rightarrow> 'r \<Rightarrow> 'r"
  assumes slot_swap: "slot (swap t e r) t' = (if t' = t \<and> t \<noteq> [] then Some e else slot r t')"
    and fallback_swap: "fallback (swap t e r) = (if t = [] then e else fallback r)"
    and slot_remove: "slot (remove t r) t' = (if t' = t \<and> t \<noteq> [] then None else slot r t')"
    and fallback_remove: "fallback (remove t r) = fallback r"
begin

fun slot_step :: "'e slot_op \<Rightarrow> 'r \<Rightarrow> 'r" where
  "slot_step (SwapOp t e) r = swap t e r"
| "slot_step (RemoveOp t) r = remove t r"

definition engine :: "'r \<Rightarrow> string \<Rightarrow> 'e" where
  "engine r t = (case slot r t of Some e \<Rightarrow> e | None \<Rightarrow> fallback r)"

lemma slot_step_other: "slot_tenant x \<noteq> t \<Longrightarrow> slot (slot_step x r) t = slot r t"
  by (cases x) (auto simp: slot_swap slot_remove)

text \<open>A tenant with its own policy is untouched by what happens to every other slot, the default one included.\<close>

lemma engine_others: "\<forall>x \<in> set xs. slot_tenant x \<noteq> t \<Longrightarrow> slot r t = Some e \<Longrightarrow> engine (fold slot_step xs r) t = e"
  by (induction xs arbitrary: r) (auto simp: engine_def slot_step_other)

lemma engine_swapped: "t \<noteq> [] \<Longrightarrow> \<forall>x \<in> set xs. slot_tenant x \<noteq> t \<Longrightarrow> engine (fold slot_step xs (swap t e r)) t = e"
  by (rule engine_others) (simp_all add: slot_swap)

end

definition rl_slot :: "'e Reloader \<Rightarrow> string \<Rightarrow> 'e option" where
  "rl_slot r t = (if t = [] then None else map_of (rlPerTenant r) t)"

interpretation reloader: engine_slots rl_slot rlDefault "\<lambda>t e r. snd (SwapFor t (Some e) r)" RemoveFor
  by unfold_locales (auto simp: rl_slot_def SwapFor_def RemoveFor_def update_conv' delete_conv')

lemma CurrentFor_engine: "CurrentFor r t = reloader.engine r t"
  by (simp add: CurrentFor_def reloader.engine_def rl_slot_def)

lemma CurrentFor_SwapFor: "CurrentFor (snd (SwapFor t (Some e) r)) t' =
    (if t' = t then e else if t = [] \<and> map_of (rlPerTenant r) t' = None then e else CurrentFor r t')"
  by (auto simp: CurrentFor_def SwapFor_def update_conv' split: option.splits)

end
