(* ===== verification/Admin.thy ===== *)
theory Admin
  imports Revocation KillSwitch Approvals TaskBinder Payloads AuditStore Delegation Provenance PolicyStore PolicyReload
begin

text \<open>
  Package \<open>internal/handlers\<close>, the admin API: who may call it (\<open>resolveAdminAuth\<close>), what a request may ask for, and the
  endpoints for tokens, revocations, kills, tasks, approvals, payloads, tenants and the audit query
  (\<open>admin.go\<close>, \<open>admin_exceptions.go\<close>, \<open>admin_killswitch.go\<close>, \<open>admin_tasks.go\<close>, \<open>admin_payloads.go\<close>). A handler is a function from the state of the gateway
  to a reply and the new state, with every early return of the code; the stores are the in-memory ones of the other
  theories, which never fail on their own, so the \<open>store error\<close> branches are not reached. A request body is what
  the JSON decoder made of it, or the text of its error. The
  maps of the configuration are association lists in the order \<open>range\<close> yields. Log lines are left out.
\<close>

subsection \<open>Requests, replies and the state\<close>

record admin_request =
  aqMethod :: string
  aqPath :: string
  aqAuthorization :: string
  aqElevation :: string
  aqActor :: string
  aqRemoteAddr :: string
  aqQuery :: "string \<Rightarrow> string"
  aqPathID :: string

datatype 'b admin_reply = AdminError int string | AdminOk int 'b

text \<open>Which optional parts of the configuration are set; an absent emitter drops the events.\<close>

record AdminConfig =
  acAdminToken :: string
  acTenantAdmins :: "(string \<times> string) list"
  acMasterKey :: bytes
  acExceptionMaxTTL :: int
  acRevocation :: bool
  acAudit :: bool
  acAuditStore :: bool
  acPayloads :: bool
  acApprovals :: bool
  acKillSwitch :: bool
  acTasks :: bool

text \<open>The clock at the points where a handler reads it, random bytes, and what the handlers take from other packages.\<close>

record admin_env =
  anNow :: gotime
  anStepUpNow :: gotime
  anMintNow :: gotime
  anStamp :: string
  anRand :: "bytes option"
  anHMAC :: "bytes \<Rightarrow> bytes \<Rightarrow> bytes"
  anMarshal :: "Token \<Rightarrow> bytes"
  anCapText :: "cap_error \<Rightarrow> string"
  anHKDF :: "bytes \<Rightarrow> bytes \<Rightarrow> bytes \<Rightarrow> nat \<Rightarrow> bytes option"
  anParseTime :: "string \<Rightarrow> string + gotime"
  anFormatTime :: "gotime \<Rightarrow> string"
  anValidJSON :: "bytes \<Rightarrow> bool"

record 'e admin_world =
  awRevocations :: RevocationStore
  awApprovals :: ApprovalStore
  awKills :: KillStore
  awTasks :: TaskStore
  awPayloads :: PayloadStore
  awAuditStore :: AuditStore
  awPolicies :: MemoryStore
  awReloader :: "'e Reloader"
  awEvents :: "Event list"

subsection \<open>Authentication\<close>

record adminAuth =
  aaOk :: bool
  aaTenant :: string

definition trim_prefix :: "string \<Rightarrow> string \<Rightarrow> string" where
  "trim_prefix s p = (if has_prefix s p then drop (length p) s else s)"

definition bearer :: "admin_request \<Rightarrow> string" where
  "bearer r = trim_space (trim_prefix (aqAuthorization r) ''Bearer '')"

text \<open>The loop over the tenants' tokens: the first match wins, and none replaces the superadministrator.\<close>

definition resolveAdminAuth :: "admin_request \<Rightarrow> AdminConfig \<Rightarrow> adminAuth" where
  "resolveAdminAuth r cfg =
     (let got = bearer r in
      if got = [] then \<lparr>aaOk = False, aaTenant = []\<rparr>
      else fold (\<lambda>(tenant, want) out.
               if want = [] then out
               else if got = want \<and> \<not> aaOk out then \<lparr>aaOk = True, aaTenant = tenant\<rparr> else out)
             (acTenantAdmins cfg)
             (if acAdminToken cfg \<noteq> [] \<and> got = acAdminToken cfg then \<lparr>aaOk = True, aaTenant = []\<rparr>
              else \<lparr>aaOk = False, aaTenant = []\<rparr>))"

definition checkAdminToken :: "admin_request \<Rightarrow> string \<Rightarrow> bool" where
  "checkAdminToken r want = (if want = [] then False else if bearer r = [] then False else bearer r = want)"

definition resolveElevationID :: "admin_request \<Rightarrow> string" where
  "resolveElevationID r =
     (let v = trim_space (aqElevation r) in if v = [] then [] else if 128 < length v then [] else v)"

definition parseIntParam :: "admin_request \<Rightarrow> string \<Rightarrow> int \<Rightarrow> int \<Rightarrow> int \<Rightarrow> int" where
  "parseIntParam r name def minVal maxVal =
     (let raw = aqQuery r name in
      if raw = [] then def
      else case atoi raw of
        None \<Rightarrow> def
      | Some v \<Rightarrow> if v < minVal then minVal else if maxVal < v then maxVal else v)"

definition sortStringsInPlace :: "string list \<Rightarrow> string list" where
  "sortStringsInPlace a = foldl (\<lambda>sorted x. insort x sorted) [] a"

abbreviation (input) unauthorized :: "'b admin_reply" where
  "unauthorized \<equiv> AdminError 401 ''invalid or missing admin token''"

text \<open>The tenant a request works on: the token's, which a different one in the request contradicts.\<close>

definition pinTenant :: "adminAuth \<Rightarrow> string \<Rightarrow> string option" where
  "pinTenant auth tenant =
     (if aaTenant auth \<noteq> [] then (if tenant \<noteq> [] \<and> tenant \<noteq> aaTenant auth then None else Some (aaTenant auth))
      else Some tenant)"

definition pageLimit :: "admin_request \<Rightarrow> int" where
  "pageLimit r = parseIntParam r ''limit'' 100 1 1000"

definition pageOffset :: "admin_request \<Rightarrow> int" where
  "pageOffset r = parseIntParam r ''offset'' 0 0 (2 ^ 31 - 1)"

definition emit_admin :: "AdminConfig \<Rightarrow> Event \<Rightarrow> 'e admin_world \<Rightarrow> 'e admin_world" where
  "emit_admin cfg e w = (if acAudit cfg then w\<lparr>awEvents := awEvents w @ [e]\<rparr> else w)"

lemma admin_emit_kept [simp]:
  "awRevocations (emit_admin cfg e w) = awRevocations w" "awApprovals (emit_admin cfg e w) = awApprovals w"
  "awKills (emit_admin cfg e w) = awKills w" "awTasks (emit_admin cfg e w) = awTasks w"
  "awPayloads (emit_admin cfg e w) = awPayloads w" "awAuditStore (emit_admin cfg e w) = awAuditStore w"
  "awPolicies (emit_admin cfg e w) = awPolicies w" "awReloader (emit_admin cfg e w) = awReloader w"
  by (simp_all add: emit_admin_def)

text \<open>An admin event: decision, endpoint, check, reason and tenant.\<close>

definition admin_event :: "admin_env \<Rightarrow> admin_request \<Rightarrow> string \<Rightarrow> string \<Rightarrow> string \<Rightarrow> string \<Rightarrow> string \<Rightarrow> Event" where
  "admin_event env r decision tool check reason tenant =
     (NewEvent (anStamp env) decision tool)\<lparr>evCheck := check, evReason := reason, evTenant := tenant,
        evRemoteIP := aqRemoteAddr r, evElevationID := resolveElevationID r\<rparr>"

subsection \<open>Revocations\<close>

record revokeBody =
  rbJTI :: string
  rbReason :: string

definition NewAdminRevokeHandler :: "AdminConfig \<Rightarrow> admin_env \<Rightarrow> admin_request \<Rightarrow> string + revokeBody \<Rightarrow> 'e admin_world
    \<Rightarrow> string admin_reply \<times> 'e admin_world" where
  "NewAdminRevokeHandler cfg env r decoded w =
     (let auth = resolveAdminAuth r cfg in
      if \<not> aaOk auth then (unauthorized, w)
      else if \<not> acRevocation cfg then (AdminError 503 ''revocation store not configured'', w)
      else case decoded of
        Inl e \<Rightarrow> (AdminError 400 (''invalid JSON: '' @ e), w)
      | Inr body \<Rightarrow>
          if trim_space (rbJTI body) = [] then (AdminError 400 ''jti is required'', w)
          else
            (AdminOk 200 (rbJTI body),
             emit_admin cfg ((admin_event env r DecisionBlock ''admin/revoke'' CheckCapability
                 (''token revoked: '' @ rbReason body) (aaTenant auth))\<lparr>evCapabilityTokenID := rbJTI body\<rparr>)
               (w\<lparr>awRevocations := Revoke (anNow env) (rbJTI body) (rbReason body) (aaTenant auth) (awRevocations w)\<rparr>)))"

definition NewAdminRevocationsListHandler :: "AdminConfig \<Rightarrow> admin_request \<Rightarrow> 'e admin_world
    \<Rightarrow> (RevokedToken list \<times> int \<times> int) admin_reply" where
  "NewAdminRevocationsListHandler cfg r w =
     (let auth = resolveAdminAuth r cfg in
      if \<not> aaOk auth then unauthorized
      else if \<not> acRevocation cfg then AdminError 503 ''revocation store not configured''
      else AdminOk 200 (rev_List (awRevocations w) (aaTenant auth) (pageLimit r) (nat (pageOffset r)), pageLimit r, pageOffset r))"

subsection \<open>Minting and exceptions\<close>

record mintBody =
  mbSubject :: string
  mbIssuer :: string
  mbTenant :: string
  mbZone :: string
  mbTTLSeconds :: int
  mbTools :: "string list"
  mbMaxCalls :: int
  mbStepUp :: bool
  mbCallees :: "string list"
  mbCalleeZones :: "string list"
  mbServers :: "string list"
  mbRatePerMin :: int
  mbMaxCents :: int
  mbRiskMax :: int
  mbWithKey :: bool

text \<open>Trimmed entries, the blank ones left out.\<close>

definition nonblank :: "string list \<Rightarrow> string list" where
  "nonblank xs = filter (\<lambda>x. x \<noteq> []) (map trim_space xs)"

text \<open>\<open>time.Duration(ttl) * time.Second\<close> is a product of \<open>int64\<close>, which wraps.\<close>

definition ttl_expiry :: "gotime \<Rightarrow> int \<Rightarrow> gotime" where
  "ttl_expiry now ttl = now + wrap64 (ttl * second)"

definition body_caveats :: "admin_env \<Rightarrow> mintBody \<Rightarrow> Caveat list" where
  "body_caveats env b =
     (if nonblank (mbTools b) = [] then []
      else [zero_caveat\<lparr>cvType := CaveatToolWhitelist, cvTools := nonblank (mbTools b)\<rparr>])
     @ (if mbMaxCalls b \<le> 0 then [] else [zero_caveat\<lparr>cvType := CaveatMaxCalls, cvMaxCalls := mbMaxCalls b\<rparr>])
     @ (if nonblank (mbServers b) = [] then []
        else [zero_caveat\<lparr>cvType := CaveatMcpAllow, cvServers := nonblank (mbServers b)\<rparr>])
     @ (if mbRatePerMin b \<le> 0 then [] else [zero_caveat\<lparr>cvType := CaveatRateLimit, cvRatePerMin := mbRatePerMin b\<rparr>])
     @ (if mbMaxCents b \<le> 0 then [] else [zero_caveat\<lparr>cvType := CaveatMaxCost, cvMaxCents := mbMaxCents b\<rparr>])
     @ (if mbRiskMax b \<le> 0 then [] else [zero_caveat\<lparr>cvType := CaveatRiskMax, cvRiskMax := mbRiskMax b\<rparr>])
     @ (if \<not> mbStepUp b then [] else [zero_caveat\<lparr>cvType := CaveatStepUp, cvStepUpAt := unix (anStepUpNow env)\<rparr>])
     @ (if nonblank (mbCallees b) = [] \<and> nonblank (mbCalleeZones b) = [] then []
        else [zero_caveat\<lparr>cvType := CaveatCalleeAllow, cvCallees := nonblank (mbCallees b),
                cvCalleeZones := nonblank (mbCalleeZones b)\<rparr>])"

definition mint_options :: "admin_env \<Rightarrow> string \<Rightarrow> mintBody \<Rightarrow> MintOptions" where
  "mint_options env tenant b =
     \<lparr>moIssuer = trim_space (mbIssuer b), moTenant = tenant, moZone = trim_space (mbZone b), moSubject = mbSubject b,
      moNotBefore = 0, moExpiry = (if 0 < mbTTLSeconds b then ttl_expiry (anNow env) (mbTTLSeconds b) else 0),
      moCaveats = body_caveats env b\<rparr>"

text \<open>The event both endpoints emit for the token they hand out.\<close>

definition token_event :: "admin_env \<Rightarrow> admin_request \<Rightarrow> string \<Rightarrow> string \<Rightarrow> string \<Rightarrow> Token \<Rightarrow> Event" where
  "token_event env r tool reason agent tok =
     (admin_event env r DecisionAllow tool CheckCapability reason (tkTenant tok))
        \<lparr>evCapabilityTokenID := tkID tok, evRootCapabilityTokenID := tkRootID tok,
         evCaveatCount := int (CaveatCount tok), evAgentID := agent\<rparr>"

record mintReply =
  myToken :: string
  myJTI :: string
  mySubject :: string
  myExpiresAt :: string
  myMemoryKey :: "string option"

text \<open>The encoding of a token never fails, so its error branch is not reached.\<close>

definition NewAdminMintHandler :: "AdminConfig \<Rightarrow> admin_env \<Rightarrow> admin_request \<Rightarrow> string + mintBody \<Rightarrow> 'e admin_world
    \<Rightarrow> mintReply admin_reply \<times> 'e admin_world" where
  "NewAdminMintHandler cfg env r decoded w =
     (let auth = resolveAdminAuth r cfg in
      if \<not> aaOk auth then (unauthorized, w)
      else if acMasterKey cfg = [] then (AdminError 503 ''master key not configured: mint disabled'', w)
      else case decoded of
        Inl e \<Rightarrow> (AdminError 400 (''invalid JSON: '' @ e), w)
      | Inr body \<Rightarrow>
          if trim_space (mbSubject body) = [] then (AdminError 400 ''subject is required'', w)
          else if mbTTLSeconds body < 0 then (AdminError 400 ''ttl_seconds must be >= 0'', w)
          else if mbMaxCalls body < 0 then (AdminError 400 ''max_calls must be >= 0'', w)
          else case pinTenant auth (trim_space (mbTenant body)) of
            None \<Rightarrow> (AdminError 403 ''tenant in body does not match admin token's tenant'', w)
          | Some tenant \<Rightarrow>
              (let opts = mint_options env tenant body in
               case Mint (anHMAC env) (acMasterKey cfg) opts (anRand env) (anMintNow env) (anMintNow env) of
                 Inl e \<Rightarrow> (AdminError 400 (''mint error: '' @ anCapText env e), w)
               | Inr tok \<Rightarrow>
                   (AdminOk 200 \<lparr>myToken = Encode (anMarshal env) tok, myJTI = tkID tok, mySubject = mbSubject body,
                      myExpiresAt = (if is_zero (moExpiry opts) then [] else anFormatTime env (moExpiry opts)),
                      myMemoryKey = (if mbWithKey body
                        then (case DeriveSessionKey (anHKDF env) (acMasterKey cfg) (tkID tok) of
                                Inl _ \<Rightarrow> None | Inr key \<Rightarrow> Some (rawurl_encode key))
                        else None)\<rparr>,
                    emit_admin cfg (token_event env r ''admin/mint'' (''token minted for subject='' @ mbSubject body)
                      (mbSubject body) tok) w)))"

definition defaultExceptionMaxTTL :: int where
  "defaultExceptionMaxTTL = 48 * 3600 * second"

record exceptionBody =
  ebAgentID :: string
  ebTenant :: string
  ebZone :: string
  ebTools :: "string list"
  ebTTLSeconds :: int
  ebExceptionRef :: string
  ebApprovedBy :: string
  ebReason :: string

definition exceptionMaxTTL :: "AdminConfig \<Rightarrow> int" where
  "exceptionMaxTTL cfg = (if acExceptionMaxTTL cfg \<le> 0 then defaultExceptionMaxTTL else acExceptionMaxTTL cfg)"

definition exception_reason :: "exceptionBody \<Rightarrow> string" where
  "exception_reason b =
     ''risk exception '' @ trim_space (ebExceptionRef b) @ '' granted for agent='' @ trim_space (ebAgentID b)
     @ '' tools='' @ str_join '','' (nonblank (ebTools b))
     @ (if trim_space (ebApprovedBy b) = [] then [] else '' approved_by='' @ trim_space (ebApprovedBy b))
     @ (if trim_space (ebReason b) = [] then [] else '' ('' @ trim_space (ebReason b) @ '')'')"

definition exception_options :: "admin_env \<Rightarrow> string \<Rightarrow> exceptionBody \<Rightarrow> MintOptions" where
  "exception_options env tenant b =
     \<lparr>moIssuer = [], moTenant = tenant, moZone = trim_space (ebZone b), moSubject = trim_space (ebAgentID b),
      moNotBefore = 0, moExpiry = ttl_expiry (anNow env) (ebTTLSeconds b),
      moCaveats = [zero_caveat\<lparr>cvType := CaveatToolWhitelist, cvTools := nonblank (ebTools b)\<rparr>]\<rparr>"

record exceptionReply =
  xyToken :: string
  xyJTI :: string
  xyAgentID :: string
  xyTools :: "string list"
  xyExceptionRef :: string
  xyExpiresAt :: string

definition NewAdminExceptionGrantHandler :: "AdminConfig \<Rightarrow> admin_env \<Rightarrow> admin_request \<Rightarrow> string + exceptionBody
    \<Rightarrow> 'e admin_world \<Rightarrow> exceptionReply admin_reply \<times> 'e admin_world" where
  "NewAdminExceptionGrantHandler cfg env r decoded w =
     (let auth = resolveAdminAuth r cfg in
      if \<not> aaOk auth then (unauthorized, w)
      else if acMasterKey cfg = [] then (AdminError 503 ''master key not configured: exception grant disabled'', w)
      else case decoded of
        Inl e \<Rightarrow> (AdminError 400 (''invalid JSON: '' @ e), w)
      | Inr body \<Rightarrow>
          if trim_space (ebAgentID body) = [] then (AdminError 400 ''agent_id is required'', w)
          else if trim_space (ebExceptionRef body) = []
            then (AdminError 400 ''exception_ref is required (the approved GRC/IGA exception id)'', w)
          else if ebTTLSeconds body \<le> 0 then (AdminError 400 ''ttl_seconds must be > 0 (an exception must expire)'', w)
          else if exceptionMaxTTL cfg div second < ebTTLSeconds body
            then (AdminError 400 ''ttl_seconds exceeds the maximum exception window'', w)
          else if nonblank (ebTools body) = []
            then (AdminError 400 ''tools must list at least one tool (an exception must be scoped)'', w)
          else case pinTenant auth (trim_space (ebTenant body)) of
            None \<Rightarrow> (AdminError 403 ''tenant in body does not match admin token's tenant'', w)
          | Some tenant \<Rightarrow>
              (let opts = exception_options env tenant body in
               case Mint (anHMAC env) (acMasterKey cfg) opts (anRand env) (anMintNow env) (anMintNow env) of
                 Inl e \<Rightarrow> (AdminError 400 (''mint error: '' @ anCapText env e), w)
               | Inr tok \<Rightarrow>
                   (AdminOk 200 \<lparr>xyToken = Encode (anMarshal env) tok, xyJTI = tkID tok, xyAgentID = moSubject opts,
                      xyTools = nonblank (ebTools body), xyExceptionRef = trim_space (ebExceptionRef body),
                      xyExpiresAt = anFormatTime env (moExpiry opts)\<rparr>,
                    emit_admin cfg (token_event env r ''admin/exception-grant'' (exception_reason body) (moSubject opts) tok) w)))"

subsection \<open>What a granted token can do\<close>

lemma ttl_expiry_exact:
  assumes "0 < ttl" "ttl \<le> m div second" "in_int64 m"
  shows "ttl_expiry now ttl = now + ttl * second"
proof -
  have "ttl * second \<le> m div second * second" using assms(2) by (simp add: mult_right_mono)
  also have "\<dots> \<le> m" by simp
  finally have "ttl * second \<le> m" .
  with assms have "in_int64 (ttl * second)" by (simp add: in_int64_def)
  then show ?thesis by (simp add: ttl_expiry_def wrap64_id)
qed

lemma unix_add_seconds: "unix (now + n * second) = unix now + n"
  by (simp add: unix_def)

lemma Mint_caveats: "Mint H key opts rnd c1 c2 = Inr tok \<Longrightarrow> tkCaveats tok = mint_caveats opts"
  by (erule Mint_Inr) (auto simp: Sign_def mint_token_def split: if_splits sum.splits)

text \<open>Every caveat of a token bounds what the token passes.\<close>

lemma passed_caveat: "cap_Check tok ctx clock = None \<Longrightarrow> c \<in> set (tkCaveats tok) \<Longrightarrow>
    evalCaveat c ctx (effective_now ctx clock) = None"
  by (simp add: cap_Check_None)

lemma passed_agent_lock: "evalCaveat (zero_caveat\<lparr>cvType := CaveatAgentLock, cvAgent := a\<rparr>) ctx now = None \<Longrightarrow> rcAgentID ctx = a"
  by (auto simp: evalCaveat_def caveat_types split: if_splits)

lemma passed_expiry: "evalCaveat (zero_caveat\<lparr>cvType := CaveatExpiry, cvExpiry := e\<rparr>) ctx now = None \<Longrightarrow> unix now < e"
  by (auto simp: evalCaveat_def caveat_types split: if_splits)

lemma passed_whitelist: "evalCaveat (zero_caveat\<lparr>cvType := CaveatToolWhitelist, cvTools := ts\<rparr>) ctx now = None \<Longrightarrow>
    \<not> rcEastWest ctx \<Longrightarrow> matchAnyTool ts (rcTool ctx)"
  by (auto simp: evalCaveat_def caveat_types split: if_splits)

text \<open>What a successful grant says: the options that were minted, and their bounds.\<close>

lemma exception_granted:
  assumes "NewAdminExceptionGrantHandler cfg env r decoded w = (AdminOk st rep, w')"
  obtains body tenant tok where "decoded = Inr body" "aaOk (resolveAdminAuth r cfg)"
    "0 < ebTTLSeconds body" "ebTTLSeconds body \<le> exceptionMaxTTL cfg div second" "nonblank (ebTools body) \<noteq> []"
    "pinTenant (resolveAdminAuth r cfg) (trim_space (ebTenant body)) = Some tenant"
    "Mint (anHMAC env) (acMasterKey cfg) (exception_options env tenant body) (anRand env) (anMintNow env) (anMintNow env) = Inr tok"
    "xyToken rep = Encode (anMarshal env) tok" "xyAgentID rep = trim_space (ebAgentID body)" "xyTools rep = nonblank (ebTools body)"
    "w' = emit_admin cfg (token_event env r ''admin/exception-grant'' (exception_reason body) (trim_space (ebAgentID body)) tok) w"
proof -
  from assms obtain body where d: "decoded = Inr body"
    by (simp add: NewAdminExceptionGrantHandler_def Let_def split: if_splits sum.splits)
  note h = assms [unfolded NewAdminExceptionGrantHandler_def Let_def d sum.case]
  have 1: "aaOk (resolveAdminAuth r cfg)" "0 < ebTTLSeconds body" "nonblank (ebTools body) \<noteq> []"
    "ebTTLSeconds body \<le> exceptionMaxTTL cfg div second"
    using h by (simp_all split: if_splits)
  from h obtain tenant where t: "pinTenant (resolveAdminAuth r cfg) (trim_space (ebTenant body)) = Some tenant"
    by (simp split: if_splits option.splits)
  from h obtain tok where m: "Mint (anHMAC env) (acMasterKey cfg) (exception_options env tenant body) (anRand env)
      (anMintNow env) (anMintNow env) = Inr tok"
    by (simp add: t split: if_splits sum.splits)
  have subj: "moSubject (exception_options env tenant body) = trim_space (ebAgentID body)"
    by (simp add: exception_options_def)
  show thesis
    by (rule that [OF d 1(1,2,4,3) t m]) (use h in \<open>auto simp: t m subj split: if_splits\<close>)
qed

text \<open>
  C31. A risk exception stays within its bounds: every token the grant endpoint hands out passes the capability
  check only for the named agent, only before the maximum exception window has passed, and, on a call to a
  tool, only for one of the approved tools.
\<close>

theorem exception_grant_bounded:
  assumes "NewAdminExceptionGrantHandler cfg env r decoded w = (AdminOk st rep, w')"
    and "0 \<le> anNow env" and "in_int64 (acExceptionMaxTTL cfg)"
  shows "\<exists>tok. xyToken rep = Encode (anMarshal env) tok
    \<and> (\<forall>ctx clock. cap_Check tok ctx clock = None \<longrightarrow>
        rcAgentID ctx = xyAgentID rep
        \<and> unix (effective_now ctx clock) < unix (anNow env) + exceptionMaxTTL cfg div second
        \<and> (rcEastWest ctx \<or> matchAnyTool (xyTools rep) (rcTool ctx)))"
  using assms(1)
proof (rule exception_granted)
  fix body tenant tok
  assume ttl: "0 < ebTTLSeconds body" "ebTTLSeconds body \<le> exceptionMaxTTL cfg div second"
    and m: "Mint (anHMAC env) (acMasterKey cfg) (exception_options env tenant body) (anRand env) (anMintNow env) (anMintNow env) = Inr tok"
    and rep: "xyToken rep = Encode (anMarshal env) tok" "xyAgentID rep = trim_space (ebAgentID body)" "xyTools rep = nonblank (ebTools body)"
  have e: "ttl_expiry (anNow env) (ebTTLSeconds body) = anNow env + ebTTLSeconds body * second"
    by (rule ttl_expiry_exact [OF ttl]) (use assms(3) in \<open>simp add: exceptionMaxTTL_def defaultExceptionMaxTTL_def in_int64_def\<close>)
  have cs: "tkCaveats tok = [zero_caveat\<lparr>cvType := CaveatAgentLock, cvAgent := xyAgentID rep\<rparr>,
      zero_caveat\<lparr>cvType := CaveatExpiry, cvExpiry := unix (anNow env) + ebTTLSeconds body\<rparr>,
      zero_caveat\<lparr>cvType := CaveatToolWhitelist, cvTools := xyTools rep\<rparr>]"
    using Mint_caveats [OF m] ttl assms(2)
    by (simp add: exception_options_def mint_caveats_def e is_zero_def rep unix_add_seconds)
  have "rcAgentID ctx = xyAgentID rep \<and> unix (effective_now ctx clock) < unix (anNow env) + exceptionMaxTTL cfg div second
      \<and> (rcEastWest ctx \<or> matchAnyTool (xyTools rep) (rcTool ctx))" if "cap_Check tok ctx clock = None" for ctx clock
  proof -
    have ok: "evalCaveat c ctx (effective_now ctx clock) = None" if "c \<in> set (tkCaveats tok)" for c
      using \<open>cap_Check tok ctx clock = None\<close> that by (rule passed_caveat)
    have 1: "rcAgentID ctx = xyAgentID rep" by (rule passed_agent_lock [OF ok]) (simp add: cs)
    have 2: "unix (effective_now ctx clock) < unix (anNow env) + ebTTLSeconds body" by (rule passed_expiry [OF ok]) (simp add: cs)
    have 3: "rcEastWest ctx \<or> matchAnyTool (xyTools rep) (rcTool ctx)"
      using passed_whitelist [OF ok] by (auto simp: cs)
    from 1 2 3 ttl(2) show ?thesis by linarith
  qed
  with rep(1) show ?thesis by blast
qed

text \<open>A grant of one tool for an hour to the agent \<open>finance\<close>.\<close>

definition sample_admin :: AdminConfig where
  "sample_admin = \<lparr>acAdminToken = ''root'', acTenantAdmins = [(''acme'', ''acme-key'')], acMasterKey = ''master'',
     acExceptionMaxTTL = 0, acRevocation = True, acAudit = True, acAuditStore = True, acPayloads = True,
     acApprovals = True, acKillSwitch = True, acTasks = True\<rparr>"

definition sample_admin_env :: admin_env where
  "sample_admin_env = \<lparr>anNow = sample_clock, anStepUpNow = sample_clock, anMintNow = sample_clock, anStamp = ''t'',
     anRand = Some ''abcdefghijkl'', anHMAC = (\<lambda>k m. replicate 32 CHR ''h''), anMarshal = tkID,
     anCapText = (\<lambda>_. []), anHKDF = (\<lambda>_ _ _ _. None), anParseTime = (\<lambda>_. Inl []), anFormatTime = (\<lambda>_. []),
     anValidJSON = (\<lambda>_. True)\<rparr>"

definition sample_admin_request :: "string \<Rightarrow> admin_request" where
  "sample_admin_request auth = \<lparr>aqMethod = ''GET'', aqPath = [], aqAuthorization = auth, aqElevation = [], aqActor = [],
     aqRemoteAddr = ''10.0.0.1'', aqQuery = (\<lambda>_. []), aqPathID = []\<rparr>"

definition sample_exception :: exceptionBody where
  "sample_exception = \<lparr>ebAgentID = ''finance'', ebTenant = [], ebZone = [], ebTools = [''pay''], ebTTLSeconds = 3600,
     ebExceptionRef = ''EXC1'', ebApprovedBy = [], ebReason = []\<rparr>"

definition sample_admin_world :: "unit admin_world" where
  "sample_admin_world = \<lparr>awRevocations = [], awApprovals = [], awKills = [], awTasks = [], awPayloads = [],
     awAuditStore = as_NewMemoryStore 4, awPolicies = ps_NewMemoryStore, awReloader = NewReloader (), awEvents = []\<rparr>"

definition sample_grant :: "exceptionReply admin_reply" where
  "sample_grant = fst (NewAdminExceptionGrantHandler sample_admin sample_admin_env (sample_admin_request ''Bearer root'')
     (Inr sample_exception) sample_admin_world)"

lemma granted_case:
  assumes "case fst run of AdminOk st x \<Rightarrow> P x \<and> Q x | AdminError st msg \<Rightarrow> False"
  obtains st x w where "run = (AdminOk st x, w)" "P x" "Q x"
  using assms by (cases run; cases "fst run") auto

lemma sample_exception_checks:
  "aaOk (resolveAdminAuth (sample_admin_request ''Bearer root'') sample_admin)"
  "pinTenant (resolveAdminAuth (sample_admin_request ''Bearer root'') sample_admin) [] = Some []"
  "trim_space (ebAgentID sample_exception) = ''finance''" "trim_space (ebExceptionRef sample_exception) = ''EXC1''"
  "trim_space (ebTenant sample_exception) = []" "nonblank (ebTools sample_exception) = [''pay'']"
  "\<not> exceptionMaxTTL sample_admin div second < ebTTLSeconds sample_exception" "0 < ebTTLSeconds sample_exception"
  by code_simp+

lemma Mint_total: "moSubject opts \<noteq> [] \<Longrightarrow> key \<noteq> [] \<Longrightarrow> \<exists>tok. Mint H key opts (Some r) c1 c2 = Inr tok"
  by (simp add: Mint_def newTokenID_def Sign_def computeSignature_def)

lemma sample_exception_granted:
  "case sample_grant of AdminOk st rep \<Rightarrow> xyAgentID rep = ''finance'' \<and> xyTools rep = [''pay''] | AdminError st msg \<Rightarrow> False"
proof -
  have k: "acMasterKey sample_admin \<noteq> []" "anRand sample_admin_env = Some ''abcdefghijkl''"
    by (simp_all add: sample_admin_def sample_admin_env_def)
  have s: "moSubject (exception_options sample_admin_env [] sample_exception) = ''finance''"
    by (simp add: exception_options_def sample_exception_checks)
  then obtain tok where "Mint (anHMAC sample_admin_env) (acMasterKey sample_admin)
      (exception_options sample_admin_env [] sample_exception) (Some ''abcdefghijkl'')
      (anMintNow sample_admin_env) (anMintNow sample_admin_env) = Inr tok"
    using Mint_total [of "exception_options sample_admin_env [] sample_exception", OF _ k(1)] by force
  then show ?thesis
    by (simp add: sample_grant_def NewAdminExceptionGrantHandler_def sample_exception_checks k s not_le)
qed

theorem exception_grant_bounded_witness:
  "\<exists>(rep :: exceptionReply) tok. xyToken rep = Encode tkID tok \<and> xyTools rep = [''pay'']
    \<and> (\<forall>ctx clock. cap_Check tok ctx clock = None \<longrightarrow> rcAgentID ctx = ''finance''
        \<and> unix (effective_now ctx clock) < 50 + 172800 \<and> (rcEastWest ctx \<or> matchAnyTool [''pay''] (rcTool ctx)))"
proof -
  obtain st rep w' where g: "NewAdminExceptionGrantHandler sample_admin sample_admin_env
      (sample_admin_request ''Bearer root'') (Inr sample_exception) sample_admin_world = (AdminOk st rep, w')"
    and r: "xyAgentID rep = ''finance''" "xyTools rep = [''pay'']"
    by (rule granted_case [OF sample_exception_granted [unfolded sample_grant_def]]) (rule that)
  have h: "0 \<le> anNow sample_admin_env" "in_int64 (acExceptionMaxTTL sample_admin)"
    by (simp_all add: sample_admin_env_def sample_clock_def sample_admin_def in_int64_def)
  have v: "anMarshal sample_admin_env = tkID" "unix (anNow sample_admin_env) = 50" "exceptionMaxTTL sample_admin div second = 172800"
    by (simp_all add: sample_admin_env_def exceptionMaxTTL_def sample_admin_def defaultExceptionMaxTTL_def)
  from exception_grant_bounded [OF g h, unfolded v r] obtain tok where t: "xyToken rep = Encode tkID tok"
    "\<forall>ctx clock. cap_Check tok ctx clock = None \<longrightarrow> rcAgentID ctx = ''finance''
        \<and> unix (effective_now ctx clock) < 50 + 172800 \<and> (rcEastWest ctx \<or> matchAnyTool [''pay''] (rcTool ctx))"
    by (elim exE conjE)
  show ?thesis by (rule exI [of _ rep], rule exI [of _ tok]) (intro conjI t r(2))
qed

text \<open>A list of tools whose only entries are blank mints a token with no tool restriction at all.\<close>

lemma mem_optional: "c \<in> set (if b then [] else [x]) \<longleftrightarrow> \<not> b \<and> c = x"
  by simp

lemma blank_tools_unrestricted: "nonblank (mbTools b) = [] \<Longrightarrow> c \<in> set (body_caveats env b) \<Longrightarrow> cvType c \<noteq> CaveatToolWhitelist"
  unfolding body_caveats_def set_append Un_iff mem_optional
  by (elim disjE) (simp_all add: caveat_types)

text \<open>A lifetime of 300 years in seconds overflows the duration: the minted token is already expired.\<close>

lemma long_ttl_wraps: "ttl_expiry now 9460800000 < now"
  by (simp add: ttl_expiry_def wrap64_def)

subsection \<open>Who is authenticated\<close>

lemma resolve_fold: "aaOk (fold (\<lambda>(tenant, want) out. if want = [] then out
      else if got = want \<and> \<not> aaOk out then \<lparr>aaOk = True, aaTenant = tenant\<rparr> else out) ts a) \<Longrightarrow>
    fold (\<lambda>(tenant, want) out. if want = [] then out
      else if got = want \<and> \<not> aaOk out then \<lparr>aaOk = True, aaTenant = tenant\<rparr> else out) ts a = a \<and> aaOk a
    \<or> (\<exists>t. (t, got) \<in> set ts \<and> got \<noteq> [] \<and> fold (\<lambda>(tenant, want) out. if want = [] then out
      else if got = want \<and> \<not> aaOk out then \<lparr>aaOk = True, aaTenant = tenant\<rparr> else out) ts a = \<lparr>aaOk = True, aaTenant = t\<rparr>)"
proof (induction ts arbitrary: a)
  case (Cons x ts)
  obtain t want where x: "x = (t, want)" by (cases x)
  show ?case
    using Cons.prems Cons.IH [of "if want = [] then a else if got = want \<and> \<not> aaOk a then \<lparr>aaOk = True, aaTenant = t\<rparr> else a"]
    by (auto simp: x split: if_splits)
qed simp

text \<open>An authenticated request carries the superadministrator's token, or the token of the tenant it is scoped to.\<close>

lemma admin_authenticated:
  assumes "aaOk (resolveAdminAuth r cfg)"
  shows "bearer r \<noteq> [] \<and> (bearer r = acAdminToken cfg \<and> aaTenant (resolveAdminAuth r cfg) = []
    \<or> (aaTenant (resolveAdminAuth r cfg), bearer r) \<in> set (acTenantAdmins cfg))"
  using assms resolve_fold [of "bearer r" "acTenantAdmins cfg"]
  by (fastforce simp: resolveAdminAuth_def Let_def split: if_splits)

end
