(* ===== verification/AdminOps.thy ===== *)
theory AdminOps
  imports Admin
begin

text \<open>
  Package \<open>internal/handlers\<close>, the operator's endpoints over the kill switch, the tasks, the approval queue, the
  retained payloads, the tenants and the audit log (\<open>admin_killswitch.go\<close>, \<open>admin_tasks.go\<close>, \<open>admin_payloads.go\<close> and
  \<open>admin.go\<close>), in the style of theory \<open>Admin\<close>.
\<close>

subsection \<open>Kill switch\<close>

record killSwitchBody =
  kbScope :: string
  kbTenant :: string
  kbValue :: string
  kbReason :: string

definition resolveKillEntry :: "killSwitchBody \<Rightarrow> adminAuth \<Rightarrow> (int \<times> string) + KillEntry" where
  "resolveKillEntry b auth =
     (let scope = trim_space (kbScope b);
          e = \<lparr>keType = scope, keTenant = [], keValue = [], keReason = trim_space (kbReason b), keSetAt = 0,
               keSetBy = aaTenant auth\<rparr>;
          checked = (\<lambda>e. case kill_Validate e of Some _ \<Rightarrow> Inl (400, ''invalid scope combination'') | None \<Rightarrow> Inr e) in
      if scope = ScopeGlobal then
        (if aaTenant auth \<noteq> [] then Inl (403, ''only the superadmin may engage a global kill'') else checked e)
      else if scope = ScopeTenant then
        (if aaTenant auth = [] then
           (if trim_space (kbTenant b) = [] then Inl (400, ''tenant is required for a tenant kill'')
            else checked (e\<lparr>keTenant := trim_space (kbTenant b)\<rparr>))
         else checked (e\<lparr>keTenant := aaTenant auth\<rparr>))
      else if scope = ScopeAgent then
        (if trim_space (kbValue b) = [] then Inl (400, ''value (agent id) is required for an agent kill'')
         else if aaTenant auth = [] then
           (if trim_space (kbTenant b) = [] then Inl (400, ''tenant is required for an agent kill'')
            else checked (e\<lparr>keValue := trim_space (kbValue b), keTenant := trim_space (kbTenant b)\<rparr>))
         else checked (e\<lparr>keValue := trim_space (kbValue b), keTenant := aaTenant auth\<rparr>))
      else Inl (400, ''scope must be one of: global, tenant, agent''))"

definition kill_event :: "admin_env \<Rightarrow> admin_request \<Rightarrow> string \<Rightarrow> string \<Rightarrow> string \<Rightarrow> KillEntry \<Rightarrow> Event" where
  "kill_event env r decision tool reason e =
     (admin_event env r decision tool CheckCapability reason (keTenant e))\<lparr>evAgentID := keValue e\<rparr>"

definition NewAdminKillSwitchEngageHandler :: "AdminConfig \<Rightarrow> admin_env \<Rightarrow> admin_request \<Rightarrow> string + killSwitchBody
    \<Rightarrow> 'e admin_world \<Rightarrow> KillEntry admin_reply \<times> 'e admin_world" where
  "NewAdminKillSwitchEngageHandler cfg env r decoded w =
     (let auth = resolveAdminAuth r cfg in
      if \<not> aaOk auth then (unauthorized, w)
      else if \<not> acKillSwitch cfg then (AdminError 503 ''kill switch not configured'', w)
      else case decoded of
        Inl e \<Rightarrow> (AdminError 400 (''invalid JSON: '' @ e), w)
      | Inr body \<Rightarrow>
          (case resolveKillEntry body auth of
             Inl (status, msg) \<Rightarrow> (AdminError status msg, w)
           | Inr entry \<Rightarrow>
               (case Engage (anNow env) entry (awKills w) of
                  (Some _, kills) \<Rightarrow> (AdminError 503 ''store error: '', w\<lparr>awKills := kills\<rparr>)
                | (None, kills) \<Rightarrow>
                    (AdminOk 200 entry,
                     emit_admin cfg (kill_event env r DecisionBlock ''admin/kill-switch/engage''
                       (''kill switch engaged ('' @ keType entry @ ''): '' @ keReason entry) entry) (w\<lparr>awKills := kills\<rparr>)))))"

definition NewAdminKillSwitchReleaseHandler :: "AdminConfig \<Rightarrow> admin_env \<Rightarrow> admin_request \<Rightarrow> string + killSwitchBody
    \<Rightarrow> 'e admin_world \<Rightarrow> unit admin_reply \<times> 'e admin_world" where
  "NewAdminKillSwitchReleaseHandler cfg env r decoded w =
     (let auth = resolveAdminAuth r cfg in
      if \<not> aaOk auth then (unauthorized, w)
      else if \<not> acKillSwitch cfg then (AdminError 503 ''kill switch not configured'', w)
      else case decoded of
        Inl e \<Rightarrow> (AdminError 400 (''invalid JSON: '' @ e), w)
      | Inr body \<Rightarrow>
          (case resolveKillEntry body auth of
             Inl (status, msg) \<Rightarrow> (AdminError status msg, w)
           | Inr entry \<Rightarrow>
               (AdminOk 200 (),
                emit_admin cfg (kill_event env r DecisionAllow ''admin/kill-switch/release''
                  (''kill switch released ('' @ keType entry @ '')'') entry)
                  (w\<lparr>awKills := Release (keType entry) (keTenant entry) (keValue entry) (awKills w)\<rparr>))))"

definition NewAdminKillSwitchListHandler :: "AdminConfig \<Rightarrow> admin_request \<Rightarrow> 'e admin_world \<Rightarrow> KillEntry list admin_reply" where
  "NewAdminKillSwitchListHandler cfg r w =
     (let auth = resolveAdminAuth r cfg in
      if \<not> aaOk auth then unauthorized
      else if \<not> acKillSwitch cfg then AdminError 503 ''kill switch not configured''
      else
        (let all = kill_List (awKills w) in
         AdminOk 200
           (if aaTenant auth \<noteq> [] then filter (\<lambda>e. keType e = ScopeGlobal \<or> keTenant e = aaTenant auth) all else all)))"

subsection \<open>Tasks\<close>

definition NewAdminTasksListHandler :: "AdminConfig \<Rightarrow> admin_request \<Rightarrow> 'e admin_world \<Rightarrow> Task list admin_reply" where
  "NewAdminTasksListHandler cfg r w =
     (let auth = resolveAdminAuth r cfg in
      if \<not> aaOk auth then unauthorized
      else if \<not> acTasks cfg then AdminError 503 ''task binding not configured''
      else AdminOk 200 (task_List (awTasks w) (aaTenant auth) (pageLimit r) (nat (pageOffset r))))"

definition NewAdminTaskClearHandler :: "AdminConfig \<Rightarrow> admin_env \<Rightarrow> admin_request \<Rightarrow> string + string \<Rightarrow> 'e admin_world
    \<Rightarrow> unit admin_reply \<times> 'e admin_world" where
  "NewAdminTaskClearHandler cfg env r decoded w =
     (let auth = resolveAdminAuth r cfg in
      if \<not> aaOk auth then (unauthorized, w)
      else if \<not> acTasks cfg then (AdminError 503 ''task binding not configured'', w)
      else case decoded of
        Inl e \<Rightarrow> (AdminError 400 (''invalid JSON: '' @ e), w)
      | Inr tid \<Rightarrow>
          if trim_space tid = [] then (AdminError 400 ''id is required'', w)
          else case task_Get (awTasks w) (aaTenant auth) tid of
            Inl e \<Rightarrow> (AdminError 503 (''store error: '' @ e), w)
          | Inr None \<Rightarrow> (AdminError 404 ''task not found'', w)
          | Inr (Some t) \<Rightarrow>
              (case task_Upsert (t\<lparr>taDrift := 0, taStatus := StatusActive, taUpdatedAt := anNow env\<rparr>) (awTasks w) of
                 (Some e, tasks) \<Rightarrow> (AdminError 503 (''store error: '' @ e), w\<lparr>awTasks := tasks\<rparr>)
               | (None, tasks) \<Rightarrow>
                   (AdminOk 200 (),
                    emit_admin cfg ((admin_event env r DecisionAllow ''admin/tasks/clear'' CheckIntent
                      ''task drift cleared'' (taTenant t))\<lparr>evAgentID := taAgent t\<rparr>) (w\<lparr>awTasks := tasks\<rparr>))))"

subsection \<open>Approvals\<close>

text \<open>The \<open>status\<close> parameter is compared as text: one that names no status matches nothing.\<close>

definition status_filter :: "string \<Rightarrow> ApprovalStatus option option" where
  "status_filter s =
     (if s = [] then Some None
      else if s = ''pending'' then Some (Some StatusPending)
      else if s = ''approved'' then Some (Some StatusApproved)
      else if s = ''rejected'' then Some (Some StatusRejected)
      else if s = ''timeout'' then Some (Some StatusTimeout)
      else None)"

definition NewAdminApprovalsListHandler :: "AdminConfig \<Rightarrow> admin_request \<Rightarrow> 'e admin_world
    \<Rightarrow> (PendingRequest list \<times> int \<times> int) admin_reply" where
  "NewAdminApprovalsListHandler cfg r w =
     (let auth = resolveAdminAuth r cfg in
      if \<not> aaOk auth then unauthorized
      else if \<not> acApprovals cfg then AdminError 503 ''approvals queue not configured''
      else
        (let rows = (case status_filter (aqQuery r ''status'') of
               None \<Rightarrow> []
             | Some st \<Rightarrow> appr_List \<lparr>lfStatus = st, lfTenant = aaTenant auth, lfLimit = pageLimit r, lfOffset = pageOffset r\<rparr>
                 (awApprovals w)) in
         AdminOk 200 (rows, pageLimit r, pageOffset r)))"

record decideBody =
  dbDecision :: string
  dbDecidedBy :: string
  dbNote :: string

text \<open>The tenant's administrator sees a row of another tenant as a missing one.\<close>

definition approval_hidden :: "adminAuth \<Rightarrow> string \<Rightarrow> ApprovalStore \<Rightarrow> bool" where
  "approval_hidden auth pid s \<longleftrightarrow> aaTenant auth \<noteq> [] \<and>
     (case appr_Get pid s of Inl _ \<Rightarrow> True | Inr existing \<Rightarrow> prTenant existing \<noteq> aaTenant auth)"

definition NewAdminApprovalsDecideHandler :: "AdminConfig \<Rightarrow> admin_env \<Rightarrow> admin_request \<Rightarrow> string + decideBody
    \<Rightarrow> 'e admin_world \<Rightarrow> PendingRequest admin_reply \<times> 'e admin_world" where
  "NewAdminApprovalsDecideHandler cfg env r decoded w =
     (let auth = resolveAdminAuth r cfg in
      if \<not> aaOk auth then (unauthorized, w)
      else if \<not> acApprovals cfg then (AdminError 503 ''approvals queue not configured'', w)
      else if aqPathID r = [] then (AdminError 400 ''missing pending id'', w)
      else case decoded of
        Inl e \<Rightarrow> (AdminError 400 (''invalid JSON: '' @ e), w)
      | Inr body \<Rightarrow>
          if dbDecision body \<noteq> ''approve'' \<and> dbDecision body \<noteq> ''reject''
            then (AdminError 400 ''decision must be \"approve\" or \"reject\"'', w)
          else if approval_hidden auth (aqPathID r) (awApprovals w) then (AdminError 404 ''pending id not found'', w)
          else
            (case Decide (anNow env) (aqPathID r)
                \<lparr>adStatus = (if dbDecision body = ''approve'' then StatusApproved else StatusRejected),
                 adDecidedBy = dbDecidedBy body, adNote = dbNote body\<rparr> (awApprovals w) of
               (Inl ErrNotFound, s) \<Rightarrow> (AdminError 404 ''pending id not found'', w\<lparr>awApprovals := s\<rparr>)
             | (Inl ErrAlreadyDecided, s) \<Rightarrow> (AdminError 409 ''already decided'', w\<lparr>awApprovals := s\<rparr>)
             | (Inl _, s) \<Rightarrow> (AdminError 503 ''store error: '', w\<lparr>awApprovals := s\<rparr>)
             | (Inr row, s) \<Rightarrow> (AdminOk 200 row, w\<lparr>awApprovals := s\<rparr>)))"

subsection \<open>Payloads\<close>

definition payload_event :: "admin_env \<Rightarrow> admin_request \<Rightarrow> string \<Rightarrow> string \<Rightarrow> bool \<Rightarrow> Event" where
  "payload_event env r tenant eventID found =
     (NewEvent (anStamp env) DecisionAllow ''admin/payload_read'')
       \<lparr>evEventName := ''payload_read'',
        evReason := (if found then ''payload read'' else ''payload read: no retained payload for that event''),
        evTenant := tenant, evRemoteIP := aqRemoteAddr r, evCapabilityTokenID := eventID, evResultStored := found,
        evAgentID := (if trim_space (aqActor r) \<noteq> [] then trim_space (aqActor r) else ''admin-token'')\<rparr>"

definition emitPayloadRead :: "AdminConfig \<Rightarrow> admin_env \<Rightarrow> admin_request \<Rightarrow> string \<Rightarrow> string \<Rightarrow> bool
    \<Rightarrow> 'e admin_world \<Rightarrow> 'e admin_world" where
  "emitPayloadRead cfg env r tenant eventID found w = emit_admin cfg (payload_event env r tenant eventID found) w"

definition trim_slashes :: "string \<Rightarrow> string" where
  "trim_slashes s = rev (dropWhile (\<lambda>c. c = CHR ''/'') (rev (dropWhile (\<lambda>c. c = CHR ''/'') s)))"

definition payload_id :: "admin_request \<Rightarrow> string" where
  "payload_id r = trim_slashes (trim_prefix (aqPath r) ''/v1/admin/payloads/'')"

text \<open>The reply carries the record; the body is passed on as JSON when it is JSON.\<close>

definition NewAdminPayloadHandler :: "AdminConfig \<Rightarrow> admin_env \<Rightarrow> admin_request \<Rightarrow> 'e admin_world
    \<Rightarrow> (PayloadRecord \<times> bool) admin_reply \<times> 'e admin_world" where
  "NewAdminPayloadHandler cfg env r w =
     (if aqMethod r \<noteq> ''GET'' then (AdminError 405 ''method not allowed'', w)
      else
        (let auth = resolveAdminAuth r cfg; eventID = payload_id r; q = trim_space (aqQuery r ''tenant'') in
         if \<not> aaOk auth then (unauthorized, w)
         else if \<not> acPayloads cfg then (AdminError 404 ''response capture is not enabled on this gateway'', w)
         else if eventID = [] \<or> CHR ''/'' \<in> set eventID then (AdminError 400 ''expected /v1/admin/payloads/{event_id}'', w)
         else if aaTenant auth = [] \<and> q = [] \<and> acTenantAdmins cfg \<noteq> []
           then (AdminError 400 ''tenant is required: pass ?tenant= to name the tenant whose payload you are reading'', w)
         else if aaTenant auth \<noteq> [] \<and> q \<noteq> [] \<and> q \<noteq> aaTenant auth
           then (AdminError 403 ''not permitted to read payloads for another tenant'', w)
         else
           (let tenant = (if aaTenant auth = [] then q else aaTenant auth);
                found = pl_Get (anNow env) tenant eventID (awPayloads w);
                w' = emitPayloadRead cfg env r tenant eventID (found \<noteq> None) w in
            case found of
              None \<Rightarrow> (AdminError 404
                ''no retained payload for that event: it was never captured, or its retention period has passed'', w')
            | Some rec \<Rightarrow> (AdminOk 200 (rec, anValidJSON env (pyBody rec)), w'))))"

subsection \<open>Tenants and the audit log\<close>

definition NewAdminTenantsListHandler :: "AdminConfig \<Rightarrow> admin_request \<Rightarrow> string list admin_reply" where
  "NewAdminTenantsListHandler cfg r =
     (let auth = resolveAdminAuth r cfg in
      if \<not> aaOk auth then unauthorized
      else AdminOk 200
        (if aaTenant auth \<noteq> [] then [aaTenant auth]
         else sortStringsInPlace (map fst (filter (\<lambda>(tenant, tok). \<not> (tenant = [] \<or> tok = [])) (acTenantAdmins cfg)))))"

text \<open>A bound of the query window: absent, or a timestamp that must parse.\<close>

definition time_bound :: "admin_env \<Rightarrow> string \<Rightarrow> string + gotime" where
  "time_bound env s = (if s = [] then Inr 0 else anParseTime env s)"

definition audit_filter :: "admin_request \<Rightarrow> string \<Rightarrow> gotime \<Rightarrow> gotime \<Rightarrow> QueryFilter" where
  "audit_filter r tenant from to =
     \<lparr>qfFrom = from, qfTo = to, qfAgentID = aqQuery r ''agent_id'', qfTool = aqQuery r ''tool'',
      qfDecision = aqQuery r ''decision'', qfCheck = aqQuery r ''check'', qfCapabilityTokenID = aqQuery r ''jti'',
      qfTenant = tenant, qfElevationID = aqQuery r ''elevation_id'', qfLimit = pageLimit r, qfOffset = pageOffset r\<rparr>"

definition NewAdminAuditQueryHandler :: "AdminConfig \<Rightarrow> admin_env \<Rightarrow> (string \<Rightarrow> gotime option) \<Rightarrow> admin_request
    \<Rightarrow> 'e admin_world \<Rightarrow> (Event list \<times> int \<times> int \<times> int option) admin_reply" where
  "NewAdminAuditQueryHandler cfg env parse r w =
     (let auth = resolveAdminAuth r cfg in
      if \<not> aaOk auth then unauthorized
      else if \<not> acAuditStore cfg then AdminError 503 ''audit store not configured''
      else case pinTenant auth (aqQuery r ''tenant'') of
        None \<Rightarrow> AdminError 403 ''tenant in query does not match admin token's tenant''
      | Some tenant \<Rightarrow>
          (case time_bound env (aqQuery r ''from'') of
             Inl e \<Rightarrow> AdminError 400 (''invalid 'from' timestamp: '' @ e)
           | Inr from \<Rightarrow>
               (case time_bound env (aqQuery r ''to'') of
                  Inl e \<Rightarrow> AdminError 400 (''invalid 'to' timestamp: '' @ e)
                | Inr to \<Rightarrow>
                    (let f = audit_filter r tenant from to in
                     AdminOk 200 (as_Query parse f (awAuditStore w), pageLimit r, pageOffset r,
                       if aqQuery r ''count'' = ''true'' then Some (as_Count parse f (awAuditStore w)) else None)))))"

end
