(* ===== verification/PolicyAdmin.thy ===== *)
theory PolicyAdmin
  imports Admin
begin

text \<open>
  Package \<open>internal/handlers\<close>, \<open>admin_policies.go\<close>: the endpoints that edit drafts and move the policy a tenant runs. Each is
  the whole handler over the in-memory policy store and the reloader, with its early returns, the compilation
  (an argument, the OPA compiler) and its audit event. The memory store has no errors of its own and a compiled engine is
  never nil, so the branches for those are not reached.
\<close>

record 'e PolicyAdminConfig =
  pcAdminToken :: string
  pcTenantAdmins :: "(string \<times> string) list"
  pcStore :: bool
  pcReloader :: bool
  pcAudit :: bool
  pcRequireApproval :: bool
  pcCompile :: "string \<Rightarrow> string + 'e"

definition adminConfig :: "'e PolicyAdminConfig \<Rightarrow> AdminConfig" where
  "adminConfig cfg = \<lparr>acAdminToken = pcAdminToken cfg, acTenantAdmins = pcTenantAdmins cfg, acMasterKey = [],
     acExceptionMaxTTL = 0, acRevocation = False, acAudit = pcAudit cfg, acAuditStore = False, acPayloads = False,
     acApprovals = False, acKillSwitch = False, acTasks = False\<rparr>"

abbreviation (input) no_store :: "'b admin_reply" where
  "no_store \<equiv> AdminError 503 ''policy store not configured''"

abbreviation (input) no_draft :: "'b admin_reply" where
  "no_draft \<equiv> AdminError 404 ''draft not found''"

abbreviation (input) foreign_body :: "'b admin_reply" where
  "foreign_body \<equiv> AdminError 403 ''tenant in body does not match admin token's tenant''"

abbreviation (input) foreign_query :: "'b admin_reply" where
  "foreign_query \<equiv> AdminError 403 ''tenant in query does not match admin token's tenant''"

subsection \<open>Drafts\<close>

definition NewAdminDraftsListHandler :: "'e PolicyAdminConfig \<Rightarrow> admin_request \<Rightarrow> 'e admin_world
    \<Rightarrow> (Draft list option \<times> int \<times> int) admin_reply" where
  "NewAdminDraftsListHandler cfg r w =
     (let auth = resolveAdminAuth r (adminConfig cfg) in
      if \<not> aaOk auth then unauthorized
      else if \<not> pcStore cfg then no_store
      else case pinTenant auth (aqQuery r ''tenant'') of
        None \<Rightarrow> foreign_query
      | Some tenant \<Rightarrow>
          AdminOk 200 (ListDrafts \<lparr>dfTenant = tenant, dfLimit = pageLimit r, dfOffset = pageOffset r\<rparr> (awPolicies w),
            pageLimit r, pageOffset r))"

record draftBody =
  dbName :: string
  dbDescription :: string
  dbRegoSource :: string
  dbCreatedBy :: string
  dbTenant :: string

definition compilePolicy :: "'e PolicyAdminConfig \<Rightarrow> string \<Rightarrow> string option" where
  "compilePolicy cfg source = (case pcCompile cfg source of Inl e \<Rightarrow> Some e | Inr _ \<Rightarrow> None)"

text \<open>The two endpoints that take a source: it must be there, and it must compile.\<close>

definition source_error :: "'e PolicyAdminConfig \<Rightarrow> string \<Rightarrow> (int \<times> string) option" where
  "source_error cfg source =
     (if trim_space source = [] then Some (400, ''rego_source is required'')
      else case compilePolicy cfg source of
        Some e \<Rightarrow> Some (400, ''rego compile error: '' @ e)
      | None \<Rightarrow> None)"

definition NewAdminDraftsCreateHandler :: "'e PolicyAdminConfig \<Rightarrow> bytes \<Rightarrow> gotime \<Rightarrow> admin_request \<Rightarrow> string + draftBody
    \<Rightarrow> 'e admin_world \<Rightarrow> Draft admin_reply \<times> 'e admin_world" where
  "NewAdminDraftsCreateHandler cfg rnd now r decoded w =
     (let auth = resolveAdminAuth r (adminConfig cfg) in
      if \<not> aaOk auth then (unauthorized, w)
      else if \<not> pcStore cfg then (no_store, w)
      else case decoded of
        Inl e \<Rightarrow> (AdminError 400 (''invalid JSON: '' @ e), w)
      | Inr body \<Rightarrow>
          (case source_error cfg (dbRegoSource body) of
             Some (st, msg) \<Rightarrow> (AdminError st msg, w)
           | None \<Rightarrow>
               (case pinTenant auth (trim_space (dbTenant body)) of
                  None \<Rightarrow> (foreign_body, w)
                | Some tenant \<Rightarrow>
                    (case CreateDraft rnd now \<lparr>dID = [], dName = dbName body, dDescription = dbDescription body,
                         dRegoSource = dbRegoSource body, dTenant = tenant, dCreatedAt = 0, dUpdatedAt = 0,
                         dCreatedBy = dbCreatedBy body\<rparr> (awPolicies w) of
                       (created, s) \<Rightarrow> (AdminOk 201 created, w\<lparr>awPolicies := s\<rparr>)))))"

text \<open>A draft by the id in the path, as the caller may see it: another tenant's draft is not found.\<close>

definition visible_draft :: "adminAuth \<Rightarrow> string \<Rightarrow> MemoryStore \<Rightarrow> Draft option" where
  "visible_draft auth d s =
     (case GetDraft d s of
        Inl _ \<Rightarrow> None
      | Inr x \<Rightarrow> if aaTenant auth \<noteq> [] \<and> dTenant x \<noteq> aaTenant auth then None else Some x)"

definition NewAdminDraftGetHandler :: "'e PolicyAdminConfig \<Rightarrow> admin_request \<Rightarrow> 'e admin_world \<Rightarrow> Draft admin_reply" where
  "NewAdminDraftGetHandler cfg r w =
     (let auth = resolveAdminAuth r (adminConfig cfg) in
      if \<not> aaOk auth then unauthorized
      else if \<not> pcStore cfg then no_store
      else if aqPathID r = [] then AdminError 400 ''missing draft id''
      else case visible_draft auth (aqPathID r) (awPolicies w) of None \<Rightarrow> no_draft | Some d \<Rightarrow> AdminOk 200 d)"

definition NewAdminDraftUpdateHandler :: "'e PolicyAdminConfig \<Rightarrow> gotime \<Rightarrow> admin_request \<Rightarrow> string + draftBody
    \<Rightarrow> 'e admin_world \<Rightarrow> Draft admin_reply \<times> 'e admin_world" where
  "NewAdminDraftUpdateHandler cfg now r decoded w =
     (let auth = resolveAdminAuth r (adminConfig cfg) in
      if \<not> aaOk auth then (unauthorized, w)
      else if \<not> pcStore cfg then (no_store, w)
      else if aqPathID r = [] then (AdminError 400 ''missing draft id'', w)
      else case visible_draft auth (aqPathID r) (awPolicies w) of
        None \<Rightarrow> (no_draft, w)
      | Some existing \<Rightarrow>
          (case decoded of
             Inl e \<Rightarrow> (AdminError 400 (''invalid JSON: '' @ e), w)
           | Inr body \<Rightarrow>
               (case source_error cfg (dbRegoSource body) of
                  Some (st, msg) \<Rightarrow> (AdminError st msg, w)
                | None \<Rightarrow>
                    (case UpdateDraft now \<lparr>dID = aqPathID r, dName = dbName body, dDescription = dbDescription body,
                         dRegoSource = dbRegoSource body, dTenant = [], dCreatedAt = 0, dUpdatedAt = 0, dCreatedBy = []\<rparr>
                         (awPolicies w) of
                       (Inl _, s) \<Rightarrow> (no_draft, w\<lparr>awPolicies := s\<rparr>)
                     | (Inr updated, s) \<Rightarrow> (AdminOk 200 updated, w\<lparr>awPolicies := s\<rparr>)))))"

definition NewAdminDraftDeleteHandler :: "'e PolicyAdminConfig \<Rightarrow> admin_request \<Rightarrow> 'e admin_world
    \<Rightarrow> string admin_reply \<times> 'e admin_world" where
  "NewAdminDraftDeleteHandler cfg r w =
     (let auth = resolveAdminAuth r (adminConfig cfg) in
      if \<not> aaOk auth then (unauthorized, w)
      else if \<not> pcStore cfg then (no_store, w)
      else if aqPathID r = [] then (AdminError 400 ''missing draft id'', w)
      else case visible_draft auth (aqPathID r) (awPolicies w) of
        None \<Rightarrow> (no_draft, w)
      | Some existing \<Rightarrow>
          (case DeleteDraft (aqPathID r) (awPolicies w) of
             (None, s) \<Rightarrow> (AdminOk 200 (aqPathID r), w\<lparr>awPolicies := s\<rparr>)
           | (Some PsActiveDraftDelete, s) \<Rightarrow>
               (AdminError 409 ''draft is the current or previous active policy; promote a different draft or rollback first'',
                w\<lparr>awPolicies := s\<rparr>)
           | (Some _, s) \<Rightarrow> (no_draft, w\<lparr>awPolicies := s\<rparr>)))"

subsection \<open>The active policy\<close>

record activeResponse =
  arActive :: ActivePolicy
  arCurrentDraft :: "Draft option"
  arPreviousDraft :: "Draft option"
  arProposedDraft :: "Draft option"
  arRequiresApproval :: bool
  arSource :: string

definition find_draft :: "string \<Rightarrow> MemoryStore \<Rightarrow> Draft option" where
  "find_draft d s = (if d = [] then None else case GetDraft d s of Inl _ \<Rightarrow> None | Inr x \<Rightarrow> Some x)"

definition active_response :: "bool \<Rightarrow> string \<Rightarrow> string \<Rightarrow> MemoryStore \<Rightarrow> activeResponse" where
  "active_response requireApproval startupSource tenant s =
     (let a = ps_GetActive tenant s; def = ps_GetActive [] s;
          (current, source) =
            (if paCurrent a \<noteq> [] then (find_draft (paCurrent a) s, ''draft'')
             else if tenant \<noteq> [] \<and> paCurrent def \<noteq> [] then (find_draft (paCurrent def) s, ''fallback'')
             else (None, startupSource)) in
      \<lparr>arActive = a, arCurrentDraft = current, arPreviousDraft = find_draft (paPrevious a) s,
       arProposedDraft = find_draft (paProposed a) s, arRequiresApproval = requireApproval, arSource = source\<rparr>)"

definition NewAdminActiveGetHandler :: "'e PolicyAdminConfig \<Rightarrow> string \<Rightarrow> admin_request \<Rightarrow> 'e admin_world
    \<Rightarrow> activeResponse admin_reply" where
  "NewAdminActiveGetHandler cfg startupSource r w =
     (let auth = resolveAdminAuth r (adminConfig cfg) in
      if \<not> aaOk auth then unauthorized
      else if \<not> pcStore cfg then no_store
      else case pinTenant auth (aqQuery r ''tenant'') of
        None \<Rightarrow> foreign_query
      | Some tenant \<Rightarrow> AdminOk 200 (active_response (pcRequireApproval cfg) startupSource tenant (awPolicies w)))"

definition policy_event :: "'e PolicyAdminConfig \<Rightarrow> admin_env \<Rightarrow> admin_request \<Rightarrow> string \<Rightarrow> string \<Rightarrow> string \<Rightarrow> string
    \<Rightarrow> 'e admin_world \<Rightarrow> 'e admin_world" where
  "policy_event cfg env r decision tool reason tenant w =
     emit_admin (adminConfig cfg) (admin_event env r decision tool CheckPolicy reason tenant) w"

definition NewAdminActiveDeleteHandler :: "'e PolicyAdminConfig \<Rightarrow> admin_env \<Rightarrow> admin_request \<Rightarrow> 'e admin_world
    \<Rightarrow> (ActivePolicy \<times> bool) admin_reply \<times> 'e admin_world" where
  "NewAdminActiveDeleteHandler cfg env r w =
     (let auth = resolveAdminAuth r (adminConfig cfg) in
      if \<not> aaOk auth then (unauthorized, w)
      else if \<not> pcStore cfg then (no_store, w)
      else if \<not> pcReloader cfg then (AdminError 503 ''policy reloader not configured'', w)
      else case pinTenant auth (trim_space (aqQuery r ''tenant'')) of
        None \<Rightarrow> (foreign_query, w)
      | Some tenant \<Rightarrow>
          (case DeleteActive tenant (awPolicies w) of
             (cleared, s) \<Rightarrow>
               (AdminOk 200 (cleared, tenant \<noteq> []),
                policy_event cfg env r DecisionAllow ''admin/clear_policy'' (''policy slot cleared: tenant='' @ tenant) tenant
                  (w\<lparr>awPolicies := s, awReloader := (if tenant = [] then awReloader w else RemoveFor tenant (awReloader w))\<rparr>))))"

text \<open>The last step of a promotion, an approval and a rollback: the engine goes live, then the event.\<close>

definition go_live :: "'e PolicyAdminConfig \<Rightarrow> admin_env \<Rightarrow> admin_request \<Rightarrow> string \<Rightarrow> string \<Rightarrow> string \<Rightarrow> 'e \<Rightarrow> ActivePolicy
    \<Rightarrow> string \<Rightarrow> 'e admin_world \<Rightarrow> (ActivePolicy \<times> bool) admin_reply \<times> 'e admin_world" where
  "go_live cfg env r failed tool tenant engine active reason w =
     (case SwapFor tenant (Some engine) (awReloader w) of
        (Inl e, rl) \<Rightarrow> (AdminError 500 (failed @ '' recorded but engine swap failed: '' @ e), w\<lparr>awReloader := rl\<rparr>)
      | (Inr _, rl) \<Rightarrow>
          (AdminOk 200 (active, True),
           policy_event cfg env r DecisionAllow tool reason tenant (w\<lparr>awReloader := rl\<rparr>)))"

record promoteBodyWithTenant =
  pbDraftID :: string
  pbPromotedBy :: string
  pbTenant :: string

definition NewAdminPromoteHandler :: "'e PolicyAdminConfig \<Rightarrow> admin_env \<Rightarrow> admin_request \<Rightarrow> string + promoteBodyWithTenant
    \<Rightarrow> 'e admin_world \<Rightarrow> (ActivePolicy \<times> bool) admin_reply \<times> 'e admin_world" where
  "NewAdminPromoteHandler cfg env r decoded w =
     (let auth = resolveAdminAuth r (adminConfig cfg) in
      if \<not> aaOk auth then (unauthorized, w)
      else if \<not> pcStore cfg then (no_store, w)
      else if \<not> pcReloader cfg
        then (AdminError 503 ''policy reloader not configured; gateway cannot hot-swap policies in this deployment'', w)
      else if pcRequireApproval cfg
        then (AdminError 409 ''this gateway requires a second operator to approve policy changes: POST /v1/admin/policies/propose, then have a different operator POST /v1/admin/policies/approve'', w)
      else case decoded of
        Inl e \<Rightarrow> (AdminError 400 (''invalid JSON: '' @ e), w)
      | Inr body \<Rightarrow>
          if trim_space (pbDraftID body) = [] then (AdminError 400 ''draft_id is required'', w)
          else case pinTenant auth (trim_space (pbTenant body)) of
            None \<Rightarrow> (foreign_body, w)
          | Some tenant \<Rightarrow>
              (case visible_draft auth (pbDraftID body) (awPolicies w) of
                 None \<Rightarrow> (no_draft, w)
               | Some d \<Rightarrow>
                   (case pcCompile cfg (dRegoSource d) of
                      Inl e \<Rightarrow> (AdminError 400 (''rego compile error: '' @ e), w)
                    | Inr engine \<Rightarrow>
                        (case Promote (anNow env) (pbDraftID body) (pbPromotedBy body) tenant (awPolicies w) of
                           (Inl _, s) \<Rightarrow> (no_draft, w\<lparr>awPolicies := s\<rparr>)
                         | (Inr active, s) \<Rightarrow>
                             go_live cfg env r ''promote'' ''admin/promote_policy'' tenant engine active
                               (''policy promoted: tenant='' @ tenant @ '' draft='' @ pbDraftID body @ '' prior=''
                                  @ paPrevious active @ '' by='' @ pbPromotedBy body) (w\<lparr>awPolicies := s\<rparr>)))))"

record proposeBody =
  obDraftID :: string
  obProposedBy :: string
  obTenant :: string

record approveBody =
  vbActedBy :: string
  vbTenant :: string

definition resolvePolicyTenant :: "adminAuth \<Rightarrow> string \<Rightarrow> string option" where
  "resolvePolicyTenant auth bodyTenant = pinTenant auth (trim_space bodyTenant)"

definition NewAdminProposeHandler :: "'e PolicyAdminConfig \<Rightarrow> admin_env \<Rightarrow> admin_request \<Rightarrow> string + proposeBody
    \<Rightarrow> 'e admin_world \<Rightarrow> (ActivePolicy \<times> bool) admin_reply \<times> 'e admin_world" where
  "NewAdminProposeHandler cfg env r decoded w =
     (let auth = resolveAdminAuth r (adminConfig cfg) in
      if \<not> aaOk auth then (unauthorized, w)
      else if \<not> pcStore cfg then (no_store, w)
      else case decoded of
        Inl e \<Rightarrow> (AdminError 400 (''invalid JSON: '' @ e), w)
      | Inr body \<Rightarrow>
          if trim_space (obDraftID body) = [] then (AdminError 400 ''draft_id is required'', w)
          else if trim_space (obProposedBy body) = []
            then (AdminError 400 ''proposed_by is required: an approval can only show that two people were involved if both are named'', w)
          else case resolvePolicyTenant auth (obTenant body) of
            None \<Rightarrow> (foreign_body, w)
          | Some tenant \<Rightarrow>
              (case visible_draft auth (obDraftID body) (awPolicies w) of
                 None \<Rightarrow> (no_draft, w)
               | Some d \<Rightarrow>
                   (case pcCompile cfg (dRegoSource d) of
                      Inl e \<Rightarrow> (AdminError 400 (''rego compile error: '' @ e), w)
                    | Inr engine \<Rightarrow>
                        (case Propose (anNow env) (obDraftID body) (trim_space (obProposedBy body)) tenant (awPolicies w) of
                           (Inl PsUnidentified, s) \<Rightarrow> (AdminError 400 ''proposed_by is required'', w\<lparr>awPolicies := s\<rparr>)
                         | (Inl _, s) \<Rightarrow> (no_draft, w\<lparr>awPolicies := s\<rparr>)
                         | (Inr active, s) \<Rightarrow>
                             (AdminOk 200 (active, False),
                              policy_event cfg env r DecisionAllow ''admin/propose_policy''
                                (''policy proposed for approval: tenant='' @ tenant @ '' draft='' @ obDraftID body
                                   @ '' by='' @ trim_space (obProposedBy body)) tenant (w\<lparr>awPolicies := s\<rparr>))))))"

definition NewAdminApproveHandler :: "'e PolicyAdminConfig \<Rightarrow> admin_env \<Rightarrow> admin_request \<Rightarrow> string + approveBody
    \<Rightarrow> 'e admin_world \<Rightarrow> (ActivePolicy \<times> bool) admin_reply \<times> 'e admin_world" where
  "NewAdminApproveHandler cfg env r decoded w =
     (let auth = resolveAdminAuth r (adminConfig cfg) in
      if \<not> aaOk auth then (unauthorized, w)
      else if \<not> pcStore cfg then (no_store, w)
      else if \<not> pcReloader cfg
        then (AdminError 503 ''policy reloader not configured; gateway cannot hot-swap policies in this deployment'', w)
      else case decoded of
        Inl e \<Rightarrow> (AdminError 400 (''invalid JSON: '' @ e), w)
      | Inr body \<Rightarrow>
          (let approver = trim_space (vbActedBy body) in
           if approver = []
             then (AdminError 400 ''acted_by is required: an unnamed approver cannot evidence a second pair of eyes'', w)
           else case resolvePolicyTenant auth (vbTenant body) of
             None \<Rightarrow> (foreign_body, w)
           | Some tenant \<Rightarrow>
               (let pending = ps_GetActive tenant (awPolicies w) in
                if paProposed pending = [] then (AdminError 404 ''no policy is awaiting approval'', w)
                else case GetDraft (paProposed pending) (awPolicies w) of
                  Inl _ \<Rightarrow> (AdminError 404 ''the proposed draft has been deleted; propose a new one'', w)
                | Inr d \<Rightarrow>
                    (case pcCompile cfg (dRegoSource d) of
                       Inl e \<Rightarrow> (AdminError 400 (''rego compile error: '' @ e), w)
                     | Inr engine \<Rightarrow>
                         (case Approve (anNow env) approver tenant (awPolicies w) of
                            (Inl PsSelfApproval, s) \<Rightarrow>
                              (AdminError 409 ''a policy cannot be approved by the operator who proposed it; a different operator must approve this change'',
                               w\<lparr>awPolicies := s\<rparr>)
                          | (Inl PsNoProposal, s) \<Rightarrow> (AdminError 404 ''no policy is awaiting approval'', w\<lparr>awPolicies := s\<rparr>)
                          | (Inl PsUnidentified, s) \<Rightarrow>
                              (AdminError 409 ''the pending proposal has no recorded proposer, so a second operator cannot be evidenced; propose the draft again'',
                               w\<lparr>awPolicies := s\<rparr>)
                          | (Inl _, s) \<Rightarrow>
                              (AdminError 404 ''the proposed draft has been deleted; propose a new one'', w\<lparr>awPolicies := s\<rparr>)
                          | (Inr active, s) \<Rightarrow>
                              go_live cfg env r ''approval'' ''admin/approve_policy'' tenant engine active
                                (''policy approved and promoted: tenant='' @ tenant @ '' draft='' @ paCurrent active
                                   @ '' prior='' @ paPrevious active @ '' proposed_by='' @ paPromotedBy active
                                   @ '' approved_by='' @ approver) (w\<lparr>awPolicies := s\<rparr>))))))"

definition NewAdminRejectHandler :: "'e PolicyAdminConfig \<Rightarrow> admin_env \<Rightarrow> admin_request \<Rightarrow> string + approveBody
    \<Rightarrow> 'e admin_world \<Rightarrow> (ActivePolicy \<times> bool) admin_reply \<times> 'e admin_world" where
  "NewAdminRejectHandler cfg env r decoded w =
     (let auth = resolveAdminAuth r (adminConfig cfg) in
      if \<not> aaOk auth then (unauthorized, w)
      else if \<not> pcStore cfg then (no_store, w)
      else case decoded of
        Inl e \<Rightarrow> (AdminError 400 (''invalid JSON: '' @ e), w)
      | Inr body \<Rightarrow>
          (let rejector = trim_space (vbActedBy body) in
           if rejector = [] then (AdminError 400 ''acted_by is required'', w)
           else case resolvePolicyTenant auth (vbTenant body) of
             None \<Rightarrow> (foreign_body, w)
           | Some tenant \<Rightarrow>
               (let before = ps_GetActive tenant (awPolicies w) in
                case RejectProposal tenant (awPolicies w) of
                  (Inl _, s) \<Rightarrow> (AdminError 404 ''no policy is awaiting approval'', w\<lparr>awPolicies := s\<rparr>)
                | (Inr active, s) \<Rightarrow>
                    (AdminOk 200 (active, False),
                     policy_event cfg env r DecisionBlock ''admin/reject_policy''
                       (''proposed policy rejected: tenant='' @ tenant @ '' draft='' @ paProposed before
                          @ '' proposed_by='' @ paProposedBy before @ '' rejected_by='' @ rejector) tenant
                       (w\<lparr>awPolicies := s\<rparr>)))))"

record rollbackBody =
  bbRolledBackBy :: string
  bbTenant :: string

text \<open>The decode error of a rollback is ignored; the body is what the decoder left.\<close>

definition NewAdminRollbackHandler :: "'e PolicyAdminConfig \<Rightarrow> admin_env \<Rightarrow> admin_request \<Rightarrow> rollbackBody
    \<Rightarrow> 'e admin_world \<Rightarrow> (ActivePolicy \<times> bool) admin_reply \<times> 'e admin_world" where
  "NewAdminRollbackHandler cfg env r body w =
     (let auth = resolveAdminAuth r (adminConfig cfg) in
      if \<not> aaOk auth then (unauthorized, w)
      else if \<not> pcStore cfg then (no_store, w)
      else if \<not> pcReloader cfg then (AdminError 503 ''policy reloader not configured'', w)
      else case pinTenant auth (trim_space (bbTenant body)) of
        None \<Rightarrow> (foreign_body, w)
      | Some tenant \<Rightarrow>
          (let current = ps_GetActive tenant (awPolicies w) in
           if paPrevious current = [] then (AdminError 404 ''no previous policy to roll back to'', w)
           else case GetDraft (paPrevious current) (awPolicies w) of
             Inl _ \<Rightarrow> (AdminError 503 ''previous draft is missing from the store (likely deleted)'', w)
           | Inr target \<Rightarrow>
               (case pcCompile cfg (dRegoSource target) of
                  Inl e \<Rightarrow> (AdminError 400 (''rego compile error: '' @ e), w)
                | Inr engine \<Rightarrow>
                    (case Rollback (anNow env) (bbRolledBackBy body) tenant (awPolicies w) of
                       (Inl _, s) \<Rightarrow> (AdminError 404 ''no previous policy to roll back to'', w\<lparr>awPolicies := s\<rparr>)
                     | (Inr active, s) \<Rightarrow>
                         go_live cfg env r ''rollback'' ''admin/rollback_policy'' tenant engine active
                           (''policy rolled back to: tenant='' @ tenant @ '' draft='' @ paCurrent active
                              @ '' by='' @ bbRolledBackBy body) (w\<lparr>awPolicies := s\<rparr>)))))"

end
