(* ===== verification/PolicyLife.thy ===== *)
theory PolicyLife
  imports PolicyAdmin
begin

text \<open>
  What the policy endpoints guarantee together, over any sequence of calls: with approval required a policy goes live
  only after a second operator approved it; a tenant's administrator changes nothing of another tenant; and the engine the gateway
  runs is the compiled source of the draft the store points at.
\<close>

datatype policy_call =
    PCreate bytes gotime admin_request "string + draftBody"
  | PUpdate gotime admin_request "string + draftBody"
  | PDelete admin_request
  | PClear admin_env admin_request
  | PPromote admin_env admin_request "string + promoteBodyWithTenant"
  | PPropose admin_env admin_request "string + proposeBody"
  | PApprove admin_env admin_request "string + approveBody"
  | PReject admin_env admin_request "string + approveBody"
  | PRollback admin_env admin_request rollbackBody

fun policy_run :: "'e PolicyAdminConfig \<Rightarrow> policy_call \<Rightarrow> 'e admin_world \<Rightarrow> 'e admin_world" where
  "policy_run cfg (PCreate rnd now r b) w = snd (NewAdminDraftsCreateHandler cfg rnd now r b w)"
| "policy_run cfg (PUpdate now r b) w = snd (NewAdminDraftUpdateHandler cfg now r b w)"
| "policy_run cfg (PDelete r) w = snd (NewAdminDraftDeleteHandler cfg r w)"
| "policy_run cfg (PClear env r) w = snd (NewAdminActiveDeleteHandler cfg env r w)"
| "policy_run cfg (PPromote env r b) w = snd (NewAdminPromoteHandler cfg env r b w)"
| "policy_run cfg (PPropose env r b) w = snd (NewAdminProposeHandler cfg env r b w)"
| "policy_run cfg (PApprove env r b) w = snd (NewAdminApproveHandler cfg env r b w)"
| "policy_run cfg (PReject env r b) w = snd (NewAdminRejectHandler cfg env r b w)"
| "policy_run cfg (PRollback env r b) w = snd (NewAdminRollbackHandler cfg env r b w)"

fun call_request :: "policy_call \<Rightarrow> admin_request" where
  "call_request (PCreate rnd now r b) = r"
| "call_request (PUpdate now r b) = r"
| "call_request (PDelete r) = r"
| "call_request (PClear env r) = r"
| "call_request (PPromote env r b) = r"
| "call_request (PPropose env r b) = r"
| "call_request (PApprove env r b) = r"
| "call_request (PReject env r b) = r"
| "call_request (PRollback env r b) = r"

definition policy_calls :: "'e PolicyAdminConfig \<Rightarrow> policy_call list \<Rightarrow> 'e admin_world \<Rightarrow> 'e admin_world" where
  "policy_calls cfg cs w = fold (policy_run cfg) cs w"

lemma policy_calls_simps [simp]: "policy_calls cfg [] w = w"
  "policy_calls cfg (cs @ [c]) w = policy_run cfg c (policy_calls cfg cs w)"
  by (simp_all add: policy_calls_def)

lemmas policy_handlers = NewAdminDraftsCreateHandler_def NewAdminDraftUpdateHandler_def NewAdminDraftDeleteHandler_def
  NewAdminActiveDeleteHandler_def NewAdminPromoteHandler_def NewAdminProposeHandler_def NewAdminApproveHandler_def
  NewAdminRejectHandler_def NewAdminRollbackHandler_def

lemma policy_event_kept [simp]:
  "awPolicies (policy_event cfg env r d tool reason t w) = awPolicies w"
  "awReloader (policy_event cfg env r d tool reason t w) = awReloader w"
  by (simp_all add: policy_event_def)

lemma go_live_kept [simp]:
  "awPolicies (snd (go_live cfg env r failed tool t e a reason w)) = awPolicies w"
  "awReloader (snd (go_live cfg env r failed tool t e a reason w)) = snd (SwapFor t (Some e) (awReloader w))"
  by (auto simp: go_live_def split: prod.splits sum.splits)

subsection \<open>One call, one operation of the store\<close>

text \<open>What a call may do to the store and the engines: at most one operation, in the tenant the caller's token allows.\<close>

definition in_scope :: "adminAuth \<Rightarrow> string \<Rightarrow> bool" where
  "in_scope auth t \<longleftrightarrow> aaTenant auth = [] \<or> t = aaTenant auth"

lemma pinTenant_scope: "pinTenant auth x = Some t \<Longrightarrow> in_scope auth t"
  by (auto simp: pinTenant_def in_scope_def split: if_splits)

definition live :: "'e PolicyAdminConfig \<Rightarrow> MemoryStore \<Rightarrow> string \<Rightarrow> 'e \<Rightarrow> bool" where
  "live cfg s d e \<longleftrightarrow> (\<exists>x. GetDraft d s = Inr x \<and> pcCompile cfg (dRegoSource x) = Inr e)"

text \<open>The effect of one call, by cases.\<close>

inductive effect :: "'e PolicyAdminConfig \<Rightarrow> adminAuth \<Rightarrow> 'e admin_world \<Rightarrow> policy_call \<Rightarrow> MemoryStore \<Rightarrow> 'e Reloader \<Rightarrow> bool"
  for cfg auth w where
  none: "effect cfg auth w c (awPolicies w) (awReloader w)"
| create: "in_scope auth (dTenant d) \<Longrightarrow> effect cfg auth w (PCreate rnd now r b) (perform (PsCreate rnd now d) (awPolicies w)) (awReloader w)"
| update: "visible_draft auth (dID d) (awPolicies w) \<noteq> None \<Longrightarrow>
    effect cfg auth w (PUpdate now r b) (perform (PsUpdate now d) (awPolicies w)) (awReloader w)"
| delete: "visible_draft auth d (awPolicies w) \<noteq> None \<Longrightarrow> effect cfg auth w c (perform (PsDelete d) (awPolicies w)) (awReloader w)"
| clear: "in_scope auth t \<Longrightarrow> effect cfg auth w c (perform (PsClear t) (awPolicies w)) (RemoveFor t (awReloader w))"
| propose: "in_scope auth t \<Longrightarrow> effect cfg auth w c (perform (PsPropose now d by t) (awPolicies w)) (awReloader w)"
| reject: "in_scope auth t \<Longrightarrow> effect cfg auth w c (perform (PsReject t) (awPolicies w)) (awReloader w)"
| promote: "in_scope auth t \<Longrightarrow> \<not> pcRequireApproval cfg \<Longrightarrow> live cfg (awPolicies w) d e \<Longrightarrow>
    effect cfg auth w c (perform (PsPromote now d by t) (awPolicies w)) (snd (SwapFor t (Some e) (awReloader w)))"
| approve: "in_scope auth t \<Longrightarrow> aaOk auth \<Longrightarrow> resolvePolicyTenant auth (vbTenant b) = Some t \<Longrightarrow>
    Approve now (trim_space (vbActedBy b)) t (awPolicies w) = (Inr a, s) \<Longrightarrow>
    live cfg (awPolicies w) (paProposed (active_row (awPolicies w) t)) e \<Longrightarrow>
    effect cfg auth w (PApprove env r (Inr b)) s (snd (SwapFor t (Some e) (awReloader w)))"
| rollback: "in_scope auth t \<Longrightarrow> paPrevious (active_row (awPolicies w) t) \<noteq> [] \<Longrightarrow>
    live cfg (awPolicies w) (paPrevious (active_row (awPolicies w) t)) e \<Longrightarrow>
    effect cfg auth w c (perform (PsRollback now by t) (awPolicies w)) (snd (SwapFor t (Some e) (awReloader w)))"

text \<open>A store operation that fails leaves the store as it is.\<close>

lemma failed_ops:
  "Promote now d by t s = (Inl e, s') \<Longrightarrow> s' = s" "Propose now d by t s = (Inl e, s') \<Longrightarrow> s' = s"
  "Approve now by t s = (Inl e, s') \<Longrightarrow> s' = s" "RejectProposal t s = (Inl e, s') \<Longrightarrow> s' = s"
  "Rollback now by t s = (Inl e, s') \<Longrightarrow> s' = s" "UpdateDraft now x s = (Inl e, s') \<Longrightarrow> s' = s"
  "DeleteDraft d s = (Some e, s') \<Longrightarrow> s' = s"
  by (auto simp: ps_ops_def Let_def split: if_splits option.splits)

lemma visible_live: "visible_draft auth d s = Some x \<Longrightarrow> pcCompile cfg (dRegoSource x) = Inr e \<Longrightarrow> live cfg s d e"
  by (auto simp: visible_draft_def live_def split: sum.splits if_splits)

lemma performed:
  "UpdateDraft now x s = (Inr u, s') \<Longrightarrow> s' = perform (PsUpdate now x) s"
  "CreateDraft rnd now x s = (d', s') \<Longrightarrow> s' = perform (PsCreate rnd now x) s"
  "DeleteDraft d s = (None, s') \<Longrightarrow> s' = perform (PsDelete d) s"
  "Promote now d by t s = (Inr a, s') \<Longrightarrow> s' = perform (PsPromote now d by t) s"
  "Propose now d by t s = (Inr a, s') \<Longrightarrow> s' = perform (PsPropose now d by t) s"
  "RejectProposal t s = (Inr a, s') \<Longrightarrow> s' = perform (PsReject t) s"
  "Rollback now by t s = (Inr a, s') \<Longrightarrow> s' = perform (PsRollback now by t) s"
  "DeleteActive t s = (c, s') \<Longrightarrow> s' = perform (PsClear t) s"
  by simp_all

lemma remove_slot: "(if t = [] then r else RemoveFor t r) = RemoveFor t r"
  by (simp add: RemoveFor_def)

lemma row_of_GetActive [simp]: "paProposed (ps_GetActive t s) = paProposed (active_row s t)"
  "paPrevious (ps_GetActive t s) = paPrevious (active_row s t)" "paProposedBy (ps_GetActive t s) = paProposedBy (active_row s t)"
  by (simp_all add: ps_GetActive_def)

lemma effect_create: "effect cfg (resolveAdminAuth r (adminConfig cfg)) w (PCreate rnd now r b)
    (awPolicies (policy_run cfg (PCreate rnd now r b) w)) (awReloader (policy_run cfg (PCreate rnd now r b) w))"
  by (auto simp: NewAdminDraftsCreateHandler_def Let_def split: sum.splits option.splits prod.splits policystore_error.splits
      dest!: failed_ops performed pinTenant_scope intro: effect.none effect.create simp del: perform.simps)

lemma effect_update: "effect cfg (resolveAdminAuth r (adminConfig cfg)) w (PUpdate now r b)
    (awPolicies (policy_run cfg (PUpdate now r b) w)) (awReloader (policy_run cfg (PUpdate now r b) w))"
  by (auto simp: NewAdminDraftUpdateHandler_def Let_def split: sum.splits option.splits prod.splits policystore_error.splits
      dest!: failed_ops performed  intro: effect.none effect.update simp del: perform.simps)

lemma effect_delete: "effect cfg (resolveAdminAuth r (adminConfig cfg)) w (PDelete r)
    (awPolicies (policy_run cfg (PDelete r) w)) (awReloader (policy_run cfg (PDelete r) w))"
  by (auto simp: NewAdminDraftDeleteHandler_def Let_def split: sum.splits option.splits prod.splits policystore_error.splits
      dest!: failed_ops performed  intro: effect.none effect.delete simp del: perform.simps)

lemma effect_clear: "effect cfg (resolveAdminAuth r (adminConfig cfg)) w (PClear env r)
    (awPolicies (policy_run cfg (PClear env r) w)) (awReloader (policy_run cfg (PClear env r) w))"
  by (auto simp: NewAdminActiveDeleteHandler_def remove_slot Let_def split: sum.splits option.splits prod.splits policystore_error.splits
      dest!: failed_ops performed pinTenant_scope intro: effect.none effect.clear simp del: perform.simps)

lemma effect_promote: "effect cfg (resolveAdminAuth r (adminConfig cfg)) w (PPromote env r b)
    (awPolicies (policy_run cfg (PPromote env r b) w)) (awReloader (policy_run cfg (PPromote env r b) w))"
  by (auto simp: NewAdminPromoteHandler_def Let_def split: sum.splits option.splits prod.splits policystore_error.splits
      dest!: failed_ops performed pinTenant_scope visible_live intro: effect.none effect.promote simp del: perform.simps)

lemma effect_propose: "effect cfg (resolveAdminAuth r (adminConfig cfg)) w (PPropose env r b)
    (awPolicies (policy_run cfg (PPropose env r b) w)) (awReloader (policy_run cfg (PPropose env r b) w))"
  by (auto simp: NewAdminProposeHandler_def resolvePolicyTenant_def Let_def split: sum.splits option.splits prod.splits policystore_error.splits
      dest!: failed_ops performed pinTenant_scope intro: effect.none effect.propose simp del: perform.simps)

lemma effect_reject: "effect cfg (resolveAdminAuth r (adminConfig cfg)) w (PReject env r b)
    (awPolicies (policy_run cfg (PReject env r b) w)) (awReloader (policy_run cfg (PReject env r b) w))"
  by (auto simp: NewAdminRejectHandler_def resolvePolicyTenant_def Let_def split: sum.splits option.splits prod.splits policystore_error.splits
      dest!: failed_ops performed pinTenant_scope intro: effect.none effect.reject simp del: perform.simps)

lemma effect_rollback: "effect cfg (resolveAdminAuth r (adminConfig cfg)) w (PRollback env r b)
    (awPolicies (policy_run cfg (PRollback env r b) w)) (awReloader (policy_run cfg (PRollback env r b) w))"
  by (auto simp: NewAdminRollbackHandler_def live_def Let_def split: sum.splits option.splits prod.splits policystore_error.splits
      dest!: failed_ops performed pinTenant_scope intro: effect.none effect.rollback simp del: perform.simps)

lemma resolvePolicyTenant_scope: "resolvePolicyTenant auth x = Some t \<Longrightarrow> in_scope auth t"
  by (simp add: resolvePolicyTenant_def pinTenant_scope)

lemma effect_approve: "effect cfg (resolveAdminAuth r (adminConfig cfg)) w (PApprove env r b)
    (awPolicies (policy_run cfg (PApprove env r b) w)) (awReloader (policy_run cfg (PApprove env r b) w))"
  by (auto simp: NewAdminApproveHandler_def Let_def live_def split: sum.splits option.splits prod.splits policystore_error.splits
      dest!: failed_ops intro: effect.none effect.approve resolvePolicyTenant_scope)

lemma policy_effect: "effect cfg (resolveAdminAuth (call_request c) (adminConfig cfg)) w c
    (awPolicies (policy_run cfg c w)) (awReloader (policy_run cfg c w))"
  by (cases c) (simp_all only: call_request.simps effect_create effect_update effect_delete effect_clear effect_promote
      effect_propose effect_reject effect_rollback effect_approve)

inductive_cases effectE: "effect cfg auth w c s rl"

subsection \<open>Separation of duties\<close>

text \<open>A call that approved, by someone else, the proposal that was pending for the tenant.\<close>

definition approved_by_second :: "'e PolicyAdminConfig \<Rightarrow> policy_call \<Rightarrow> 'e admin_world \<Rightarrow> string \<Rightarrow> string \<Rightarrow> bool" where
  "approved_by_second cfg c w t d \<longleftrightarrow>
     (case c of
        PApprove env r (Inr b) \<Rightarrow>
          (let auth = resolveAdminAuth r (adminConfig cfg); a = active_row (awPolicies w) t; q = trim_space (vbActedBy b) in
           aaOk auth \<and> resolvePolicyTenant auth (vbTenant b) = Some t \<and> paProposed a = d
           \<and> paProposedBy a \<noteq> [] \<and> q \<noteq> [] \<and> q \<noteq> paProposedBy a)
      | _ \<Rightarrow> False)"

lemma Approve_row: "Approve now q t s = (Inr a, s') \<Longrightarrow>
    paProposedBy (active_row s t) \<noteq> [] \<and> q \<noteq> [] \<and> q \<noteq> paProposedBy (active_row s t)
    \<and> paCurrent (active_row s' t) = paProposed (active_row s t) \<and> paPrevious (active_row s' t) = paCurrent (active_row s t)
    \<and> (\<forall>t'. t' \<noteq> t \<longrightarrow> active_row s' t' = active_row s t') \<and> psDrafts s' = psDrafts s \<and> has_draft s (paProposed (active_row s t))"
  by (auto simp: Approve_def Let_def split: if_splits)

text \<open>Only an approval by a second operator makes a tenant's pointer name a draft it did not name before.\<close>

lemma points_at_call:
  assumes "pcRequireApproval cfg" and "points_at (active_row (awPolicies (policy_run cfg c w)) t) d"
  shows "points_at (active_row (awPolicies w) t) d \<or> approved_by_second cfg c w t d"
proof -
  define s' where "s' = awPolicies (policy_run cfg c w)"
  from policy_effect [of cfg c w] have "effect cfg (resolveAdminAuth (call_request c) (adminConfig cfg)) w c s' (awReloader (policy_run cfg c w))"
    by (simp add: s'_def)
  moreover have "points_at (active_row s' t) d" using assms(2) by (simp add: s'_def)
  ultimately show ?thesis
  proof cases
    case (approve t' b now a e env r)
    with \<open>points_at (active_row s' t) d\<close> Approve_row [OF approve(6)] show ?thesis
      by (cases "t = t'") (auto simp: approved_by_second_def points_at_def Let_def)
  qed (use assms(1) in \<open>auto simp del: perform.simps dest!: points_at_perform [rotated]\<close>)
qed

text \<open>
  C13. On a gateway that requires approval, whatever sequence of calls the policy endpoints receive from an empty store, a
  draft that a tenant's pointer names, as live policy or as rollback target, got there by an authenticated
  approval for that tenant in which the named approver differs from the named proposer of that pending draft.
\<close>

theorem policy_four_eyes:
  assumes "pcRequireApproval cfg" and "awPolicies w = ps_NewMemoryStore"
    and "points_at (active_row (awPolicies (policy_calls cfg cs w)) t) d"
  shows "\<exists>before c after. cs = before @ c # after \<and> approved_by_second cfg c (policy_calls cfg before w) t d"
  using assms(3)
proof (induction cs rule: rev_induct)
  case Nil
  then show ?case by (auto simp: assms(2) points_at_def)
next
  case (snoc c cs)
  from points_at_call [OF assms(1), of c "policy_calls cfg cs w" t d] snoc.prems
  consider "points_at (active_row (awPolicies (policy_calls cfg cs w)) t) d" | "approved_by_second cfg c (policy_calls cfg cs w) t d"
    by auto
  then show ?case
  proof cases
    case 1
    from snoc.IH [OF this] obtain before x after where "cs = before @ x # after" "approved_by_second cfg x (policy_calls cfg before w) t d"
      by blast
    then show ?thesis by (intro exI [of _ before] exI [of _ x] exI [of _ "after @ [c]"]) simp
  next
    case 2
    then show ?thesis by blast
  qed
qed

text \<open>Anna proposes the draft she saved, Ben approves it; engines are the sources themselves.\<close>

definition sod_admin :: "string PolicyAdminConfig" where
  "sod_admin = \<lparr>pcAdminToken = ''root'', pcTenantAdmins = [], pcStore = True, pcReloader = True, pcAudit = True,
     pcRequireApproval = True, pcCompile = Inr\<rparr>"

definition sod_world :: "string admin_world" where
  "sod_world = \<lparr>awRevocations = [], awApprovals = [], awKills = [], awTasks = [], awPayloads = [],
     awAuditStore = as_NewMemoryStore 4, awPolicies = ps_NewMemoryStore, awReloader = NewReloader ''default'', awEvents = []\<rparr>"

definition sod_draft :: string where
  "sod_draft = newID ''abcdefgh''"

definition sod_calls :: "policy_call list" where
  "sod_calls =
     (let r = sample_admin_request ''Bearer root'' in
      [PCreate ''abcdefgh'' 5 r (Inr \<lparr>dbName = [], dbDescription = [], dbRegoSource = ''deny'', dbCreatedBy = [], dbTenant = ''t1''\<rparr>),
       PPropose sample_admin_env r (Inr \<lparr>obDraftID = sod_draft, obProposedBy = ''anna'', obTenant = ''t1''\<rparr>),
       PApprove sample_admin_env r (Inr \<lparr>vbActedBy = ''ben'', vbTenant = ''t1''\<rparr>)])"

definition sod_after :: "string admin_world" where
  "sod_after = policy_calls sod_admin sod_calls sod_world"

lemma sod_row: "paCurrent (active_row (awPolicies sod_after) ''t1'') = sod_draft" "sod_draft \<noteq> []"
  by code_simp+

theorem policy_four_eyes_witness:
  "\<exists>before c after. sod_calls = before @ c # after \<and> approved_by_second sod_admin c (policy_calls sod_admin before sod_world) ''t1'' sod_draft"
  using policy_four_eyes [of sod_admin sod_world sod_calls "''t1''" sod_draft] sod_row
  by (simp add: sod_admin_def sod_world_def points_at_def sod_after_def [unfolded sod_admin_def sod_world_def])

subsection \<open>The engine that runs is the draft the store names\<close>

definition engine_of :: "'e Reloader \<Rightarrow> string \<Rightarrow> 'e option" where
  "engine_of r t = (if t = [] then Some (rlDefault r) else rl_slot r t)"

definition consistent :: "'e PolicyAdminConfig \<Rightarrow> 'e admin_world \<Rightarrow> bool" where
  "consistent cfg w \<longleftrightarrow> (\<forall>t. paCurrent (active_row (awPolicies w) t) \<noteq> [] \<longrightarrow>
     (\<exists>e. engine_of (awReloader w) t = Some e \<and> live cfg (awPolicies w) (paCurrent (active_row (awPolicies w) t)) e))"

lemma engine_of_swap: "engine_of (snd (SwapFor t (Some e) r)) t' = (if t' = t then Some e else engine_of r t')"
  by (auto simp: engine_of_def rl_slot_def SwapFor_def update_conv')

lemma engine_of_remove: "t' \<noteq> t \<or> t = [] \<Longrightarrow> engine_of (RemoveFor t r) t' = engine_of r t'"
  by (auto simp: engine_of_def rl_slot_def RemoveFor_def delete_conv')

lemma live_cong: "map_of (psDrafts s') d = map_of (psDrafts s) d \<Longrightarrow> live cfg s' d e = live cfg s d e"
  by (simp add: live_def GetDraft_def)

text \<open>One slot set to what the pointer of its tenant now names, everything else as it was.\<close>

lemma consistent_live:
  assumes "consistent cfg w" "\<And>t'. t' \<noteq> t \<Longrightarrow> paCurrent (active_row s t') = paCurrent (active_row (awPolicies w) t')"
    and "psDrafts s = psDrafts (awPolicies w)" "paCurrent (active_row s t) = d" "live cfg (awPolicies w) d e"
  shows "consistent cfg (w\<lparr>awPolicies := s, awReloader := snd (SwapFor t (Some e) (awReloader w))\<rparr>)"
  using assms live_cong [of s _ "awPolicies w" cfg] by (auto simp: consistent_def engine_of_swap)

lemma consistent_same:
  assumes "consistent cfg w" "\<And>t. paCurrent (active_row s t) = paCurrent (active_row (awPolicies w) t)"
    and "\<And>t. paCurrent (active_row s t) \<noteq> [] \<Longrightarrow>
      map_of (psDrafts s) (paCurrent (active_row s t)) = map_of (psDrafts (awPolicies w)) (paCurrent (active_row s t))"
  shows "consistent cfg (w\<lparr>awPolicies := s\<rparr>)"
  using assms(1) live_cong [OF assms(3), where cfg = cfg] by (simp add: consistent_def assms(2))

lemma consistent_cong: "awPolicies w = awPolicies w' \<Longrightarrow> awReloader w = awReloader w' \<Longrightarrow> consistent cfg w = consistent cfg w'"
  by (simp add: consistent_def)

lemma live_has: "live cfg s d e \<Longrightarrow> has_draft s d"
  by (auto simp: live_def GetDraft_def has_draft_def split: option.splits)

text \<open>The operations that leave every current pointer and every live draft as they are.\<close>

lemma rows_quiet:
  "paCurrent (active_row (perform (PsCreate rnd now x) s) t) = paCurrent (active_row s t)"
  "paCurrent (active_row (perform (PsDelete d) s) t) = paCurrent (active_row s t)"
  "paCurrent (active_row (perform (PsPropose now d by t') s) t) = paCurrent (active_row s t)"
  "paCurrent (active_row (perform (PsReject t') s) t) = paCurrent (active_row s t)"
  by (auto simp: ps_ops_def Let_def)

lemma drafts_quiet:
  "map_of (psDrafts (perform (PsCreate rnd now x) s)) d = map_of (psDrafts s) d \<or> d = newID rnd"
  "psDrafts (perform (PsPropose now d' by t') s) = psDrafts s" "psDrafts (perform (PsReject t') s) = psDrafts s"
  "paCurrent (active_row s t) = d \<Longrightarrow> d \<noteq> [] \<Longrightarrow> map_of (psDrafts (perform (PsDelete d') s)) d = map_of (psDrafts s) d"
  by (auto simp: ps_ops_def Let_def update_conv' delete_conv' active_row_def list_ex_iff dest: map_of_SomeD split: option.splits)

lemma drafts_created: "d \<noteq> newID rnd \<Longrightarrow> map_of (psDrafts (perform (PsCreate rnd now x) s)) d = map_of (psDrafts s) d"
  using drafts_quiet(1) by blast

definition fresh_call :: "policy_call \<Rightarrow> MemoryStore \<Rightarrow> bool" where
  "fresh_call c s \<longleftrightarrow> (case c of
      PCreate rnd now r b \<Rightarrow> \<not> has_draft s (newID rnd)
    | PUpdate now r b \<Rightarrow> False
    | _ \<Rightarrow> True)"

lemma consistent_create:
  assumes "consistent cfg w" "\<not> has_draft (awPolicies w) (newID rnd)"
  shows "consistent cfg (w\<lparr>awPolicies := perform (PsCreate rnd now x) (awPolicies w)\<rparr>)"
proof (rule consistent_same [OF assms(1) rows_quiet(1)])
  fix t
  assume "paCurrent (active_row (perform (PsCreate rnd now x) (awPolicies w)) t) \<noteq> []"
  with assms(1) have "has_draft (awPolicies w) (paCurrent (active_row (awPolicies w) t))"
    unfolding rows_quiet by (auto simp: consistent_def dest: live_has)
  with assms(2) have "paCurrent (active_row (awPolicies w) t) \<noteq> newID rnd" by auto
  then show "map_of (psDrafts (perform (PsCreate rnd now x) (awPolicies w))) (paCurrent (active_row (perform (PsCreate rnd now x) (awPolicies w)) t))
      = map_of (psDrafts (awPolicies w)) (paCurrent (active_row (perform (PsCreate rnd now x) (awPolicies w)) t))"
    using drafts_quiet(1) unfolding rows_quiet by blast
qed

lemma consistent_clear: "consistent cfg w \<Longrightarrow>
    consistent cfg (w\<lparr>awPolicies := perform (PsClear t) (awPolicies w), awReloader := RemoveFor t (awReloader w)\<rparr>)"
  using live_cong [of "perform (PsClear t) (awPolicies w)" _ "awPolicies w" cfg]
  by (auto simp: consistent_def DeleteActive_def Let_def engine_of_remove)

lemma consistent_promote: "consistent cfg w \<Longrightarrow> live cfg (awPolicies w) d e \<Longrightarrow> consistent cfg
    (w\<lparr>awPolicies := perform (PsPromote now d by t) (awPolicies w), awReloader := snd (SwapFor t (Some e) (awReloader w))\<rparr>)"
  by (rule consistent_live) (auto simp: Promote_def Let_def dest: live_has)

lemma consistent_rollback: "consistent cfg w \<Longrightarrow> paPrevious (active_row (awPolicies w) t) \<noteq> [] \<Longrightarrow>
    live cfg (awPolicies w) (paPrevious (active_row (awPolicies w) t)) e \<Longrightarrow> consistent cfg
    (w\<lparr>awPolicies := perform (PsRollback now by t) (awPolicies w), awReloader := snd (SwapFor t (Some e) (awReloader w))\<rparr>)"
  by (rule consistent_live) (auto simp: Rollback_def Let_def)

lemma consistent_approve: "consistent cfg w \<Longrightarrow> Approve now q t (awPolicies w) = (Inr a, s) \<Longrightarrow>
    live cfg (awPolicies w) (paProposed (active_row (awPolicies w) t)) e \<Longrightarrow> consistent cfg
    (w\<lparr>awPolicies := s, awReloader := snd (SwapFor t (Some e) (awReloader w))\<rparr>)"
  by (rule consistent_live) (auto dest!: Approve_row)

lemma consistent_call:
  assumes c: "consistent cfg w" and f: "fresh_call c (awPolicies w)"
  shows "consistent cfg (policy_run cfg c w)"
proof -
  define s' rl where "s' = awPolicies (policy_run cfg c w)" and "rl = awReloader (policy_run cfg c w)"
  have cong: "consistent cfg (policy_run cfg c w) = consistent cfg (w\<lparr>awPolicies := s', awReloader := rl\<rparr>)"
    by (rule consistent_cong) (simp_all add: s'_def rl_def)
  have same: "consistent cfg (w\<lparr>awPolicies := s, awReloader := awReloader w\<rparr>)" if "consistent cfg (w\<lparr>awPolicies := s\<rparr>)" for s
    using that by (simp add: consistent_def)
  from policy_effect [of cfg c w] have "effect cfg (resolveAdminAuth (call_request c) (adminConfig cfg)) w c s' rl"
    by (simp add: s'_def rl_def)
  then have "consistent cfg (w\<lparr>awPolicies := s', awReloader := rl\<rparr>)"
  proof cases
    case (create d rnd now r b)
    then show ?thesis using f by (simp only: fresh_call_def policy_call.case) (intro same consistent_create c)
  next
    case (approve t b now a e env r)
    then show ?thesis by (simp only: consistent_approve [OF c])
  qed (use c f in \<open>auto intro!: same consistent_same consistent_clear consistent_promote consistent_rollback
      simp: rows_quiet drafts_quiet fresh_call_def simp del: perform.simps\<close>)
  with cong show ?thesis by simp
qed

fun fresh_calls :: "'e PolicyAdminConfig \<Rightarrow> policy_call list \<Rightarrow> 'e admin_world \<Rightarrow> bool" where
  "fresh_calls cfg [] w = True"
| "fresh_calls cfg (c # cs) w = (fresh_call c (awPolicies w) \<and> fresh_calls cfg cs (policy_run cfg c w))"

lemma consistent_calls: "consistent cfg w \<Longrightarrow> fresh_calls cfg cs w \<Longrightarrow> consistent cfg (policy_calls cfg cs w)"
  unfolding policy_calls_def by (induction cs arbitrary: w) (auto intro: consistent_call)

lemma consistent_start: "awPolicies w = ps_NewMemoryStore \<Longrightarrow> consistent cfg w"
  by (simp add: consistent_def)

lemma engine_of_current: "engine_of r t = Some e \<Longrightarrow> CurrentFor r t = e"
  by (auto simp: engine_of_def rl_slot_def CurrentFor_def split: if_splits)

text \<open>
  C26. What the store says is what the gateway runs: after any sequence of calls to the policy endpoints from an empty store, in which no
  draft is edited and generated ids are fresh, a tenant whose pointer names a draft is served by the
  engine compiled from that draft's source.
\<close>

theorem live_engine_is_current:
  assumes "awPolicies w = ps_NewMemoryStore" and "fresh_calls cfg cs w"
    and "paCurrent (active_row (awPolicies (policy_calls cfg cs w)) t) \<noteq> []"
  shows "\<exists>x. GetDraft (paCurrent (active_row (awPolicies (policy_calls cfg cs w)) t)) (awPolicies (policy_calls cfg cs w)) = Inr x
    \<and> pcCompile cfg (dRegoSource x) = Inr (CurrentFor (awReloader (policy_calls cfg cs w)) t)"
  using consistent_calls [OF consistent_start [OF assms(1)] assms(2)] assms(3)
  by (auto simp: consistent_def live_def dest!: engine_of_current)

theorem live_engine_is_current_witness:
  "\<exists>x. GetDraft sod_draft (awPolicies sod_after) = Inr x \<and> dRegoSource x = CurrentFor (awReloader sod_after) ''t1''"
proof -
  have f: "fresh_calls sod_admin sod_calls sod_world" by code_simp
  have s: "awPolicies sod_world = ps_NewMemoryStore" by (simp add: sod_world_def)
  from live_engine_is_current [OF s f, of "''t1''"] sod_row
  show ?thesis by (simp add: sod_after_def sod_admin_def)
qed

subsection \<open>Tenants do not touch each other\<close>

definition others_kept :: "string \<Rightarrow> 'e admin_world \<Rightarrow> 'e admin_world \<Rightarrow> bool" where
  "others_kept me w w' \<longleftrightarrow>
     (\<forall>t. t \<noteq> me \<longrightarrow> active_row (awPolicies w') t = active_row (awPolicies w) t
        \<and> engine_of (awReloader w') t = engine_of (awReloader w) t)
     \<and> (\<forall>d x. map_of (psDrafts (awPolicies w)) d = Some x \<and> dTenant x \<noteq> me
          \<longrightarrow> map_of (psDrafts (awPolicies w')) d = Some x)"

definition fresh_id :: "policy_call \<Rightarrow> MemoryStore \<Rightarrow> bool" where
  "fresh_id c s \<longleftrightarrow> (case c of PCreate rnd now r b \<Rightarrow> \<not> has_draft s (newID rnd) | _ \<Rightarrow> True)"

lemma perform_row_other: "(\<forall>n d by. x \<noteq> PsPromote n d by t) \<Longrightarrow> (\<forall>n d by. x \<noteq> PsPropose n d by t) \<Longrightarrow> (\<forall>n by. x \<noteq> PsApprove n by t) \<Longrightarrow>
    x \<noteq> PsReject t \<Longrightarrow> (\<forall>n by. x \<noteq> PsRollback n by t) \<Longrightarrow> x \<noteq> PsClear t \<Longrightarrow> active_row (perform x s) t = active_row s t"
  by (cases x) (auto simp: ps_ops_def Let_def split: option.splits)

lemma drafts_pointer_ops: "psDrafts (perform (PsPromote n d by t) s) = psDrafts s" "psDrafts (perform (PsRollback n by t) s) = psDrafts s"
  "psDrafts (perform (PsClear t) s) = psDrafts s"
  by (auto simp: ps_ops_def Let_def)

lemma visible_own: "visible_draft auth d s = Some x \<Longrightarrow> aaTenant auth \<noteq> [] \<Longrightarrow> map_of (psDrafts s) d = Some x \<and> dTenant x = aaTenant auth"
  by (auto simp: visible_draft_def GetDraft_def split: sum.splits option.splits if_splits)

lemma drafts_own_ops:
  "d \<noteq> dID y \<Longrightarrow> map_of (psDrafts (perform (PsUpdate now y) s)) d = map_of (psDrafts s) d"
  "d' \<noteq> d \<Longrightarrow> map_of (psDrafts (perform (PsDelete d) s)) d' = map_of (psDrafts s) d'"
  by (auto simp: ps_ops_def Let_def update_conv' delete_conv' split: option.splits)

lemma isolation_call:
  assumes "aaTenant (resolveAdminAuth (call_request c) (adminConfig cfg)) = me" "me \<noteq> []" "fresh_id c (awPolicies w)"
  shows "others_kept me w (policy_run cfg c w)"
proof -
  define s' rl where "s' = awPolicies (policy_run cfg c w)" and "rl = awReloader (policy_run cfg c w)"
  from policy_effect [of cfg c w] have "effect cfg (resolveAdminAuth (call_request c) (adminConfig cfg)) w c s' rl"
    by (simp add: s'_def rl_def)
  then have "(\<forall>t. t \<noteq> me \<longrightarrow> active_row s' t = active_row (awPolicies w) t \<and> engine_of rl t = engine_of (awReloader w) t)
     \<and> (\<forall>d x. map_of (psDrafts (awPolicies w)) d = Some x \<and> dTenant x \<noteq> me \<longrightarrow> map_of (psDrafts s') d = Some x)"
  proof cases
    case (create d rnd now r b)
    then have "map_of (psDrafts s') d' = Some x" if "map_of (psDrafts (awPolicies w)) d' = Some x" for d' x
      using assms(3) that drafts_created [of d' rnd now d "awPolicies w"]
      by (cases "d' = newID rnd") (simp_all add: fresh_id_def has_draft_def del: perform.simps)
    with create show ?thesis by (simp add: perform_row_other del: perform.simps)
  next
    case (update d now r b)
    have "map_of (psDrafts s') d' = Some x" if "map_of (psDrafts (awPolicies w)) d' = Some x" "dTenant x \<noteq> me" for d' x
    proof -
      have "d' \<noteq> dID d" using update(4) that visible_own [of _ d' "awPolicies w"] assms(1, 2) by fastforce
      then show ?thesis unfolding update(2) using that(1) by (subst drafts_own_ops)
    qed
    with update(2,3) show ?thesis by (simp add: perform_row_other del: perform.simps)
  next
    case (delete d)
    have "map_of (psDrafts s') d' = Some x" if "map_of (psDrafts (awPolicies w)) d' = Some x" "dTenant x \<noteq> me" for d' x
    proof -
      have "d' \<noteq> d" using delete(3) that visible_own [of _ d' "awPolicies w"] assms(1, 2) by fastforce
      then show ?thesis unfolding delete(1) using that(1) by (subst drafts_own_ops)
    qed
    with delete(1,2) show ?thesis by (simp add: perform_row_other del: perform.simps)
  next
    case (approve t b now a e env r)
    with Approve_row [OF approve(6)] show ?thesis using assms by (auto simp: in_scope_def engine_of_swap)
  qed (use assms in \<open>auto simp: in_scope_def engine_of_swap engine_of_remove perform_row_other drafts_pointer_ops drafts_quiet
      simp del: perform.simps\<close>)
  then show ?thesis by (simp add: others_kept_def s'_def rl_def)
qed

text \<open>Editing a live draft breaks the agreement of store and engine: the pointer's draft has a source nobody compiled into the engine.\<close>

lemma edit_of_live_draft:
  assumes "GetDraft d s = Inr x" "dID y = d" "dRegoSource y \<noteq> dRegoSource x"
  shows "\<exists>x'. GetDraft d (perform (PsUpdate now y) s) = Inr x' \<and> dRegoSource x' = dRegoSource y
    \<and> paCurrent (active_row (perform (PsUpdate now y) s) t) = paCurrent (active_row s t)"
  using assms by (auto simp: GetDraft_def UpdateDraft_def Let_def update_conv' split: option.splits)

end
