(* ===== verification/AdminIsolation.thy ===== *)
theory AdminIsolation
  imports AdminOps PolicyLife
begin

text \<open>
  The admin API as a whole: a token of one tenant neither changes nor shows what belongs to another. The locale
  \<open>tenant_frame\<close> is the frame rule the endpoints share: if every call of a tenant keeps what the other tenants see, so
  does every sequence of them. Names of tenants are assumed free of the separator \<open>|\<close> of the store keys.
\<close>

locale tenant_frame =
  fixes run :: "'c \<Rightarrow> 'w \<Rightarrow> 'w" and caller :: "'c \<Rightarrow> string" and kept :: "string \<Rightarrow> 'w \<Rightarrow> 'w \<Rightarrow> bool"
    and inv :: "'w \<Rightarrow> bool" and allowed :: "'c \<Rightarrow> 'w \<Rightarrow> bool"
  assumes kept_refl: "kept me w w"
    and kept_trans: "kept me w w1 \<Longrightarrow> kept me w1 w2 \<Longrightarrow> kept me w w2"
    and inv_run: "inv w \<Longrightarrow> inv (run c w)"
    and kept_run: "inv w \<Longrightarrow> allowed c w \<Longrightarrow> caller c = me \<Longrightarrow> kept me w (run c w)"
begin

fun all_allowed :: "'c list \<Rightarrow> 'w \<Rightarrow> bool" where
  "all_allowed [] w = True"
| "all_allowed (c # cs) w = (allowed c w \<and> all_allowed cs (run c w))"

lemma kept_runs: "inv w \<Longrightarrow> all_allowed cs w \<Longrightarrow> \<forall>c \<in> set cs. caller c = me \<Longrightarrow> kept me w (fold run cs w)"
proof (induction cs arbitrary: w)
  case (Cons c cs)
  then have "kept me w (run c w)" by (auto intro: kept_run)
  moreover have "kept me (run c w) (fold run cs (run c w))" using Cons by (auto intro: inv_run)
  ultimately show ?case by (auto intro: kept_trans)
qed (simp add: kept_refl)

end

subsection \<open>Calls\<close>

datatype admin_call =
    ARevoke admin_env admin_request "string + revokeBody"
  | AMint admin_env admin_request "string + mintBody"
  | AException admin_env admin_request "string + exceptionBody"
  | AEngage admin_env admin_request "string + killSwitchBody"
  | ARelease admin_env admin_request "string + killSwitchBody"
  | ATaskClear admin_env admin_request "string + string"
  | ADecide admin_env admin_request "string + decideBody"
  | APayload admin_env admin_request
  | APolicy policy_call

fun admin_run :: "AdminConfig \<Rightarrow> 'e PolicyAdminConfig \<Rightarrow> admin_call \<Rightarrow> 'e admin_world \<Rightarrow> 'e admin_world" where
  "admin_run cfg pcfg (ARevoke env r b) w = snd (NewAdminRevokeHandler cfg env r b w)"
| "admin_run cfg pcfg (AMint env r b) w = snd (NewAdminMintHandler cfg env r b w)"
| "admin_run cfg pcfg (AException env r b) w = snd (NewAdminExceptionGrantHandler cfg env r b w)"
| "admin_run cfg pcfg (AEngage env r b) w = snd (NewAdminKillSwitchEngageHandler cfg env r b w)"
| "admin_run cfg pcfg (ARelease env r b) w = snd (NewAdminKillSwitchReleaseHandler cfg env r b w)"
| "admin_run cfg pcfg (ATaskClear env r b) w = snd (NewAdminTaskClearHandler cfg env r b w)"
| "admin_run cfg pcfg (ADecide env r b) w = snd (NewAdminApprovalsDecideHandler cfg env r b w)"
| "admin_run cfg pcfg (APayload env r) w = snd (NewAdminPayloadHandler cfg env r w)"
| "admin_run cfg pcfg (APolicy c) w = policy_run pcfg c w"

fun admin_caller :: "AdminConfig \<Rightarrow> 'e PolicyAdminConfig \<Rightarrow> admin_call \<Rightarrow> string" where
  "admin_caller cfg pcfg (ARevoke env r b) = aaTenant (resolveAdminAuth r cfg)"
| "admin_caller cfg pcfg (AMint env r b) = aaTenant (resolveAdminAuth r cfg)"
| "admin_caller cfg pcfg (AException env r b) = aaTenant (resolveAdminAuth r cfg)"
| "admin_caller cfg pcfg (AEngage env r b) = aaTenant (resolveAdminAuth r cfg)"
| "admin_caller cfg pcfg (ARelease env r b) = aaTenant (resolveAdminAuth r cfg)"
| "admin_caller cfg pcfg (ATaskClear env r b) = aaTenant (resolveAdminAuth r cfg)"
| "admin_caller cfg pcfg (ADecide env r b) = aaTenant (resolveAdminAuth r cfg)"
| "admin_caller cfg pcfg (APayload env r) = aaTenant (resolveAdminAuth r cfg)"
| "admin_caller cfg pcfg (APolicy c) = aaTenant (resolveAdminAuth (call_request c) (adminConfig pcfg))"

subsection \<open>What another tenant sees\<close>

definition plain :: "string \<Rightarrow> bool" where
  "plain t \<longleftrightarrow> t \<noteq> [] \<and> CHR ''|'' \<notin> set t"

text \<open>Whose tokens are revoked, whose traffic is halted, the approvals, tasks, drafts and policies of the other tenants, and every payload.\<close>

definition kept_for_others :: "string \<Rightarrow> 'e admin_world \<Rightarrow> 'e admin_world \<Rightarrow> bool" where
  "kept_for_others me w w' \<longleftrightarrow>
     (\<forall>t. plain t \<and> t \<noteq> me \<longrightarrow>
        (\<forall>jti. IsRevoked (awRevocations w') jti t = IsRevoked (awRevocations w) jti t)
        \<and> (\<forall>agent. Active (awKills w') t agent = Active (awKills w) t agent)
        \<and> (\<forall>tid. task_Get (awTasks w') t tid = task_Get (awTasks w) t tid))
     \<and> (\<forall>pid row. map_of (awApprovals w) pid = Some row \<and> prTenant (mrReq row) \<noteq> me
          \<longrightarrow> map_of (awApprovals w') pid = Some row)
     \<and> awPayloads w' = awPayloads w \<and> others_kept me w w'"

definition tasks_keyed :: "'e admin_world \<Rightarrow> bool" where
  "tasks_keyed w \<longleftrightarrow> (\<forall>k t. map_of (awTasks w) k = Some t \<longrightarrow> k = memKey (taTenant t) (taID t))"

definition allowed_call :: "AdminConfig \<Rightarrow> 'e PolicyAdminConfig \<Rightarrow> admin_call \<Rightarrow> 'e admin_world \<Rightarrow> bool" where
  "allowed_call cfg pcfg c w \<longleftrightarrow> plain (admin_caller cfg pcfg c)
     \<and> (case c of APolicy pc \<Rightarrow> fresh_id pc (awPolicies w) | _ \<Rightarrow> True)"

lemma others_kept_refl: "others_kept me w w"
  by (simp add: others_kept_def)

lemma others_kept_trans: "others_kept me w w1 \<Longrightarrow> others_kept me w1 w2 \<Longrightarrow> others_kept me w w2"
  by (simp add: others_kept_def)

lemma kept_for_others_refl: "kept_for_others me w w"
  by (simp add: kept_for_others_def others_kept_refl)

lemma kept_for_others_trans: "kept_for_others me w w1 \<Longrightarrow> kept_for_others me w1 w2 \<Longrightarrow> kept_for_others me w w2"
  by (auto simp: kept_for_others_def dest: others_kept_trans)

subsection \<open>Each endpoint keeps what the others see\<close>

lemma bar_split:
  assumes "CHR ''|'' \<notin> set a" "CHR ''|'' \<notin> set b" "a @ CHR ''|'' # x = b @ CHR ''|'' # y"
  shows "a = b"
  using assms
proof (induction a arbitrary: b)
  case (Cons c a)
  then show ?case by (cases b) auto
next
  case Nil
  then show ?case by (cases b) auto
qed

lemma scope_key_other:
  assumes "plain t" "plain me" "t \<noteq> me" "ty' \<in> {ScopeTenant, ScopeAgent}" "ty \<in> {ScopeTenant, ScopeAgent}"
  shows "scope_key ty t a \<noteq> scope_key ty' me v"
  using assms bar_split [of t me a v] by (auto simp: scope_key_def scopes plain_def)

lemma scope_key_global: "ty \<in> {ScopeTenant, ScopeAgent} \<Longrightarrow> scope_key ScopeGlobal [] [] \<noteq> scope_key ty me v"
  by (auto simp: scope_key_def scopes)

lemma memKey_other: "plain t \<Longrightarrow> plain me \<Longrightarrow> t \<noteq> me \<Longrightarrow> memKey t a \<noteq> memKey me b"
  using bar_split [of t me a b] by (auto simp: memKey_def plain_def)

lemma kept_emit: "kept_for_others me w w' \<Longrightarrow> kept_for_others me w (emit_admin cfg e w')"
  by (simp add: kept_for_others_def others_kept_def)

lemma kept_revocations: "(\<And>t jti. plain t \<Longrightarrow> t \<noteq> me \<Longrightarrow> IsRevoked x jti t = IsRevoked (awRevocations w) jti t) \<Longrightarrow>
    kept_for_others me w (w\<lparr>awRevocations := x\<rparr>)"
  by (simp add: kept_for_others_def others_kept_def)

lemma kept_kills: "(\<And>t agent. plain t \<Longrightarrow> t \<noteq> me \<Longrightarrow> Active x t agent = Active (awKills w) t agent) \<Longrightarrow>
    kept_for_others me w (w\<lparr>awKills := x\<rparr>)"
  by (simp add: kept_for_others_def others_kept_def)

lemma kept_tasks: "(\<And>t tid. plain t \<Longrightarrow> t \<noteq> me \<Longrightarrow> task_Get x t tid = task_Get (awTasks w) t tid) \<Longrightarrow>
    kept_for_others me w (w\<lparr>awTasks := x\<rparr>)"
  by (simp add: kept_for_others_def others_kept_def)

lemma kept_approvals: "(\<And>pid row. map_of (awApprovals w) pid = Some row \<Longrightarrow> prTenant (mrReq row) \<noteq> me \<Longrightarrow> map_of x pid = Some row) \<Longrightarrow>
    kept_for_others me w (w\<lparr>awApprovals := x\<rparr>)"
  by (simp add: kept_for_others_def others_kept_def)

lemma kept_policy: "others_kept me w (policy_run pcfg c w) \<Longrightarrow> awRevocations (policy_run pcfg c w) = awRevocations w \<Longrightarrow>
    awKills (policy_run pcfg c w) = awKills w \<Longrightarrow> awTasks (policy_run pcfg c w) = awTasks w \<Longrightarrow>
    awApprovals (policy_run pcfg c w) = awApprovals w \<Longrightarrow> awPayloads (policy_run pcfg c w) = awPayloads w \<Longrightarrow>
    kept_for_others me w (policy_run pcfg c w)"
  by (simp add: kept_for_others_def)

lemma Active_update_other:
  assumes "plain t" "plain me" "t \<noteq> me" "ty \<in> {ScopeTenant, ScopeAgent}"
  shows "Active (AList.update (scope_key ty me v) e s) t agent = Active s t agent"
    and "Active (AList.delete (scope_key ty me v) s) t agent = Active s t agent"
  using assms scope_key_other [OF assms] scope_key_global [OF assms(4)]
  by (auto simp: Active_def update_conv' delete_conv' split: option.splits)

lemma resolveKillEntry_own: "resolveKillEntry b auth = Inr e \<Longrightarrow> aaTenant auth = me \<Longrightarrow> me \<noteq> [] \<Longrightarrow>
    keTenant e = me \<and> keType e \<in> {ScopeTenant, ScopeAgent}"
  by (auto simp: resolveKillEntry_def Let_def split: if_splits option.splits)

lemma revoke_kept: "aaTenant (resolveAdminAuth r cfg) = me \<Longrightarrow> plain me \<Longrightarrow>
    kept_for_others me w (snd (NewAdminRevokeHandler cfg env r b w))"
  by (auto simp: NewAdminRevokeHandler_def Let_def kept_for_others_refl plain_def memrev.revoked_after
      split: sum.splits intro!: kept_emit kept_revocations)

lemma mint_kept: "kept_for_others me w (snd (NewAdminMintHandler cfg env r b w))"
  by (auto simp: NewAdminMintHandler_def Let_def kept_for_others_refl split: sum.splits option.splits intro!: kept_emit)

lemma exception_kept: "kept_for_others me w (snd (NewAdminExceptionGrantHandler cfg env r b w))"
  by (auto simp: NewAdminExceptionGrantHandler_def Let_def kept_for_others_refl split: sum.splits option.splits intro!: kept_emit)

lemma payload_kept: "kept_for_others me w (snd (NewAdminPayloadHandler cfg env r w))"
  by (auto simp: NewAdminPayloadHandler_def emitPayloadRead_def Let_def kept_for_others_refl split: option.splits intro!: kept_emit)

lemma Engage_other:
  assumes "plain t" "plain me" "t \<noteq> me" "keTenant e = me" "keType e \<in> {ScopeTenant, ScopeAgent}"
  shows "Active (snd (Engage now e s)) t agent = Active s t agent"
  using Active_update_other(1) [OF assms(1-3,5)] assms(4)
  by (auto simp: Engage_def kill_key_def split: option.splits)

lemma engage_kept: "aaTenant (resolveAdminAuth r cfg) = me \<Longrightarrow> plain me \<Longrightarrow>
    kept_for_others me w (snd (NewAdminKillSwitchEngageHandler cfg env r b w))"
proof -
  assume me: "aaTenant (resolveAdminAuth r cfg) = me" "plain me"
  have *: "kept_for_others me w (w\<lparr>awKills := k\<rparr>)"
    if "resolveKillEntry body (resolveAdminAuth r cfg) = Inr e" "Engage now e (awKills w) = (x, k)" for body e now x k
    using resolveKillEntry_own [OF that(1) me(1)] me(2) that(2) Engage_other [of _ me e now "awKills w"]
    by (intro kept_kills) (auto simp: plain_def)
  show ?thesis
    by (auto simp: NewAdminKillSwitchEngageHandler_def Let_def kept_for_others_refl
        split: sum.splits prod.splits option.splits intro!: kept_emit *)
qed

lemma release_kept: "aaTenant (resolveAdminAuth r cfg) = me \<Longrightarrow> plain me \<Longrightarrow>
    kept_for_others me w (snd (NewAdminKillSwitchReleaseHandler cfg env r b w))"
  by (auto simp: NewAdminKillSwitchReleaseHandler_def Release_def Let_def kept_for_others_refl Active_update_other
      split: sum.splits prod.splits dest!: resolveKillEntry_own intro!: kept_emit kept_kills)
    (auto simp: plain_def)

lemma task_kept:
  assumes "aaTenant (resolveAdminAuth r cfg) = me" "plain me" "tasks_keyed w"
  shows "kept_for_others me w (snd (NewAdminTaskClearHandler cfg env r b w))"
proof -
  have *: "kept_for_others me w (w\<lparr>awTasks := ts\<rparr>)"
    if g: "task_Get (awTasks w) me tid = Inr (Some t)" and u: "task_Upsert (f t) (awTasks w) = (x, ts)"
      and f: "taTenant (f t) = taTenant t" "taID (f t) = taID t" for tid t f x ts
  proof (rule kept_tasks)
    fix t' tid'
    assume "plain t'" "t' \<noteq> me"
    have "memKey (taTenant (f t)) (taID (f t)) = memKey me tid"
      using assms(3) g f by (simp add: tasks_keyed_def task_Get_def)
    with memKey_other [OF \<open>plain t'\<close> assms(2) \<open>t' \<noteq> me\<close>, of tid' tid] u
    show "task_Get ts t' tid' = task_Get (awTasks w) t' tid'"
      by (auto simp: task_Get_def task_Upsert_def update_conv')
  qed
  show ?thesis
    by (auto simp: NewAdminTaskClearHandler_def Let_def assms(1) kept_for_others_refl split: sum.splits prod.splits option.splits
        intro!: kept_emit elim!: * [where f = "\<lambda>t. t\<lparr>taDrift := 0, taStatus := StatusActive, taUpdatedAt := anNow env\<rparr>"])
qed

lemma Decide_other:
  assumes "Decide now pid d s = (x, s')" "pid' \<noteq> pid"
  shows "map_of s' pid' = map_of s pid'"
  using assms by (auto simp: Decide_def close_wake_def update_conv' split: if_splits option.splits)

lemma decide_kept:
  assumes "aaTenant (resolveAdminAuth r cfg) = me" "plain me"
  shows "kept_for_others me w (snd (NewAdminApprovalsDecideHandler cfg env r b w))"
proof -
  have *: "kept_for_others me w (w\<lparr>awApprovals := s\<rparr>)"
    if "\<not> approval_hidden (resolveAdminAuth r cfg) (aqPathID r) (awApprovals w)"
      and "Decide now (aqPathID r) d (awApprovals w) = (x, s)" for now d x s
  proof (rule kept_approvals)
    fix pid row
    assume "map_of (awApprovals w) pid = Some row" "prTenant (mrReq row) \<noteq> me"
    moreover from this that(1) assms have "pid \<noteq> aqPathID r"
      by (auto simp: approval_hidden_def appr_Get_def plain_def)
    ultimately show "map_of s pid = Some row" using Decide_other [OF that(2)] by simp
  qed
  show ?thesis
    by (auto simp: NewAdminApprovalsDecideHandler_def Let_def kept_for_others_refl
        split: sum.splits prod.splits approvals_error.splits intro!: *)
qed

lemma policy_run_frame:
  "awRevocations (policy_run cfg c w) = awRevocations w" "awKills (policy_run cfg c w) = awKills w"
  "awTasks (policy_run cfg c w) = awTasks w" "awApprovals (policy_run cfg c w) = awApprovals w"
  "awPayloads (policy_run cfg c w) = awPayloads w"
  by (cases c; auto simp: policy_handlers Let_def go_live_def policy_event_def
      split: sum.splits option.splits prod.splits policystore_error.splits)+

lemma tasks_keyed_cong: "awTasks w' = awTasks w \<Longrightarrow> tasks_keyed w' = tasks_keyed w"
  by (simp add: tasks_keyed_def)

lemma tasks_keyed_clear: "tasks_keyed w \<Longrightarrow> tasks_keyed (snd (NewAdminTaskClearHandler cfg env r b w))"
  by (auto simp: NewAdminTaskClearHandler_def Let_def task_Upsert_def tasks_keyed_def update_conv'
      split: sum.splits prod.splits option.splits if_splits)

lemma tasks_kept_calls:
  "awTasks (snd (NewAdminRevokeHandler cfg env r rb w)) = awTasks w" "awTasks (snd (NewAdminMintHandler cfg env r mb w)) = awTasks w"
  "awTasks (snd (NewAdminExceptionGrantHandler cfg env r xb w)) = awTasks w"
  "awTasks (snd (NewAdminKillSwitchEngageHandler cfg env r kb w)) = awTasks w"
  "awTasks (snd (NewAdminKillSwitchReleaseHandler cfg env r kb w)) = awTasks w"
  "awTasks (snd (NewAdminApprovalsDecideHandler cfg env r db w)) = awTasks w"
  "awTasks (snd (NewAdminPayloadHandler cfg env r w)) = awTasks w"
  by (auto simp: NewAdminRevokeHandler_def NewAdminMintHandler_def NewAdminExceptionGrantHandler_def
      NewAdminKillSwitchEngageHandler_def NewAdminKillSwitchReleaseHandler_def NewAdminApprovalsDecideHandler_def
      NewAdminPayloadHandler_def emitPayloadRead_def Let_def split: sum.splits option.splits prod.splits approvals_error.splits)

lemma tasks_keyed_run: "tasks_keyed w \<Longrightarrow> tasks_keyed (admin_run cfg pcfg c w)"
  by (cases c) (simp_all add: tasks_keyed_clear tasks_keyed_cong [OF tasks_kept_calls(1)] tasks_keyed_cong [OF tasks_kept_calls(2)]
      tasks_keyed_cong [OF tasks_kept_calls(3)] tasks_keyed_cong [OF tasks_kept_calls(4)] tasks_keyed_cong [OF tasks_kept_calls(5)]
      tasks_keyed_cong [OF tasks_kept_calls(6)] tasks_keyed_cong [OF tasks_kept_calls(7)] tasks_keyed_cong [OF policy_run_frame(3)])

lemma admin_run_kept:
  assumes "tasks_keyed w" "allowed_call cfg pcfg c w" "admin_caller cfg pcfg c = me"
  shows "kept_for_others me w (admin_run cfg pcfg c w)"
proof -
  have p: "plain me" using assms(2,3) by (simp add: allowed_call_def)
  show ?thesis
  proof (cases c)
    case (APolicy pc)
    with assms p have "others_kept me w (policy_run pcfg pc w)"
      by (intro isolation_call) (simp_all add: allowed_call_def plain_def)
    with APolicy show ?thesis by (simp add: kept_policy policy_run_frame)
  qed (use assms p in \<open>simp_all add: revoke_kept mint_kept exception_kept engage_kept release_kept task_kept decide_kept payload_kept\<close>)
qed

interpretation admin: tenant_frame "admin_run cfg pcfg" "admin_caller cfg pcfg" kept_for_others tasks_keyed "allowed_call cfg pcfg"
  for cfg :: AdminConfig and pcfg :: "'e PolicyAdminConfig"
  by unfold_locales (fact kept_for_others_refl, erule (1) kept_for_others_trans, erule tasks_keyed_run, erule (2) admin_run_kept)

text \<open>Every call comes from one tenant's administrator, and the ids generated on the way are new.\<close>

fun tenant_session :: "AdminConfig \<Rightarrow> 'e PolicyAdminConfig \<Rightarrow> string \<Rightarrow> admin_call list \<Rightarrow> 'e admin_world \<Rightarrow> bool" where
  "tenant_session cfg pcfg me [] w = plain me"
| "tenant_session cfg pcfg me (c # cs) w =
     (admin_caller cfg pcfg c = me \<and> allowed_call cfg pcfg c w \<and> tenant_session cfg pcfg me cs (admin_run cfg pcfg c w))"

lemma tenant_session_iff: "tenant_session cfg pcfg me cs w \<longleftrightarrow>
    plain me \<and> admin.all_allowed cfg pcfg cs w \<and> (\<forall>c \<in> set cs. admin_caller cfg pcfg c = me)"
  by (induction cs arbitrary: w) (auto simp: allowed_call_def)

text \<open>
  C14. Tenant isolation of the admin API: whatever a tenant's administrator sends to the state-changing endpoints, in any
  order and number, for every other tenant no token is revoked or reinstated, no traffic halted or resumed, no task cleared, no approval
  decided, no draft, policy pointer or policy engine changed, and no retained payload touched.
\<close>

theorem admin_tenant_isolation:
  assumes "tenant_session cfg pcfg me cs w" and "tasks_keyed w"
  shows "kept_for_others me w (fold (admin_run cfg pcfg) cs w)"
  using assms by (intro admin.kept_runs) (simp_all add: tenant_session_iff)

definition sample_policy_admin :: "unit PolicyAdminConfig" where
  "sample_policy_admin = \<lparr>pcAdminToken = ''root'', pcTenantAdmins = [(''acme'', ''acme-key'')], pcStore = True, pcReloader = True,
     pcAudit = True, pcRequireApproval = True, pcCompile = (\<lambda>s. Inr ())\<rparr>"

definition acme_session :: "admin_call list" where
  "acme_session =
     [ARevoke sample_admin_env (sample_admin_request ''Bearer acme-key'') (Inr \<lparr>rbJTI = ''j1'', rbReason = ''lost''\<rparr>),
      AEngage sample_admin_env (sample_admin_request ''Bearer acme-key'')
        (Inr \<lparr>kbScope = ''tenant'', kbTenant = ''beta'', kbValue = [], kbReason = ''incident''\<rparr>)]"

definition acme_after :: "unit admin_world" where
  "acme_after = fold (admin_run sample_admin sample_policy_admin) acme_session sample_admin_world"

lemma acme_state:
  "awPayloads acme_after = [] \<and> awRevocations acme_after = Revoke (anNow sample_admin_env) ''j1'' ''lost'' ''acme'' rev_NewMemoryStore
    \<and> Active (awKills acme_after) ''acme'' ''bot'' \<noteq> None"
  by code_simp

theorem admin_tenant_isolation_witness:
  "kept_for_others ''acme'' sample_admin_world acme_after
    \<and> IsRevoked (awRevocations acme_after) ''j1'' ''acme'' \<and> Active (awKills acme_after) ''acme'' ''bot'' \<noteq> None"
proof -
  have "tenant_session sample_admin sample_policy_admin ''acme'' acme_session sample_admin_world" by code_simp
  moreover have "tasks_keyed sample_admin_world" by (simp add: tasks_keyed_def sample_admin_world_def)
  ultimately have "kept_for_others ''acme'' sample_admin_world acme_after"
    unfolding acme_after_def by (rule admin_tenant_isolation)
  moreover have "IsRevoked (Revoke (anNow sample_admin_env) ''j1'' ''lost'' ''acme'' rev_NewMemoryStore) ''j1'' ''acme''"
    by code_simp
  ultimately show ?thesis using acme_state by simp
qed

subsection \<open>What the read endpoints show\<close>

datatype admin_read =
    ReadRevocations | ReadApprovals | ReadTasks | ReadKills | ReadDrafts | ReadDraft | ReadActive | ReadAudit | ReadPayload | ReadTenants

text \<open>A row of a reply: one filed under a tenant, a kill, or a policy draft shown because a pointer leads to it.\<close>

datatype shown_row = RowOf string | KillRow KillEntry | PolicyDraft Draft

fun reply_rows :: "('b \<Rightarrow> shown_row list) \<Rightarrow> 'b admin_reply \<Rightarrow> shown_row list" where
  "reply_rows f (AdminOk st b) = f b"
| "reply_rows f (AdminError st msg) = []"

definition opt_rows :: "Draft option \<Rightarrow> shown_row list" where
  "opt_rows d = (case d of None \<Rightarrow> [] | Some x \<Rightarrow> [PolicyDraft x])"

fun rows_shown :: "AdminConfig \<Rightarrow> 'e PolicyAdminConfig \<Rightarrow> admin_env \<Rightarrow> (string \<Rightarrow> gotime option) \<Rightarrow> string \<Rightarrow> admin_request
    \<Rightarrow> 'e admin_world \<Rightarrow> admin_read \<Rightarrow> shown_row list" where
  "rows_shown cfg pcfg env parse source r w ReadRevocations =
     reply_rows (\<lambda>(rows, l, off). map (RowOf \<circ> rvTenant) rows) (NewAdminRevocationsListHandler cfg r w)"
| "rows_shown cfg pcfg env parse source r w ReadApprovals =
     reply_rows (\<lambda>(rows, l, off). map (RowOf \<circ> prTenant) rows) (NewAdminApprovalsListHandler cfg r w)"
| "rows_shown cfg pcfg env parse source r w ReadTasks =
     reply_rows (map (RowOf \<circ> taTenant)) (NewAdminTasksListHandler cfg r w)"
| "rows_shown cfg pcfg env parse source r w ReadKills = reply_rows (map KillRow) (NewAdminKillSwitchListHandler cfg r w)"
| "rows_shown cfg pcfg env parse source r w ReadDrafts =
     reply_rows (\<lambda>(ds, l, off). case ds of None \<Rightarrow> [] | Some ds \<Rightarrow> map (RowOf \<circ> dTenant) ds) (NewAdminDraftsListHandler pcfg r w)"
| "rows_shown cfg pcfg env parse source r w ReadDraft =
     reply_rows (\<lambda>d. [RowOf (dTenant d)]) (NewAdminDraftGetHandler pcfg r w)"
| "rows_shown cfg pcfg env parse source r w ReadActive =
     reply_rows (\<lambda>a. RowOf (paTenant (arActive a)) # opt_rows (arCurrentDraft a) @ opt_rows (arPreviousDraft a)
         @ opt_rows (arProposedDraft a)) (NewAdminActiveGetHandler pcfg source r w)"
| "rows_shown cfg pcfg env parse source r w ReadAudit =
     reply_rows (\<lambda>(es, l, off, n). map (RowOf \<circ> evTenant) es) (NewAdminAuditQueryHandler cfg env parse r w)"
| "rows_shown cfg pcfg env parse source r w ReadPayload =
     reply_rows (\<lambda>(p, json). [RowOf (pyTenant p)]) (fst (NewAdminPayloadHandler cfg env r w))"
| "rows_shown cfg pcfg env parse source r w ReadTenants = reply_rows (map RowOf) (NewAdminTenantsListHandler cfg r)"

text \<open>
  What a tenant may see: its own rows; the kills that halt it, its own and the global one; and the drafts its own policy
  pointer names, or, while that pointer is empty, the default draft, which is what its calls are decided by.
\<close>

definition own_pointers :: "string \<Rightarrow> MemoryStore \<Rightarrow> string set" where
  "own_pointers me s =
     (let a = active_row s me in
      {paCurrent a, paPrevious a, paProposed a} \<union> (if paCurrent a = [] then {paCurrent (active_row s [])} else {}))"

fun visible_to :: "string \<Rightarrow> MemoryStore \<Rightarrow> shown_row \<Rightarrow> bool" where
  "visible_to me s (RowOf t) \<longleftrightarrow> t = me"
| "visible_to me s (KillRow e) \<longleftrightarrow> keTenant e = me \<or> keType e = ScopeGlobal"
| "visible_to me s (PolicyDraft d) \<longleftrightarrow> (\<exists>i \<in> own_pointers me s. i \<noteq> [] \<and> map_of (psDrafts s) i = Some d)"

text \<open>
  The stores as the gateway fills them: a revocation and a payload carry the tenant they are filed under, and the tenants
  of payloads are free of the NUL byte that separates tenant and event in the payload key. The endpoints keep this.
\<close>

definition filed :: "'e admin_world \<Rightarrow> bool" where
  "filed w \<longleftrightarrow> rev_wf (awRevocations w) \<and> pl_ok (awPayloads w) \<and> (\<forall>kp \<in> set (awPayloads w). no_nul (pyTenant (snd kp)))"

lemma filed_run:
  assumes "filed w"
  shows "filed (admin_run cfg pcfg c w)"
proof (cases c)
  case (ARevoke env r b)
  then show ?thesis using assms
    by (auto simp: NewAdminRevokeHandler_def filed_def Let_def intro: rev_wf_Revoke split: sum.splits)
qed (use assms in \<open>auto simp: policy_run_frame NewAdminMintHandler_def NewAdminExceptionGrantHandler_def
      NewAdminKillSwitchEngageHandler_def NewAdminKillSwitchReleaseHandler_def NewAdminTaskClearHandler_def
      NewAdminApprovalsDecideHandler_def NewAdminPayloadHandler_def emitPayloadRead_def filed_def Let_def
      split: sum.splits option.splits prod.splits approvals_error.splits\<close>)

lemma revocations_shown: "rev_wf s \<Longrightarrow> me \<noteq> [] \<Longrightarrow> rw \<in> set (rev_List s me limit offset) \<Longrightarrow> rvTenant rw = me"
  using page_subset [of offset limit "newest_first rvRevokedAt (revoked_rows s me)"]
  by (auto simp: rev_List_def dest!: subsetD intro: revoked_rows_scope)

lemma approvals_shown: "lfTenant f \<noteq> [] \<Longrightarrow> x \<in> set (appr_List f s) \<Longrightarrow> prTenant x = lfTenant f"
  by (auto simp: appr_List_def Let_def dest!: subsetD [OF page_subset])

lemma tasks_shown: "me \<noteq> [] \<Longrightarrow> x \<in> set (task_List s me limit offset) \<Longrightarrow> taTenant x = me"
  by (auto simp: task_List_def Let_def split: if_splits dest!: in_set_takeD in_set_dropD)

lemma matches_tenant: "matchesFilter parse e f \<Longrightarrow> qfTenant f \<noteq> [] \<Longrightarrow> evTenant e = qfTenant f"
  by (simp add: matchesFilter_def split: if_splits)

lemma audit_shown: "qfTenant f \<noteq> [] \<Longrightarrow> x \<in> set (as_Query parse f s) \<Longrightarrow> evTenant x = qfTenant f"
  by (auto simp: as_Query_def Let_def dest!: subsetD [OF page_subset] dest: matches_tenant)

lemma payload_shown:
  assumes "pl_ok s" "\<forall>kp \<in> set s. no_nul (pyTenant (snd kp))" "no_nul me" "pl_Get now me k s = Some p"
  shows "pyTenant p = me"
proof -
  from assms(4) have m: "(pl_key me k, p) \<in> set s"
    by (auto simp: pl_Get_def split: option.splits if_splits dest: map_of_SomeD)
  with assms(1) have "pl_key me k = pl_key (pyTenant p) (pyEventID p)" by (auto simp: pl_ok_def)
  moreover have "no_nul (pyTenant p)" using assms(2) m by force
  ultimately show ?thesis using pl_key_inj [OF assms(3)] by blast
qed

lemma drafts_shown: "ListDrafts f s = Some ds \<Longrightarrow> dfTenant f \<noteq> [] \<Longrightarrow> x \<in> set ds \<Longrightarrow> dTenant x = dfTenant f"
  by (auto simp: ListDrafts_def Let_def split: if_splits dest!: in_set_takeD in_set_dropD)

lemma pinTenant_own: "pinTenant auth x = Some t \<Longrightarrow> aaTenant auth \<noteq> [] \<Longrightarrow> t = aaTenant auth"
  by (auto simp: pinTenant_def split: if_splits)

lemma find_draft_shown:
  "d \<in> own_pointers me s \<Longrightarrow> list_all (visible_to me s) (opt_rows (find_draft d s))"
  by (auto simp: opt_rows_def find_draft_def GetDraft_def split: option.splits)

lemma active_shown:
  "paTenant (arActive (active_response b src me s)) = me"
  "list_all (visible_to me s) (opt_rows (arCurrentDraft (active_response b src me s)))"
  "list_all (visible_to me s) (opt_rows (arPreviousDraft (active_response b src me s)))"
  "list_all (visible_to me s) (opt_rows (arProposedDraft (active_response b src me s)))"
proof -
  have "list_all (visible_to me s) (opt_rows None)" by (simp add: opt_rows_def)
  then show "list_all (visible_to me s) (opt_rows (arCurrentDraft (active_response b src me s)))"
    by (auto simp: active_response_def ps_GetActive_def own_pointers_def Let_def intro: find_draft_shown)
qed (auto simp: active_response_def ps_GetActive_def own_pointers_def Let_def intro: find_draft_shown)

text \<open>
  C15. A tenant's administrator sees only what concerns the tenant, at the ten read endpoints modelled here: the lists of
  revocations, approvals, tasks, kills, drafts, tenants and audit events, a draft by its id, the active policy and a
  retained payload. Every row is filed under the tenant, except that the kill list also shows the global kill, which halts
  everyone, and the active policy shows the drafts the tenant's own pointer names (an operator may have pointed it at a
  draft of another tenant) or, while that pointer is empty, the draft of the default policy the tenant falls back to.
  The stores are as the gateway fills them (\<open>filed\<close>, which the endpoints keep), and the tenant's name has no NUL byte.
\<close>

theorem admin_reads_scoped:
  assumes "aaTenant (resolveAdminAuth r cfg) = me" "aaTenant (resolveAdminAuth r (adminConfig pcfg)) = me"
    and "me \<noteq> []" "no_nul me" "filed w"
  shows "list_all (visible_to me (awPolicies w)) (rows_shown cfg pcfg env parse source r w q)"
proof (cases q)
  case ReadRevocations
  then show ?thesis using assms(3,5)
    by (auto simp: NewAdminRevocationsListHandler_def Let_def assms(1) filed_def list_all_iff dest: revocations_shown)
next
  case ReadApprovals
  then show ?thesis using assms(3)
    by (auto simp: NewAdminApprovalsListHandler_def Let_def assms(1) list_all_iff split: option.splits
        dest: approvals_shown [rotated])
next
  case ReadTasks
  then show ?thesis using assms(3)
    by (auto simp: NewAdminTasksListHandler_def Let_def assms(1) list_all_iff dest: tasks_shown)
next
  case ReadKills
  then show ?thesis using assms(3) by (auto simp: NewAdminKillSwitchListHandler_def Let_def assms(1) list_all_iff)
next
  case ReadDrafts
  then show ?thesis using assms(3)
    by (auto simp: NewAdminDraftsListHandler_def Let_def assms(2) list_all_iff split: option.splits
        dest!: pinTenant_own drafts_shown [OF sym, rotated 2])
next
  case ReadDraft
  then show ?thesis using assms(3)
    by (auto simp: NewAdminDraftGetHandler_def Let_def assms(2) split: option.splits dest!: visible_own)
next
  case ReadActive
  then show ?thesis using assms(3)
    by (auto simp: NewAdminActiveGetHandler_def Let_def assms(2) active_shown split: option.splits dest!: pinTenant_own)
next
  case ReadAudit
  then show ?thesis using assms(3)
    by (auto simp: NewAdminAuditQueryHandler_def Let_def assms(1) audit_filter_def list_all_iff split: option.splits sum.splits
        dest!: pinTenant_own audit_shown [rotated])
next
  case ReadPayload
  then show ?thesis using assms(3-5)
    by (auto simp: NewAdminPayloadHandler_def Let_def assms(1) filed_def split: option.splits if_splits dest: payload_shown)
next
  case ReadTenants
  then show ?thesis using assms(3) by (auto simp: NewAdminTenantsListHandler_def Let_def assms(1))
qed

text \<open>After the session above, with a default policy and a foreign kill in place, the tenant sees its own rows and the default draft.\<close>

definition beta_kill :: admin_call where
  "beta_kill = AEngage sample_admin_env (sample_admin_request ''Bearer root'')
     (Inr \<lparr>kbScope = ''tenant'', kbTenant = ''beta'', kbValue = [], kbReason = ''audit''\<rparr>)"

definition default_draft :: Draft where
  "default_draft = \<lparr>dID = ''d0'', dName = ''base'', dDescription = [], dRegoSource = ''package p'', dTenant = [], dCreatedAt = 0,
     dUpdatedAt = 0, dCreatedBy = ''root''\<rparr>"

definition shared_world :: "unit admin_world" where
  "shared_world = (admin_run sample_admin sample_policy_admin beta_kill acme_after)
     \<lparr>awPolicies := ps_NewMemoryStore\<lparr>psDrafts := [(''d0'', default_draft)], psActive := [([], zero_active\<lparr>paCurrent := ''d0''\<rparr>)]\<rparr>\<rparr>"

definition acme_read :: "admin_read \<Rightarrow> shown_row list" where
  "acme_read q = rows_shown sample_admin sample_policy_admin sample_admin_env (\<lambda>_. None) ''startup''
     (sample_admin_request ''Bearer acme-key'') shared_world q"

lemma shared_filed: "filed shared_world"
proof -
  have "filed acme_after" using acme_state by (simp add: filed_def rev_wf_Revoke pl_ok_def)
  from filed_run [OF this] show ?thesis by (simp add: shared_world_def filed_def)
qed

theorem admin_reads_scoped_witness:
  "acme_read ReadRevocations = [RowOf ''acme''] \<and> acme_read ReadActive = [RowOf ''acme'', PolicyDraft default_draft]
    \<and> length (kill_List (awKills shared_world)) = 2 \<and> length (acme_read ReadKills) = 1
    \<and> (\<forall>q. list_all (visible_to ''acme'' (awPolicies shared_world)) (acme_read q))"
proof (intro conjI allI)
  show "acme_read ReadRevocations = [RowOf ''acme'']" "acme_read ReadActive = [RowOf ''acme'', PolicyDraft default_draft]"
    "length (kill_List (awKills shared_world)) = 2" "length (acme_read ReadKills) = 1" by code_simp+
  have a: "aaTenant (resolveAdminAuth (sample_admin_request ''Bearer acme-key'') sample_admin) = ''acme''"
    "aaTenant (resolveAdminAuth (sample_admin_request ''Bearer acme-key'') (adminConfig sample_policy_admin)) = ''acme''"
    by code_simp+
  show "list_all (visible_to ''acme'' (awPolicies shared_world)) (acme_read q)" for q
    unfolding acme_read_def by (rule admin_reads_scoped [OF a _ _ shared_filed]) (simp_all add: no_nul_def)
qed

end
