(* ===== verification/Regex.thy ===== *)
theory Regex
  imports Encoding
begin

text \<open>
  The part of package \<open>regexp\<close> the detectors use: the expressions their literals denote, matched leftmost-first
  on the runes of the input, and \<open>FindAllStringIndex\<close>. A set is a list of code point ranges, \<open>RRep g n h r\<close> is
  \<open>r{n,h}\<close> (\<^const>\<open>None\<close> for no upper bound, \<open>g\<close> false for the lazy form), \<open>RWordB\<close> is \<open>\b\<close>. Matching a position
  in continuation-passing style tries the alternatives in the order of preference that Perl and Go share, so the
  first success is the leftmost-first match.
\<close>

subsection \<open>Expressions and positions\<close>

datatype rx =
    RSet "(nat \<times> nat) list"
  | RSeq rx rx
  | RAlt rx rx
  | RRep bool nat "nat option" rx
  | RWordB
  | REmpty

definition in_ranges :: "(nat \<times> nat) list \<Rightarrow> nat \<Rightarrow> bool" where
  "in_ranges rs n \<longleftrightarrow> list_ex (\<lambda>(a, b). a \<le> n \<and> n \<le> b) rs"

definition word_ranges :: "(nat \<times> nat) list" where
  "word_ranges = [(48, 57), (65, 90), (95, 95), (97, 122)]"

text \<open>A position: whether the rune before it is a word character, and the bytes that remain.\<close>

type_synonym rpos = "bool \<times> string"

definition next_rune :: "rpos \<Rightarrow> (nat \<times> rpos) option" where
  "next_rune p =
     (case snd p of
        [] \<Rightarrow> None
      | c # cs \<Rightarrow>
          if (of_char c :: nat) < 128 then Some (of_char c, in_ranges word_ranges (of_char c), cs)
          else (let (r, n) = decode_rune (c # cs) in Some (r, in_ranges word_ranges r, drop n (c # cs))))"

definition at_boundary :: "rpos \<Rightarrow> bool" where
  "at_boundary p \<longleftrightarrow> fst p \<noteq> (case next_rune p of None \<Rightarrow> False | Some (r, _) \<Rightarrow> in_ranges word_ranges r)"

subsection \<open>Matching\<close>

primrec rep_exact :: "nat \<Rightarrow> ((rpos \<Rightarrow> rpos option) \<Rightarrow> rpos \<Rightarrow> rpos option) \<Rightarrow> (rpos \<Rightarrow> rpos option) \<Rightarrow> rpos \<Rightarrow> rpos option" where
  "rep_exact 0 m k = k"
| "rep_exact (Suc n) m k = m (rep_exact n m k)"

primrec rep_upto :: "nat \<Rightarrow> bool \<Rightarrow> ((rpos \<Rightarrow> rpos option) \<Rightarrow> rpos \<Rightarrow> rpos option) \<Rightarrow> (rpos \<Rightarrow> rpos option) \<Rightarrow> rpos \<Rightarrow> rpos option" where
  "rep_upto 0 greedy m k p = k p"
| "rep_upto (Suc n) greedy m k p =
     (if greedy then (case m (rep_upto n greedy m k) p of Some x \<Rightarrow> Some x | None \<Rightarrow> k p)
      else (case k p of Some x \<Rightarrow> Some x | None \<Rightarrow> m (rep_upto n greedy m k) p))"

primrec rx_match :: "rx \<Rightarrow> (rpos \<Rightarrow> rpos option) \<Rightarrow> rpos \<Rightarrow> rpos option" where
  "rx_match (RSet rs) k p =
     (case next_rune p of None \<Rightarrow> None | Some (r, q) \<Rightarrow> if in_ranges rs r then k q else None)"
| "rx_match (RSeq a b) k p = rx_match a (rx_match b k) p"
| "rx_match (RAlt a b) k p = (case rx_match a k p of Some x \<Rightarrow> Some x | None \<Rightarrow> rx_match b k p)"
| "rx_match (RRep greedy lo hi r) k p =
     rep_exact lo (rx_match r)
       (\<lambda>q. rep_upto (case hi of Some h \<Rightarrow> h - lo | None \<Rightarrow> length (snd q)) greedy (rx_match r) k q) p"
| "rx_match RWordB k p = (if at_boundary p then k p else None)"
| "rx_match REmpty k p = k p"

lemma next_rune_shorter: "next_rune p = Some (r, q) \<Longrightarrow> length (snd q) < length (snd p)"
proof -
  assume n: "next_rune p = Some (r, q)"
  then obtain c cs where p: "snd p = c # cs" by (cases "snd p") (auto simp: next_rune_def)
  have "0 < snd (decode_rune (c # cs))" by (rule decode_rune_width) simp
  with n p show ?thesis by (auto simp: next_rune_def split: prod.splits if_splits)
qed

text \<open>The first position at or after \<open>p\<close> where \<open>r\<close> matches, with the end of the match.\<close>

function rx_search :: "rx \<Rightarrow> rpos \<Rightarrow> (rpos \<times> rpos) option" where
  "rx_search r p =
     (case rx_match r Some p of
        Some e \<Rightarrow> Some (p, e)
      | None \<Rightarrow> (case next_rune p of None \<Rightarrow> None | Some (_, q) \<Rightarrow> rx_search r q))"
  by pat_completeness auto
termination
  by (relation "measure (\<lambda>(r, p). length (snd p))") (auto dest: next_rune_shorter)

declare rx_search.simps [simp del]

text \<open>
  \<open>Regexp.allMatches\<close>: an empty match right after the previous match is not reported, and after an empty match
  at the current position the search moves on by one rune. Offsets count from the start of an input of \<open>n\<close> bytes.
\<close>

function all_matches :: "rx \<Rightarrow> nat \<Rightarrow> nat option \<Rightarrow> rpos \<Rightarrow> (nat \<times> nat) list" where
  "all_matches r n prevEnd p =
     (case rx_search r p of
        None \<Rightarrow> []
      | Some (q, e) \<Rightarrow>
          (let a = n - length (snd q); b = n - length (snd e) in
           if length (snd e) < length (snd p) then (a, b) # all_matches r n (Some b) e
           else (if prevEnd = Some a then [] else [(a, b)])
             @ (case next_rune p of None \<Rightarrow> [] | Some (_, p') \<Rightarrow> all_matches r n (Some b) p')))"
  by pat_completeness auto
termination
  by (relation "measure (\<lambda>(r, n, prev, p). length (snd p))") (auto dest: next_rune_shorter)

declare all_matches.simps [simp del]

definition FindAllStringIndex :: "rx \<Rightarrow> string \<Rightarrow> (nat \<times> nat) list" where
  "FindAllStringIndex r s = all_matches r (length s) None (False, s)"

subsection \<open>Writing expressions\<close>

definition rx_seq :: "rx list \<Rightarrow> rx" where "rx_seq rs = foldr RSeq rs REmpty"

fun rx_alt :: "rx list \<Rightarrow> rx" where
  "rx_alt [] = REmpty"
| "rx_alt [r] = r"
| "rx_alt (r # s # rs) = RAlt r (rx_alt (s # rs))"

definition rx_char :: "char \<Rightarrow> rx" where "rx_char c = RSet [(of_char c, of_char c)]"
definition rx_lit :: "string \<Rightarrow> rx" where "rx_lit s = rx_seq (map rx_char s)"
definition rx_opt :: "rx \<Rightarrow> rx" where "rx_opt r = RRep True 0 (Some 1) r"
definition rx_star :: "rx \<Rightarrow> rx" where "rx_star r = RRep True 0 None r"
definition rx_plus :: "rx \<Rightarrow> rx" where "rx_plus r = RRep True 1 None r"
definition rx_times :: "nat \<Rightarrow> nat \<Rightarrow> rx \<Rightarrow> rx" where "rx_times lo hi r = RRep True lo (Some hi) r"
definition rx_least :: "nat \<Rightarrow> rx \<Rightarrow> rx" where "rx_least lo r = RRep True lo None r"

definition digits :: "(nat \<times> nat) list" where "digits = [(48, 57)]"
definition uppers :: "(nat \<times> nat) list" where "uppers = [(65, 90)]"
definition letters :: "(nat \<times> nat) list" where "letters = [(65, 90), (97, 122)]"
definition rx_spaces :: "(nat \<times> nat) list" where "rx_spaces = [(9, 10), (12, 13), (32, 32)]"
definition chars_of :: "string \<Rightarrow> (nat \<times> nat) list" where "chars_of s = map (\<lambda>c. (of_char c, of_char c)) s"
definition rx_dot_all :: rx where "rx_dot_all = RSet [(0, 0x10FFFF)]"

subsection \<open>What a search reports\<close>

text \<open>A lower bound on the runes a match takes, and matchers that take at least \<open>n\<close> bytes.\<close>

primrec min_len :: "rx \<Rightarrow> nat" where
  "min_len (RSet rs) = 1"
| "min_len (RSeq a b) = min_len a + min_len b"
| "min_len (RAlt a b) = min (min_len a) (min_len b)"
| "min_len (RRep greedy lo hi r) = lo * min_len r"
| "min_len RWordB = 0"
| "min_len REmpty = 0"

lemma min_len_lit: "min_len (rx_lit s) = length s"
  by (induction s) (simp_all add: rx_lit_def rx_seq_def rx_char_def)

text \<open>When an expression cannot match the empty text.\<close>

lemma min_len_pos:
  "0 < min_len (RSet rs) \<longleftrightarrow> True" "0 < min_len (rx_char c) \<longleftrightarrow> True" "0 < min_len RWordB \<longleftrightarrow> False"
  "0 < min_len (rx_seq []) \<longleftrightarrow> False" "0 < min_len (rx_seq (r # l)) \<longleftrightarrow> 0 < min_len r \<or> 0 < min_len (rx_seq l)"
  "0 < min_len (rx_lit (x # xs)) \<longleftrightarrow> True" "0 < min_len (rx_opt r) \<longleftrightarrow> False" "0 < min_len (rx_star r) \<longleftrightarrow> False"
  "0 < min_len (rx_plus r) \<longleftrightarrow> 0 < min_len r"
  "0 < min_len (rx_times lo hi r) \<longleftrightarrow> 0 < lo \<and> 0 < min_len r" "0 < min_len (rx_least lo r) \<longleftrightarrow> 0 < lo \<and> 0 < min_len r"
  "0 < min_len (rx_alt [r]) \<longleftrightarrow> 0 < min_len r"
  "0 < min_len (rx_alt (r # r' # l)) \<longleftrightarrow> 0 < min_len r \<and> 0 < min_len (rx_alt (r' # l))"
  by (simp_all add: min_len_lit rx_seq_def rx_char_def rx_opt_def rx_star_def rx_plus_def rx_times_def rx_least_def)

definition consumes :: "nat \<Rightarrow> (rpos \<Rightarrow> rpos option) \<Rightarrow> bool" where
  "consumes n k \<longleftrightarrow> (\<forall>p e. k p = Some e \<longrightarrow> length (snd e) + n \<le> length (snd p))"

lemma consumesI: "(\<And>p e. k p = Some e \<Longrightarrow> length (snd e) + n \<le> length (snd p)) \<Longrightarrow> consumes n k"
  by (simp add: consumes_def)

lemma consumesD: "consumes n k \<Longrightarrow> k p = Some e \<Longrightarrow> length (snd e) + n \<le> length (snd p)"
  unfolding consumes_def by blast

lemma consumes_less: "consumes n k \<Longrightarrow> i \<le> n \<Longrightarrow> consumes i k"
  unfolding consumes_def by fastforce

lemma rep_exact_consumes:
  assumes "\<And>j k. consumes j k \<Longrightarrow> consumes (j + i) (m k)" and "consumes j k"
  shows "consumes (j + n * i) (rep_exact n m k)"
  using assms(2)
proof (induction n)
  case (Suc n)
  from assms(1) [OF Suc.IH [OF Suc.prems]] show ?case by (simp add: add.commute add.left_commute)
qed simp

lemma rep_upto_consumes:
  assumes m: "\<And>j k. consumes j k \<Longrightarrow> consumes (j + i) (m k)" and k: "consumes j k"
  shows "consumes j (rep_upto n greedy m k)"
proof (induction n)
  case 0
  show ?case by (rule consumesI) (simp add: consumesD [OF k])
next
  case (Suc n)
  have f: "consumes j (m (rep_upto n greedy m k))" by (rule consumes_less [OF m [OF Suc]]) simp
  show ?case
  proof (rule consumesI)
    fix p e
    assume "rep_upto (Suc n) greedy m k p = Some e"
    then have "m (rep_upto n greedy m k) p = Some e \<or> k p = Some e" by (auto split: if_splits option.splits)
    then show "length (snd e) + j \<le> length (snd p)" using consumesD [OF f] consumesD [OF k] by blast
  qed
qed

lemma rx_match_consumes: "consumes j k \<Longrightarrow> consumes (j + min_len r) (rx_match r k)"
proof (induction r arbitrary: j k)
  case (RSet rs)
  show ?case
  proof (rule consumesI)
    fix p e
    assume "rx_match (RSet rs) k p = Some e"
    then obtain c q where "next_rune p = Some (c, q)" "k q = Some e" by (auto split: option.splits if_splits)
    then show "length (snd e) + (j + min_len (RSet rs)) \<le> length (snd p)"
      using consumesD [OF RSet, of q e] next_rune_shorter [of p c q] by simp
  qed
next
  case (RSeq a b)
  from RSeq.IH(1) [OF RSeq.IH(2) [OF RSeq.prems]] show ?case
    by (simp add: consumes_def add.commute add.left_commute)
next
  case (RAlt a b)
  have a: "consumes (j + min_len (RAlt a b)) (rx_match a k)" "consumes (j + min_len (RAlt a b)) (rx_match b k)"
    by (rule consumes_less [OF RAlt.IH(1) [OF RAlt.prems]], simp, rule consumes_less [OF RAlt.IH(2) [OF RAlt.prems]], simp)
  show ?case
  proof (rule consumesI)
    fix p e
    assume "rx_match (RAlt a b) k p = Some e"
    then have "rx_match a k p = Some e \<or> rx_match b k p = Some e" by (auto split: option.splits)
    then show "length (snd e) + (j + min_len (RAlt a b)) \<le> length (snd p)" using a consumesD by blast
  qed
next
  case (RRep g lo hi r)
  have "consumes j (\<lambda>q. rep_upto (case hi of Some h \<Rightarrow> h - lo | None \<Rightarrow> length (snd q)) g (rx_match r) k q)"
    by (rule consumesI) (rule consumesD [OF rep_upto_consumes [OF RRep.IH RRep.prems]])
  from rep_exact_consumes [OF RRep.IH this, where n = lo] show ?case by (simp add: consumes_def)
next
  case RWordB
  then show ?case by (auto simp: consumes_def split: if_splits)
next
  case REmpty
  then show ?case by (simp add: consumes_def)
qed

lemma rx_search_forward:
  "rx_search r p = Some (q, e) \<Longrightarrow> length (snd e) + min_len r \<le> length (snd q) \<and> length (snd q) \<le> length (snd p)"
proof (induction r p rule: rx_search.induct)
  case (1 r p)
  show ?case
  proof (cases "rx_match r Some p")
    case None
    with "1.prems" obtain c p' where n: "next_rune p = Some (c, p')" and s: "rx_search r p' = Some (q, e)"
      by (subst (asm) rx_search.simps) (auto split: option.splits)
    from "1.IH" [OF None n _ s] next_rune_shorter [OF n] show ?thesis by simp
  next
    case (Some e')
    have "consumes 0 Some" by (simp add: consumes_def)
    from rx_match_consumes [OF this] have "length (snd e') + (0 + min_len r) \<le> length (snd p)" using Some by (rule consumesD)
    with Some "1.prems" show ?thesis by (subst (asm) rx_search.simps) auto
  qed
qed

text \<open>\<open>FindAllStringIndex\<close> reports spans of the input, from left to right, without overlap, and at least as long as
  the expression demands.\<close>

fun spans_from :: "nat \<Rightarrow> nat \<Rightarrow> nat \<Rightarrow> (nat \<times> nat) list \<Rightarrow> bool" where
  "spans_from l n i [] \<longleftrightarrow> True"
| "spans_from l n i ((a, b) # xs) \<longleftrightarrow> i \<le> a \<and> a + l \<le> b \<and> b \<le> n \<and> spans_from l n b xs"

lemma spans_from_mono: "spans_from l n j xs \<Longrightarrow> i \<le> j \<Longrightarrow> spans_from l n i xs"
  by (cases "(l, n, i, xs)" rule: spans_from.cases) auto

lemma spans_from_range: "spans_from l n i xs \<Longrightarrow> (a, b) \<in> set xs \<Longrightarrow> i \<le> a \<and> a + l \<le> b \<and> b \<le> n"
  by (induction l n i xs rule: spans_from.induct) auto

lemma all_matches_spans: "length (snd p) \<le> n \<Longrightarrow> spans_from (min_len r) n (n - length (snd p)) (all_matches r n prevEnd p)"
proof (induction r n prevEnd p rule: all_matches.induct)
  case (1 r n prevEnd p)
  show ?case
  proof (cases "rx_search r p")
    case None
    then show ?thesis by (simp add: all_matches.simps)
  next
    case (Some qe)
    obtain q e where qe: "qe = (q, e)" by (cases qe)
    note s = Some [unfolded qe]
    note f = rx_search_forward [OF s]
    let ?a = "n - length (snd q)" and ?b = "n - length (snd e)"
    show ?thesis
    proof (cases "length (snd e) < length (snd p)")
      case True
      then have "spans_from (min_len r) n ?b (all_matches r n (Some ?b) e)"
        using "1.IH"(1) [OF s refl refl refl True] f "1.prems" by linarith
      with True s f "1.prems" show ?thesis by (subst all_matches.simps) (simp add: Let_def, linarith)
    next
      case False
      have "spans_from (min_len r) n ?b (case next_rune p of None \<Rightarrow> [] | Some (_, p') \<Rightarrow> all_matches r n (Some ?b) p')"
      proof (cases "next_rune p")
        case None
        then show ?thesis by simp
      next
        case (Some cp)
        obtain c p' where cp: "cp = (c, p')" by (cases cp)
        note sh = next_rune_shorter [OF Some [unfolded cp]]
        have "spans_from (min_len r) n (n - length (snd p')) (all_matches r n (Some ?b) p')"
          using "1.IH"(2) [OF s refl refl refl False Some cp [symmetric]] sh "1.prems" by linarith
        moreover have "?b \<le> n - length (snd p')" using False f sh by linarith
        ultimately show ?thesis using Some cp by (simp add: spans_from_mono)
      qed
      moreover have "n - length (snd p) \<le> ?a" "?a + min_len r \<le> ?b" "?b \<le> n" using f "1.prems" by linarith+
      ultimately show ?thesis using False s
        by (subst all_matches.simps) (simp add: Let_def spans_from_mono)
    qed
  qed
qed

theorem FindAllStringIndex_spans: "spans_from (min_len r) (length s) 0 (FindAllStringIndex r s)"
  using all_matches_spans [of "(False, s)" "length s" r None] by (simp add: FindAllStringIndex_def)

end
