(* ===== verification/PiiDetect.thy ===== *)
theory PiiDetect
  imports Regex ActionIr "HOL-Library.Multiset" "HOL-Library.Product_Lexorder"
begin

text \<open>
  Package \<open>internal/pii\<close>, files \<open>detector.go\<close> and \<open>credentials.go\<close>: the classes and their patterns, the checksum
  validators, \<open>Detect\<close> and \<open>Redact\<close>. A pattern carries its \<open>FindAllStringIndex\<close>; the built-in ones are
  expressions of theory \<open>Regex\<close>. A slice expression out of range panics, which is \<^const>\<open>None\<close>.

  The lemmas show that the sorting loops sort, that every validated hit of a pattern lies inside a reported match,
  that redaction of disjoint matches is the text with each match replaced by its marker, and what the checksums catch.
\<close>

subsection \<open>Classes and matches\<close>

type_synonym Class = string

definition ClassEmail :: Class where "ClassEmail = ''email''"
definition ClassPhoneIntl :: Class where "ClassPhoneIntl = ''phone_intl''"
definition ClassIBAN :: Class where "ClassIBAN = ''iban''"
definition ClassBSN :: Class where "ClassBSN = ''bsn''"
definition ClassCreditCard :: Class where "ClassCreditCard = ''credit_card''"
definition ClassSSNUS :: Class where "ClassSSNUS = ''ssn_us''"
definition ClassVATEU :: Class where "ClassVATEU = ''vat_eu''"
definition ClassIPv4 :: Class where "ClassIPv4 = ''ipv4''"
definition ClassIPv6 :: Class where "ClassIPv6 = ''ipv6''"
definition ClassAWSAccessKey :: Class where "ClassAWSAccessKey = ''aws_access_key''"
definition ClassAWSSecretKey :: Class where "ClassAWSSecretKey = ''aws_secret_key''"
definition ClassGitHubPAT :: Class where "ClassGitHubPAT = ''github_pat''"
definition ClassJWT :: Class where "ClassJWT = ''jwt''"
definition ClassOAuthBearer :: Class where "ClassOAuthBearer = ''oauth_bearer''"
definition ClassSSHPrivateKey :: Class where "ClassSSHPrivateKey = ''ssh_private_key''"
definition ClassGCPServiceAccount :: Class where "ClassGCPServiceAccount = ''gcp_service_account_key''"
definition ClassGenericAPIKey :: Class where "ClassGenericAPIKey = ''generic_api_key''"

record Match =
  mClass :: Class
  mValue :: string
  mOffset :: nat
  mEnd :: nat

record Pattern =
  ptClass :: Class
  ptRegex :: "string \<Rightarrow> (nat \<times> nat) list"
  ptValidate :: "(string \<Rightarrow> bool) option"

type_synonym Detector = "Pattern list"

subsection \<open>Checksum validators\<close>

definition iban_digits :: "char \<Rightarrow> string option" where
  "iban_digits c =
     (if CHR ''0'' \<le> c \<and> c \<le> CHR ''9'' then Some [c]
      else if CHR ''A'' \<le> c \<and> c \<le> CHR ''Z'' then Some (show_nat (of_char c - 65 + 10))
      else None)"

fun iban_number :: "string \<Rightarrow> string option" where
  "iban_number [] = Some []"
| "iban_number (c # cs) =
     (case iban_digits c of
        None \<Rightarrow> None
      | Some ds \<Rightarrow> (case iban_number cs of None \<Rightarrow> None | Some r \<Rightarrow> Some (ds @ r)))"

definition rem97 :: "string \<Rightarrow> nat" where
  "rem97 ds = foldl (\<lambda>r c. (r * 10 + (of_char c - 48)) mod 97) 0 ds"

definition validIBAN :: "string \<Rightarrow> bool" where
  "validIBAN s0 =
     (let s = filter (\<lambda>c. c \<noteq> CHR '' '') s0 in
      if length s < 15 \<or> 34 < length s then False
      else case iban_number (drop 4 s @ take 4 s) of None \<Rightarrow> False | Some num \<Rightarrow> rem97 num = 1)"

definition bsn_weights :: "int list" where "bsn_weights = [9, 8, 7, 6, 5, 4, 3, 2, -1]"

definition char_digit :: "char \<Rightarrow> int" where "char_digit c = int (of_char c) - 48"

definition bsn_sum :: "string \<Rightarrow> int" where
  "bsn_sum s = sum_list (map2 (\<lambda>c w. char_digit c * w) s bsn_weights)"

definition validBSN :: "string \<Rightarrow> bool" where
  "validBSN s \<longleftrightarrow> length s = 9 \<and> list_all (\<lambda>c. CHR ''0'' \<le> c \<and> c \<le> CHR ''9'') s \<and> bsn_sum s mod 11 = 0"

definition validSSN :: "string \<Rightarrow> bool" where
  "validSSN s =
     (case split_on CHR ''-'' s of
        [p0, p1, p2] \<Rightarrow>
          if length p0 \<noteq> 3 \<or> length p1 \<noteq> 2 \<or> length p2 \<noteq> 4 then False
          else (case atoi p0 of
             None \<Rightarrow> False
           | Some a \<Rightarrow> \<not> (a = 0 \<or> a = 666 \<or> 900 \<le> a) \<and> p1 \<noteq> ''00'' \<and> p2 \<noteq> ''0000'')
      | _ \<Rightarrow> False)"

text \<open>One digit of the Luhn sum, and the loop over the digits from the right.\<close>

definition luhn_digit :: "bool \<Rightarrow> int \<Rightarrow> int" where
  "luhn_digit double d = (if double then (if 9 < d * 2 then d * 2 - 9 else d * 2) else d)"

fun luhn_sum :: "bool \<Rightarrow> string \<Rightarrow> int option" where
  "luhn_sum double [] = Some 0"
| "luhn_sum double (c # cs) =
     (if c < CHR ''0'' \<or> CHR ''9'' < c then None
      else (case luhn_sum (\<not> double) cs of None \<Rightarrow> None | Some n \<Rightarrow> Some (luhn_digit double (char_digit c) + n)))"

definition luhn_strip :: "string \<Rightarrow> string" where
  "luhn_strip s = filter (\<lambda>c. c \<noteq> CHR '' '' \<and> c \<noteq> CHR ''-'') s"

definition validLuhn :: "string \<Rightarrow> bool" where
  "validLuhn s =
     (let stripped = luhn_strip s in
      if length stripped < 13 \<or> 19 < length stripped then False
      else case luhn_sum False (rev stripped) of None \<Rightarrow> False | Some n \<Rightarrow> n mod 10 = 0)"

definition validSSHPrivateKey :: "string \<Rightarrow> bool" where
  "validSSHPrivateKey s \<longleftrightarrow> 200 \<le> length s"

definition quoted :: "string \<Rightarrow> string" where "quoted s = CHR 0x22 # s @ [CHR 0x22]"

definition validGCPServiceAccount :: "string \<Rightarrow> bool" where
  "validGCPServiceAccount s \<longleftrightarrow> contains_str s (quoted ''type'') \<and> contains_str s (quoted ''private_key_id'')"

definition validAWSSecretKey :: "string \<Rightarrow> bool" where
  "validAWSSecretKey s \<longleftrightarrow> length s = 40 \<and> 20 \<le> length (remdups s)"

subsection \<open>The built-in patterns\<close>

definition emailRe :: rx where
  "emailRe = rx_seq [RWordB, rx_plus (RSet (letters @ digits @ chars_of ''._%+-'')), rx_char CHR ''@'',
     rx_plus (RSet (letters @ digits @ chars_of ''.-'')), rx_char CHR ''.'', rx_least 2 (RSet letters), RWordB]"

definition phoneRe :: rx where
  "phoneRe = (let sep = rx_opt (RSet (rx_spaces @ chars_of ''.-'')); d = RSet digits in
     rx_seq [rx_opt (rx_char CHR ''+''), rx_times 1 3 d, sep, rx_opt (rx_char CHR ''(''), rx_times 1 4 d,
       rx_opt (rx_char CHR '')''), sep, rx_times 2 4 d, sep, rx_times 2 4 d, sep, rx_times 2 4 d, RWordB])"

definition ibanRe :: rx where
  "ibanRe = (let sp = rx_opt (RSet rx_spaces); an = RSet (uppers @ digits) in
     rx_seq [RWordB, rx_times 2 2 (RSet uppers), rx_times 2 2 (RSet digits), sp,
       rx_times 3 7 (rx_seq [rx_times 4 4 an, sp]), rx_times 1 4 an, RWordB])"

definition bsnRe :: rx where
  "bsnRe = rx_seq [RWordB, rx_times 9 9 (RSet digits), RWordB]"

definition ccRe :: rx where
  "ccRe = rx_seq [RWordB, rx_times 12 18 (rx_seq [RSet digits, rx_opt (RSet (rx_spaces @ chars_of ''-''))]),
     RSet digits, RWordB]"

definition ssnUSRe :: rx where
  "ssnUSRe = rx_seq [RWordB, rx_times 3 3 (RSet digits), rx_char CHR ''-'', rx_times 2 2 (RSet digits), rx_char CHR ''-'',
     rx_times 4 4 (RSet digits), RWordB]"

definition vatEURe :: rx where
  "vatEURe = rx_seq [RWordB, rx_alt (map rx_lit
       [''AT'', ''BE'', ''BG'', ''CY'', ''CZ'', ''DE'', ''DK'', ''EE'', ''EL'', ''ES'', ''FI'', ''FR'', ''GB'', ''HR'', ''HU'',
        ''IE'', ''IT'', ''LT'', ''LU'', ''LV'', ''MT'', ''NL'', ''PL'', ''PT'', ''RO'', ''SE'', ''SI'', ''SK'', ''XI'']),
     rx_times 8 12 (RSet (digits @ uppers)), RWordB]"

definition octetRe :: rx where
  "octetRe = rx_alt [rx_seq [rx_lit ''25'', RSet [(48, 53)]],
     rx_seq [rx_lit ''2'', RSet [(48, 52)], RSet digits],
     rx_seq [rx_opt (RSet (chars_of ''01'')), rx_opt (RSet digits), RSet digits]]"

definition ipv4Re :: rx where
  "ipv4Re = rx_seq [RWordB, rx_times 3 3 (rx_seq [octetRe, rx_char CHR ''.'']), octetRe, RWordB]"

definition ipv6Re :: rx where
  "ipv6Re = (let h = rx_times 1 4 (RSet ([(65, 70), (97, 102)] @ digits)); colon = rx_char CHR '':'' in
     rx_alt [rx_seq [RWordB, rx_times 7 7 (rx_seq [h, colon]), h, RWordB],
       rx_seq [RWordB, rx_times 1 7 (rx_seq [h, colon]), colon, RWordB],
       rx_seq [RWordB, rx_times 1 6 (rx_seq [h, colon]), colon, h, RWordB],
       rx_seq [RWordB, colon, colon, h, rx_times 0 5 (rx_seq [colon, h]), RWordB]])"

definition awsAccessKeyRe :: rx where
  "awsAccessKeyRe = rx_seq [RWordB, rx_alt (map rx_lit [''AKIA'', ''ASIA'', ''AROA'', ''ANPA'', ''ABIA'', ''ACCA'']),
     rx_times 16 16 (RSet (digits @ uppers)), RWordB]"

definition awsSecretKeyRe :: rx where
  "awsSecretKeyRe = rx_seq [RWordB, rx_times 40 40 (RSet (letters @ digits @ chars_of ''/+='')), RWordB]"

definition githubPATRe :: rx where
  "githubPATRe = rx_seq [RWordB,
     rx_alt [rx_seq [rx_lit ''gh'', RSet (chars_of ''oprsu''), rx_lit ''_'', rx_times 36 255 (RSet (letters @ digits))],
       rx_seq [rx_lit ''github_pat_'', rx_times 82 82 (RSet (letters @ digits @ chars_of ''_''))]], RWordB]"

definition jwtRe :: rx where
  "jwtRe = (let seg = rx_plus (RSet (letters @ digits @ chars_of ''_-'')) in
     rx_seq [RWordB, rx_lit ''eyJ'', seg, rx_lit ''.'', seg, rx_lit ''.'', seg, RWordB])"

definition oauthBearerRe :: rx where
  "oauthBearerRe = rx_seq [RWordB, rx_lit ''Bearer'', rx_plus (RSet rx_spaces),
     rx_least 20 (RSet (letters @ digits @ chars_of ''._-+/='')), RWordB]"

definition sshPrivateKeyRe :: rx where
  "sshPrivateKeyRe = (let label = rx_star (RSet (uppers @ chars_of '' '')) in
     rx_seq [rx_lit ''-----BEGIN '', label, rx_lit ''PRIVATE KEY-----'', RRep False 0 None rx_dot_all,
       rx_lit ''-----END '', label, rx_lit ''PRIVATE KEY-----''])"

definition gcpServiceAccountRe :: rx where
  "gcpServiceAccountRe = (let sp = rx_star (RSet rx_spaces) in
     rx_seq [rx_lit (quoted ''type''), sp, rx_lit '':'', sp, rx_lit (quoted ''service_account''),
       rx_times 0 500 rx_dot_all, rx_lit (quoted ''private_key_id''), rx_times 0 500 rx_dot_all, rx_lit (quoted ''private_key'')])"

text \<open>
  Under \<open>(?i)\<close> a letter stands for its simple case folds: both cases, and for \<open>k\<close> and \<open>s\<close> also the Kelvin sign
  U+212A and the long s U+017F.
\<close>

definition folds :: "char \<Rightarrow> (nat \<times> nat) list" where
  "folds c = (let n = of_char c :: nat in
     if 97 \<le> n \<and> n \<le> 122 then [(n, n), (n - 32, n - 32)]
       @ (if c = CHR ''k'' then [(0x212A, 0x212A)] else if c = CHR ''s'' then [(0x17F, 0x17F)] else [])
     else [(n, n)])"

definition rx_fold :: "string \<Rightarrow> rx" where
  "rx_fold s = rx_seq (map (\<lambda>c. RSet (folds c)) s)"

definition genericAPIKeyRe :: rx where
  "genericAPIKeyRe = (let sp = rx_star (RSet rx_spaces); quote = rx_opt (RSet [(34, 34), (39, 39)]) in
     rx_seq [RWordB,
       rx_alt [rx_seq [rx_fold ''api'', rx_opt (RSet (chars_of ''_-'')), rx_fold ''key''], rx_fold ''secret'', rx_fold ''token'',
         rx_fold ''password''],
       sp, RSet (chars_of '':=''), sp, quote,
       rx_least 32 (RSet (letters @ digits @ chars_of ''_-/+='' @ [(0x17F, 0x17F), (0x212A, 0x212A)])), quote])"

definition pattern :: "Class \<Rightarrow> rx \<Rightarrow> (string \<Rightarrow> bool) option \<Rightarrow> Pattern" where
  "pattern c r v = \<lparr>ptClass = c, ptRegex = FindAllStringIndex r, ptValidate = v\<rparr>"

definition credentialPatterns :: "Pattern list" where
  "credentialPatterns =
     [pattern ClassSSHPrivateKey sshPrivateKeyRe (Some validSSHPrivateKey),
      pattern ClassGCPServiceAccount gcpServiceAccountRe (Some validGCPServiceAccount),
      pattern ClassAWSSecretKey awsSecretKeyRe (Some validAWSSecretKey),
      pattern ClassAWSAccessKey awsAccessKeyRe None, pattern ClassGitHubPAT githubPATRe None,
      pattern ClassJWT jwtRe None, pattern ClassOAuthBearer oauthBearerRe None,
      pattern ClassGenericAPIKey genericAPIKeyRe None]"

definition builtinPatterns :: "Pattern list" where
  "builtinPatterns =
     [pattern ClassIBAN ibanRe (Some validIBAN), pattern ClassBSN bsnRe (Some validBSN),
      pattern ClassCreditCard ccRe (Some validLuhn), pattern ClassSSNUS ssnUSRe (Some validSSN),
      pattern ClassEmail emailRe None, pattern ClassPhoneIntl phoneRe None, pattern ClassVATEU vatEURe None,
      pattern ClassIPv4 ipv4Re None, pattern ClassIPv6 ipv6Re None] @ credentialPatterns"

subsection \<open>The detector\<close>

definition NewDetector :: "Class list option \<Rightarrow> Detector" where
  "NewDetector enabled =
     (case enabled of
        None \<Rightarrow> builtinPatterns
      | Some want \<Rightarrow> filter (\<lambda>p. ptClass p \<in> set want) builtinPatterns)"

definition isQuant :: "char \<Rightarrow> bool" where
  "isQuant b \<longleftrightarrow> b = CHR ''+'' \<or> b = CHR ''*'' \<or> b = CHR ''?'' \<or> b = CHR 0x7B"

text \<open>The loop of \<open>hasNestedQuantifier\<close>: the stack holds \<open>sawInnerQuant\<close> of the open groups.\<close>

fun nested_loop :: "bool list \<Rightarrow> string \<Rightarrow> bool" where
  "nested_loop stack [] = False"
| "nested_loop stack (c # cs) =
     (if c = CHR 0x5C then nested_loop stack (drop 1 cs)
      else if c = CHR ''('' then nested_loop (False # stack) cs
      else if c = CHR '')'' then
        (case stack of
           [] \<Rightarrow> nested_loop [] cs
         | saw # rest \<Rightarrow>
             if (case cs of [] \<Rightarrow> False | q # _ \<Rightarrow> isQuant q) \<and> saw then True else nested_loop rest cs)
      else if c = CHR ''+'' \<or> c = CHR ''*'' \<or> c = CHR ''?'' then
        nested_loop (case stack of [] \<Rightarrow> [] | saw # rest \<Rightarrow> True # rest) cs
      else nested_loop stack cs)"

definition hasNestedQuantifier :: "string \<Rightarrow> bool" where
  "hasNestedQuantifier pat = nested_loop [] pat"

datatype pattern_error = NestedQuantifier string | BadRegex string string

definition AddCustomPattern :: "(string \<Rightarrow> string + (string \<Rightarrow> (nat \<times> nat) list)) \<Rightarrow> Class \<Rightarrow> string \<Rightarrow> Detector
    \<Rightarrow> pattern_error + Detector" where
  "AddCustomPattern compile c pat d =
     (if hasNestedQuantifier pat then Inl (NestedQuantifier pat)
      else case compile pat of
        Inl e \<Rightarrow> Inl (BadRegex pat e)
      | Inr re \<Rightarrow> Inr (d @ [\<lparr>ptClass = c, ptRegex = re, ptValidate = None\<rparr>]))"

text \<open>
  The loops over \<open>i\<close> and \<open>j > i\<close> that swap two entries in the wrong order: a pass leaves at \<open>i\<close> an entry that
  no later one precedes.
\<close>

fun exchange_pass :: "('a \<Rightarrow> 'a \<Rightarrow> bool) \<Rightarrow> 'a \<Rightarrow> 'a list \<Rightarrow> 'a \<times> 'a list" where
  "exchange_pass swap a [] = (a, [])"
| "exchange_pass swap a (b # bs) =
     (if swap a b then (case exchange_pass swap b bs of (m, rest) \<Rightarrow> (m, a # rest))
      else (case exchange_pass swap a bs of (m, rest) \<Rightarrow> (m, b # rest)))"

lemma exchange_pass_length: "length (snd (exchange_pass swap a bs)) = length bs"
  by (induction swap a bs rule: exchange_pass.induct) (auto split: prod.splits)

function exchange_sort :: "('a \<Rightarrow> 'a \<Rightarrow> bool) \<Rightarrow> 'a list \<Rightarrow> 'a list" where
  "exchange_sort swap [] = []"
| "exchange_sort swap (a # xs) =
     fst (exchange_pass swap a xs) # exchange_sort swap (snd (exchange_pass swap a xs))"
  by pat_completeness auto
termination
  by (relation "measure (\<lambda>(swap, xs). length xs)") (auto simp: exchange_pass_length)

record rawMatch =
  rmMatch :: Match
  rmHasValidator :: bool
  rmPatternIdx :: nat

definition substr :: "string \<Rightarrow> nat \<Rightarrow> nat \<Rightarrow> string" where
  "substr s a b = take (b - a) (drop a s)"

definition validated :: "Pattern \<Rightarrow> string \<Rightarrow> bool" where
  "validated p v = (case ptValidate p of None \<Rightarrow> True | Some f \<Rightarrow> f v)"

definition pattern_hits :: "string \<Rightarrow> nat \<Rightarrow> Pattern \<Rightarrow> rawMatch list" where
  "pattern_hits input i p =
     map (\<lambda>(a, b). \<lparr>rmMatch = \<lparr>mClass = ptClass p, mValue = substr input a b, mOffset = a, mEnd = b\<rparr>,
         rmHasValidator = (ptValidate p \<noteq> None), rmPatternIdx = i\<rparr>)
       (filter (\<lambda>(a, b). validated p (substr input a b)) (ptRegex p input))"

definition raw_matches :: "Detector \<Rightarrow> string \<Rightarrow> rawMatch list" where
  "raw_matches d input = concat (map (\<lambda>(i, p). pattern_hits input i p) (enumerate 0 d))"

definition raw_swap :: "rawMatch \<Rightarrow> rawMatch \<Rightarrow> bool" where
  "raw_swap a b =
     (if mOffset (rmMatch a) \<noteq> mOffset (rmMatch b) then mOffset (rmMatch b) < mOffset (rmMatch a)
      else if mEnd (rmMatch a) \<noteq> mEnd (rmMatch b) then mEnd (rmMatch a) < mEnd (rmMatch b)
      else if rmHasValidator a \<noteq> rmHasValidator b then \<not> rmHasValidator a
      else rmPatternIdx b < rmPatternIdx a)"

fun coalesce :: "int \<Rightarrow> rawMatch list \<Rightarrow> Match list" where
  "coalesce keptEnd [] = []"
| "coalesce keptEnd (m # ms) =
     (if int (mOffset (rmMatch m)) < keptEnd \<and> int (mEnd (rmMatch m)) \<le> keptEnd then coalesce keptEnd ms
      else rmMatch m # coalesce (if keptEnd < int (mEnd (rmMatch m)) then int (mEnd (rmMatch m)) else keptEnd) ms)"

definition Detect :: "Detector \<Rightarrow> string \<Rightarrow> Match list" where
  "Detect d input = coalesce (-1) (exchange_sort raw_swap (raw_matches d input))"

definition sortByOffset :: "Match list \<Rightarrow> Match list" where
  "sortByOffset ms = exchange_sort (\<lambda>a b. mOffset b < mOffset a) ms"

definition CountByClass :: "Match list \<Rightarrow> (Class \<times> int) list" where
  "CountByClass ms =
     fold (\<lambda>m counts. AList.update (mClass m) ((case map_of counts (mClass m) of Some n \<Rightarrow> n | None \<Rightarrow> 0) + 1) counts) ms []"

definition marker :: "Class \<Rightarrow> string" where
  "marker c = ''[REDACTED:'' @ c @ '']''"

text \<open>\<open>out[:m.Offset] + token + out[m.End:]\<close>, which panics when an index is beyond the text.\<close>

fun splice_all :: "string \<Rightarrow> Match list \<Rightarrow> string option" where
  "splice_all out [] = Some out"
| "splice_all out (m # ms) =
     (if length out < mOffset m \<or> length out < mEnd m then None
      else splice_all (take (mOffset m) out @ marker (mClass m) @ drop (mEnd m) out) ms)"

definition Redact :: "string \<Rightarrow> Match list \<Rightarrow> (string \<times> (Class \<times> int) list) option" where
  "Redact input matches =
     (if matches = [] then Some (input, [])
      else (let sorted = exchange_sort (\<lambda>a b. mOffset a < mOffset b) matches in
        case splice_all input sorted of None \<Rightarrow> None | Some out \<Rightarrow> Some (out, CountByClass sorted)))"

subsection \<open>The sorting loops\<close>

lemma exchange_pass_mset:
  "add_mset (fst (exchange_pass swap a bs)) (mset (snd (exchange_pass swap a bs))) = add_mset a (mset bs)"
proof (induction bs arbitrary: a)
  case (Cons b bs)
  have "add_mset m (add_mset x M) = add_mset x (add_mset m M)" for m x :: 'a and M by (rule add_mset_commute)
  with Cons.IH [of a] Cons.IH [of b] show ?case
    by (cases "swap a b") (simp_all add: case_prod_unfold)
qed simp

lemma exchange_sort_mset [simp]: "mset (exchange_sort swap xs) = mset xs"
proof (induction swap xs rule: exchange_sort.induct)
  case (2 swap a xs)
  then show ?case using exchange_pass_mset [of swap a xs] by simp
qed simp

lemma exchange_sort_set [simp]: "set (exchange_sort swap xs) = set xs"
  by (rule mset_eq_setD) simp

lemma exchange_sort_empty [simp]: "exchange_sort swap xs = [] \<longleftrightarrow> xs = []"
  by (cases xs) simp_all

text \<open>With a comparison that swaps two entries exactly when their keys are in the wrong order, the loops sort.\<close>

locale exchange_order =
  fixes swap :: "'a \<Rightarrow> 'a \<Rightarrow> bool" and key :: "'a \<Rightarrow> 'k :: linorder"
  assumes swap_iff: "swap a b \<longleftrightarrow> key b < key a"
begin

lemma pass_least:
  "key (fst (exchange_pass swap a bs)) \<le> key a \<and> (\<forall>x \<in> set (snd (exchange_pass swap a bs)). key (fst (exchange_pass swap a bs)) \<le> key x)"
proof (induction bs arbitrary: a)
  case (Cons b bs)
  from Cons.IH [of a] Cons.IH [of b] show ?case by (auto simp: swap_iff case_prod_unfold)
qed simp

lemma sorts: "sorted_wrt (\<lambda>a b. key a \<le> key b) (exchange_sort swap xs)"
proof (induction "length xs" arbitrary: xs)
  case (Suc n)
  then obtain a ys where xs: "xs = a # ys" by (cases xs) auto
  have "length (snd (exchange_pass swap a ys)) = n" using Suc(2) xs by (simp add: exchange_pass_length)
  from Suc(1) [OF this [symmetric]] pass_least [of a ys] xs show ?case by simp
qed simp

text \<open>Entries with distinct keys can be sorted in one way only.\<close>

lemma sorts_uniquely:
  assumes "sorted_wrt (\<lambda>a b. key a < key b) ys" and "set ys = set xs" and "distinct xs"
  shows "exchange_sort swap xs = ys"
proof -
  have less: "sorted_wrt (<) (map key ys)" using assms(1) by (simp add: sorted_wrt_map)
  then have sd: "sorted (map key ys)" "distinct (map key ys)" by (simp_all only: strict_sorted_iff)
  then have inj: "inj_on key (set ys)" by (simp add: distinct_map)
  have d: "distinct (exchange_sort swap xs)" using assms(3) by (metis exchange_sort_mset mset_eq_imp_distinct_iff)
  show ?thesis
  proof (rule map_sorted_distinct_set_unique [of key])
    show "inj_on key (set (exchange_sort swap xs) \<union> set ys)" using inj assms(2) by simp
    show "sorted (map key (exchange_sort swap xs))" using sorts by (simp add: sorted_map)
    show "sorted (map key ys)" "distinct (map key ys)" by (rule sd)+
    show "distinct (map key (exchange_sort swap xs))" using d inj assms(2) by (simp add: distinct_map)
    show "set (exchange_sort swap xs) = set ys" using assms(2) by simp
  qed
qed

end

definition raw_key :: "rawMatch \<Rightarrow> nat \<times> int \<times> bool \<times> nat" where
  "raw_key m = (mOffset (rmMatch m), - int (mEnd (rmMatch m)), \<not> rmHasValidator m, rmPatternIdx m)"

interpretation detect_order: exchange_order raw_swap raw_key
  by unfold_locales (simp add: raw_swap_def raw_key_def less_bool_def, linarith)

interpretation redact_order: exchange_order "\<lambda>a b. mOffset a < mOffset b" "\<lambda>m. - int (mOffset m)"
  by unfold_locales auto

interpretation offset_order: exchange_order "\<lambda>a b. mOffset b < mOffset a" mOffset
  by unfold_locales auto

lemma sortByOffset_sorts: "sorted_wrt (\<lambda>a b. mOffset a \<le> mOffset b) (sortByOffset ms) \<and> mset (sortByOffset ms) = mset ms"
  by (simp add: sortByOffset_def offset_order.sorts)

subsection \<open>What the detector reports\<close>

lemma raw_matches_set:
  "set (raw_matches d input) = (\<Union>i < length d. set (pattern_hits input i (d ! i)))"
  by (auto simp: raw_matches_def in_set_enumerate_eq enumerate_eq_zip set_zip)

lemma coalesce_subset: "set (coalesce e ms) \<subseteq> rmMatch ` set ms"
proof (induction ms arbitrary: e)
  case (Cons m ms)
  then show ?case by (simp, blast)
qed simp

lemma coalesce_sorted:
  "sorted_wrt (\<lambda>a b. P (rmMatch a) (rmMatch b)) ms \<Longrightarrow> sorted_wrt P (coalesce e ms)"
proof (induction ms arbitrary: e)
  case (Cons m ms)
  have "P (rmMatch m) x" if "x \<in> set (coalesce e' ms)" for x e'
    using subsetD [OF coalesce_subset that] Cons.prems by auto
  with Cons show ?case by simp
qed simp

text \<open>An entry the loop drops lies inside the kept match that set \<open>keptEnd\<close>.\<close>

lemma coalesce_covers:
  assumes "sorted_wrt (\<lambda>a b. mOffset (rmMatch a) \<le> mOffset (rmMatch b)) ms"
    and "e = -1 \<or> (\<exists>k \<in> K. int (mEnd k) = e \<and> (\<forall>m \<in> set ms. mOffset k \<le> mOffset (rmMatch m)))" and "m \<in> set ms"
  shows "\<exists>k \<in> K \<union> set (coalesce e ms). mOffset k \<le> mOffset (rmMatch m) \<and> mEnd (rmMatch m) \<le> mEnd k"
  using assms
proof (induction e ms arbitrary: K rule: coalesce.induct)
  case (2 e m1 ms)
  let ?skip = "int (mOffset (rmMatch m1)) < e \<and> int (mEnd (rmMatch m1)) \<le> e"
  have srt: "sorted_wrt (\<lambda>a b. mOffset (rmMatch a) \<le> mOffset (rmMatch b)) ms" using "2.prems"(1) by simp
  show ?case
  proof (cases ?skip)
    case True
    then obtain k where k: "k \<in> K" "int (mEnd k) = e" "\<forall>m \<in> set (m1 # ms). mOffset k \<le> mOffset (rmMatch m)"
      using "2.prems"(2) by auto
    show ?thesis
    proof (cases "m = m1")
      case True
      with k \<open>?skip\<close> show ?thesis by (intro bexI [of _ k]) auto
    next
      case False
      have "e = -1 \<or> (\<exists>k \<in> K. int (mEnd k) = e \<and> (\<forall>m \<in> set ms. mOffset k \<le> mOffset (rmMatch m)))" using k by auto
      from "2.IH"(1) [OF True srt this] False "2.prems"(3) True show ?thesis by simp
    qed
  next
    case False
    let ?e = "if e < int (mEnd (rmMatch m1)) then int (mEnd (rmMatch m1)) else e"
    have "?e = -1 \<or> (\<exists>k \<in> insert (rmMatch m1) K. int (mEnd k) = ?e \<and> (\<forall>m \<in> set ms. mOffset k \<le> mOffset (rmMatch m)))"
      using "2.prems"(1,2) by auto
    from "2.IH"(2) [OF False srt this] "2.prems"(3) False show ?thesis by auto
  qed
qed simp

lemma sorted_raw: "sorted_wrt (\<lambda>a b. mOffset (rmMatch a) \<le> mOffset (rmMatch b)) (exchange_sort raw_swap xs)"
  by (rule sorted_wrt_mono_rel [OF _ detect_order.sorts]) (auto simp: raw_key_def)

lemma Detect_sorted: "sorted_wrt (\<lambda>a b. mOffset a \<le> mOffset b) (Detect d input)"
  unfolding Detect_def by (rule coalesce_sorted [OF sorted_raw])

text \<open>Every reported match is a validated hit of one of the patterns.\<close>

lemma Detect_sound:
  assumes "m \<in> set (Detect d input)"
  shows "\<exists>p \<in> set d. mClass m = ptClass p \<and> (mOffset m, mEnd m) \<in> set (ptRegex p input)
    \<and> mValue m = substr input (mOffset m) (mEnd m) \<and> validated p (mValue m)"
proof -
  from assms have "m \<in> rmMatch ` set (raw_matches d input)"
    unfolding Detect_def using coalesce_subset by fastforce
  then show ?thesis by (auto simp: raw_matches_set pattern_hits_def intro!: bexI [of _ "d ! _"])
qed

lemma Detect_complete:
  assumes "p \<in> set d" and "(a, b) \<in> set (ptRegex p input)" and "validated p (substr input a b)"
  shows "\<exists>m \<in> set (Detect d input). mOffset m \<le> a \<and> b \<le> mEnd m"
proof -
  from assms(1) obtain i where i: "i < length d" "d ! i = p" by (auto simp: in_set_conv_nth)
  let ?m = "\<lparr>rmMatch = \<lparr>mClass = ptClass p, mValue = substr input a b, mOffset = a, mEnd = b\<rparr>,
         rmHasValidator = (ptValidate p \<noteq> None), rmPatternIdx = i\<rparr>"
  have "?m \<in> set (pattern_hits input i p)"
    unfolding pattern_hits_def set_map using assms(2,3) by (intro image_eqI [of _ _ "(a, b)"]) simp_all
  with i have "?m \<in> set (exchange_sort raw_swap (raw_matches d input))" by (auto simp: raw_matches_set)
  from coalesce_covers [OF sorted_raw _ this, of "-1" "{}"] show ?thesis by (simp add: Detect_def)
qed

subsection \<open>Redaction\<close>

text \<open>The text with each match replaced by its marker.\<close>

fun redacted_from :: "nat \<Rightarrow> string \<Rightarrow> Match list \<Rightarrow> string" where
  "redacted_from i s [] = drop i s"
| "redacted_from i s (m # ms) = substr s i (mOffset m) @ marker (mClass m) @ redacted_from (mEnd m) s ms"

definition disjoint_matches :: "Match list \<Rightarrow> bool" where
  "disjoint_matches ms \<longleftrightarrow> sorted_wrt (\<lambda>a b. mEnd a \<le> mOffset b) ms"

definition matches_in :: "string \<Rightarrow> Match list \<Rightarrow> bool" where
  "matches_in s ms \<longleftrightarrow> (\<forall>m \<in> set ms. mOffset m < mEnd m \<and> mEnd m \<le> length s)"

lemma substr_take [simp]: "b \<le> n \<Longrightarrow> substr (take n s) a b = substr s a b"
  by (simp add: substr_def drop_take min_def)

lemma substr_to_end: "substr s i o' = drop i (take o' s)"
  by (simp add: substr_def drop_take)

lemma redacted_from_snoc:
  assumes "\<forall>x \<in> set ms. mOffset x < mEnd x \<and> mEnd x \<le> mOffset m"
  shows "redacted_from i s (ms @ [m]) = redacted_from i (take (mOffset m) s) ms @ marker (mClass m) @ drop (mEnd m) s"
  using assms by (induction ms arbitrary: i) (auto simp: substr_to_end [of s i "mOffset m" for i])

lemma splice_all_rev:
  assumes "disjoint_matches ms" and "\<forall>m \<in> set ms. mOffset m < mEnd m \<and> mEnd m \<le> n" and "n \<le> length s"
  shows "splice_all (take n s @ t) (rev ms) = Some (redacted_from 0 (take n s) ms @ t)"
  using assms
proof (induction ms arbitrary: n t rule: rev_induct)
  case (snoc m ms)
  have d: "disjoint_matches ms" "\<forall>x \<in> set ms. mOffset x < mEnd x \<and> mEnd x \<le> mOffset m"
    using snoc.prems by (auto simp: disjoint_matches_def sorted_wrt_append)
  have m: "mOffset m < mEnd m" "mEnd m \<le> n" using snoc.prems(2) by auto
  let ?t = "marker (mClass m) @ drop (mEnd m) (take n s) @ t"
  have "splice_all (take n s @ t) (rev (ms @ [m])) = splice_all (take (mOffset m) s @ ?t) (rev ms)"
    using m snoc.prems(3) by (simp add: min_def)
  also have "\<dots> = Some (redacted_from 0 (take (mOffset m) s) ms @ ?t)"
    using snoc.IH [OF d(1) d(2), of ?t] m snoc.prems(3) by linarith
  also have "\<dots> = Some (redacted_from 0 (take n s) (ms @ [m]) @ t)"
    using redacted_from_snoc [OF d(2), of 0 "take n s"] m by (simp add: min_def)
  finally show ?case .
qed simp

lemma redact_order_rev:
  assumes "disjoint_matches ms" and "matches_in s ms"
  shows "exchange_sort (\<lambda>a b. mOffset a < mOffset b) ms = rev ms"
proof (rule redact_order.sorts_uniquely)
  have "sorted_wrt (\<lambda>a b. mOffset a < mOffset b) ms"
    using assms unfolding disjoint_matches_def matches_in_def
    by (intro sorted_wrt_mono_rel [of ms "\<lambda>a b. mEnd a \<le> mOffset b" "\<lambda>a b. mOffset a < mOffset b"]) (auto intro: less_le_trans)
  then show "sorted_wrt (\<lambda>a b. - int (mOffset a) < - int (mOffset b)) (rev ms)" by (simp add: sorted_wrt_rev)
  then have "distinct (map mOffset ms)"
    using \<open>sorted_wrt (\<lambda>a b. mOffset a < mOffset b) ms\<close> by (simp add: strict_sorted_iff flip: sorted_wrt_map)
  then show "distinct ms" by (simp add: distinct_map)
qed simp

lemma Redact_disjoint:
  assumes "disjoint_matches ms" and "matches_in s ms"
  shows "Redact s ms = Some (redacted_from 0 s ms, CountByClass (rev ms))"
proof -
  have "splice_all s (rev ms) = Some (redacted_from 0 s ms)"
    using splice_all_rev [OF assms(1), of "length s" s "[]"] assms(2) by (simp add: matches_in_def)
  then show ?thesis by (cases "ms = []") (simp_all add: Redact_def redact_order_rev [OF assms] CountByClass_def)
qed

subsection \<open>The built-in patterns report non-empty spans of the text\<close>

definition spans_ok :: "Detector \<Rightarrow> string \<Rightarrow> bool" where
  "spans_ok d s \<longleftrightarrow> (\<forall>p \<in> set d. \<forall>(a, b) \<in> set (ptRegex p s). a < b \<and> b \<le> length s)"

lemma pattern_spans: "0 < min_len r \<Longrightarrow> spans_ok [pattern c r v] s"
  using spans_from_range [OF FindAllStringIndex_spans] by (force simp: spans_ok_def pattern_def)

lemma spans_ok_Cons: "spans_ok [p] s \<Longrightarrow> spans_ok (q # d) s \<Longrightarrow> spans_ok (p # q # d) s"
  by (simp add: spans_ok_def)

lemma builtin_lengths:
  "0 < min_len ibanRe" "0 < min_len bsnRe" "0 < min_len ccRe" "0 < min_len ssnUSRe" "0 < min_len emailRe" "0 < min_len phoneRe"
  "0 < min_len vatEURe" "0 < min_len ipv4Re" "0 < min_len ipv6Re" "0 < min_len sshPrivateKeyRe"
  "0 < min_len gcpServiceAccountRe" "0 < min_len awsSecretKeyRe" "0 < min_len awsAccessKeyRe" "0 < min_len githubPATRe"
  "0 < min_len jwtRe" "0 < min_len oauthBearerRe" "0 < min_len genericAPIKeyRe"
  by (simp_all only: ibanRe_def bsnRe_def ccRe_def ssnUSRe_def emailRe_def phoneRe_def vatEURe_def ipv4Re_def ipv6Re_def
      sshPrivateKeyRe_def gcpServiceAccountRe_def awsSecretKeyRe_def awsAccessKeyRe_def githubPATRe_def jwtRe_def
      oauthBearerRe_def genericAPIKeyRe_def quoted_def min_len_pos Let_def zero_less_numeral zero_less_one simp_thms)

lemma spans_ok_builtin: "spans_ok builtinPatterns s"
  unfolding builtinPatterns_def credentialPatterns_def append_Cons append_Nil
  by (intro spans_ok_Cons pattern_spans builtin_lengths)

lemma spans_ok_subset: "spans_ok d s \<Longrightarrow> set d' \<subseteq> set d \<Longrightarrow> spans_ok d' s"
  unfolding spans_ok_def by blast

lemma spans_ok_NewDetector: "spans_ok (NewDetector enabled) s"
  by (rule spans_ok_subset [OF spans_ok_builtin]) (auto simp: NewDetector_def split: option.splits)

lemma matches_in_Detect: "spans_ok d input \<Longrightarrow> matches_in input (Detect d input)"
  unfolding matches_in_def spans_ok_def using Detect_sound by fastforce

subsection \<open>What the checksums catch\<close>

text \<open>The account number of ISO 13616 read as one decimal number, letters counting for two digits.\<close>

definition iban_alnum :: "char \<Rightarrow> bool" where
  "iban_alnum c \<longleftrightarrow> (CHR ''0'' \<le> c \<and> c \<le> CHR ''9'') \<or> (CHR ''A'' \<le> c \<and> c \<le> CHR ''Z'')"

definition iban_value :: "string \<Rightarrow> nat" where
  "iban_value s = foldl (\<lambda>n c. if c \<le> CHR ''9'' then n * 10 + (of_char c - 48) else n * 100 + (of_char c - 55)) 0 s"

definition value97 :: "nat \<Rightarrow> string \<Rightarrow> nat" where
  "value97 r ds = foldl (\<lambda>r c. (r * 10 + (of_char c - 48)) mod 97) r ds"

lemma value97_append [simp]: "value97 r (xs @ ys) = value97 (value97 r xs) ys"
  by (simp add: value97_def)

lemma show_nat_two: "10 \<le> v \<Longrightarrow> v < 100 \<Longrightarrow> show_nat v = [char_of (v div 10 + 48), char_of (v mod 10 + 48)]"
  by (subst show_nat.simps, subst show_nat.simps) simp

lemma one_digit_mod97: "(n mod 97 * 10 + a) mod 97 = (n * 10 + a) mod (97 :: nat)"
  by (metis mod_add_left_eq mod_mult_left_eq)

lemma two_digits_mod97: "((n mod 97 * 10 + a) mod 97 * 10 + b) mod 97 = (n * 100 + (10 * a + b)) mod (97 :: nat)"
  unfolding one_digit_mod97 by (simp add: algebra_simps)

lemma iban_digits_step:
  assumes "iban_digits c = Some ds"
  shows "value97 (n mod 97) ds = (if c \<le> CHR ''9'' then n * 10 + (of_char c - 48) else n * 100 + (of_char c - 55)) mod 97"
proof (cases "CHR ''0'' \<le> c \<and> c \<le> CHR ''9''")
  case True
  with assms have "ds = [c]" by (simp add: iban_digits_def)
  with True show ?thesis by (simp add: value97_def one_digit_mod97)
next
  case False
  with assms have c: "CHR ''A'' \<le> c" "c \<le> CHR ''Z''" and ds: "ds = show_nat (of_char c - 65 + 10)"
    by (auto simp: iban_digits_def split: if_splits)
  let ?v = "of_char c - 65 + 10 :: nat"
  from c have b: "65 \<le> (of_char c :: nat)" "(of_char c :: nat) \<le> 90" by (auto simp: less_eq_char_def)
  then have v: "10 \<le> ?v" "?v < 100" "?v div 10 < 10" by linarith+
  have ch: "of_char (char_of (k + 48) :: char) - 48 = (k :: nat)" if "k < 10" for k :: nat
    using that by (simp add: of_char_of)
  have s: "show_nat ?v = [char_of (?v div 10 + 48), char_of (?v mod 10 + 48)]"
    using v by (intro show_nat_two)
  have "value97 (n mod 97) ds = ((n mod 97 * 10 + ?v div 10) mod 97 * 10 + ?v mod 10) mod 97"
    unfolding ds s value97_def using ch [of "?v div 10"] ch [of "?v mod 10"] v by simp
  also have "\<dots> = (n * 100 + ?v) mod 97" unfolding two_digits_mod97 by (simp only: mult_div_mod_eq)
  also have "?v = of_char c - 55" using b by linarith
  finally show ?thesis using c b by (simp add: less_eq_char_def)
qed

lemma iban_number_value:
  "iban_number s = Some num \<Longrightarrow> value97 (n mod 97) num
    = foldl (\<lambda>n c. if c \<le> CHR ''9'' then n * 10 + (of_char c - 48) else n * 100 + (of_char c - 55)) n s mod 97"
proof (induction s arbitrary: n num)
  case (Cons c s)
  then obtain ds r where "iban_digits c = Some ds" "iban_number s = Some r" "num = ds @ r" by (auto split: option.splits)
  with Cons.IH [of r] iban_digits_step [of c ds n] show ?case by simp
qed (simp add: value97_def)

lemma iban_digits_None: "iban_digits c = None \<longleftrightarrow> \<not> iban_alnum c"
  unfolding iban_digits_def iban_alnum_def
  by (cases "CHR ''0'' \<le> c \<and> c \<le> CHR ''9''"; cases "CHR ''A'' \<le> c \<and> c \<le> CHR ''Z''") simp_all

lemma iban_number_total: "(\<exists>num. iban_number s = Some num) \<longleftrightarrow> list_all iban_alnum s"
proof (induction s)
  case (Cons c s)
  with iban_digits_None [of c] show ?case by (cases "iban_digits c"; cases "iban_number s") simp_all
qed simp

text \<open>
  The digit-by-digit remainder decides the check of ISO 13616: a candidate is accepted exactly when it has 15 to
  34 letters and digits and the whole number, with its first four characters moved to the end, is 1 modulo 97.
\<close>

theorem validIBAN_mod97:
  "validIBAN s \<longleftrightarrow> (let t = filter (\<lambda>c. c \<noteq> CHR '' '') s in
     15 \<le> length t \<and> length t \<le> 34 \<and> list_all iban_alnum t \<and> iban_value (drop 4 t @ take 4 t) mod 97 = 1)"
proof -
  let ?t = "filter (\<lambda>c. c \<noteq> CHR '' '') s"
  let ?u = "drop 4 ?t @ take 4 ?t"
  have all: "list_all iban_alnum ?u \<longleftrightarrow> list_all iban_alnum ?t"
    using list_all_append [of iban_alnum "take 4 ?t" "drop 4 ?t"] unfolding append_take_drop_id list_all_append by blast
  show ?thesis
  proof (cases "iban_number ?u")
    case None
    then have "\<not> list_all iban_alnum ?t" using iban_number_total [of ?u] all by auto
    with None show ?thesis by (auto simp: validIBAN_def Let_def)
  next
    case (Some num)
    then have "list_all iban_alnum ?t" using iban_number_total [of ?u] all by blast
    with Some iban_number_value [OF Some, of 0] show ?thesis
      by (auto simp: validIBAN_def Let_def rem97_def value97_def iban_value_def)
  qed
qed

lemma map2_sum_update:
  fixes f :: "'a \<Rightarrow> 'b \<Rightarrow> int"
  shows "i < length s \<Longrightarrow> i < length ws
    \<Longrightarrow> sum_list (map2 f (s[i := c]) ws) = sum_list (map2 f s ws) + (f c (ws ! i) - f (s ! i) (ws ! i))"
proof (induction s arbitrary: i ws)
  case (Cons x s)
  then show ?case by (cases i; cases ws) auto
qed simp

definition digit_char :: "char \<Rightarrow> bool" where
  "digit_char c \<longleftrightarrow> CHR ''0'' \<le> c \<and> c \<le> CHR ''9''"

lemma digit_char_range: "digit_char c \<Longrightarrow> char_digit c \<in> {0..9}"
  by (auto simp: digit_char_def char_digit_def less_eq_char_def)

lemma char_digit_inj: "digit_char c \<Longrightarrow> digit_char d \<Longrightarrow> char_digit c = char_digit d \<Longrightarrow> c = d"
  by (simp add: char_digit_def)

lemma bsn_weight_units: "\<forall>w \<in> set bsn_weights. \<forall>x \<in> set [-9..9]. x * w mod 11 = 0 \<longrightarrow> x = 0"
  by code_simp

text \<open>A citizen service number with one digit changed is never valid.\<close>

theorem bsn_single_error:
  assumes "validBSN s" and "i < 9" and "digit_char c" and "c \<noteq> s ! i"
  shows "\<not> validBSN (s[i := c])"
proof
  assume v: "validBSN (s[i := c])"
  have l: "length s = 9" "length bsn_weights = 9" using assms(1) by (simp_all add: validBSN_def bsn_weights_def)
  have d: "digit_char (s ! i)" using assms(1,2) by (auto simp: validBSN_def list_all_length digit_char_def)
  let ?x = "char_digit c - char_digit (s ! i)"
  have "bsn_sum (s[i := c]) = bsn_sum s + ?x * (bsn_weights ! i)"
    unfolding bsn_sum_def using map2_sum_update [of i s bsn_weights] assms(2) l by (simp add: left_diff_distrib)
  moreover have "bsn_sum s mod 11 = 0" "bsn_sum (s[i := c]) mod 11 = 0" using assms(1) v by (simp_all add: validBSN_def)
  ultimately have 0: "?x * (bsn_weights ! i) mod 11 = 0" by (metis add_0 mod_add_left_eq)
  have w: "bsn_weights ! i \<in> set bsn_weights" using assms(2) l by simp
  have "?x \<in> set [-9..9]" using digit_char_range [OF assms(3)] digit_char_range [OF d] by auto
  from bsn_weight_units [rule_format, OF w this 0] have "?x = 0" .
  with char_digit_inj [OF assms(3) d] assms(4) show False by simp
qed

lemma luhn_digit_inj: "\<forall>b \<in> set [True, False]. \<forall>x \<in> set [0..9]. \<forall>y \<in> set [0..9]. (luhn_digit b x - luhn_digit b y) mod 10 = 0 \<longrightarrow> x = y"
  by code_simp

lemma luhn_sum_update:
  "luhn_sum db xs = Some n \<Longrightarrow> i < length xs \<Longrightarrow> digit_char c
    \<Longrightarrow> \<exists>b. luhn_sum db (xs[i := c]) = Some (n + (luhn_digit b (char_digit c) - luhn_digit b (char_digit (xs ! i))))"
proof (induction xs arbitrary: db n i)
  case (Cons x xs)
  from Cons.prems(1) obtain k where x: "\<not> (x < CHR ''0'' \<or> CHR ''9'' < x)" and k: "luhn_sum (\<not> db) xs = Some k"
    and n: "n = luhn_digit db (char_digit x) + k" by (auto split: if_splits option.splits)
  show ?case
  proof (cases i)
    case 0
    with k n Cons.prems(3) show ?thesis by (intro exI [of _ db]) (simp add: digit_char_def not_less)
  next
    case (Suc j)
    with Cons.IH [OF k, of j] Cons.prems x n show ?thesis by auto
  qed
qed simp

lemma luhn_sum_digits: "luhn_sum db xs = Some n \<Longrightarrow> i < length xs \<Longrightarrow> digit_char (xs ! i)"
proof (induction xs arbitrary: db n i)
  case (Cons x xs)
  then show ?case by (cases i) (auto simp: digit_char_def not_less split: if_splits option.splits)
qed simp

lemma luhn_strip_digits: "\<forall>c \<in> set s. digit_char c \<Longrightarrow> luhn_strip s = s"
  unfolding luhn_strip_def by (rule filter_True) (auto simp: digit_char_def less_eq_char_def)

text \<open>A card number with one digit changed is never valid.\<close>

theorem luhn_single_error:
  assumes "validLuhn s" and "\<forall>x \<in> set s. digit_char x" and "i < length s" and "digit_char c" and "c \<noteq> s ! i"
  shows "\<not> validLuhn (s[i := c])"
proof
  assume v: "validLuhn (s[i := c])"
  let ?j = "length s - 1 - i"
  have "\<forall>x \<in> set (s[i := c]). digit_char x" using assms(2,4) set_update_subset_insert [of s i c] by auto
  then have st: "luhn_strip s = s" "luhn_strip (s[i := c]) = s[i := c]" using assms(2) by (simp_all add: luhn_strip_digits)
  obtain n where n: "luhn_sum False (rev s) = Some n" "n mod 10 = 0"
    using assms(1) st by (auto simp: validLuhn_def split: if_splits option.splits)
  have j: "?j < length (rev s)" "rev s ! ?j = s ! i" "rev (s[i := c]) = (rev s)[?j := c]"
    using assms(3) by (simp_all add: rev_nth rev_update)
  from luhn_sum_update [OF n(1) j(1) assms(4)] obtain b where
    u: "luhn_sum False (rev (s[i := c])) = Some (n + (luhn_digit b (char_digit c) - luhn_digit b (char_digit (s ! i))))"
    unfolding j by blast
  have "(n + (luhn_digit b (char_digit c) - luhn_digit b (char_digit (s ! i)))) mod 10 = 0"
    using v st u by (auto simp: validLuhn_def split: if_splits)
  then have 0: "(luhn_digit b (char_digit c) - luhn_digit b (char_digit (s ! i))) mod 10 = 0"
    using n(2) by (metis add_0 mod_add_left_eq)
  have m: "b \<in> set [True, False]" "char_digit c \<in> set [0..9]" "char_digit (s ! i) \<in> set [0..9]"
    using digit_char_range [of c] digit_char_range [of "s ! i"] assms(2,3,4) by auto
  from luhn_digit_inj [rule_format, OF m 0] have "char_digit c = char_digit (s ! i)" .
  with char_digit_inj [of c "s ! i"] assms(2-5) show False by simp
qed

subsection \<open>Properties\<close>

text \<open>
  C21. The detector reports the hits of its patterns and nothing else: the matches come in the order of their
  offsets, each is a hit of a pattern whose validator accepts it, and every such hit lies inside a reported match.
\<close>

theorem detect_reports_hits:
  "sorted_wrt (\<lambda>a b. mOffset a \<le> mOffset b) (Detect d input)
    \<and> (\<forall>m \<in> set (Detect d input). \<exists>p \<in> set d. mClass m = ptClass p \<and> (mOffset m, mEnd m) \<in> set (ptRegex p input)
          \<and> mValue m = substr input (mOffset m) (mEnd m) \<and> validated p (mValue m))
    \<and> (\<forall>p \<in> set d. \<forall>(a, b) \<in> set (ptRegex p input). validated p (substr input a b) \<longrightarrow>
          (\<exists>m \<in> set (Detect d input). mOffset m \<le> a \<and> b \<le> mEnd m))"
  using Detect_sorted Detect_sound Detect_complete by blast

definition mail :: Pattern where "mail = pattern ClassEmail emailRe None"

lemma mail_hit: "ptRegex mail ''a@b.io'' = [(0, 6)]"
  by code_simp

theorem detect_reports_hits_witness:
  "\<exists>m \<in> set (Detect [mail] ''a@b.io''). mOffset m \<le> 0 \<and> 6 \<le> mEnd m \<and> mClass m = ClassEmail"
proof -
  have h: "(0, 6) \<in> set (ptRegex mail ''a@b.io'')" "validated mail v" "ptClass mail = ClassEmail" for v
    by (simp_all add: mail_hit) (simp_all add: mail_def pattern_def validated_def)
  from detect_reports_hits [of "[mail]" "''a@b.io''"] h show ?thesis by fastforce
qed

text \<open>
  C22. Redaction is exact: when the matches of the built-in detector do not overlap, the redacted text is the text
  between the matches with the marker of its class in the place of each match, and no slice is out of range.
\<close>

theorem redaction_exact:
  assumes "disjoint_matches (Detect (NewDetector enabled) input)"
  shows "Redact input (Detect (NewDetector enabled) input) =
    Some (redacted_from 0 input (Detect (NewDetector enabled) input), CountByClass (rev (Detect (NewDetector enabled) input)))"
  by (rule Redact_disjoint [OF assms matches_in_Detect [OF spans_ok_NewDetector]])

lemma mail_detector: "NewDetector (Some [ClassEmail]) = [mail]"
  by (simp add: NewDetector_def builtinPatterns_def credentialPatterns_def pattern_def mail_def ClassEmail_def ClassPhoneIntl_def
      ClassIBAN_def ClassBSN_def ClassCreditCard_def ClassSSNUS_def ClassVATEU_def ClassIPv4_def ClassIPv6_def ClassAWSAccessKey_def
      ClassAWSSecretKey_def ClassGitHubPAT_def ClassJWT_def ClassOAuthBearer_def ClassSSHPrivateKey_def ClassGCPServiceAccount_def
      ClassGenericAPIKey_def)

lemma mail_match: "Detect [mail] ''a@b.io'' = [\<lparr>mClass = ClassEmail, mValue = ''a@b.io'', mOffset = 0, mEnd = 6\<rparr>]"
  by (simp add: Detect_def raw_matches_def pattern_hits_def mail_hit validated_def substr_def) (simp add: mail_def pattern_def)

theorem redaction_exact_witness:
  "map_option fst (Redact ''a@b.io'' (Detect (NewDetector (Some [ClassEmail])) ''a@b.io'')) = Some ''[REDACTED:email]''"
proof -
  have "disjoint_matches (Detect (NewDetector (Some [ClassEmail])) ''a@b.io'')"
    unfolding mail_detector mail_match by (simp add: disjoint_matches_def)
  from redaction_exact [OF this] show ?thesis
    unfolding mail_detector mail_match by (simp add: substr_def marker_def ClassEmail_def)
qed

subsection \<open>Overlapping matches\<close>

text \<open>
  Two matches that overlap without one containing the other are both kept, and replacing the later one first can
  leave a text shorter than the end of the earlier one: here a telephone number that is also the local part of a
  mail address makes \<open>Redact\<close> panic.
\<close>

definition phone :: Pattern where "phone = pattern ClassPhoneIntl phoneRe None"

definition overlapping :: string where "overlapping = ''1 2345.6789.0123.4567@x.io''"

lemma overlapping_hits: "ptRegex phone overlapping = [(0, 21)]" "ptRegex mail overlapping = [(2, 26)]"
  by code_simp+

lemma overlapping_matches:
  "Detect [mail, phone] overlapping =
     [\<lparr>mClass = ClassPhoneIntl, mValue = substr overlapping 0 21, mOffset = 0, mEnd = 21\<rparr>,
      \<lparr>mClass = ClassEmail, mValue = substr overlapping 2 26, mOffset = 2, mEnd = 26\<rparr>]"
  unfolding Detect_def raw_matches_def
  by (simp add: pattern_hits_def overlapping_hits validated_def enumerate_eq_zip)
    (simp add: mail_def phone_def pattern_def raw_swap_def)

theorem overlap_panics: "Redact overlapping (Detect [mail, phone] overlapping) = None"
  unfolding overlapping_matches by (simp add: Redact_def overlapping_def marker_def ClassEmail_def)

text \<open>
  The guard on custom patterns takes the \<open>?\<close> of a non-capturing group for a quantifier, and forgets the quantifier of
  a group inside a group.
\<close>

lemma nested_quantifier_guard: "hasNestedQuantifier ''(?:ab)+''" "\<not> hasNestedQuantifier ''((a+))+''" "\<not> hasNestedQuantifier ''(a{2,})+''"
  by (simp_all add: hasNestedQuantifier_def isQuant_def)

text \<open>
  A JSON web token after the word \<open>Bearer\<close> lies inside the match of the bearer class, which starts earlier; only the
  bearer match is reported.
\<close>

definition bearer_jwt :: string where "bearer_jwt = ''Bearer eyJhbGciOi.eyJzdWIi.c2lnbmF0''"

definition token_patterns :: Detector where
  "token_patterns = [pattern ClassJWT jwtRe None, pattern ClassOAuthBearer oauthBearerRe None]"

lemma bearer_hits: "FindAllStringIndex jwtRe bearer_jwt = [(7, 35)]" "FindAllStringIndex oauthBearerRe bearer_jwt = [(0, 35)]"
  by code_simp+

lemma bearer_matches:
  "Detect token_patterns bearer_jwt =
     [\<lparr>mClass = ClassOAuthBearer, mValue = substr bearer_jwt 0 35, mOffset = 0, mEnd = 35\<rparr>]"
  unfolding Detect_def raw_matches_def token_patterns_def
  by (simp add: pattern_hits_def pattern_def bearer_hits validated_def enumerate_eq_zip raw_swap_def)

end
