(* ===== verification/PiiFilter.thy ===== *)
theory PiiFilter
  imports PiiDetect Backends
begin

text \<open>
  Package \<open>internal/pii\<close>, files \<open>filter.go\<close>, \<open>from_spec.go\<close>, \<open>mcp.go\<close> and \<open>mcp_request.go\<close>: the configuration of a
  filter, the decision on one text, and its application to the arguments of a call and to the content blocks of a
  result. \<open>regexp.Compile\<close> of a customer's pattern and \<open>json.Unmarshal\<close>/\<open>json.Marshal\<close> are arguments. An operation that
  panics is \<^const>\<open>None\<close>. The actions are the four of the type \<open>Action\<close>; every configuration the gateway builds goes
  through \<open>NewFilterFromSpec\<close>, which produces no other. A map of arguments is walked in the order of its list.

  The lemmas show which action wins, what is forwarded under each, and that a filter plugged into the pipeline stops
  a call or a response that it blocks.
\<close>

subsection \<open>Construction (filter.go, from_spec.go)\<close>

type_synonym compiler = "string \<Rightarrow> string + (string \<Rightarrow> (nat \<times> nat) list)"

record PiiConfig =
  pcEnabled :: bool
  pcPatterns :: "Class list option"
  pcCustomPatterns :: "(Class \<times> string) list"
  pcDefaultAction :: "PiiAction option"
  pcPerPatternAction :: "(Class \<times> PiiAction) list"

datatype filter_error = EmptyClass | EmptyRegex Class | CustomError Class pattern_error

record Filter =
  fDetector :: Detector
  fEnabled :: bool
  fDefaultAction :: PiiAction
  fPerPatternAction :: "(Class \<times> PiiAction) list"

fun add_customs :: "compiler \<Rightarrow> (Class \<times> string) list \<Rightarrow> Detector \<Rightarrow> filter_error + Detector" where
  "add_customs compile [] d = Inr d"
| "add_customs compile ((c, re) # cps) d =
     (if c = [] then Inl EmptyClass
      else if re = [] then Inl (EmptyRegex c)
      else case AddCustomPattern compile c re d of
        Inl e \<Rightarrow> Inl (CustomError c e)
      | Inr d' \<Rightarrow> add_customs compile cps d')"

definition NewFilter :: "compiler \<Rightarrow> PiiConfig \<Rightarrow> filter_error + Filter" where
  "NewFilter compile cfg =
     (case add_customs compile (pcCustomPatterns cfg) (NewDetector (pcPatterns cfg)) of
        Inl e \<Rightarrow> Inl e
      | Inr d \<Rightarrow>
          Inr \<lparr>fDetector = d, fEnabled = pcEnabled cfg,
               fDefaultAction = (case pcDefaultAction cfg of None \<Rightarrow> PiiRedact | Some a \<Rightarrow> a),
               fPerPatternAction = pcPerPatternAction cfg\<rparr>)"

definition knownClasses :: "Class list" where
  "knownClasses =
     [ClassEmail, ClassPhoneIntl, ClassIBAN, ClassBSN, ClassCreditCard, ClassSSNUS, ClassVATEU, ClassIPv4, ClassIPv6,
      ClassAWSAccessKey, ClassAWSSecretKey, ClassGitHubPAT, ClassJWT, ClassOAuthBearer, ClassSSHPrivateKey,
      ClassGCPServiceAccount, ClassGenericAPIKey]"

definition parse_action :: "string \<Rightarrow> PiiAction option" where
  "parse_action s =
     (if s = ''allow'' then Some PiiAllow else if s = ''redact'' then Some PiiRedact
      else if s = ''block'' then Some PiiBlock else if s = ''escalate'' then Some PiiEscalate else None)"

definition spec_config :: "PIIFilterSpec \<Rightarrow> PiiConfig" where
  "spec_config spec =
     (let known = filter (\<lambda>c. c \<in> set knownClasses) (psPatterns spec) in
      \<lparr>pcEnabled = True, pcPatterns = (if known = [] then None else Some known),
       pcCustomPatterns = psCustomPatterns spec,
       pcDefaultAction = Some (case parse_action (psDefaultAction spec) of Some a \<Rightarrow> a | None \<Rightarrow> PiiRedact),
       pcPerPatternAction = concat (map (\<lambda>(c, s). case parse_action s of None \<Rightarrow> [] | Some a \<Rightarrow> [(c, a)]) (psPerPatternAction spec))\<rparr>)"

definition NewFilterFromSpec :: "compiler \<Rightarrow> PIIFilterSpec \<Rightarrow> filter_error + Filter" where
  "NewFilterFromSpec compile spec =
     (if \<not> psEnabled spec
      then NewFilter compile \<lparr>pcEnabled = False, pcPatterns = None, pcCustomPatterns = [], pcDefaultAction = None,
             pcPerPatternAction = []\<rparr>
      else NewFilter compile (spec_config spec))"

subsection \<open>The decision on a text (filter.go)\<close>

record TextDecision =
  tdAction :: PiiAction
  tdOutput :: string
  tdCounts :: "(Class \<times> int) list"
  tdMatchedClasses :: "Class list"

fun action_rank :: "PiiAction \<Rightarrow> nat" where
  "action_rank PiiBlock = 4"
| "action_rank PiiEscalate = 3"
| "action_rank PiiRedact = 2"
| "action_rank PiiAllow = 1"

definition mostRestrictive :: "PiiAction \<Rightarrow> PiiAction \<Rightarrow> PiiAction" where
  "mostRestrictive a b = (if action_rank b \<le> action_rank a then a else b)"

definition resolveAction :: "Filter \<Rightarrow> Match list \<Rightarrow> PiiAction" where
  "resolveAction f ms =
     foldl (\<lambda>worst m. case map_of (fPerPatternAction f) (mClass m) of
         None \<Rightarrow> worst | Some override \<Rightarrow> mostRestrictive worst override)
       (fDefaultAction f) ms"

fun distinct_from :: "Class list \<Rightarrow> Match list \<Rightarrow> Class list" where
  "distinct_from seen [] = []"
| "distinct_from seen (m # ms) =
     (if mClass m \<in> set seen then distinct_from seen ms else mClass m # distinct_from (mClass m # seen) ms)"

definition distinctClasses :: "Match list \<Rightarrow> Class list" where
  "distinctClasses ms = distinct_from [] ms"

definition ApplyToString :: "Filter \<Rightarrow> string \<Rightarrow> TextDecision option" where
  "ApplyToString f input =
     (if \<not> fEnabled f then Some \<lparr>tdAction = PiiAllow, tdOutput = input, tdCounts = [], tdMatchedClasses = []\<rparr>
      else (let matches = Detect (fDetector f) input; counts = CountByClass matches; classes = distinctClasses matches in
        if matches = [] then Some \<lparr>tdAction = PiiAllow, tdOutput = input, tdCounts = counts, tdMatchedClasses = []\<rparr>
        else (case resolveAction f matches of
          PiiBlock \<Rightarrow> Some \<lparr>tdAction = PiiBlock, tdOutput = [], tdCounts = counts, tdMatchedClasses = classes\<rparr>
        | PiiEscalate \<Rightarrow> Some \<lparr>tdAction = PiiEscalate, tdOutput = [], tdCounts = counts, tdMatchedClasses = classes\<rparr>
        | PiiRedact \<Rightarrow>
            (case Redact input matches of
               None \<Rightarrow> None
             | Some (out, _) \<Rightarrow>
                 Some \<lparr>tdAction = PiiRedact, tdOutput = out, tdCounts = counts, tdMatchedClasses = classes\<rparr>)
        | PiiAllow \<Rightarrow> Some \<lparr>tdAction = PiiAllow, tdOutput = input, tdCounts = counts, tdMatchedClasses = classes\<rparr>)))"

subsection \<open>Arguments of a call (mcp\_request.go)\<close>

definition allowed :: PiiDecision where
  "allowed = \<lparr>pdAction = PiiAllow, pdCounts = [], pdClasses = []\<rparr>"

definition mcp_decision :: "TextDecision \<Rightarrow> PiiDecision" where
  "mcp_decision d = \<lparr>pdAction = tdAction d, pdCounts = tdCounts d, pdClasses = tdMatchedClasses d\<rparr>"

fun collectStrings :: "json \<Rightarrow> string list" where
  "collectStrings (JStr s) = [s]"
| "collectStrings (JObj m) = concat (map (\<lambda>(k, v). collectStrings v) m)"
| "collectStrings (JArr xs) = concat (map collectStrings xs)"
| "collectStrings v = []"

text \<open>The non-empty texts, one per line.\<close>

definition combined :: "string list \<Rightarrow> string" where
  "combined ss = foldl (\<lambda>acc s. if s = [] then acc else if acc = [] then s else acc @ [CHR 0x0A] @ s) [] ss"

definition redact_text :: "Detector \<Rightarrow> string \<Rightarrow> string option" where
  "redact_text d s =
     (let matches = Detect d s in if matches = [] then Some s else map_option fst (Redact s matches))"

fun redactValue :: "Detector \<Rightarrow> json \<Rightarrow> json option"
and redactMembers :: "Detector \<Rightarrow> (string \<times> json) list \<Rightarrow> (string \<times> json) list option"
and redactItems :: "Detector \<Rightarrow> json list \<Rightarrow> json list option" where
  "redactValue d (JStr s) = map_option JStr (redact_text d s)"
| "redactValue d (JObj m) = map_option JObj (redactMembers d m)"
| "redactValue d (JArr xs) = map_option JArr (redactItems d xs)"
| "redactValue d v = Some v"
| "redactMembers d [] = Some []"
| "redactMembers d ((k, v) # m) =
     (case redactValue d v of
        None \<Rightarrow> None
      | Some v' \<Rightarrow> (case redactMembers d m of None \<Rightarrow> None | Some m' \<Rightarrow> Some ((k, v') # m')))"
| "redactItems d [] = Some []"
| "redactItems d (v # xs) =
     (case redactValue d v of
        None \<Rightarrow> None
      | Some v' \<Rightarrow> (case redactItems d xs of None \<Rightarrow> None | Some xs' \<Rightarrow> Some (v' # xs')))"

definition ApplyToMCPRequest :: "Filter \<Rightarrow> (string \<times> json) list \<Rightarrow> (PiiDecision \<times> (string \<times> json) list) option" where
  "ApplyToMCPRequest f args =
     (if \<not> fEnabled f \<or> args = [] then Some (allowed, args)
      else (let text = combined (collectStrings (JObj args)) in
        if text = [] then Some (allowed, args)
        else case ApplyToString f text of
          None \<Rightarrow> None
        | Some d \<Rightarrow>
            if tdAction d = PiiRedact then map_option (\<lambda>m. (mcp_decision d, m)) (redactMembers (fDetector f) args)
            else Some (mcp_decision d, args)))"

definition ApplyToMCPRequestBytes :: "(raw \<Rightarrow> string + (string \<times> json) list) \<Rightarrow> ((string \<times> json) list \<Rightarrow> raw option) \<Rightarrow> Filter
    \<Rightarrow> raw \<Rightarrow> (raw \<times> PiiDecision) option" where
  "ApplyToMCPRequestBytes unmarshal marshal f args =
     (if \<not> fEnabled f \<or> args = [] then Some (args, allowed)
      else case unmarshal args of
        Inl _ \<Rightarrow> Some (args, allowed)
      | Inr obj \<Rightarrow>
          (case ApplyToMCPRequest f obj of
             None \<Rightarrow> None
           | Some (d, obj') \<Rightarrow>
               if pdAction d \<noteq> PiiRedact then Some (args, d)
               else (case marshal obj' of None \<Rightarrow> Some (args, d) | Some out \<Rightarrow> Some (out, d))))"

subsection \<open>Content blocks of a result (mcp.go)\<close>

text \<open>The text of a block of type \<open>text\<close>; other items and blocks are skipped, and so is an empty text.\<close>

definition block_text :: "json \<Rightarrow> string" where
  "block_text item =
     (case item of
        JObj b \<Rightarrow> if map_of b ''type'' = Some (JStr ''text'') then (case map_of b ''text'' of Some (JStr t) \<Rightarrow> t | _ \<Rightarrow> []) else []
      | _ \<Rightarrow> [])"

definition redactBlock :: "Detector \<Rightarrow> json \<Rightarrow> json option" where
  "redactBlock d item =
     (if block_text item = [] then Some item
      else case item of
        JObj b \<Rightarrow>
          map_option (\<lambda>(out, counts). JObj (AList.update ''text'' (JStr out) b)) (Redact (block_text item) (Detect d (block_text item)))
      | _ \<Rightarrow> Some item)"

fun redactBlocks :: "Detector \<Rightarrow> json list \<Rightarrow> json list option" where
  "redactBlocks d [] = Some []"
| "redactBlocks d (b # bs) =
     (case redactBlock d b of
        None \<Rightarrow> None
      | Some b' \<Rightarrow> (case redactBlocks d bs of None \<Rightarrow> None | Some bs' \<Rightarrow> Some (b' # bs')))"

definition ApplyToMCPResult :: "(raw \<Rightarrow> string + (string \<times> json) list) \<Rightarrow> ((string \<times> json) list \<Rightarrow> raw option) \<Rightarrow> Filter
    \<Rightarrow> raw \<Rightarrow> (raw \<times> PiiDecision) option" where
  "ApplyToMCPResult unmarshal marshal f result =
     (if \<not> fEnabled f \<or> result = [] then Some (result, allowed)
      else case unmarshal result of
        Inl _ \<Rightarrow> Some (result, allowed)
      | Inr obj \<Rightarrow>
          (case map_of obj ''content'' of
             Some (JArr items) \<Rightarrow>
               (case ApplyToString f (combined (map block_text items)) of
                  None \<Rightarrow> None
                | Some d \<Rightarrow>
                    if tdAction d = PiiRedact then
                      (case redactBlocks (fDetector f) items of
                         None \<Rightarrow> None
                       | Some items' \<Rightarrow>
                           (case marshal (AList.update ''content'' (JArr items') obj) of
                              None \<Rightarrow> Some (result, mcp_decision d)
                            | Some out \<Rightarrow> Some (out, mcp_decision d)))
                    else Some (result, mcp_decision d))
           | _ \<Rightarrow> Some (result, allowed)))"

subsection \<open>Which action wins\<close>

lemma mostRestrictive_rank [simp]: "action_rank (mostRestrictive a b) = max (action_rank a) (action_rank b)"
  by (simp add: mostRestrictive_def)

lemma action_rank_inj: "action_rank a = action_rank b \<Longrightarrow> a = b"
  by (cases a; cases b) simp_all

lemma action_rank_le: "action_rank a \<le> 4"
  by (cases a) simp_all

definition overrides :: "Filter \<Rightarrow> Match list \<Rightarrow> PiiAction set" where
  "overrides f ms = {a. \<exists>m \<in> set ms. map_of (fPerPatternAction f) (mClass m) = Some a}"

lemma resolveAction_worst:
  "resolveAction f ms \<in> insert (fDefaultAction f) (overrides f ms)
    \<and> (\<forall>a \<in> insert (fDefaultAction f) (overrides f ms). action_rank a \<le> action_rank (resolveAction f ms))"
proof (induction ms rule: rev_induct)
  case Nil
  then show ?case by (simp add: resolveAction_def overrides_def)
next
  case (snoc m ms)
  have o: "overrides f (ms @ [m]) = overrides f ms \<union> set_option (map_of (fPerPatternAction f) (mClass m))"
    by (auto simp: overrides_def)
  have r: "resolveAction f (ms @ [m]) =
      (case map_of (fPerPatternAction f) (mClass m) of None \<Rightarrow> resolveAction f ms
       | Some override \<Rightarrow> mostRestrictive (resolveAction f ms) override)"
    unfolding resolveAction_def foldl_append by (simp only: foldl.simps)
  show ?case
  proof (cases "map_of (fPerPatternAction f) (mClass m)")
    case None
    with snoc o r show ?thesis by simp
  next
    case (Some a)
    have "mostRestrictive (resolveAction f ms) a \<in> {resolveAction f ms, a}" by (simp add: mostRestrictive_def)
    moreover have "action_rank b \<le> action_rank (mostRestrictive (resolveAction f ms) a)"
      if "b \<in> insert (fDefaultAction f) (overrides f ms) \<or> b = a" for b
      using that snoc by (auto simp: le_max_iff_disj)
    ultimately show ?thesis using snoc o r Some by auto
  qed
qed

lemma distinct_from_set: "set (distinct_from seen ms) = mClass ` set ms - set seen"
  by (induction seen ms rule: distinct_from.induct) auto

lemma distinctClasses_set: "set (distinctClasses ms) = mClass ` set ms"
  by (simp add: distinctClasses_def distinct_from_set)

subsection \<open>The decision on a text\<close>

lemma ApplyToString_action:
  "ApplyToString f input = Some d \<Longrightarrow> fEnabled f \<Longrightarrow> Detect (fDetector f) input \<noteq> []
    \<Longrightarrow> tdAction d = resolveAction f (Detect (fDetector f) input)
      \<and> tdCounts d = CountByClass (Detect (fDetector f) input) \<and> tdMatchedClasses d = distinctClasses (Detect (fDetector f) input)"
  by (auto simp: ApplyToString_def Let_def split: PiiAction.splits option.splits)

lemma ApplyToString_quiet:
  "Detect (fDetector f) input = [] \<Longrightarrow> \<exists>d. ApplyToString f input = Some d \<and> tdAction d = PiiAllow \<and> tdOutput d = input"
  by (simp add: ApplyToString_def)

text \<open>With disjoint matches the decision never panics.\<close>

lemma ApplyToString_total:
  assumes "spans_ok (fDetector f) input" and "disjoint_matches (Detect (fDetector f) input)"
  shows "\<exists>d. ApplyToString f input = Some d"
  using Redact_disjoint [OF assms(2) matches_in_Detect [OF assms(1)]]
  by (auto simp: ApplyToString_def Let_def split: PiiAction.split)

subsection \<open>The filter in the pipeline\<close>

text \<open>
  A filter stops a call: it reports a match in the joined text of the arguments, and the default action or the override
  of the match's class is to block or to escalate.
\<close>

definition severe :: "PiiAction \<Rightarrow> bool" where
  "severe a \<longleftrightarrow> a = PiiBlock \<or> a = PiiEscalate"

definition stops :: "Filter \<Rightarrow> (string \<times> json) list \<Rightarrow> bool" where
  "stops f args \<longleftrightarrow>
     (let text = combined (collectStrings (JObj args)) in
      fEnabled f \<and> text \<noteq> [] \<and> (\<exists>m \<in> set (Detect (fDetector f) text).
        severe (fDefaultAction f) \<or> (\<exists>a. map_of (fPerPatternAction f) (mClass m) = Some a \<and> severe a)))"

lemma resolveAction_severe:
  assumes "m \<in> set ms"
    and "severe (fDefaultAction f) \<or> (\<exists>a. map_of (fPerPatternAction f) (mClass m) = Some a \<and> severe a)"
  shows "severe (resolveAction f ms)"
proof -
  obtain a where "a \<in> insert (fDefaultAction f) (overrides f ms)" and a: "severe a"
    using assms by (auto simp: overrides_def)
  with resolveAction_worst [of f ms] have "action_rank a \<le> action_rank (resolveAction f ms)" by blast
  with a show ?thesis by (cases "resolveAction f ms") (auto simp: severe_def)
qed

lemma ApplyToMCPRequest_stops:
  assumes "stops f args"
  shows "\<exists>d. ApplyToMCPRequest f args = Some (d, args) \<and> severe (pdAction d)"
proof -
  let ?t = "combined (collectStrings (JObj args))"
  from assms obtain m where on: "fEnabled f" and t: "?t \<noteq> []" and m: "m \<in> set (Detect (fDetector f) ?t)"
    and a: "severe (fDefaultAction f) \<or> (\<exists>a. map_of (fPerPatternAction f) (mClass m) = Some a \<and> severe a)"
    by (auto simp: stops_def Let_def)
  have "args \<noteq> []" using t by (auto simp: combined_def)
  moreover have "Detect (fDetector f) ?t \<noteq> []" using m by auto
  moreover note resolveAction_severe [OF m a]
  ultimately show ?thesis using on t
    by (auto simp: ApplyToMCPRequest_def ApplyToString_def Let_def mcp_decision_def severe_def)
qed

text \<open>
  How the gateway's configuration carries this package: the static filter, and the filter built from a policy's
  \<open>pii_filter\<close>. Where \<open>ApplyToMCPRequest\<close> panics the request ends, and what the slot returns does not matter.
\<close>

definition carries :: "PIIFilter option \<Rightarrow> Filter option \<Rightarrow> bool" where
  "carries slot fo \<longleftrightarrow>
     (case (slot, fo) of
        (None, None) \<Rightarrow> True
      | (Some pf, Some f) \<Rightarrow> \<forall>args res. ApplyToMCPRequest f args = Some res \<longrightarrow> pfRequest pf args = res
      | _ \<Rightarrow> False)"

definition wired :: "compiler \<Rightarrow> Filter option \<Rightarrow> 'st MCPHandlerConfig \<Rightarrow> bool" where
  "wired compile static cfg \<longleftrightarrow> carries (cfPIIFilter cfg) static
     \<and> (\<forall>spec. carries (cfNewFilter cfg spec) (case NewFilterFromSpec compile spec of Inl _ \<Rightarrow> None | Inr f \<Rightarrow> Some f))"

definition filter_in_force :: "compiler \<Rightarrow> Filter option \<Rightarrow> PIIFilterSpec option \<Rightarrow> Filter option" where
  "filter_in_force compile static override =
     (case override of
        None \<Rightarrow> static
      | Some spec \<Rightarrow> (case NewFilterFromSpec compile spec of Inl _ \<Rightarrow> static | Inr f \<Rightarrow> Some f))"

lemma wired_in_force: "wired compile static cfg \<Longrightarrow> carries (requestPIIFilter cfg ov) (filter_in_force compile static ov)"
  by (auto simp: wired_def requestPIIFilter_def filter_in_force_def carries_def split: option.splits sum.splits)
    (metis option.distinct(1) option.inject sum.simps(5,6))+

lemma filtered_not_stopped:
  assumes "request_filtered cfg p (Some args) m" and "carries (requestPIIFilter cfg (prcPII p)) (Some f)"
  shows "\<not> stops f args"
proof
  assume s: "stops f args"
  then obtain d where d: "ApplyToMCPRequest f args = Some (d, args)" "severe (pdAction d)"
    using ApplyToMCPRequest_stops by blast
  obtain pf where pf: "requestPIIFilter cfg (prcPII p) = Some pf" "pfRequest pf args = (d, args)"
    using assms(2) d(1) by (auto simp: carries_def split: option.splits)
  have "args \<noteq> []" using s by (auto simp: stops_def combined_def Let_def)
  then show False using assms(1) pf d(2) by (auto simp: request_filtered_def severe_def neq_Nil_conv)
qed

text \<open>What the response stage lets through: nothing the filter blocks, and the redacted result where it redacts.\<close>

lemma responsePIIStage_passed:
  assumes "responsePIIStage cfg env c s None n parsed w = (Inr parsed', w')" and "cfPIIFilter cfg = Some pf"
    and "rpResult parsed = Some result"
  shows "pdAction (snd (pfResult pf result)) \<notin> {PiiBlock, PiiEscalate}
    \<and> rpResult parsed' = Some (if pdAction (snd (pfResult pf result)) = PiiRedact then fst (pfResult pf result) else result)"
  using assms
  by (cases "pdAction (snd (pfResult pf result))")
    (auto simp: responsePIIStage_def requestPIIFilter_def Let_def up_block_def go_on_def split: prod.splits if_splits)

subsection \<open>Properties\<close>

text \<open>
  The most restrictive action wins: with a match present, the action of the decision is the default or an
  override of a matched class, none of these is more restrictive, and a blocking or escalating decision carries
  nothing of the text.
\<close>

theorem most_restrictive_wins:
  assumes "ApplyToString f input = Some d" and "fEnabled f" and "Detect (fDetector f) input \<noteq> []"
  shows "tdAction d \<in> insert (fDefaultAction f) (overrides f (Detect (fDetector f) input))
    \<and> (\<forall>a \<in> insert (fDefaultAction f) (overrides f (Detect (fDetector f) input)). action_rank a \<le> action_rank (tdAction d))
    \<and> (tdAction d \<in> {PiiBlock, PiiEscalate} \<longrightarrow> tdOutput d = [])
    \<and> set (tdMatchedClasses d) = mClass ` set (Detect (fDetector f) input)"
proof -
  from ApplyToString_action [OF assms] have a: "tdAction d = resolveAction f (Detect (fDetector f) input)"
    and c: "tdMatchedClasses d = distinctClasses (Detect (fDetector f) input)" by simp_all
  have "tdOutput d = []" if "tdAction d \<in> {PiiBlock, PiiEscalate}"
    using that assms a by (auto simp: ApplyToString_def Let_def)
  with a c resolveAction_worst [of f] show ?thesis by (simp add: distinctClasses_set)
qed

definition seven :: Pattern where
  "seven = \<lparr>ptClass = ''lucky'', ptRegex = (\<lambda>s. if s = ''7'' then [(0, 1)] else []), ptValidate = None\<rparr>"

definition seven_filter :: Filter where
  "seven_filter = \<lparr>fDetector = [seven], fEnabled = True, fDefaultAction = PiiRedact, fPerPatternAction = [(''lucky'', PiiBlock)]\<rparr>"

lemma seven_built:
  "NewFilter (\<lambda>re. if re = ''^7$'' then Inr (ptRegex seven) else Inl ''bad'')
     \<lparr>pcEnabled = True, pcPatterns = Some [], pcCustomPatterns = [(''lucky'', ''^7$'')], pcDefaultAction = None,
      pcPerPatternAction = [(''lucky'', PiiBlock)]\<rparr> = Inr seven_filter"
  by (simp add: NewFilter_def AddCustomPattern_def hasNestedQuantifier_def NewDetector_def seven_filter_def seven_def)

lemma seven_match: "Detect [seven] ''7'' = [\<lparr>mClass = ''lucky'', mValue = ''7'', mOffset = 0, mEnd = 1\<rparr>]"
  by (simp add: Detect_def raw_matches_def pattern_hits_def validated_def seven_def substr_def)

theorem most_restrictive_wins_witness:
  "\<exists>d. ApplyToString seven_filter ''7'' = Some d \<and> tdAction d \<in> {PiiRedact, PiiBlock} \<and> action_rank PiiBlock \<le> action_rank (tdAction d)"
proof -
  have m: "Detect (fDetector seven_filter) ''7'' \<noteq> []" "fEnabled seven_filter" by (simp_all add: seven_filter_def seven_match)
  have o: "insert (fDefaultAction seven_filter) (overrides seven_filter (Detect (fDetector seven_filter) ''7'')) = {PiiRedact, PiiBlock}"
    by (auto simp: seven_filter_def seven_match overrides_def)
  obtain d where d: "ApplyToString seven_filter ''7'' = Some d"
    by (simp add: ApplyToString_def seven_filter_def seven_match resolveAction_def mostRestrictive_def Let_def)
  from most_restrictive_wins [OF d m(2,1)] d show ?thesis unfolding o by blast
qed

text \<open>
  C23. A call that the PII filter in force stops never reaches the upstream. The filter in force is the one the policy
  result of this run asks for, if it names a valid one, and the static filter otherwise (always, without a policy engine);
  so a policy can replace the static filter by a laxer one or switch it off. It stops the call if the detector reports a
  match in the joined text of the arguments and either the default action or the override of the match's class is to
  block or to escalate. The claim is about reported matches: a hit that the detector coalesces into a longer match of
  another class is not reported under its own class.
\<close>

theorem blocked_class_not_forwarded:
  assumes "handleToolsCall cfg env r req w = (rep, w')" and "eParams env (rqParams req) = Inr params"
    and "tpArguments params = Some args" and "wired compile static cfg"
  shows "wForwards w' = wForwards w
    \<or> (\<exists>c' p u. authorize cfg env (received cfg env r req params (wStore w)) w = (Inr (c', p), u)
        \<and> (cfPolicy cfg = None \<longrightarrow> prcPII p = None)
        \<and> (\<forall>f. filter_in_force compile static (prcPII p) = Some f \<longrightarrow> \<not> stops f args))"
proof (cases "wForwards w' = wForwards w")
  case False
  with assms(1,2) obtain c' p u where
    a: "authorize cfg env (received cfg env r req params (wStore w)) w = (Inr (c', p), u)"
    by (auto elim: forwarded_call)
  have "cfPolicy cfg = None \<longrightarrow> prcPII p = None"
    by (rule authorize_passed [OF a]) (auto simp: policy_passed_def runPolicyCheck_def)
  moreover have "\<not> stops f args" if f: "filter_in_force compile static (prcPII p) = Some f" for f
  proof (rule authorize_passed [OF a], goal_cases)
    case (1 i st1 st2 st3 st4 st5 st6 st7 s m)
    from 1(12) assms(3) have "request_filtered cfg p (Some args) m" by simp
    then show ?case using wired_in_force [OF assms(4), of "prcPII p"] f by (intro filtered_not_stopped) simp_all
  qed
  ultimately show ?thesis using a
    by (intro disjI2 exI [of _ c'] exI [of _ p] exI [of _ u] conjI allI impI) simp_all
qed simp

text \<open>The demonstration gateway with a static filter that blocks, and overrides built from the policy's specification.\<close>

definition slot_of :: "Filter \<Rightarrow> PIIFilter" where
  "slot_of f = \<lparr>pfRequest = (\<lambda>args. case ApplyToMCPRequest f args of Some r \<Rightarrow> r | None \<Rightarrow> (allowed, args)),
     pfResult = (\<lambda>raw. (raw, allowed))\<rparr>"

definition seven_cfg :: "backends MCPHandlerConfig" where
  "seven_cfg = demo_cfg\<lparr>cfPIIFilter := Some (slot_of seven_filter),
     cfNewFilter := (\<lambda>spec. case NewFilterFromSpec (\<lambda>re. Inl ''bad'') spec of Inl _ \<Rightarrow> None | Inr f \<Rightarrow> Some (slot_of f))\<rparr>"

lemma carries_slot: "carries (Some (slot_of f)) (Some f)"
  by (auto simp: carries_def slot_of_def)

lemma seven_wired: "wired (\<lambda>re. Inl ''bad'') (Some seven_filter) seven_cfg"
  unfolding wired_def seven_cfg_def
  by (simp add: carries_slot split: sum.split) (simp add: carries_def)

lemma seven_stops: "stops seven_filter [(''id'', JStr ''7'')]"
proof -
  have t: "combined (collectStrings (JObj [(''id'', JStr ''7'')])) = ''7''" by (simp add: combined_def)
  show ?thesis unfolding stops_def t Let_def by (simp add: seven_filter_def seven_match severe_def)
qed

theorem blocked_class_not_forwarded_witness:
  "\<exists>rep w'. handleToolsCall seven_cfg demo_env demo_http (demo_request ''read'') demo_world = (rep, w') \<and> wForwards w' = []"
proof -
  obtain rep w' where h: "handleToolsCall seven_cfg demo_env demo_http (demo_request ''read'') demo_world = (rep, w')"
    by fastforce
  have p: "eParams demo_env (rqParams (demo_request ''read'')) = Inr (demo_params ''read'')"
    "tpArguments (demo_params ''read'') = Some [(''id'', JStr ''7'')]"
    by (simp_all add: demo_env_def demo_request_def demo_params_def)
  have "cfPolicy seven_cfg = None" by (simp add: seven_cfg_def demo_cfg_def)
  with blocked_class_not_forwarded [OF h p seven_wired] seven_stops h show ?thesis
    by (auto simp: demo_world_def filter_in_force_def)
qed

subsection \<open>Where the verdict and the redaction differ\<close>

text \<open>
  The action is decided on the blocks joined by new lines, the redaction is done block by block. A telephone number
  broken over two blocks is counted and reported as redacted, and both blocks go out unchanged.
\<close>

definition split_blocks :: "json list" where
  "split_blocks = map (\<lambda>t. JObj [(''type'', JStr ''text''), (''text'', JStr t)]) [''+49 30 12'', ''34 56 78'']"

definition phone_filter :: Filter where
  "phone_filter = \<lparr>fDetector = [phone], fEnabled = True, fDefaultAction = PiiRedact, fPerPatternAction = []\<rparr>"

lemma split_hits:
  "ptRegex phone (''+49 30 12'' @ [CHR 0x0A] @ ''34 56 78'') = [(0, 15)]" "ptRegex phone ''+49 30 12'' = []" "ptRegex phone ''34 56 78'' = []"
  by code_simp+

theorem split_match_survives:
  "(\<exists>d. ApplyToString phone_filter (combined (map block_text split_blocks)) = Some d \<and> tdAction d = PiiRedact)
    \<and> redactBlocks (fDetector phone_filter) split_blocks = Some split_blocks"
proof
  have c: "combined (map block_text split_blocks) = ''+49 30 12'' @ [CHR 0x0A] @ ''34 56 78''"
    by (simp add: combined_def split_blocks_def block_text_def)
  have "Detect [phone] (''+49 30 12'' @ [CHR 0x0A] @ ''34 56 78'') =
      [\<lparr>mClass = ptClass phone, mValue = substr (''+49 30 12'' @ [CHR 0x0A] @ ''34 56 78'') 0 15, mOffset = 0, mEnd = 15\<rparr>]"
    unfolding Detect_def raw_matches_def
    by (simp only: enumerate_simps list.map concat.simps pattern_hits_def split_hits prod.case)
      (simp add: validated_def phone_def pattern_def)
  then show "\<exists>d. ApplyToString phone_filter (combined (map block_text split_blocks)) = Some d \<and> tdAction d = PiiRedact"
    unfolding c by (simp add: ApplyToString_def phone_filter_def Let_def resolveAction_def Redact_def)
  have "Detect [phone] ''+49 30 12'' = []" "Detect [phone] ''34 56 78'' = []"
    by (simp_all add: Detect_def raw_matches_def pattern_hits_def split_hits)
  then show "redactBlocks (fDetector phone_filter) split_blocks = Some split_blocks"
    by (simp add: phone_filter_def split_blocks_def redactBlock_def block_text_def Redact_def)
qed

text \<open>
  A blocking override of a class has no effect on a hit that lies inside a longer match of another class: the web
  token after \<open>Bearer\<close> is redacted, although its own class is to be blocked.
\<close>

definition token_filter :: Filter where
  "token_filter = \<lparr>fDetector = token_patterns, fEnabled = True, fDefaultAction = PiiRedact,
     fPerPatternAction = [(ClassJWT, PiiBlock)]\<rparr>"

theorem covered_block_override_ignored:
  "\<exists>d. ApplyToString token_filter bearer_jwt = Some d \<and> tdAction d = PiiRedact
    \<and> (7, 35) \<in> set (FindAllStringIndex jwtRe bearer_jwt)"
proof -
  have "resolveAction token_filter (Detect token_patterns bearer_jwt) = PiiRedact"
    by (simp add: bearer_matches resolveAction_def token_filter_def ClassJWT_def ClassOAuthBearer_def)
  moreover have "\<exists>r. Redact bearer_jwt (Detect token_patterns bearer_jwt) = Some r"
    by (simp add: bearer_matches Redact_def) (simp add: bearer_jwt_def)
  moreover have "Detect token_patterns bearer_jwt \<noteq> []" by (simp add: bearer_matches)
  moreover have "fDetector token_filter = token_patterns" "fEnabled token_filter" by (simp_all add: token_filter_def)
  ultimately show ?thesis by (auto simp: ApplyToString_def Let_def bearer_hits)
qed

text \<open>An override cannot relax the default: it only ever makes the action more restrictive.\<close>

lemma override_never_relaxes: "action_rank (fDefaultAction f) \<le> action_rank (resolveAction f ms)"
  using resolveAction_worst [of f ms] by simp

end
