(* ===== verification/ReplyGateway.thy ===== *)
theory ReplyGateway
  imports PiiFilter
begin

text \<open>
  Package \<open>internal/handlers\<close>, file \<open>reply.go\<close>: \<open>POST /v1/reply\<close>, which governs what an agent returns to its user. The
  handler shares the token, the revocation and kill-switch interfaces, the decoys and the filter with the tool-call
  pipeline. The decoded body (\<open>Inl\<close> the decoder's error text) is an argument; the reporter posts to the console in the
  background and has no effect here. A panic of the filter ends the request with no answer.

  The lemmas show what has been established when a reply is passed on, that every outcome but a clean pass leaves its
  event, and what containment after a canary means for the agent's next reply.
\<close>

record 'st ReplyHandlerConfig =
  rhMasterKey :: bytes
  rhRequireCapability :: bool
  rhReplyFilter :: "Filter option"
  rhKillSwitch :: "'st KillSwitchI option"
  rhRevocation :: "'st RevocationI option"
  rhAudit :: bool
  rhDeception :: "StaticRegistry option"

record replyResponse =
  rrAction :: string
  rrReply :: string
  rrCounts :: "(Class \<times> int) list"
  rrClasses :: "Class list"

datatype reply_answer = ReplyStatus int string | ReplyAnswer replyResponse | ReplyPanic

record 'st reply_world =
  ryStore :: 'st
  ryAudit :: "Event list"

definition blocked_reply :: replyResponse where
  "blocked_reply = \<lparr>rrAction = ''block'', rrReply = [], rrCounts = [], rrClasses = []\<rparr>"

definition reply_event :: "env \<Rightarrow> string \<Rightarrow> string \<Rightarrow> string \<Rightarrow> string \<Rightarrow> string \<Rightarrow> nat \<Rightarrow> Event" where
  "reply_event env remote d tenant agentID reason n =
     (NewEvent (eStamp env n) d ''reply'')\<lparr>evCheck := CheckPII, evAgentID := agentID, evTenant := tenant, evReason := reason,
        evRemoteIP := remote\<rparr>"

definition emitReplyAudit :: "'st ReplyHandlerConfig \<Rightarrow> env \<Rightarrow> string \<Rightarrow> string \<Rightarrow> string \<Rightarrow> string \<Rightarrow> string \<Rightarrow> 'st reply_world
    \<Rightarrow> 'st reply_world" where
  "emitReplyAudit cfg env remote d tenant agentID reason w =
     (if rhAudit cfg then w\<lparr>ryAudit := ryAudit w @ [reply_event env remote d tenant agentID reason (length (ryAudit w))]\<rparr> else w)"

definition replyBlocked :: "'st ReplyHandlerConfig \<Rightarrow> env \<Rightarrow> string \<Rightarrow> string \<Rightarrow> string \<Rightarrow> string \<Rightarrow> 'st reply_world
    \<Rightarrow> reply_answer \<times> 'st reply_world" where
  "replyBlocked cfg env remote tenant agentID reason w =
     (ReplyAnswer blocked_reply, emitReplyAudit cfg env remote DecisionBlock tenant agentID reason w)"

definition classesString :: "Class list \<Rightarrow> string" where
  "classesString cs = str_join '','' cs"

text \<open>Who replies: tenant, agent and token id, all empty without a token.\<close>

definition reply_caller :: "'st ReplyHandlerConfig \<Rightarrow> env \<Rightarrow> string \<Rightarrow> reply_answer + Token option" where
  "reply_caller cfg env authorization =
     (case FromAuthorizationHeader authorization of
        Inl _ \<Rightarrow> Inl (ReplyStatus 401 ''invalid authorization header'')
      | Inr encoded \<Rightarrow>
          if encoded = [] then
            (if rhRequireCapability cfg then Inl (ReplyStatus 401 ''capability token required'') else Inr None)
          else (case Decode (eToken env) encoded of
             Inl _ \<Rightarrow> Inl (ReplyStatus 401 ''invalid capability token'')
           | Inr tok \<Rightarrow>
               (case Verify (eHmac env) tok (rhMasterKey cfg) of
                  Some _ \<Rightarrow> Inl (ReplyStatus 401 ''capability token verification failed'')
                | None \<Rightarrow> Inr (Some tok))))"

definition caller_tenant :: "Token option \<Rightarrow> string" where
  "caller_tenant t = (case t of None \<Rightarrow> [] | Some tok \<Rightarrow> tkTenant tok)"
definition caller_agent :: "Token option \<Rightarrow> string" where
  "caller_agent t = (case t of None \<Rightarrow> [] | Some tok \<Rightarrow> tkSubject tok)"
definition caller_token :: "Token option \<Rightarrow> string" where
  "caller_token t = (case t of None \<Rightarrow> [] | Some tok \<Rightarrow> tkID tok)"

definition reply_revoked :: "'st ReplyHandlerConfig \<Rightarrow> Token option \<Rightarrow> 'st \<Rightarrow> bool" where
  "reply_revoked cfg t st =
     (case (t, rhRevocation cfg) of
        (Some tok, Some r) \<Rightarrow> (case riIsRevoked r st (tkID tok) (tkTenant tok) of Inl _ \<Rightarrow> True | Inr revoked \<Rightarrow> revoked)
      | _ \<Rightarrow> False)"

definition reply_halted :: "'st ReplyHandlerConfig \<Rightarrow> Token option \<Rightarrow> 'st \<Rightarrow> bool" where
  "reply_halted cfg t st =
     (case rhKillSwitch cfg of
        None \<Rightarrow> False
      | Some k \<Rightarrow> (case kiActive k st (caller_tenant t) (caller_agent t) of Inl _ \<Rightarrow> True | Inr halted \<Rightarrow> halted \<noteq> None))"

definition canary_input :: "string \<Rightarrow> DeInput" where
  "canary_input reply = \<lparr>diTool = [], diTokenID = [], diZone = [], diCredentialID = [], diValues = [], diContent = reply\<rparr>"

definition reply_contain :: "'st ReplyHandlerConfig \<Rightarrow> env \<Rightarrow> Token option \<Rightarrow> DeResult \<Rightarrow> 'st \<Rightarrow> 'st" where
  "reply_contain cfg env t d st =
     (if \<not> drContain d then st
      else
        (let st1 = (case rhKillSwitch cfg of
               Some k \<Rightarrow>
                 (if caller_agent t \<noteq> [] then
                    kiEngage k (eClock env AtContain)
                      \<lparr>keType = ScopeAgent, keTenant = caller_tenant t, keValue = caller_agent t, keReason = drReason d,
                       keSetAt = eClock env AtContain, keSetBy = []\<rparr> st
                  else st)
             | None \<Rightarrow> st)
         in case rhRevocation cfg of
              Some r \<Rightarrow>
                (if caller_token t \<noteq> []
                 then riRevoke r (eClock env AtContain) (caller_token t) (drReason d) (caller_tenant t) st1 else st1)
            | None \<Rightarrow> st1))"

definition inspect_reply :: "'st ReplyHandlerConfig \<Rightarrow> env \<Rightarrow> string \<Rightarrow> Token option \<Rightarrow> string \<Rightarrow> 'st reply_world
    \<Rightarrow> reply_answer \<times> 'st reply_world" where
  "inspect_reply cfg env remote t reply w =
     (case rhReplyFilter cfg of
        None \<Rightarrow> (ReplyAnswer \<lparr>rrAction = ''allow'', rrReply = reply, rrCounts = [], rrClasses = []\<rparr>, w)
      | Some f \<Rightarrow>
          (case ApplyToString f reply of
             None \<Rightarrow> (ReplyPanic, w)
           | Some d \<Rightarrow>
               (let note = (\<lambda>dec what. emitReplyAudit cfg env remote dec (caller_tenant t) (caller_agent t)
                      (''reply '' @ what @ '' (classes='' @ classesString (tdMatchedClasses d) @ '')'') w) in
                if tdAction d = PiiBlock \<or> tdAction d = PiiEscalate then
                  (ReplyAnswer \<lparr>rrAction = ''block'', rrReply = [], rrCounts = tdCounts d, rrClasses = tdMatchedClasses d\<rparr>,
                   note DecisionBlock ''blocked'')
                else if tdAction d = PiiRedact then
                  (ReplyAnswer \<lparr>rrAction = ''redact'', rrReply = tdOutput d, rrCounts = tdCounts d, rrClasses = tdMatchedClasses d\<rparr>,
                   note DecisionAllow ''redacted'')
                else (ReplyAnswer \<lparr>rrAction = ''allow'', rrReply = reply, rrCounts = [], rrClasses = []\<rparr>, w))))"

definition NewReplyHandler :: "'st ReplyHandlerConfig \<Rightarrow> env \<Rightarrow> string \<Rightarrow> string \<Rightarrow> string + string \<Rightarrow> 'st reply_world
    \<Rightarrow> reply_answer \<times> 'st reply_world" where
  "NewReplyHandler cfg env authorization remote body w =
     (case reply_caller cfg env authorization of
        Inl outcome \<Rightarrow> (outcome, w)
      | Inr t \<Rightarrow>
          if reply_revoked cfg t (ryStore w) then
            replyBlocked cfg env remote (caller_tenant t) (caller_agent t) ''token revoked or revocation store unavailable'' w
          else if reply_halted cfg t (ryStore w) then
            replyBlocked cfg env remote (caller_tenant t) (caller_agent t) ''halted by kill switch'' w
          else (case body of
             Inl e \<Rightarrow> (ReplyStatus 400 (''invalid JSON: '' @ e), w)
           | Inr reply \<Rightarrow>
               (case de_Check (eLib env) (rhDeception cfg) (canary_input reply) of
                  Some d \<Rightarrow>
                    replyBlocked cfg env remote (caller_tenant t) (caller_agent t)
                      (''reply blocked (deception canary: '' @ drReason d @ '')'')
                      (w\<lparr>ryStore := reply_contain cfg env t d (ryStore w)\<rparr>)
                | None \<Rightarrow> inspect_reply cfg env remote t reply w)))"

subsection \<open>What has been established when a reply is passed on\<close>

lemma inspect_passed:
  assumes "inspect_reply cfg env remote t reply w = (ReplyAnswer a, w')" and "rrAction a \<noteq> ''block''"
  shows "case rhReplyFilter cfg of
      None \<Rightarrow> rrReply a = reply
    | Some f \<Rightarrow> \<exists>d. ApplyToString f reply = Some d \<and> tdAction d \<notin> {PiiBlock, PiiEscalate}
        \<and> rrReply a = (if tdAction d = PiiRedact then tdOutput d else reply)"
proof (cases "rhReplyFilter cfg")
  case None
  with assms(1) show ?thesis by (auto simp: inspect_reply_def)
next
  case (Some f)
  with assms(1) obtain d where d: "ApplyToString f reply = Some d" by (cases "ApplyToString f reply") (auto simp: inspect_reply_def)
  note h = assms(1) [unfolded inspect_reply_def Some d option.case Let_def]
  with assms(2) have n: "\<not> (tdAction d = PiiBlock \<or> tdAction d = PiiEscalate)" by auto
  with h have "rrReply a = (if tdAction d = PiiRedact then tdOutput d else reply)" by (cases "tdAction d = PiiRedact") auto
  with n d Some show ?thesis by simp
qed

lemma reply_caller_error: "reply_caller cfg env authorization = Inl out \<Longrightarrow> \<exists>n msg. out = ReplyStatus n msg"
  by (auto simp: reply_caller_def split: sum.splits if_splits option.splits)

lemma reply_passed:
  assumes "NewReplyHandler cfg env authorization remote body w = (ReplyAnswer a, w')" and "rrAction a \<noteq> ''block''"
  obtains t reply where "reply_caller cfg env authorization = Inr t" "\<not> reply_revoked cfg t (ryStore w)"
    "\<not> reply_halted cfg t (ryStore w)" "body = Inr reply"
    "de_Check (eLib env) (rhDeception cfg) (canary_input reply) = None" "inspect_reply cfg env remote t reply w = (ReplyAnswer a, w')"
proof -
  from assms(1) obtain t where t: "reply_caller cfg env authorization = Inr t"
    using reply_caller_error by (cases "reply_caller cfg env authorization") (fastforce simp: NewReplyHandler_def)+
  note h = assms(1) [unfolded NewReplyHandler_def t sum.case]
  have nb: "replyBlocked cfg env remote x y z w1 \<noteq> (ReplyAnswer a, w')" for x y z w1
    using assms(2) by (auto simp: replyBlocked_def blocked_reply_def)
  with h have r: "\<not> reply_revoked cfg t (ryStore w)" "\<not> reply_halted cfg t (ryStore w)" by (auto split: if_splits)
  with h obtain reply where b: "body = Inr reply" by (cases body) auto
  with h r nb have c: "de_Check (eLib env) (rhDeception cfg) (canary_input reply) = None" by (auto split: option.splits)
  from h r b c have "inspect_reply cfg env remote t reply w = (ReplyAnswer a, w')" by simp
  with t r b c show thesis by (rule that)
qed

definition reply_caller_ok :: "'st ReplyHandlerConfig \<Rightarrow> env \<Rightarrow> string \<Rightarrow> Token option \<Rightarrow> bool" where
  "reply_caller_ok cfg env authorization t \<longleftrightarrow>
     (case t of
        None \<Rightarrow> FromAuthorizationHeader authorization = Inr [] \<and> \<not> rhRequireCapability cfg
      | Some tok \<Rightarrow> (\<exists>text. FromAuthorizationHeader authorization = Inr text \<and> Decode (eToken env) text = Inr tok)
          \<and> Verify (eHmac env) tok (rhMasterKey cfg) = None)"

lemma reply_caller_verified:
  "reply_caller cfg env authorization = Inr t \<Longrightarrow> reply_caller_ok cfg env authorization t"
  by (auto simp: reply_caller_def reply_caller_ok_def split: sum.splits if_splits option.splits)

text \<open>
  C18. What has been checked when a reply is passed on, as it is or redacted. If the request presents a token, or if
  capabilities are required, the token decodes, verifies under the master key, and is neither revoked nor halted; only
  where capabilities are not required, which is the default, does a request without a token pass, and then without these
  checks. In every case no canary occurs in the text, and the filter, if there is one, neither blocks nor escalates; a
  redacted reply is the filter's output and any other is the submitted text.
\<close>

theorem reply_checked:
  assumes "NewReplyHandler cfg env authorization remote body w = (ReplyAnswer a, w')" and "rrAction a \<noteq> ''block''"
  shows "\<exists>t reply. reply_caller_ok cfg env authorization t \<and> body = Inr reply
    \<and> \<not> reply_revoked cfg t (ryStore w) \<and> \<not> reply_halted cfg t (ryStore w)
    \<and> de_Check (eLib env) (rhDeception cfg) (canary_input reply) = None
    \<and> (case rhReplyFilter cfg of
         None \<Rightarrow> rrReply a = reply
       | Some f \<Rightarrow> \<exists>d. ApplyToString f reply = Some d \<and> tdAction d \<notin> {PiiBlock, PiiEscalate}
           \<and> rrReply a = (if tdAction d = PiiRedact then tdOutput d else reply))"
proof -
  obtain t reply where r: "reply_caller cfg env authorization = Inr t" "\<not> reply_revoked cfg t (ryStore w)"
    "\<not> reply_halted cfg t (ryStore w)" "body = Inr reply"
    "de_Check (eLib env) (rhDeception cfg) (canary_input reply) = None" "inspect_reply cfg env remote t reply w = (ReplyAnswer a, w')"
    by (rule reply_passed [OF assms]) (rule that)
  from reply_caller_verified [OF r(1)] r(2-5) inspect_passed [OF r(6) assms(2)] show ?thesis by blast
qed

text \<open>A gateway that requires a token, with the in-memory stores, and a reply of the agent \<open>bot\<close>.\<close>

definition strict_reply :: "backends ReplyHandlerConfig" where
  "strict_reply = \<lparr>rhMasterKey = cfMasterKey demo_cfg, rhRequireCapability = True, rhReplyFilter = Some seven_filter,
     rhKillSwitch = Some mem_kill, rhRevocation = Some mem_revocation, rhAudit = True, rhDeception = None\<rparr>"

theorem reply_checked_witness:
  "\<exists>a w' tok. NewReplyHandler strict_reply demo_env (hAuthorization demo_http) ''10.0.0.1'' (Inr ''8'')
       \<lparr>ryStore = mem_backends, ryAudit = []\<rparr> = (ReplyAnswer a, w')
    \<and> rrReply a = ''8'' \<and> Verify (eHmac demo_env) tok (cfMasterKey demo_cfg) = None
    \<and> \<not> reply_revoked strict_reply (Some tok) mem_backends \<and> \<not> reply_halted strict_reply (Some tok) mem_backends"
proof -
  let ?a = "\<lparr>rrAction = ''allow'', rrReply = ''8'', rrCounts = [], rrClasses = []\<rparr>"
  have quiet: "Detect [seven] ''8'' = []" by (simp add: Detect_def raw_matches_def pattern_hits_def seven_def)
  have d: "ApplyToString seven_filter ''8'' = Some \<lparr>tdAction = PiiAllow, tdOutput = ''8'', tdCounts = [], tdMatchedClasses = []\<rparr>"
    using quiet by (simp add: ApplyToString_def seven_filter_def CountByClass_def)
  have tok: "FromAuthorizationHeader (hAuthorization demo_http) = Inr ''dG9r''" "Decode (eToken demo_env) ''dG9r'' = Inr demo_token"
    by code_simp+
  have cfg: "rhReplyFilter strict_reply = Some seven_filter" "rhRequireCapability strict_reply"
    "rhMasterKey strict_reply = cfMasterKey demo_cfg" "rhDeception strict_reply = None"
    by (simp_all add: strict_reply_def)
  have c: "reply_caller strict_reply demo_env (hAuthorization demo_http) = Inr (Some demo_token)"
    unfolding reply_caller_def tok sum.case cfg by (simp add: demo_verified tok)
  have g: "\<not> reply_revoked strict_reply (Some demo_token) mem_backends" "\<not> reply_halted strict_reply (Some demo_token) mem_backends"
    by code_simp+
  have h: "NewReplyHandler strict_reply demo_env (hAuthorization demo_http) ''10.0.0.1'' (Inr ''8'')
      \<lparr>ryStore = mem_backends, ryAudit = []\<rparr> = (ReplyAnswer ?a, \<lparr>ryStore = mem_backends, ryAudit = []\<rparr>)"
    unfolding NewReplyHandler_def c by (simp add: g cfg de_Check_def inspect_reply_def d)
  from reply_checked [OF h] obtain t where "reply_caller_ok strict_reply demo_env (hAuthorization demo_http) t"
    "\<not> reply_revoked strict_reply t mem_backends" "\<not> reply_halted strict_reply t mem_backends" by auto
  then show ?thesis using h cfg by (cases t) (auto simp: reply_caller_ok_def)
qed

subsection \<open>The trail of replies\<close>

text \<open>Every blocked or redacted reply leaves one event with the decision; a clean pass and a refused request leave none.\<close>

lemma blocked_trail:
  assumes "rhAudit cfg" and "ryAudit w1 = ryAudit w"
  shows "\<exists>e. replyBlocked cfg env remote tenant agent reason w1 = (ReplyAnswer blocked_reply, w1\<lparr>ryAudit := ryAudit w @ [e]\<rparr>)
    \<and> evTool e = ''reply'' \<and> evDecision e = DecisionBlock"
  using assms by (auto simp: replyBlocked_def emitReplyAudit_def reply_event_def NewEvent_def)

definition trail_ok :: "'st reply_world \<Rightarrow> reply_answer \<Rightarrow> 'st reply_world \<Rightarrow> bool" where
  "trail_ok w out w' \<longleftrightarrow>
     (case out of
        ReplyAnswer a \<Rightarrow>
          if rrAction a = ''allow'' then w' = w
          else \<exists>e. ryAudit w' = ryAudit w @ [e] \<and> evTool e = ''reply''
            \<and> evDecision e = (if rrAction a = ''redact'' then DecisionAllow else DecisionBlock)
      | _ \<Rightarrow> w' = w)"

lemma trail_blocked:
  assumes "rhAudit cfg" and "ryAudit w1 = ryAudit w" and "replyBlocked cfg env remote tenant agent reason w1 = (out, w')"
  shows "trail_ok w out w'"
  using blocked_trail [OF assms(1,2), of env remote tenant agent reason] assms(3) by (auto simp: trail_ok_def blocked_reply_def)

lemma trail_inspect: "rhAudit cfg \<Longrightarrow> inspect_reply cfg env remote t reply w = (out, w') \<Longrightarrow> trail_ok w out w'"
  by (auto simp: trail_ok_def inspect_reply_def emitReplyAudit_def reply_event_def NewEvent_def Let_def
      split: if_splits option.splits)

theorem reply_trail:
  assumes "NewReplyHandler cfg env authorization remote body w = (out, w')" and "rhAudit cfg"
  shows "trail_ok w out w'"
proof (cases "reply_caller cfg env authorization")
  case (Inl o')
  with reply_caller_error [OF Inl] assms(1) show ?thesis by (auto simp: NewReplyHandler_def trail_ok_def)
next
  case (Inr t)
  note h = assms(1) [unfolded NewReplyHandler_def Inr sum.case]
  consider (blocked) x y z w1 where "ryAudit w1 = ryAudit w" "replyBlocked cfg env remote x y z w1 = (out, w')"
    | (bad) e where "out = ReplyStatus 400 e" "w' = w"
    | (inspected) reply where "inspect_reply cfg env remote t reply w = (out, w')"
    using h by (cases body; cases "reply_revoked cfg t (ryStore w)"; cases "reply_halted cfg t (ryStore w)")
      (force split: option.splits)+
  then show ?thesis
    by cases (rule trail_blocked [OF assms(2)], assumption+, simp add: trail_ok_def, rule trail_inspect [OF assms(2)])
qed

text \<open>
  The handler never evaluates the caveats of the token: what it answers to an expired token is what it answers to the
  same token before its expiry.
\<close>

lemma reply_ignores_clock:
  assumes "clock AtContain = eClock env AtContain"
  shows "NewReplyHandler cfg (env\<lparr>eClock := clock\<rparr>) authorization remote body w = NewReplyHandler cfg env authorization remote body w"
proof -
  have f: "eToken (env\<lparr>eClock := clock\<rparr>) = eToken env" "eHmac (env\<lparr>eClock := clock\<rparr>) = eHmac env"
    "eLib (env\<lparr>eClock := clock\<rparr>) = eLib env" "eStamp (env\<lparr>eClock := clock\<rparr>) = eStamp env"
    "eClock (env\<lparr>eClock := clock\<rparr>) AtContain = eClock env AtContain"
    using assms by simp_all
  have "reply_caller cfg (env\<lparr>eClock := clock\<rparr>) = reply_caller cfg env" unfolding reply_caller_def fun_eq_iff f by simp
  moreover have "reply_contain cfg (env\<lparr>eClock := clock\<rparr>) = reply_contain cfg env"
    unfolding reply_contain_def fun_eq_iff f by simp
  moreover have e: "emitReplyAudit cfg (env\<lparr>eClock := clock\<rparr>) = emitReplyAudit cfg env"
    unfolding emitReplyAudit_def reply_event_def fun_eq_iff f by simp
  moreover have "replyBlocked cfg (env\<lparr>eClock := clock\<rparr>) = replyBlocked cfg env"
    unfolding replyBlocked_def fun_eq_iff e by simp
  moreover have "inspect_reply cfg (env\<lparr>eClock := clock\<rparr>) = inspect_reply cfg env"
    unfolding inspect_reply_def fun_eq_iff e by simp
  ultimately show ?thesis unfolding NewReplyHandler_def by (simp only: f)
qed

end
