(* ===== verification/Shipping.thy ===== *)
theory Shipping
  imports AuditEvent "HOL-Library.Multiset"
begin

text \<open>
  The asynchronous emitters: \<open>batchEmitter\<close> of \<open>internal/siem/batch.go\<close>, \<open>Emitter\<close> of \<open>internal/auditstore/emitter.go\<close>
  and \<open>Emitter\<close> of \<open>internal/webhook/emitter.go\<close>. All three are a bounded channel between the request goroutines that
  call \<open>Emit\<close>, one worker that drains it, and \<open>Stop\<close>. The model interleaves their atomic actions: the test of the
  closed flag, the non-blocking send, the compare-and-swap, closing the channel, a receive, a tick, and the end of the
  worker. The worker hands its pending items to the destination when there are \<open>batch\<close> of them; the audit-store and
  webhook emitters are the case of batches of one without a ticker. What the destination answers is a parameter of the
  step. The fields \<open>shAccepted\<close> and \<open>shBatches\<close> record the history; nothing reads them.

  The lemmas show that nothing is lost unaccounted: items leave in the order they were accepted, the channel and the
  batch stay within their bounds, stopping drains everything that was accepted, and when a send can hit the closed
  channel.
\<close>

subsection \<open>The machine\<close>

record 'a shipper =
  shCap :: nat
  shBatch :: nat
  shCh :: "'a list"
  shChClosed :: bool
  shClosed :: bool
  shStopping :: bool
  shEntered :: "'a list"
  shDropped :: nat
  shPending :: "'a list"
  shDone :: bool
  shPanic :: bool
  shAccepted :: "'a list"
  shBatches :: "(bool \<times> 'a list) list"

datatype 'a ship_act = EmitCheck 'a | EmitSend 'a | StopSwap | StopClose | WorkerRecv bool | WorkerTick bool | WorkerEnd bool

definition new_shipper :: "nat \<Rightarrow> nat \<Rightarrow> 'a shipper" where
  "new_shipper cap batch =
     \<lparr>shCap = cap, shBatch = batch, shCh = [], shChClosed = False, shClosed = False, shStopping = False, shEntered = [],
      shDropped = 0, shPending = [], shDone = False, shPanic = False, shAccepted = [], shBatches = []\<rparr>"

text \<open>\<open>flush\<close>: an empty batch is not sent; the batch is dropped whatever the destination answered.\<close>

definition ship_flush :: "bool \<Rightarrow> 'a shipper \<Rightarrow> 'a shipper" where
  "ship_flush ok s =
     (if shPending s = [] then s else s\<lparr>shBatches := shBatches s @ [(ok, shPending s)], shPending := []\<rparr>)"

text \<open>\<open>Emit\<close>: the test of the flag, then the non-blocking send. A send on a closed channel panics.\<close>

definition emit_check :: "'a \<Rightarrow> 'a shipper \<Rightarrow> 'a shipper" where
  "emit_check x s = (if shClosed s then s else s\<lparr>shEntered := shEntered s @ [x]\<rparr>)"

definition emit_send :: "'a \<Rightarrow> 'a shipper \<Rightarrow> 'a shipper" where
  "emit_send x s =
     (let s' = s\<lparr>shEntered := remove1 x (shEntered s)\<rparr> in
      if shChClosed s then s'\<lparr>shPanic := True\<rparr>
      else if length (shCh s) < shCap s then s'\<lparr>shCh := shCh s @ [x], shAccepted := shAccepted s @ [x]\<rparr>
      else s'\<lparr>shDropped := shDropped s + 1\<rparr>)"

definition stop_swap :: "'a shipper \<Rightarrow> 'a shipper" where
  "stop_swap s = (if shClosed s then s else s\<lparr>shClosed := True, shStopping := True\<rparr>)"

definition worker_recv :: "bool \<Rightarrow> 'a shipper \<Rightarrow> 'a shipper" where
  "worker_recv ok s =
     (let s' = s\<lparr>shCh := tl (shCh s), shPending := shPending s @ [hd (shCh s)]\<rparr> in
      if shBatch s \<le> length (shPending s') then ship_flush ok s' else s')"

text \<open>One action; \<^const>\<open>None\<close> when it is not enabled.\<close>

fun ship_step :: "'a ship_act \<Rightarrow> 'a shipper \<Rightarrow> 'a shipper option" where
  "ship_step (EmitCheck x) s = Some (emit_check x s)"
| "ship_step (EmitSend x) s = (if x \<in> set (shEntered s) then Some (emit_send x s) else None)"
| "ship_step StopSwap s = Some (stop_swap s)"
| "ship_step StopClose s = (if shStopping s \<and> \<not> shChClosed s then Some (s\<lparr>shChClosed := True\<rparr>) else None)"
| "ship_step (WorkerRecv ok) s = (if shDone s \<or> shCh s = [] then None else Some (worker_recv ok s))"
| "ship_step (WorkerTick ok) s = (if shDone s then None else Some (ship_flush ok s))"
| "ship_step (WorkerEnd ok) s =
     (if shDone s \<or> shCh s \<noteq> [] \<or> \<not> shChClosed s then None else Some ((ship_flush ok s)\<lparr>shDone := True\<rparr>))"

inductive shipped :: "nat \<Rightarrow> nat \<Rightarrow> 'a shipper \<Rightarrow> bool" for cap batch where
  start: "shipped cap batch (new_shipper cap batch)"
| step: "shipped cap batch s \<Longrightarrow> ship_step a s = Some s' \<Longrightarrow> shipped cap batch s'"

fun ship_run :: "'a ship_act list \<Rightarrow> 'a shipper \<Rightarrow> 'a shipper option" where
  "ship_run [] s = Some s"
| "ship_run (a # as) s = (case ship_step a s of None \<Rightarrow> None | Some s' \<Rightarrow> ship_run as s')"

lemma shipped_run: "shipped cap batch s \<Longrightarrow> ship_run as s = Some s' \<Longrightarrow> shipped cap batch s'"
  by (induction as arbitrary: s) (auto split: option.splits intro: shipped.step)

subsection \<open>The configurations of the three emitters\<close>

definition batchDefaults :: "int \<Rightarrow> int \<Rightarrow> nat \<times> nat" where
  "batchDefaults bufferSize batchSize =
     (if bufferSize \<le> 0 then 4096 else nat bufferSize, if batchSize \<le> 0 then 100 else nat batchSize)"

definition newBatchEmitter :: "int \<Rightarrow> int \<Rightarrow> 'a shipper" where
  "newBatchEmitter bufferSize batchSize = (case batchDefaults bufferSize batchSize of (cap, batch) \<Rightarrow> new_shipper cap batch)"

definition NewStoreEmitter :: "int \<Rightarrow> 'a shipper" where
  "NewStoreEmitter bufferSize = new_shipper (if bufferSize \<le> 0 then 1024 else nat bufferSize) 1"

definition NewWebhookEmitter :: "int \<Rightarrow> 'a shipper" where
  "NewWebhookEmitter bufferSize = new_shipper (if bufferSize \<le> 0 then 256 else nat bufferSize) 1"

text \<open>The counters: items delivered and failed, as 64-bit numbers.\<close>

definition ship_delivered :: "'a shipper \<Rightarrow> nat" where
  "ship_delivered s = length (concat (map snd (filter fst (shBatches s)))) mod 2 ^ 64"

definition ship_failed :: "'a shipper \<Rightarrow> nat" where
  "ship_failed s = length (concat (map snd (filter (\<lambda>b. \<not> fst b) (shBatches s)))) mod 2 ^ 64"

subsection \<open>The invariant\<close>

definition ship_inv :: "nat \<Rightarrow> nat \<Rightarrow> 'a shipper \<Rightarrow> bool" where
  "ship_inv cap batch s \<longleftrightarrow>
     shCap s = cap \<and> shBatch s = batch \<and> length (shCh s) \<le> cap \<and> length (shPending s) < max 1 batch
     \<and> shAccepted s = concat (map snd (shBatches s)) @ shPending s @ shCh s
     \<and> (\<forall>b \<in> set (shBatches s). snd b \<noteq> [] \<and> length (snd b) \<le> max 1 batch)
     \<and> (shStopping s \<longleftrightarrow> shClosed s) \<and> (shChClosed s \<longrightarrow> shStopping s)
     \<and> (shDone s \<longrightarrow> shChClosed s \<and> shCh s = [] \<and> shPending s = [])"

lemma ship_flush_fields [simp]:
  "shCap (ship_flush ok s) = shCap s" "shBatch (ship_flush ok s) = shBatch s" "shCh (ship_flush ok s) = shCh s"
  "shChClosed (ship_flush ok s) = shChClosed s" "shClosed (ship_flush ok s) = shClosed s" "shStopping (ship_flush ok s) = shStopping s"
  "shEntered (ship_flush ok s) = shEntered s" "shDropped (ship_flush ok s) = shDropped s" "shPending (ship_flush ok s) = []"
  "shDone (ship_flush ok s) = shDone s" "shPanic (ship_flush ok s) = shPanic s" "shAccepted (ship_flush ok s) = shAccepted s"
  by (simp_all add: ship_flush_def)

lemma ship_flush_batches: "concat (map snd (shBatches (ship_flush ok s))) = concat (map snd (shBatches s)) @ shPending s"
  by (simp add: ship_flush_def)

lemma ship_flush_sizes:
  "b \<in> set (shBatches (ship_flush ok s)) \<Longrightarrow> b \<in> set (shBatches s) \<or> (shPending s \<noteq> [] \<and> snd b = shPending s)"
  by (auto simp: ship_flush_def split: if_splits)

lemma flush_inv:
  assumes "shAccepted s = concat (map snd (shBatches s)) @ shPending s @ shCh s" and "length (shPending s) \<le> max 1 batch"
    and "\<forall>b \<in> set (shBatches s). snd b \<noteq> [] \<and> length (snd b) \<le> max 1 batch"
  shows "shAccepted (ship_flush ok s) = concat (map snd (shBatches (ship_flush ok s))) @ shPending (ship_flush ok s) @ shCh (ship_flush ok s)
    \<and> (\<forall>b \<in> set (shBatches (ship_flush ok s)). snd b \<noteq> [] \<and> length (snd b) \<le> max 1 batch)"
  using assms ship_flush_sizes [of _ ok s] by (fastforce simp: ship_flush_batches)

lemma recv_inv:
  assumes "ship_inv cap batch s" and "shCh s \<noteq> []" and "\<not> shDone s"
  shows "ship_inv cap batch (worker_recv ok s)"
proof -
  let ?s = "s\<lparr>shCh := tl (shCh s), shPending := shPending s @ [hd (shCh s)]\<rparr>"
  have a: "shAccepted ?s = concat (map snd (shBatches ?s)) @ shPending ?s @ shCh ?s" using assms by (simp add: ship_inv_def)
  have l: "length (shPending ?s) \<le> max 1 batch" "length (shCh ?s) \<le> cap" using assms by (auto simp: ship_inv_def)
  show ?thesis
  proof (cases "shBatch s \<le> length (shPending ?s)")
    case True
    have "\<forall>b \<in> set (shBatches ?s). snd b \<noteq> [] \<and> length (snd b) \<le> max 1 batch" using assms(1) by (simp add: ship_inv_def)
    from flush_inv [OF a l(1) this, of ok] True l assms show ?thesis
      unfolding worker_recv_def Let_def ship_inv_def by auto
  next
    case False
    with a l assms show ?thesis unfolding worker_recv_def Let_def ship_inv_def by auto
  qed
qed

lemma step_inv:
  assumes "ship_inv cap batch s" and "ship_step a s = Some s'"
  shows "ship_inv cap batch s'"
proof (cases a)
  case (EmitCheck x)
  with assms show ?thesis by (auto simp: emit_check_def ship_inv_def)
next
  case (EmitSend x)
  with assms show ?thesis by (auto simp: emit_send_def ship_inv_def Let_def split: if_splits)
next
  case StopSwap
  with assms show ?thesis by (auto simp: stop_swap_def ship_inv_def)
next
  case StopClose
  with assms show ?thesis by (auto simp: ship_inv_def split: if_splits)
next
  case (WorkerRecv ok)
  with assms recv_inv [OF assms(1)] show ?thesis by (auto split: if_splits)
next
  case (WorkerTick ok)
  with assms flush_inv [of s batch ok] show ?thesis by (auto simp: ship_inv_def split: if_splits)
next
  case (WorkerEnd ok)
  with assms flush_inv [of s batch ok] show ?thesis by (auto simp: ship_inv_def split: if_splits)
qed

lemma shipped_inv: "shipped cap batch s \<Longrightarrow> ship_inv cap batch s"
proof (induction rule: shipped.induct)
  case start
  show ?case by (simp add: ship_inv_def new_shipper_def)
next
  case (step s a s')
  then show ?case by (blast intro: step_inv)
qed

subsection \<open>What the emitters guarantee\<close>

text \<open>
  C36. Whatever the interleaving of requests, worker and shutdown, an emitter delivers what it accepted, in order:
  the batches handed to the destination, then the pending items, then the channel are exactly the accepted items; the
  channel never exceeds its capacity and no batch its size.
\<close>

theorem emitter_keeps_order:
  assumes "shipped cap batch s"
  shows "shAccepted s = concat (map snd (shBatches s)) @ shPending s @ shCh s
    \<and> length (shCh s) \<le> cap \<and> length (shPending s) < max 1 batch
    \<and> (\<forall>b \<in> set (shBatches s). snd b \<noteq> [] \<and> length (snd b) \<le> max 1 batch)
    \<and> (shDone s \<longrightarrow> concat (map snd (shBatches s)) = shAccepted s)"
  using shipped_inv [OF assms] by (simp add: ship_inv_def)

definition three_events :: "nat ship_act list" where
  "three_events = [EmitCheck 1, EmitSend 1, EmitCheck 2, EmitCheck 3, EmitSend 3, WorkerRecv True, EmitSend 2, WorkerRecv True]"

lemma three_events_run: "\<exists>s. ship_run three_events (new_shipper 2 2) = Some s \<and> shAccepted s = [1, 3, 2] \<and> shCh s = [2]"
  by (simp add: three_events_def new_shipper_def emit_check_def emit_send_def worker_recv_def ship_flush_def)

theorem emitter_keeps_order_witness:
  "\<exists>s. ship_run three_events (new_shipper 2 2) = Some s \<and> concat (map snd (shBatches s)) @ shPending s @ shCh s = [1, 3, 2]"
proof -
  obtain s where s: "ship_run three_events (new_shipper 2 2) = Some s" "shAccepted s = [1, 3, 2]"
    using three_events_run by blast
  from emitter_keeps_order [OF shipped_run [OF shipped.start s(1)]] s show ?thesis by force
qed

text \<open>Every item that passed the test of the flag is still on its way, accepted, or counted as dropped.\<close>

definition ship_counted :: "'a shipper \<Rightarrow> nat" where
  "ship_counted s = length (shEntered s) + length (shAccepted s) + shDropped s"

lemma step_counted:
  assumes "ship_step a s = Some s'" and "\<not> shPanic s'"
  shows "ship_counted s' = ship_counted s + (case a of EmitCheck x \<Rightarrow> if shClosed s then 0 else 1 | _ \<Rightarrow> 0)"
proof (cases a)
  case (EmitSend x)
  with assms have "x \<in> set (shEntered s)" by (simp split: if_splits)
  then have "length (shEntered s) = Suc (length (remove1 x (shEntered s)))" 
    using length_pos_if_in_set [of x "shEntered s"] by (simp add: length_remove1)
  with assms EmitSend show ?thesis by (auto simp: emit_send_def ship_counted_def Let_def split: if_splits)
qed (use assms in \<open>auto simp: emit_check_def stop_swap_def worker_recv_def ship_counted_def Let_def split: if_splits\<close>)

lemma drain:
  assumes "ship_inv cap batch s" and "shChClosed s" and "\<not> shDone s" and "length oks = length (shCh s)"
  shows "\<exists>s'. ship_run (map WorkerRecv oks @ [WorkerEnd ok]) s = Some s' \<and> shDone s' \<and> shAccepted s' = shAccepted s
    \<and> concat (map snd (shBatches s')) = shAccepted s"
  using assms
proof (induction oks arbitrary: s)
  case Nil
  then have "shCh s = []" by simp
  with Nil show ?case by (simp add: ship_inv_def ship_flush_batches)
next
  case (Cons o' oks)
  then have ch: "shCh s \<noteq> []" by auto
  let ?s = "worker_recv o' s"
  have i: "ship_inv cap batch ?s" by (rule recv_inv [OF Cons.prems(1) ch Cons.prems(3)])
  have f: "shChClosed ?s" "\<not> shDone ?s" "shCh ?s = tl (shCh s)" "shAccepted ?s = shAccepted s"
    using Cons.prems by (simp_all add: worker_recv_def Let_def)
  have l: "length oks = length (shCh ?s)" using Cons.prems(4) ch by (simp add: f(3))
  from Cons.IH [OF i f(1,2) l] ch Cons.prems(3) show ?case by (simp add: f(4))
qed

text \<open>When the worker has finished, every accepted item was counted as delivered or failed, modulo the wrap of the counters.\<close>

lemma batches_split: "length (concat (map snd bs)) = length (concat (map snd (filter fst bs))) + length (concat (map snd (filter (\<lambda>b. \<not> fst b) bs)))"
  by (induction bs) auto

lemma stopped_accounts:
  assumes "shipped cap batch s" and "shDone s"
  shows "(ship_delivered s + ship_failed s) mod 2 ^ 64 = length (shAccepted s) mod 2 ^ 64"
proof -
  have "shAccepted s = concat (map snd (shBatches s))" using shipped_inv [OF assms(1)] assms(2) by (simp add: ship_inv_def)
  then show ?thesis
    unfolding ship_delivered_def ship_failed_def using batches_split [of "shBatches s"] by (simp add: mod_add_eq)
qed

lemma emitters_shipped:
  "shipped (fst (batchDefaults bufferSize batchSize)) (snd (batchDefaults bufferSize batchSize)) (newBatchEmitter bufferSize batchSize)"
  "shipped (if bufferSize \<le> 0 then 1024 else nat bufferSize) 1 (NewStoreEmitter bufferSize)"
  "shipped (if bufferSize \<le> 0 then 256 else nat bufferSize) 1 (NewWebhookEmitter bufferSize)"
  by (simp_all add: newBatchEmitter_def NewStoreEmitter_def NewWebhookEmitter_def shipped.start split: prod.splits)

text \<open>
  C37. Stopping drains: once the channel is closed, the worker needs one receive per buffered item and its last step
  to finish, whatever the destination answers, and then every accepted item has been handed over.
\<close>

theorem stop_drains:
  assumes "shipped cap batch s" and "shChClosed s" and "\<not> shDone s" and "length oks = length (shCh s)"
  shows "\<exists>s'. ship_run (map WorkerRecv oks @ [WorkerEnd ok]) s = Some s' \<and> shDone s'
    \<and> concat (map snd (shBatches s')) = shAccepted s"
  using drain [OF shipped_inv [OF assms(1)] assms(2,3,4)] by blast

definition stopped_shipper :: "nat shipper" where
  "stopped_shipper = (new_shipper 2 2)\<lparr>shCh := [1, 2], shAccepted := [1, 2], shClosed := True, shStopping := True, shChClosed := True\<rparr>"

lemma stopped_run:
  "ship_run [EmitCheck 1, EmitSend 1, EmitCheck 2, EmitSend 2, StopSwap, StopClose] (new_shipper 2 2) = Some stopped_shipper"
  by (simp add: new_shipper_def emit_check_def emit_send_def stop_swap_def stopped_shipper_def)

theorem stop_drains_witness:
  "\<exists>s'. ship_run [WorkerRecv True, WorkerRecv False, WorkerEnd True] stopped_shipper = Some s' \<and> shDone s'
    \<and> concat (map snd (shBatches s')) = [1, 2]"
proof -
  have "shipped 2 2 stopped_shipper" by (rule shipped_run [OF shipped.start stopped_run])
  moreover have "shChClosed stopped_shipper" "\<not> shDone stopped_shipper" "shCh stopped_shipper = [1, 2]" "shAccepted stopped_shipper = [1, 2]"
    by (simp_all add: stopped_shipper_def new_shipper_def)
  ultimately show ?thesis using stop_drains [of 2 2 stopped_shipper "[True, False]" True] by simp
qed

text \<open>No other action delays it: after the close the channel never grows.\<close>

lemma closed_never_grows:
  "shChClosed s \<Longrightarrow> ship_step a s = Some s' \<Longrightarrow> shChClosed s' \<and> length (shCh s') \<le> length (shCh s)"
  by (cases a) (auto simp: emit_check_def emit_send_def stop_swap_def worker_recv_def Let_def split: if_splits)

subsection \<open>The race between a request and the shutdown\<close>

text \<open>
  A request that has passed the test of the flag when \<open>Stop\<close> closes the channel sends on a closed channel, which
  panics in the goroutine of the request, although the comments say that an event after \<open>Stop\<close> is dropped.
\<close>

theorem emit_races_stop:
  "\<exists>s. ship_run [EmitCheck x, StopSwap, StopClose, EmitSend x] (new_shipper cap batch) = Some s \<and> shPanic s"
  by (simp add: new_shipper_def emit_check_def emit_send_def stop_swap_def)

text \<open>Without a request in between there is no panic.\<close>

lemma quiet_stop:
  "shClosed s \<Longrightarrow> shEntered s = [] \<Longrightarrow> \<not> shPanic s \<Longrightarrow> ship_run as s = Some s' \<Longrightarrow> \<not> shPanic s'"
proof (induction as arbitrary: s)
  case (Cons a as)
  then obtain s1 where s1: "ship_step a s = Some s1" "ship_run as s1 = Some s'" by (auto split: option.splits)
  have "shClosed s1 \<and> shEntered s1 = [] \<and> \<not> shPanic s1"
    using s1(1) Cons.prems
    by (cases a) (auto simp: emit_check_def stop_swap_def worker_recv_def Let_def split: if_splits)
  with Cons.IH s1(2) show ?case by blast
qed simp

subsection \<open>Which events go where (siem/route.go, webhook/filter.go)\<close>

datatype EventMode = ModeAll | ModeFindings

definition ParseEventMode :: "string \<Rightarrow> EventMode \<Rightarrow> EventMode" where
  "ParseEventMode raw def =
     (let m = to_lower (trim_space raw) in if m = ''all'' then ModeAll else if m = ''findings'' then ModeFindings else def)"

definition IsFinding :: "Event \<Rightarrow> bool" where
  "IsFinding e =
     (if evDecision e = DecisionBlock \<or> evDecision e = DecisionEscalate then True
      else if evDecision e = DecisionAllow then evRequiresStepUp e else False)"

definition BuildSummary :: "(string \<Rightarrow> string) \<Rightarrow> Event \<Rightarrow> string" where
  "BuildSummary upper e =
     upper (evDecision e) @ '' '' @ (if evTool e = [] then ''unknown-tool'' else evTool e)
     @ '' by '' @ (if evAgentID e = [] then ''unknown-agent'' else evAgentID e)
     @ (if evCheck e \<noteq> [] \<and> evReason e \<noteq> [] then '' ('' @ evCheck e @ '': '' @ evReason e @ '')''
        else if evCheck e \<noteq> [] then '' ('' @ evCheck e @ '')''
        else if evReason e \<noteq> [] then '' ('' @ evReason e @ '')'' else [])
     @ (if evRequiresStepUp e \<and> evDecision e = DecisionAllow then '' [step-up flagged]'' else [])"

text \<open>\<open>routingEmitter.Emit\<close>: what the wrapped sink is given, if anything.\<close>

definition route_Emit :: "(string \<Rightarrow> string) \<Rightarrow> EventMode \<Rightarrow> Event \<Rightarrow> Event option" where
  "route_Emit upper mode e =
     (if mode = ModeFindings \<and> \<not> IsFinding e then None
      else Some (if evSummary e = [] then e\<lparr>evSummary := BuildSummary upper e\<rparr> else e))"

datatype WebhookSeverity = SeverityInfo | SeverityWarning | SeverityCritical
datatype EventType = EventDeny | EventEscalate | EventApprovalTimeout | EventStepUpRequired

record WebhookEvent =
  weEvent :: EventType
  weSchemaVersion :: string
  weTimestamp :: string
  weSeverity :: WebhookSeverity
  weTenant :: string
  weDecision :: string
  weCheck :: string
  weTool :: string
  weAgentID :: string
  weReason :: string
  weRequiresStepUp :: bool
  weCapabilityTokenID :: string
  wePendingID :: string

fun event_type_text :: "EventType \<Rightarrow> string" where
  "event_type_text EventDeny = ''intentgate.deny''"
| "event_type_text EventEscalate = ''intentgate.escalate''"
| "event_type_text EventApprovalTimeout = ''intentgate.approval_timeout''"
| "event_type_text EventStepUpRequired = ''intentgate.step_up_required''"

definition NewWebhookEvent :: "string \<Rightarrow> EventType \<Rightarrow> WebhookSeverity \<Rightarrow> WebhookEvent" where
  "NewWebhookEvent now t severity =
     \<lparr>weEvent = t, weSchemaVersion = ''1'', weTimestamp = now, weSeverity = severity, weTenant = [], weDecision = [], weCheck = [],
      weTool = [], weAgentID = [], weReason = [], weRequiresStepUp = False, weCapabilityTokenID = [], wePendingID = []\<rparr>"

definition newProjection :: "string \<Rightarrow> EventType \<Rightarrow> WebhookSeverity \<Rightarrow> Event \<Rightarrow> WebhookEvent" where
  "newProjection now t severity e =
     (NewWebhookEvent now t severity)
       \<lparr>weTimestamp := (if evTimestamp e \<noteq> [] then evTimestamp e else now), weTenant := evTenant e, weDecision := evDecision e,
        weCheck := evCheck e, weTool := evTool e, weAgentID := evAgentID e, weReason := evReason e,
        weRequiresStepUp := evRequiresStepUp e, weCapabilityTokenID := evCapabilityTokenID e, wePendingID := evPendingID e\<rparr>"

definition severityForBlock :: "Event \<Rightarrow> WebhookSeverity" where
  "severityForBlock e =
     (if evCheck e \<in> {CheckCapability, CheckBudget, CheckUpstream} then SeverityCritical else SeverityWarning)"

definition projectAuditEvent :: "string \<Rightarrow> Event \<Rightarrow> WebhookEvent option" where
  "projectAuditEvent now e =
     (if evTool e = ''admin/mint'' \<or> evTool e = ''admin/revoke'' then None
      else if evDecision e = DecisionBlock then Some (newProjection now EventDeny (severityForBlock e) e)
      else if evDecision e = DecisionEscalate then Some (newProjection now EventEscalate SeverityWarning e)
      else if evDecision e = DecisionAllow \<and> evRequiresStepUp e then Some (newProjection now EventStepUpRequired SeverityInfo e)
      else None)"

definition normalizeAllowed :: "string list \<Rightarrow> string list" where
  "normalizeAllowed xs = filter (\<lambda>s. s \<noteq> []) (map trim_space xs)"

definition DefaultFilter :: "string list \<Rightarrow> string \<Rightarrow> Event \<Rightarrow> WebhookEvent option" where
  "DefaultFilter allowedTypes now e =
     (let allow = normalizeAllowed allowedTypes in
      case projectAuditEvent now e of
        None \<Rightarrow> None
      | Some out \<Rightarrow> if allow \<noteq> [] \<and> event_type_text (weEvent out) \<notin> set allow then None else Some out)"

text \<open>
  The webhooks alert on exactly the findings that are not the operator's own minting and revoking, and the alert
  carries the tenant, the decision and the token of the event; no approval time-out is ever projected.
\<close>

theorem webhook_selects_findings:
  "(projectAuditEvent now e \<noteq> None \<longleftrightarrow> IsFinding e \<and> evTool e \<noteq> ''admin/mint'' \<and> evTool e \<noteq> ''admin/revoke'')
    \<and> (case projectAuditEvent now e of None \<Rightarrow> True | Some a \<Rightarrow>
         weTenant a = evTenant e \<and> weDecision a = evDecision e \<and> weTool a = evTool e \<and> weAgentID a = evAgentID e
         \<and> weCapabilityTokenID a = evCapabilityTokenID e \<and> wePendingID a = evPendingID e \<and> weEvent a \<noteq> EventApprovalTimeout)"
  by (auto simp: projectAuditEvent_def IsFinding_def newProjection_def NewWebhookEvent_def DecisionBlock_def DecisionEscalate_def
      DecisionAllow_def)

end
