(* ===== verification/StreamHub.thy ===== *)
theory StreamHub
  imports AuditEvent
begin

text \<open>
  \<open>internal/audit/stream.go\<close>: the hub behind the live view of the audit trail. It numbers the events, keeps the last
  \<open>size\<close> of them in a ring and offers each to the channels of the subscribers without blocking; a client that
  reconnects gives the last number it saw and is given what the ring holds after it. Every operation runs under the
  mutex and is one step; taking an event from a channel is a step of the client. A closed channel is gone from the map.
  The counter is a natural number: the \<open>uint64\<close> of the source does not wrap within \<open>2\<^sup>6\<^sup>4\<close> events.

  The lemmas show what the ring and a replay hold, when a client misses nothing, and that a frame dropped at a full
  channel is not made up for by a reconnect.
\<close>

subsection \<open>The hub\<close>

type_synonym StreamEvent = "nat \<times> Event"

record StreamHub =
  suSeq :: nat
  suRing :: "StreamEvent list"
  suSize :: nat
  suSubs :: "(nat \<times> nat \<times> StreamEvent list) list"
  suNextID :: nat

definition NewStreamHub :: "int \<Rightarrow> StreamHub" where
  "NewStreamHub ringSize =
     \<lparr>suSeq = 0, suRing = [], suSize = (if ringSize \<le> 0 then 1024 else nat ringSize), suSubs = [], suNextID = 0\<rparr>"

definition offer :: "StreamEvent \<Rightarrow> nat \<times> nat \<times> StreamEvent list \<Rightarrow> nat \<times> nat \<times> StreamEvent list" where
  "offer se sub = (case sub of (i, cap, buf) \<Rightarrow> if length buf < cap then (i, cap, buf @ [se]) else (i, cap, buf))"

definition hub_Emit :: "Event \<Rightarrow> StreamHub \<Rightarrow> StreamHub" where
  "hub_Emit e h =
     (let n = suSeq h + 1; se = (n, e) in
      h\<lparr>suSeq := n,
        suRing := (if suSize h \<le> length (suRing h) then tl (suRing h) @ [se] else suRing h @ [se]),
        suSubs := map (offer se) (suSubs h)\<rparr>)"

definition hub_Subscribe :: "nat \<Rightarrow> int \<Rightarrow> StreamHub \<Rightarrow> StreamEvent list \<times> nat \<times> StreamHub" where
  "hub_Subscribe afterSeq buffer h =
     (filter (\<lambda>se. afterSeq < fst se) (suRing h), suNextID h,
      h\<lparr>suNextID := suNextID h + 1,
        suSubs := suSubs h @ [(suNextID h, if buffer \<le> 0 then 256 else nat buffer, [])]\<rparr>)"

definition hub_cancel :: "nat \<Rightarrow> StreamHub \<Rightarrow> StreamHub" where
  "hub_cancel i h = h\<lparr>suSubs := filter (\<lambda>sub. fst sub \<noteq> i) (suSubs h)\<rparr>"

definition LastSeq :: "StreamHub \<Rightarrow> nat" where
  "LastSeq h = suSeq h"

text \<open>A client takes the oldest event of its channel.\<close>

definition hub_receive :: "nat \<Rightarrow> StreamHub \<Rightarrow> StreamEvent option \<times> StreamHub" where
  "hub_receive i h =
     (case map_of (suSubs h) i of
        Some (cap, se # buf) \<Rightarrow>
          (Some se, h\<lparr>suSubs := map (\<lambda>sub. if fst sub = i then (i, cap, buf) else sub) (suSubs h)\<rparr>)
      | _ \<Rightarrow> (None, h))"

subsection \<open>The ring\<close>

text \<open>The numbers of the last \<open>size\<close> events, all of them while there are fewer.\<close>

definition window :: "nat \<Rightarrow> nat \<Rightarrow> nat list" where
  "window sz n = [Suc (n - sz)..<Suc n]"

definition hub_ok :: "StreamHub \<Rightarrow> bool" where
  "hub_ok h \<longleftrightarrow> 0 < suSize h \<and> map fst (suRing h) = window (suSize h) (suSeq h)
     \<and> distinct (map fst (suSubs h)) \<and> (\<forall>(i, cap, buf) \<in> set (suSubs h). i < suNextID h \<and> length buf \<le> cap)"

lemma window_step: "0 < sz \<Longrightarrow> window sz (Suc n) =
    (if sz \<le> length (window sz n) then tl (window sz n) else window sz n) @ [Suc n]"
proof -
  assume s: "0 < sz"
  show ?thesis
  proof (cases "sz \<le> n")
    case True
    then have shift: "Suc n - sz = Suc (n - sz)" by (simp add: Suc_diff_le)
    have "tl [Suc (n - sz)..<Suc n] = [Suc (Suc (n - sz))..<Suc n]" by (rule tl_upt)
    moreover have "sz \<le> length (window sz n)" using True by (simp add: window_def del: upt_Suc)
    ultimately show ?thesis using True s by (simp add: window_def shift del: upt_Suc) (simp add: upt_Suc)
  next
    case False
    then show ?thesis by (auto simp: window_def)
  qed
qed

lemma hub_ok_new: "hub_ok (NewStreamHub n)"
  by (simp add: hub_ok_def NewStreamHub_def window_def)

lemma offer_fst [simp]: "fst (offer se sub) = fst sub"
  by (auto simp: offer_def split: prod.splits)

lemma hub_ok_Emit: "hub_ok h \<Longrightarrow> hub_ok (hub_Emit e h)"
proof -
  assume h: "hub_ok h"
  have len: "length (suRing h) = length (window (suSize h) (suSeq h))" using h by (metis hub_ok_def length_map)
  have "map fst (suRing (hub_Emit e h)) = window (suSize h) (Suc (suSeq h))"
    using h len by (simp add: hub_Emit_def Let_def hub_ok_def window_step map_tl)
  moreover have "\<forall>(i, cap, buf) \<in> set (map (offer (Suc (suSeq h), e)) (suSubs h)). i < suNextID h \<and> length buf \<le> cap"
    using h by (auto simp: hub_ok_def offer_def split: if_splits)
  ultimately show ?thesis using h by (simp add: hub_ok_def hub_Emit_def Let_def comp_def)
qed

lemma hub_ok_Subscribe: "hub_ok h \<Longrightarrow> hub_ok (snd (snd (hub_Subscribe a b h)))"
  by (fastforce simp: hub_ok_def hub_Subscribe_def)

lemma hub_ok_cancel: "hub_ok h \<Longrightarrow> hub_ok (hub_cancel i h)"
  by (auto simp: hub_ok_def hub_cancel_def distinct_map_filter)

lemma hub_ok_receive:
  assumes "hub_ok h"
  shows "hub_ok (snd (hub_receive i h))"
proof (cases "\<exists>cap se buf. map_of (suSubs h) i = Some (cap, se # buf)")
  case True
  then obtain cap se buf where m: "map_of (suSubs h) i = Some (cap, se # buf)" by blast
  let ?subs = "map (\<lambda>sub. if fst sub = i then (i, cap, buf) else sub) (suSubs h)"
  have "map fst ?subs = map fst (suSubs h)" by simp
  then have "distinct (map fst ?subs)" using assms by (simp only: hub_ok_def)
  moreover have "(i, cap, se # buf) \<in> set (suSubs h)" using m by (rule map_of_SomeD)
  then have "\<forall>(j, c, b) \<in> set ?subs. j < suNextID h \<and> length b \<le> c" using assms by (auto simp: hub_ok_def)
  ultimately show ?thesis using assms m by (simp add: hub_receive_def hub_ok_def del: map_map)
next
  case False
  then have "snd (hub_receive i h) = h" by (auto simp: hub_receive_def split: option.splits list.splits)
  with assms show ?thesis by simp
qed

lemma window_after: "filter (\<lambda>m. a < m) (window sz n) = [Suc (max a (n - sz))..<Suc n]"
proof -
  have "filter (\<lambda>m. a < m) [i..<j] = [max (Suc a) i..<j]" for i j
  proof (induction j)
    case (Suc j)
    then show ?case by (auto simp: max_def)
  qed simp
  then show ?thesis by (simp add: window_def max_def)
qed

text \<open>A replay is what follows the given number, without a gap, as far back as the ring reaches.\<close>

theorem replay_exact:
  assumes "hub_ok h"
  shows "map fst (fst (hub_Subscribe a buffer h)) = [Suc (max a (suSeq h - suSize h))..<Suc (suSeq h)]"
proof -
  have "map fst (fst (hub_Subscribe a buffer h)) = filter (\<lambda>m. a < m) (map fst (suRing h))"
    by (simp add: hub_Subscribe_def filter_map comp_def)
  with assms show ?thesis by (simp add: hub_ok_def window_after)
qed

text \<open>A subscriber starts with an empty channel of its own and misses nothing while its channel has room.\<close>

lemma subscribed_empty:
  assumes "hub_ok h"
  shows "map_of (suSubs (snd (snd (hub_Subscribe a buffer h)))) (suNextID h)
           = Some (if buffer \<le> 0 then 256 else nat buffer, [])"
proof -
  have "suNextID h \<notin> fst ` set (suSubs h)" using assms by (force simp: hub_ok_def)
  then show ?thesis by (simp add: hub_Subscribe_def map_add_def map_of_eq_None_iff [THEN iffD2])
qed

lemma map_of_offer: "map_of (map (offer se) subs) i
    = (case map_of subs i of None \<Rightarrow> None | Some (cap, buf) \<Rightarrow> Some (cap, if length buf < cap then buf @ [se] else buf))"
  by (induction subs) (auto simp: offer_def)

lemma roomy_channel_receives:
  assumes "map_of (suSubs h) i = Some (cap, buf)" and "length buf < cap"
  shows "map_of (suSubs (hub_Emit e h)) i = Some (cap, buf @ [(Suc (suSeq h), e)])"
  using assms by (simp add: hub_Emit_def Let_def map_of_offer)

lemma full_channel_drops:
  assumes "map_of (suSubs h) i = Some (cap, buf)" and "cap \<le> length buf"
  shows "map_of (suSubs (hub_Emit e h)) i = Some (cap, buf)"
  using assms by (simp add: hub_Emit_def Let_def map_of_offer)

text \<open>
  A replay starts behind the last number the client saw. A frame that was dropped before that number is not part of any
  replay it asks for; only a client that saw nothing after the drop gets it back.
\<close>

lemma replay_skips_seen:
  assumes "hub_ok h" and "m \<le> a"
  shows "m \<notin> set (map fst (fst (hub_Subscribe a buffer h)))"
  using replay_exact [OF assms(1), of a buffer] assms(2) by auto

definition slow_client :: "Event \<Rightarrow> StreamHub" where
  "slow_client e =
     (let h0 = snd (snd (hub_Subscribe 0 1 (NewStreamHub 8)));
          h1 = hub_Emit e (hub_Emit e h0);
          h2 = snd (hub_receive 0 h1)
      in hub_Emit e h2)"

lemma dropped_frame_not_replayed:
  "fst (hub_receive 0 (slow_client e)) = Some (3, e)"
  "fst (hub_Subscribe 3 1 (hub_cancel 0 (slow_client e))) = []"
  "(2, e) \<in> set (suRing (slow_client e))"
  by (simp_all add: slow_client_def hub_Subscribe_def hub_Emit_def hub_receive_def hub_cancel_def NewStreamHub_def
      offer_def Let_def)

end
