(* ===== verification/GovernedPath.thy ===== *)
theory GovernedPath
  imports Gateway
begin

text \<open>
  The path \<open>POST /v1/mcp/ig\<close> (\<open>internal/handlers/mcp_intentgrant.go\<close>), on which the control plane decides each tool
  call, with its clients \<open>internal/intentauthz\<close>, \<open>internal/executionoutcome\<close> and \<open>internal/observations\<close>. The control
  plane, the tool server, decoding and random ids are arguments; what the detached goroutines send is recorded in the
  order the handler starts them.

  The lemmas show that a tool call reaches the tool server only on an ALLOW for exactly this agent and tool, that every
  failure of the control plane refuses it, which outcome is recorded, and which requests are not subject to any decision.
\<close>

subsection \<open>The decision client (intentauthz/client.go)\<close>

record AuthzRequest =
  azAgentRef :: string
  azToolRef :: string
  azMethod :: string
  azRemoteIP :: string

record AuthzRecord =
  arDecisionID :: string
  arReasonCode :: string
  arGrantID :: "string option"
  arSourceAuthorityID :: "string option"

record AuthzDecision =
  adDecision :: string
  adRecord :: AuthzRecord

definition authz_Allowed :: "AuthzDecision \<Rightarrow> bool" where
  "authz_Allowed d \<longleftrightarrow> adDecision d = ''ALLOW''"

datatype authz_error = AuthzTransport string | AuthzHTTP int | AuthzDecode string | AuthzUnexpected string

definition Authorize :: "(bytes \<Rightarrow> string + AuthzDecision) \<Rightarrow> (AuthzRequest \<Rightarrow> 'st \<Rightarrow> (string + int \<times> bytes) \<times> 'st)
    \<Rightarrow> AuthzRequest \<Rightarrow> 'st \<Rightarrow> (authz_error + AuthzDecision) \<times> 'st" where
  "Authorize decode post a st =
     (case post a st of
        (Inl e, st') \<Rightarrow> (Inl (AuthzTransport e), st')
      | (Inr (status, raw), st') \<Rightarrow>
          (if status \<noteq> 200 then Inl (AuthzHTTP status)
           else case decode raw of
             Inl e \<Rightarrow> Inl (AuthzDecode e)
           | Inr d \<Rightarrow>
               if adDecision d \<noteq> ''ALLOW'' \<and> adDecision d \<noteq> ''DENY'' then Inl (AuthzUnexpected (adDecision d)) else Inr d, st'))"

subsection \<open>Outcomes (executionoutcome/client.go)\<close>

definition StatusExecuted :: string where "StatusExecuted = ''EXECUTED''"
definition StatusBlocked :: string where "StatusBlocked = ''BLOCKED''"
definition StatusFailed :: string where "StatusFailed = ''FAILED''"

lemmas outcome_status = StatusExecuted_def StatusBlocked_def StatusFailed_def

record ExecOutcome =
  ouDecisionID :: string
  ouStatus :: string
  ouUpstreamStatus :: "int option"
  ouResultHash :: string
  ouTraceID :: string
  ouTool :: string
  ouErrorCode :: string

definition HashResult :: "(bytes \<Rightarrow> bytes) \<Rightarrow> bytes \<Rightarrow> string" where
  "HashResult sha body = hex_encode (sha body)"

definition text_member :: "string \<Rightarrow> string \<Rightarrow> (string \<times> json) list" where
  "text_member k v = (if v = [] then [] else [(k, JStr v)])"

text \<open>\<open>Emit\<close>: the members of the payload that is posted.\<close>

definition outcome_payload :: "ExecOutcome \<Rightarrow> string + (string \<times> json) list" where
  "outcome_payload o' =
     (if ouDecisionID o' = [] then Inl ''executionoutcome: decision_id is required''
      else Inr ([(''decision_id'', JStr (ouDecisionID o')), (''status'', JStr (ouStatus o')),
         (''detail'', JObj (text_member ''tool'' (ouTool o') @ text_member ''error_code'' (ouErrorCode o')))]
        @ (case ouUpstreamStatus o' of None \<Rightarrow> [] | Some n \<Rightarrow> [(''upstream_status'', JNum (of_int n))])
        @ text_member ''result_hash'' (ouResultHash o') @ text_member ''trace_id'' (ouTraceID o')))"

subsection \<open>Observations (observations/collector.go)\<close>

record Collector =
  clTenantID :: string
  clCollectorID :: string
  clCollectorVersion :: string
  clEnvironment :: string

definition orDefault :: "string \<Rightarrow> string \<Rightarrow> string" where
  "orDefault v d = (if v = [] then d else v)"

definition NewCollector :: "string \<Rightarrow> string \<Rightarrow> string \<Rightarrow> string \<Rightarrow> string \<Rightarrow> string + Collector" where
  "NewCollector url tenant collectorID version environment =
     (if url = [] then Inl ''observations: URL is required''
      else if tenant = [] then Inl ''observations: Tenant is required''
      else Inr \<lparr>clTenantID = tenant, clCollectorID = orDefault collectorID ''mcp-pep'',
        clCollectorVersion = orDefault version ''0.1.0'', clEnvironment = orDefault environment ''production''\<rparr>)"

record wireObservation =
  woObservationID :: string
  woTenantID :: string
  woCollectorID :: string
  woSourceType :: string
  woSourceEventID :: string
  woAgentID :: string
  woToolID :: string
  woObservedAt :: string
  woPayloadType :: string
  woRawPayloadHash :: string
  woDeduplicationKey :: string
  woEnvironment :: string
  woCollectorVersion :: string

definition canonicalHashHex :: "(bytes \<Rightarrow> bytes) \<Rightarrow> string \<Rightarrow> string" where
  "canonicalHashHex sha canonical = hex_encode (sha canonical)"

definition dedupKeyHex :: "(bytes \<Rightarrow> bytes) \<Rightarrow> string \<Rightarrow> string \<Rightarrow> string \<Rightarrow> string \<Rightarrow> string" where
  "dedupKeyHex sha tenant collector sourceEventID payloadHash =
     hex_encode (sha (tenant @ ''|'' @ collector @ ''|'' @ sourceEventID @ ''|'' @ payloadHash))"

text \<open>\<open>uuidV4\<close> of sixteen random bytes: version and variant bits, then five groups of hexadecimal digits.\<close>

definition uuid_bits :: "bytes \<Rightarrow> bytes" where
  "uuid_bits b = b[6 := char_of (of_char (b ! 6) mod 16 + 64 :: nat), 8 := char_of (of_char (b ! 8) mod 64 + 128 :: nat)]"

definition uuidV4 :: "bytes \<Rightarrow> string" where
  "uuidV4 b0 =
     (let b = uuid_bits b0 in
      hex_encode (take 4 b) @ ''-'' @ hex_encode (take 2 (drop 4 b)) @ ''-'' @ hex_encode (take 2 (drop 6 b)) @ ''-''
        @ hex_encode (take 2 (drop 8 b)) @ ''-'' @ hex_encode (drop 10 b))"

text \<open>
  \<open>Collector.Emit\<close>: the observation that is posted. The canonical text of the payload, an object with the one member
  \<open>type\<close>, is the argument \<open>canon\<close>; \<open>r1\<close> and \<open>r2\<close> are the random bytes of the two ids.
\<close>

definition Collector_Emit :: "(bytes \<Rightarrow> bytes) \<Rightarrow> (string \<Rightarrow> string) \<Rightarrow> Collector \<Rightarrow> string \<Rightarrow> bytes \<Rightarrow> bytes
    \<Rightarrow> string \<Rightarrow> string \<Rightarrow> string \<Rightarrow> string + wireObservation" where
  "Collector_Emit sha canon c now r1 r2 agentRef toolRef method' =
     (if agentRef = [] \<or> toolRef = [] then Inl ''observations: agentRef and toolRef are required''
      else (let h = canonicalHashHex sha (canon method') in
        Inr \<lparr>woObservationID = uuidV4 r1, woTenantID = clTenantID c, woCollectorID = clCollectorID c,
          woSourceType = ''MCP_PROXY'', woSourceEventID = uuidV4 r2,
          woAgentID = agentRef, woToolID = toolRef, woObservedAt = now, woPayloadType = method', woRawPayloadHash = h,
          woDeduplicationKey = dedupKeyHex sha (clTenantID c) (clCollectorID c) (uuidV4 r2) h,
          woEnvironment = clEnvironment c, woCollectorVersion = clCollectorVersion c\<rparr>))"

subsection \<open>The handler (handlers/mcp_intentgrant.go)\<close>

record 'st IntentGrantMCPConfig =
  igAuthz :: "AuthzRequest \<Rightarrow> 'st \<Rightarrow> (string + int \<times> bytes) \<times> 'st"
  igUpstream :: "(bytes \<Rightarrow> (string \<times> string) option \<Rightarrow> 'st \<Rightarrow> (UpstreamError + UpstreamResponse) \<times> 'st) option"
  igAgentHeader :: string
  igTraceHeader :: string
  igCollector :: bool
  igExecutionOutcomes :: bool

text \<open>Decoding: the request, the member \<open>name\<close> of its parameters (empty when absent or not decodable), a decision.\<close>

record ig_lib =
  glRequest :: "bytes \<Rightarrow> Request option"
  glName :: "raw \<Rightarrow> string"
  glDecision :: "bytes \<Rightarrow> string + AuthzDecision"
  glSha :: "bytes \<Rightarrow> bytes"

record ig_http =
  ihBody :: "string + bytes"
  ihHeader :: "string \<Rightarrow> string"
  ihRemoteAddr :: string

record 'st ig_world =
  gwStore :: 'st
  gwForwards :: "bytes list"
  gwOutcomes :: "ExecOutcome list"
  gwObserved :: "(string \<times> string \<times> string) list"

text \<open>A reply carries the decision header, empty when it is not set, and a JSON-RPC response or the tool server's bytes.\<close>

datatype ig_reply = IgRpc string Response | IgRaw string bytes

record forwardOutcome =
  foStatus :: string
  foUpstreamStatus :: "int option"
  foResultHash :: string
  foErrorCode :: string

definition agent_header :: "'st IntentGrantMCPConfig \<Rightarrow> string" where
  "agent_header cfg = orDefault (igAgentHeader cfg) ''X-IntentGate-Agent''"

definition trace_header :: "'st IntentGrantMCPConfig \<Rightarrow> string" where
  "trace_header cfg = orDefault (igTraceHeader cfg) ''X-Request-Id''"

definition emitOutcome :: "'st IntentGrantMCPConfig \<Rightarrow> string \<Rightarrow> string \<Rightarrow> string \<Rightarrow> forwardOutcome \<Rightarrow> 'st ig_world \<Rightarrow> 'st ig_world" where
  "emitOutcome cfg decisionID traceID tool out w =
     (if \<not> igExecutionOutcomes cfg \<or> decisionID = [] \<or> foStatus out = [] then w
      else w\<lparr>gwOutcomes := gwOutcomes w @ [\<lparr>ouDecisionID = decisionID, ouStatus = foStatus out,
        ouUpstreamStatus = foUpstreamStatus out, ouResultHash = foResultHash out, ouTraceID = traceID, ouTool = tool,
        ouErrorCode = foErrorCode out\<rparr>]\<rparr>)"

definition igForward :: "'st IntentGrantMCPConfig \<Rightarrow> ig_lib \<Rightarrow> Request \<Rightarrow> bytes \<Rightarrow> string \<Rightarrow> 'st ig_world
    \<Rightarrow> (ig_reply \<times> forwardOutcome) \<times> 'st ig_world" where
  "igForward cfg lib req raw decisionID w =
     (case igUpstream cfg of
        None \<Rightarrow>
          ((IgRpc decisionID (NewErrorResponse (rqID req) CodeUpstreamUnavailable ''no upstream toolserver configured''
              (Some (JObj [(''reason'', JStr ''NO_UPSTREAM'')]))),
            \<lparr>foStatus = StatusFailed, foUpstreamStatus = None, foResultHash = [], foErrorCode = ''no_upstream''\<rparr>), w)
      | Some up \<Rightarrow>
          (case up raw None (gwStore w) of (answered, st) \<Rightarrow>
             (let w' = w\<lparr>gwStore := st, gwForwards := gwForwards w @ [raw]\<rparr> in
              case answered of
                Inl e \<Rightarrow>
                  ((IgRpc decisionID (NewErrorResponse (rqID req) CodeUpstreamUnavailable ''upstream toolserver error''
                      (Some (JObj [(''upstream_status'', JNum (of_int (ueStatus e)))]))),
                    \<lparr>foStatus = StatusFailed, foUpstreamStatus = (if 0 < ueStatus e then Some (ueStatus e) else None),
                     foResultHash = [], foErrorCode = upstream_kind_String (ueKind e)\<rparr>), w')
              | Inr resp \<Rightarrow>
                  ((IgRaw decisionID (urBody resp),
                    \<lparr>foStatus = StatusExecuted, foUpstreamStatus = Some (urStatus resp),
                     foResultHash = HashResult (glSha lib) (urBody resp), foErrorCode = []\<rparr>), w'))))"

definition ig_request :: "ig_http \<Rightarrow> string \<Rightarrow> string \<Rightarrow> AuthzRequest" where
  "ig_request r agentRef name = \<lparr>azAgentRef = agentRef, azToolRef = name, azMethod = MethodToolsCall, azRemoteIP = ihRemoteAddr r\<rparr>"

text \<open>The part from the authorization on: refuse when there is no answer, block on DENY, forward on ALLOW.\<close>

definition ig_decide :: "'st IntentGrantMCPConfig \<Rightarrow> ig_lib \<Rightarrow> ig_http \<Rightarrow> Request \<Rightarrow> bytes \<Rightarrow> string \<Rightarrow> string \<Rightarrow> 'st ig_world
    \<Rightarrow> ig_reply \<times> 'st ig_world" where
  "ig_decide cfg lib r req raw agentRef name w =
     (case Authorize (glDecision lib) (igAuthz cfg) (ig_request r agentRef name) (gwStore w) of (answered, st) \<Rightarrow>
        (let w1 = w\<lparr>gwStore := st\<rparr>; traceID = ihHeader r (trace_header cfg) in
         case answered of
           Inl e \<Rightarrow>
             (IgRpc [] (NewErrorResponse (rqID req) CodeInternalError
                (''authorization unavailable '' @ [CHR 0xE2, CHR 0x80, CHR 0x94] @ '' failing closed'')
                (Some (JObj [(''reason'', JStr ''AUTHORIZATION_UNAVAILABLE''), (''fail_closed'', JBool True)]))), w1)
         | Inr d \<Rightarrow>
             (let decisionID = arDecisionID (adRecord d) in
              if \<not> authz_Allowed d then
                (IgRpc decisionID (NewErrorResponse (rqID req) CodePolicyFailed ''authorization denied''
                   (Some (JObj [(''authority'', JStr ''intentgrant''), (''reason'', JStr (arReasonCode (adRecord d))),
                      (''decision_id'', JStr decisionID)]))),
                 emitOutcome cfg decisionID traceID name
                   \<lparr>foStatus = StatusBlocked, foUpstreamStatus = None, foResultHash = [], foErrorCode = []\<rparr> w1)
              else
                (case igForward cfg lib req raw decisionID w1 of ((reply, out), w2) \<Rightarrow>
                   (reply, emitOutcome cfg decisionID traceID name out w2)))))"

definition NewIntentGrantMCPHandler :: "'st IntentGrantMCPConfig \<Rightarrow> ig_lib \<Rightarrow> ig_http \<Rightarrow> 'st ig_world \<Rightarrow> ig_reply \<times> 'st ig_world" where
  "NewIntentGrantMCPHandler cfg lib r w =
     (case ihBody r of
        Inl e \<Rightarrow> (IgRpc [] (NewErrorResponse [] CodeParseError ''could not read request body'' None), w)
      | Inr body \<Rightarrow>
          (let raw = take (2 ^ 20) body in
           case glRequest lib raw of
             None \<Rightarrow> (IgRpc [] (NewErrorResponse [] CodeParseError ''invalid JSON-RPC request'' None), w)
           | Some req \<Rightarrow>
               if rqMethod req \<noteq> MethodToolsCall then
                 (case igForward cfg lib req raw [] w of ((reply, out), w') \<Rightarrow> (reply, w'))
               else
                 (let agentRef = ihHeader r (agent_header cfg); name = glName lib (rqParams req) in
                  if agentRef = [] then
                    (IgRpc [] (NewErrorResponse (rqID req) CodeInvalidParams ''missing agent identity''
                       (Some (JObj [(''reason'', JStr ''MISSING_AGENT_IDENTITY''), (''header'', JStr (agent_header cfg))]))), w)
                  else if name = [] then
                    (IgRpc [] (NewErrorResponse (rqID req) CodeInvalidParams ''missing tool name''
                       (Some (JObj [(''reason'', JStr ''MISSING_TOOL'')]))), w)
                  else
                    ig_decide cfg lib r req raw agentRef name
                      (if igCollector cfg then w\<lparr>gwObserved := gwObserved w @ [(agentRef, name, rqMethod req)]\<rparr> else w))))"

subsection \<open>What reaches the tool server\<close>

lemma emitOutcome_fields [simp]:
  "gwForwards (emitOutcome cfg i t tool out w) = gwForwards w" "gwStore (emitOutcome cfg i t tool out w) = gwStore w"
  "gwObserved (emitOutcome cfg i t tool out w) = gwObserved w"
  by (simp_all add: emitOutcome_def)

lemma igForward_forwards:
  "gwForwards (snd (igForward cfg lib req raw i w)) = gwForwards w @ (case igUpstream cfg of None \<Rightarrow> [] | Some up \<Rightarrow> [raw])"
  "gwOutcomes (snd (igForward cfg lib req raw i w)) = gwOutcomes w"
  by (auto simp: igForward_def Let_def split: option.splits prod.splits sum.splits)

text \<open>The four ways a tool call goes.\<close>

definition ig_answer :: "'st IntentGrantMCPConfig \<Rightarrow> ig_lib \<Rightarrow> ig_http \<Rightarrow> string \<Rightarrow> string \<Rightarrow> 'st ig_world \<Rightarrow> authz_error + AuthzDecision" where
  "ig_answer cfg lib r agentRef name w = fst (Authorize (glDecision lib) (igAuthz cfg) (ig_request r agentRef name) (gwStore w))"

lemma decide_no_answer:
  assumes "ig_answer cfg lib r a n w = Inl e"
  shows "gwForwards (snd (ig_decide cfg lib r req raw a n w)) = gwForwards w"
    "gwOutcomes (snd (ig_decide cfg lib r req raw a n w)) = gwOutcomes w"
  using assms unfolding ig_decide_def ig_answer_def Let_def by (auto split: prod.splits)

lemma decide_denied:
  assumes "ig_answer cfg lib r a n w = Inr d" and "\<not> authz_Allowed d"
  shows "gwForwards (snd (ig_decide cfg lib r req raw a n w)) = gwForwards w"
  using assms unfolding ig_decide_def ig_answer_def Let_def by (auto split: prod.splits)

lemma decide_allowed:
  assumes "ig_answer cfg lib r a n w = Inr d" and "authz_Allowed d"
  shows "gwForwards (snd (ig_decide cfg lib r req raw a n w)) = gwForwards w @ (case igUpstream cfg of None \<Rightarrow> [] | Some up \<Rightarrow> [raw])"
proof -
  obtain st where st: "Authorize (glDecision lib) (igAuthz cfg) (ig_request r a n) (gwStore w) = (Inr d, st)"
    using assms(1) by (cases "Authorize (glDecision lib) (igAuthz cfg) (ig_request r a n) (gwStore w)") (simp add: ig_answer_def)
  show ?thesis using igForward_forwards(1) [of cfg lib req raw "arDecisionID (adRecord d)" "w\<lparr>gwStore := st\<rparr>"] assms(2)
    by (auto simp: ig_decide_def st Let_def split: prod.split)
qed

text \<open>
  C5. On the governed path a tool call reaches the tool server only after the control plane answered ALLOW, with status
  200 and a decision it could decode, for exactly the agent named in the header and the tool named in the request; what
  is forwarded is the request as received, once.
\<close>

theorem governed_forward_allowed:
  assumes "gwForwards (snd (NewIntentGrantMCPHandler cfg lib r w)) \<noteq> gwForwards w"
    and "ihBody r = Inr body" and "glRequest lib (take (2 ^ 20) body) = Some req" and "rqMethod req = MethodToolsCall"
  shows "gwForwards (snd (NewIntentGrantMCPHandler cfg lib r w)) = gwForwards w @ [take (2 ^ 20) body]
    \<and> (\<exists>raw d st. igAuthz cfg
          \<lparr>azAgentRef = ihHeader r (agent_header cfg), azToolRef = glName lib (rqParams req), azMethod = ''tools/call'',
           azRemoteIP = ihRemoteAddr r\<rparr> (gwStore w) = (Inr (200, raw), st)
        \<and> glDecision lib raw = Inr d \<and> adDecision d = ''ALLOW'')
    \<and> ihHeader r (agent_header cfg) \<noteq> [] \<and> glName lib (rqParams req) \<noteq> []"
proof -
  let ?a = "ihHeader r (agent_header cfg)" and ?n = "glName lib (rqParams req)" and ?raw = "take (2 ^ 20) body"
  define w1 where "w1 = (if igCollector cfg then w\<lparr>gwObserved := gwObserved w @ [(?a, ?n, rqMethod req)]\<rparr> else w)"
  have w1: "gwForwards w1 = gwForwards w" "gwStore w1 = gwStore w" by (simp_all add: w1_def)
  have h: "NewIntentGrantMCPHandler cfg lib r w =
      (if ?a = [] then (IgRpc [] (NewErrorResponse (rqID req) CodeInvalidParams ''missing agent identity''
           (Some (JObj [(''reason'', JStr ''MISSING_AGENT_IDENTITY''), (''header'', JStr (agent_header cfg))]))), w)
       else if ?n = [] then (IgRpc [] (NewErrorResponse (rqID req) CodeInvalidParams ''missing tool name''
           (Some (JObj [(''reason'', JStr ''MISSING_TOOL'')]))), w)
       else ig_decide cfg lib r req ?raw ?a ?n w1)"
    using assms(2-4) unfolding NewIntentGrantMCPHandler_def w1_def Let_def by simp
  have an: "?a \<noteq> []" "?n \<noteq> []" using assms(1) unfolding h by (auto split: if_splits)
  then have h: "NewIntentGrantMCPHandler cfg lib r w = ig_decide cfg lib r req ?raw ?a ?n w1" using h by simp
  obtain d where d: "ig_answer cfg lib r ?a ?n w1 = Inr d" "authz_Allowed d"
    using assms(1) decide_no_answer(1) [of cfg lib r ?a ?n w1 _ req ?raw] decide_denied [of cfg lib r ?a ?n w1 _ req ?raw]
    unfolding h w1(1) by (cases "ig_answer cfg lib r ?a ?n w1") auto
  have fwd: "gwForwards (snd (ig_decide cfg lib r req ?raw ?a ?n w1)) = gwForwards w @ [?raw]"
    using assms(1) decide_allowed [OF d, of req ?raw] unfolding h w1(1) by (cases "igUpstream cfg") auto
  have "\<exists>raw d st. igAuthz cfg (ig_request r ?a ?n) (gwStore w) = (Inr (200, raw), st)
      \<and> glDecision lib raw = Inr d \<and> adDecision d = ''ALLOW''"
    using d unfolding ig_answer_def Authorize_def w1(2) by (auto simp: authz_Allowed_def split: prod.splits sum.splits if_splits)
  with an fwd show ?thesis unfolding h ig_request_def MethodToolsCall_def by blast
qed

definition ask_all :: "AuthzRequest \<Rightarrow> unit \<Rightarrow> (string + int \<times> bytes) \<times> unit" where
  "ask_all a st = (Inr (200, (if azToolRef a = ''pay'' then ''no'' else ''yes'')), st)"

definition demo_lib :: ig_lib where
  "demo_lib = \<lparr>glRequest = (\<lambda>b. Some \<lparr>rqJSONRPC = Version, rqID = ''1'', rqMethod = (if b = ''r'' then ''resources/read'' else MethodToolsCall), rqParams = b\<rparr>),
     glName = (\<lambda>p. p),
     glDecision = (\<lambda>b. Inr \<lparr>adDecision = (if b = ''yes'' then ''ALLOW'' else ''DENY''),
       adRecord = \<lparr>arDecisionID = ''DEC-1'', arReasonCode = [], arGrantID = None, arSourceAuthorityID = None\<rparr>\<rparr>),
     glSha = id\<rparr>"

definition demo_ig :: "unit IntentGrantMCPConfig" where
  "demo_ig = \<lparr>igAuthz = ask_all, igUpstream = Some (\<lambda>b h st. (Inr \<lparr>urStatus = 200, urBody = ''done''\<rparr>, st)), igAgentHeader = [],
     igTraceHeader = [], igCollector = True, igExecutionOutcomes = True\<rparr>"

definition ig_demo_http :: "bytes \<Rightarrow> ig_http" where
  "ig_demo_http body = \<lparr>ihBody = Inr body, ihHeader = (\<lambda>h. if h = ''X-IntentGate-Agent'' then ''buyer'' else []), ihRemoteAddr = []\<rparr>"

definition idle :: "unit ig_world" where
  "idle = \<lparr>gwStore = (), gwForwards = [], gwOutcomes = [], gwObserved = []\<rparr>"

lemmas demo_defs = demo_lib_def demo_ig_def ig_demo_http_def idle_def ask_all_def

theorem governed_forward_allowed_witness:
  "gwForwards (snd (NewIntentGrantMCPHandler demo_ig demo_lib (ig_demo_http ''read'') idle)) = [''read'']
    \<and> (\<exists>raw d. ask_all (ig_request (ig_demo_http ''read'') ''buyer'' ''read'') () = (Inr (200, raw), ())
        \<and> glDecision demo_lib raw = Inr d \<and> adDecision d = ''ALLOW'')"
proof -
  have f: "gwForwards (snd (NewIntentGrantMCPHandler demo_ig demo_lib (ig_demo_http ''read'') idle)) \<noteq> gwForwards idle"
    by (simp add: NewIntentGrantMCPHandler_def ig_decide_def igForward_def Authorize_def authz_Allowed_def emitOutcome_def
        ig_request_def agent_header_def trace_header_def orDefault_def demo_defs Let_def)
  have t: "take (2 ^ 20) ''read'' = ''read''" by simp
  have r: "glRequest demo_lib (take (2 ^ 20) ''read'') = Some \<lparr>rqJSONRPC = Version, rqID = ''1'', rqMethod = MethodToolsCall, rqParams = ''read''\<rparr>"
    unfolding t by (simp add: demo_lib_def)
  from governed_forward_allowed [OF f _ r] show ?thesis
    by (simp add: t) (simp add: demo_defs agent_header_def orDefault_def ig_request_def MethodToolsCall_def)
qed

subsection \<open>Failing closed, outcomes and what is not governed\<close>

lemma control_plane_failure_refuses:
  assumes "igAuthz cfg (ig_request r a n) (gwStore w) = (answer', st)"
    and "case answer' of Inl e \<Rightarrow> True | Inr (status, raw) \<Rightarrow> status \<noteq> 200 \<or> (case glDecision lib raw of Inl e \<Rightarrow> True
      | Inr d \<Rightarrow> adDecision d \<noteq> ''ALLOW'' \<and> adDecision d \<noteq> ''DENY'')"
  shows "gwForwards (snd (ig_decide cfg lib r req raw a n w)) = gwForwards w \<and> gwOutcomes (snd (ig_decide cfg lib r req raw a n w)) = gwOutcomes w"
proof -
  have "\<exists>e. ig_answer cfg lib r a n w = Inl e"
    using assms by (auto simp: ig_answer_def Authorize_def split: sum.splits prod.splits)
  then show ?thesis using decide_no_answer by blast
qed

text \<open>
  A decision with an id leaves exactly one outcome that names it: BLOCKED on DENY; on ALLOW, EXECUTED with the hash of
  the body that is returned, or FAILED.
\<close>

definition outcome_matches :: "ig_lib \<Rightarrow> AuthzDecision \<Rightarrow> string \<Rightarrow> ig_reply \<Rightarrow> ExecOutcome \<Rightarrow> bool" where
  "outcome_matches lib d tool reply x \<longleftrightarrow>
     ouDecisionID x = arDecisionID (adRecord d) \<and> ouTool x = tool
     \<and> (if \<not> authz_Allowed d then ouStatus x = StatusBlocked
        else case reply of
          IgRaw h body \<Rightarrow> ouStatus x = StatusExecuted \<and> ouResultHash x = HashResult (glSha lib) body
        | IgRpc h resp \<Rightarrow> ouStatus x = StatusFailed \<and> rpError resp \<noteq> None)"

lemma forward_outcome:
  "igForward cfg lib req raw i w = ((reply, out), w') \<Longrightarrow>
    (case reply of IgRaw h body \<Rightarrow> foStatus out = StatusExecuted \<and> foResultHash out = HashResult (glSha lib) body
      | IgRpc h resp \<Rightarrow> foStatus out = StatusFailed \<and> rpError resp \<noteq> None) \<and> gwOutcomes w' = gwOutcomes w"
  by (auto simp: igForward_def NewErrorResponse_def Let_def split: option.splits prod.splits sum.splits)

theorem decision_outcome:
  assumes "ig_answer cfg lib r a n w = Inr d" and "igExecutionOutcomes cfg" and "arDecisionID (adRecord d) \<noteq> []"
    and "ig_decide cfg lib r req raw a n w = (reply, w')"
  shows "\<exists>x. gwOutcomes w' = gwOutcomes w @ [x] \<and> outcome_matches lib d n reply x"
proof -
  obtain st where st: "Authorize (glDecision lib) (igAuthz cfg) (ig_request r a n) (gwStore w) = (Inr d, st)"
    using assms(1) by (cases "Authorize (glDecision lib) (igAuthz cfg) (ig_request r a n) (gwStore w)") (simp add: ig_answer_def)
  note h = assms(4) [unfolded ig_decide_def st prod.case sum.case Let_def]
  show ?thesis
  proof (cases "authz_Allowed d")
    case False
    with h assms(2,3) show ?thesis by (auto simp: emitOutcome_def outcome_matches_def outcome_status)
  next
    case True
    obtain rep out w2 where f: "igForward cfg lib req raw (arDecisionID (adRecord d)) (w\<lparr>gwStore := st\<rparr>) = ((rep, out), w2)"
      by (metis prod.exhaust)
    note fo = forward_outcome [OF f]
    have ne: "foStatus out \<noteq> []" using fo by (cases rep) (simp_all add: outcome_status)
    from h True f have e: "reply = rep" "w' = emitOutcome cfg (arDecisionID (adRecord d)) (ihHeader r (trace_header cfg)) n out w2" by simp_all
    show ?thesis using fo ne assms(2,3) True by (simp add: e emitOutcome_def outcome_matches_def split: ig_reply.splits)
  qed
qed

text \<open>
  Every method other than \<open>tools/call\<close> is forwarded without a decision, whatever the control plane would answer; the
  comment on the handler limits this to discovery and handshake methods.
\<close>

lemma other_methods_ungoverned:
  assumes "ihBody r = Inr body" and "glRequest lib (take (2 ^ 20) body) = Some req" and "rqMethod req \<noteq> MethodToolsCall"
    and "igUpstream cfg = Some up"
  shows "gwForwards (snd (NewIntentGrantMCPHandler cfg lib r w)) = gwForwards w @ [take (2 ^ 20) body]"
  using assms igForward_forwards(1) [of cfg lib req "take (2 ^ 20) body" "[]" w]
  by (auto simp: NewIntentGrantMCPHandler_def Let_def split: prod.split)

lemma resources_read_ungoverned:
  "gwForwards (snd (NewIntentGrantMCPHandler demo_ig demo_lib (ig_demo_http ''r'') idle)) = [''r'']"
  by (simp add: NewIntentGrantMCPHandler_def igForward_def demo_defs MethodToolsCall_def Let_def)

text \<open>Two observations with different event ids have different keys, as far as the hash is collision-free.\<close>

lemma dedup_key_distinct:
  assumes "inj sha" and "length e = length e'" and "length h = length h'"
    and "dedupKeyHex sha t c e h = dedupKeyHex sha t' c' e' h'"
  shows "e = e' \<and> h = h'"
proof -
  have "(t @ ''|'' @ c @ ''|'') @ (e @ ''|'' @ h) = (t' @ ''|'' @ c' @ ''|'') @ (e' @ ''|'' @ h')"
    using injD [OF assms(1) hex_encode_inj [OF assms(4) [unfolded dedupKeyHex_def]]] by simp
  moreover have "length (e @ ''|'' @ h) = length (e' @ ''|'' @ h')" using assms(2,3) by simp
  ultimately have "e @ ''|'' @ h = e' @ ''|'' @ h'" using append_eq_append_conv by blast
  with assms(2) show ?thesis by (simp add: append_eq_append_conv)
qed

end
