(* ===== verification/Credentials.thy ===== *)
theory Credentials
  imports Admin
begin

text \<open>
  Package \<open>internal/credentials\<close>: the secrets the gateway presents to the tool servers, sealed at rest, and the admin
  endpoints that manage them (\<open>internal/handlers/admin_credentials.go\<close>). AES-GCM is a pair of arguments with the law
  \<open>gcm_ok\<close>; random nonces, the clocks of gateway and database, and faults of the database are arguments of the
  operations. The table is an association list; the statements of \<open>postgres.go\<close> insert, replace, delete and read its
  rows. A Go map that is visited in no particular order is visited in the order of the list.

  The lemmas show that a sealed value opens to itself, that a durable store and its table agree after every operation,
  that what the list endpoint returns does not depend on the secrets, and who may change them.
\<close>

subsection \<open>Sealing (crypto.go)\<close>

fun b64_enc_pad :: "string \<Rightarrow> nat list \<Rightarrow> string" where
  "b64_enc_pad al [] = []"
| "b64_enc_pad al [a] = [al ! (a div 4), al ! (a mod 4 * 16), CHR ''='', CHR ''='']"
| "b64_enc_pad al [a, b] = [al ! (a div 4), al ! (a mod 4 * 16 + b div 16), al ! (b mod 16 * 4), CHR ''='']"
| "b64_enc_pad al (a # b # c # xs) =
     [al ! (a div 4), al ! (a mod 4 * 16 + b div 16), al ! (b mod 16 * 4 + c div 64), al ! (c mod 64)] @ b64_enc_pad al xs"

definition std_encode :: "bytes \<Rightarrow> string" where
  "std_encode b = b64_enc_pad std_alphabet (map of_char b)"

record gcm =
  gcSeal :: "bytes \<Rightarrow> bytes \<Rightarrow> bytes"
  gcOpen :: "bytes \<Rightarrow> bytes \<Rightarrow> bytes option"

definition nonceSize :: nat where "nonceSize = 12"

definition newSealer :: "(bytes \<Rightarrow> gcm) \<Rightarrow> bytes \<Rightarrow> int + gcm" where
  "newSealer aes key = (if length key \<noteq> 32 then Inl (int (length key)) else Inr (aes key))"

definition seal :: "gcm \<Rightarrow> bytes \<Rightarrow> string \<Rightarrow> string" where
  "seal g nonce plain = std_encode (nonce @ gcSeal g nonce plain)"

definition unseal :: "gcm \<Rightarrow> string \<Rightarrow> string option" where
  "unseal g enc =
     (case padded_decode std_alphabet enc of
        None \<Rightarrow> None
      | Some raw \<Rightarrow> if length raw < nonceSize then None else gcOpen g (take nonceSize raw) (drop nonceSize raw))"

definition gcm_ok :: "gcm \<Rightarrow> bool" where
  "gcm_ok g \<longleftrightarrow> (\<forall>nonce plain. length nonce = nonceSize \<longrightarrow> gcOpen g nonce (gcSeal g nonce plain) = Some plain)"

lemma std_alphabet_facts:
  "distinct std_alphabet" "length std_alphabet = 64" "CHR 0x0A \<notin> set std_alphabet" "CHR 0x0D \<notin> set std_alphabet"
  "CHR ''='' \<notin> set std_alphabet"
  by (simp_all add: std_alphabet_def)

lemma index_of_std [simp]: "i < 64 \<Longrightarrow> index_of (std_alphabet ! i) std_alphabet = Some i"
  by (simp add: index_of_nth std_alphabet_facts)

lemma std_not_pad [simp]: "i < 64 \<Longrightarrow> std_alphabet ! i \<noteq> CHR ''=''"
  using std_alphabet_facts(2,5) by (metis nth_mem)

lemma b64_dec_enc_pad: "\<forall>b \<in> set bs. b < 256 \<Longrightarrow> b64_dec_pad std_alphabet (b64_enc_pad std_alphabet bs) = Some bs"
proof (induction std_alphabet bs rule: b64_enc_pad.induct)
  case (2 a)
  then show ?case
    using group_arith(1) [where a = a and b = 0 and c = 0] by (simp add: group_index_bounds)
next
  case (3 a b)
  then show ?case
    using group_arith(1,2) [where a = a and b = b and c = 0] by (simp add: group_index_bounds)
next
  case (4 a b c xs)
  then show ?case
    using group_arith(1,2) [where a = a and b = b and c = c] group_arith(3) [where b = b and c = c]
    by (simp add: group_index_bounds)
qed simp

lemma set_b64_enc_pad: "\<forall>b \<in> set bs. b < 256 \<Longrightarrow> set (b64_enc_pad std_alphabet bs) \<subseteq> insert (CHR ''='') (set std_alphabet)"
  by (induction std_alphabet bs rule: b64_enc_pad.induct) (simp_all add: group_index_bounds std_alphabet_facts(2))

lemma std_decode_encode [simp]: "padded_decode std_alphabet (std_encode b) = Some b"
proof -
  have n: "\<forall>n \<in> set (map of_char b :: nat list). n < 256" by auto
  have "strip_newlines (std_encode b) = std_encode b"
    using set_b64_enc_pad [OF n] std_alphabet_facts(3,4) unfolding strip_newlines_def std_encode_def
    by (subst filter_id_conv) auto
  with b64_dec_enc_pad [OF n] show ?thesis by (simp add: padded_decode_def std_encode_def comp_def)
qed

theorem unseal_seal: "gcm_ok g \<Longrightarrow> length nonce = nonceSize \<Longrightarrow> unseal g (seal g nonce plain) = Some plain"
  by (simp add: unseal_def seal_def gcm_ok_def)

subsection \<open>Headers and entries (credentials.go)\<close>

definition cut_colon :: "string \<Rightarrow> (string \<times> string) option" where
  "cut_colon s = (if CHR '':'' \<in> set s then Some (takeWhile (\<lambda>c. c \<noteq> CHR '':'') s, tl (dropWhile (\<lambda>c. c \<noteq> CHR '':'') s)) else None)"

definition parseHeader :: "string \<Rightarrow> (string \<times> string) option" where
  "parseHeader raw =
     (case cut_colon (trim_space raw) of
        None \<Rightarrow> None
      | Some (n, v) \<Rightarrow>
          if trim_space n = [] \<or> trim_space v = [] then None else Some (trim_space n, trim_space v))"

record cred_entry =
  ceName :: string
  ceValue :: string
  ceRotatedAt :: gotime
  ceOwner :: string
  ceExpiresAt :: gotime

record cred_info =
  ciTool :: string
  ciHeader :: string
  ciRotatedAt :: string
  ciOwner :: string
  ciExpiresAt :: string

text \<open>\<open>New\<close>: the environment-configured store; the tool of the first entry that does not parse is reported.\<close>

fun env_entries :: "(string \<times> string) list \<Rightarrow> (string \<times> cred_entry) list \<Rightarrow> string + (string \<times> cred_entry) list" where
  "env_entries [] m = Inr m"
| "env_entries ((tool, raw) # rest) m =
     (case parseHeader raw of
        None \<Rightarrow> Inl tool
      | Some (n, v) \<Rightarrow> env_entries rest (AList.update (trim_space tool)
          \<lparr>ceName = n, ceValue = v, ceRotatedAt = 0, ceOwner = [], ceExpiresAt = 0\<rparr> m))"

definition HeaderFor :: "(string \<times> cred_entry) list \<Rightarrow> string \<Rightarrow> (string \<times> string) option" where
  "HeaderFor m tool = map_option (\<lambda>e. (ceName e, ceValue e)) (map_of m tool)"

definition shown_time :: "(gotime \<Rightarrow> string) \<Rightarrow> gotime \<Rightarrow> string" where
  "shown_time fmt t = (if is_zero t then [] else fmt t)"

definition cred_List :: "(gotime \<Rightarrow> string) \<Rightarrow> (string \<times> cred_entry) list \<Rightarrow> cred_info list" where
  "cred_List fmt m = sort_key ciTool (map (\<lambda>(t, e). \<lparr>ciTool = t, ciHeader = ceName e, ciRotatedAt = shown_time fmt (ceRotatedAt e),
     ciOwner = ceOwner e, ciExpiresAt = shown_time fmt (ceExpiresAt e)\<rparr>) m)"

definition cred_Tools :: "(string \<times> cred_entry) list \<Rightarrow> string list" where
  "cred_Tools m = sort (map fst m)"

subsection \<open>The table (postgres.go)\<close>

record cred_row =
  cwEnc :: string
  cwUpdatedAt :: gotime
  cwOwner :: string
  cwExpiresAt :: "gotime option"

type_synonym cred_table = "(string \<times> cred_row) list"

record persistedCred =
  pcRaw :: string
  pcRotatedAt :: gotime
  pcOwner :: string
  pcExpiresAt :: gotime

definition open_row :: "gcm \<Rightarrow> cred_row \<Rightarrow> persistedCred option" where
  "open_row g r = map_option (\<lambda>plain. \<lparr>pcRaw = plain, pcRotatedAt = cwUpdatedAt r, pcOwner = cwOwner r,
     pcExpiresAt = (case cwExpiresAt r of None \<Rightarrow> 0 | Some t \<Rightarrow> t)\<rparr>) (unseal g (cwEnc r))"

text \<open>A row that does not decrypt fails the whole read; its tool is reported.\<close>

fun loadAllMeta :: "gcm \<Rightarrow> cred_table \<Rightarrow> string + (string \<times> persistedCred) list" where
  "loadAllMeta g [] = Inr []"
| "loadAllMeta g ((tool, r) # rows) =
     (case open_row g r of
        None \<Rightarrow> Inl tool
      | Some pc \<Rightarrow> (case loadAllMeta g rows of Inl e \<Rightarrow> Inl e | Inr m \<Rightarrow> Inr ((tool, pc) # m)))"

definition upsertMeta :: "gcm \<Rightarrow> bytes \<Rightarrow> gotime \<Rightarrow> string \<Rightarrow> string \<Rightarrow> string \<Rightarrow> gotime \<Rightarrow> cred_table \<Rightarrow> cred_table" where
  "upsertMeta g nonce dbNow tool raw owner expiresAt rows =
     AList.update tool \<lparr>cwEnc = seal g nonce raw, cwUpdatedAt = dbNow, cwOwner = owner,
       cwExpiresAt = (if is_zero expiresAt then None else Some expiresAt)\<rparr> rows"

definition removeRow :: "string \<Rightarrow> cred_table \<Rightarrow> cred_table" where
  "removeRow tool rows = AList.delete tool rows"

subsection \<open>The store\<close>

record cred_store =
  crPerTool :: "(string \<times> cred_entry) list"
  crDb :: "gcm option"
  crRows :: cred_table

record cred_env =
  cvNow :: gotime
  cvDbNow :: gotime
  cvNonce :: bytes
  cvFault :: "string option"

definition header_error :: string where
  "header_error = ''must be '' @ CHR 0x22 # ''Header-Name: value'' @ [CHR 0x22]"

definition SetMeta :: "cred_env \<Rightarrow> string \<Rightarrow> string \<Rightarrow> string \<Rightarrow> gotime \<Rightarrow> cred_store \<Rightarrow> string option \<times> cred_store" where
  "SetMeta env tool0 raw owner0 expiresAt s =
     (let tool = trim_space tool0; owner = trim_space owner0 in
      case parseHeader raw of
        None \<Rightarrow> (Some header_error, s)
      | Some (n, v) \<Rightarrow>
          (let put = (\<lambda>s. s\<lparr>crPerTool := AList.update tool \<lparr>ceName = n, ceValue = v, ceRotatedAt = cvNow env, ceOwner = owner,
                 ceExpiresAt = expiresAt\<rparr> (crPerTool s)\<rparr>) in
           case crDb s of
             None \<Rightarrow> (None, put s)
           | Some g \<Rightarrow>
               (case cvFault env of
                  Some e \<Rightarrow> (Some e, s)
                | None \<Rightarrow> (None, put (s\<lparr>crRows := upsertMeta g (cvNonce env) (cvDbNow env) tool raw owner expiresAt (crRows s)\<rparr>)))))"

definition cred_Set :: "cred_env \<Rightarrow> string \<Rightarrow> string \<Rightarrow> cred_store \<Rightarrow> string option \<times> cred_store" where
  "cred_Set env tool raw s = SetMeta env tool raw [] 0 s"

definition cred_Remove :: "cred_env \<Rightarrow> string \<Rightarrow> cred_store \<Rightarrow> string option \<times> cred_store" where
  "cred_Remove env tool0 s =
     (let tool = trim_space tool0; drop' = (\<lambda>s. s\<lparr>crPerTool := AList.delete tool (crPerTool s)\<rparr>) in
      case crDb s of
        None \<Rightarrow> (None, drop' s)
      | Some g \<Rightarrow> (case cvFault env of Some e \<Rightarrow> (Some e, s) | None \<Rightarrow> (None, drop' (s\<lparr>crRows := removeRow tool (crRows s)\<rparr>))))"

text \<open>The entry a persisted credential stands for; the whole read fails on one that does not parse.\<close>

definition cred_entry_of :: "persistedCred \<Rightarrow> cred_entry option" where
  "cred_entry_of pc = map_option (\<lambda>(n, v). \<lparr>ceName = n, ceValue = v, ceRotatedAt = pcRotatedAt pc, ceOwner = pcOwner pc,
     ceExpiresAt = pcExpiresAt pc\<rparr>) (parseHeader (pcRaw pc))"

fun parse_persisted :: "(string \<times> persistedCred) list \<Rightarrow> string + (string \<times> cred_entry) list" where
  "parse_persisted [] = Inr []"
| "parse_persisted ((tool, pc) # rest) =
     (case cred_entry_of pc of
        None \<Rightarrow> Inl tool
      | Some e \<Rightarrow> (case parse_persisted rest of Inl x \<Rightarrow> Inl x | Inr m \<Rightarrow> Inr ((tool, e) # m)))"

definition cred_Reload :: "cred_env \<Rightarrow> cred_store \<Rightarrow> string option \<times> cred_store" where
  "cred_Reload env s =
     (case crDb s of
        None \<Rightarrow> (None, s)
      | Some g \<Rightarrow>
          (case cvFault env of
             Some e \<Rightarrow> (Some e, s)
           | None \<Rightarrow>
               (case loadAllMeta g (crRows s) of
                  Inl tool \<Rightarrow> (Some tool, s)
                | Inr m \<Rightarrow> (case parse_persisted m of Inl tool \<Rightarrow> (Some tool, s) | Inr next \<Rightarrow> (None, s\<lparr>crPerTool := next\<rparr>)))))"

text \<open>\<open>NewPostgres\<close>: the persisted entries, then the seeded tools that are not among them, each with its own clock and nonce.\<close>

fun seed_all :: "(string \<times> string \<times> cred_env) list \<Rightarrow> cred_store \<Rightarrow> string + cred_store" where
  "seed_all [] s = Inr s"
| "seed_all ((tool, raw, env) # rest) s =
     (if map_of (crPerTool s) (trim_space tool) \<noteq> None then seed_all rest s
      else case cred_Set env tool raw s of (Some e, _) \<Rightarrow> Inl tool | (None, s') \<Rightarrow> seed_all rest s')"

definition NewPostgres :: "cred_env \<Rightarrow> gcm \<Rightarrow> cred_table \<Rightarrow> (string \<times> string \<times> cred_env) list \<Rightarrow> string + cred_store" where
  "NewPostgres env g rows seed =
     (case cred_Reload env \<lparr>crPerTool = [], crDb = Some g, crRows = rows\<rparr> of
        (Some e, _) \<Rightarrow> Inl e
      | (None, s) \<Rightarrow> seed_all seed s)"

subsection \<open>Store and table agree\<close>

lemma load_map_of: "loadAllMeta g rows = Inr m \<Longrightarrow> map_of m t = Option.bind (map_of rows t) (open_row g)"
  by (induction rows arbitrary: m) (auto split: option.splits sum.splits)

lemma parse_map_of: "parse_persisted m = Inr es \<Longrightarrow> map_of es t = Option.bind (map_of m t) cred_entry_of"
  by (induction m arbitrary: es) (auto split: option.splits sum.splits)

definition entry_of :: "gcm \<Rightarrow> cred_row \<Rightarrow> cred_entry option" where
  "entry_of g r = Option.bind (open_row g r) cred_entry_of"

lemma reload_succeeds:
  assumes "\<forall>(t, r) \<in> set rows. entry_of g r \<noteq> None"
  shows "\<exists>m es. loadAllMeta g rows = Inr m \<and> parse_persisted m = Inr es"
  using assms
proof (induction rows)
  case (Cons x rows)
  obtain t r where x: "x = (t, r)" by (cases x)
  from Cons obtain m es where m: "loadAllMeta g rows = Inr m" "parse_persisted m = Inr es" by auto
  from Cons.prems x obtain pc e where "open_row g r = Some pc" "cred_entry_of pc = Some e"
    by (auto simp: entry_of_def Option.bind_eq_Some_conv)
  with m x show ?case by simp
qed simp

text \<open>What an entry holds besides the time of its rotation, which gateway and database read from different clocks.\<close>

definition timeless :: "cred_entry \<Rightarrow> cred_entry" where
  "timeless e = e\<lparr>ceRotatedAt := 0\<rparr>"

definition cred_synced :: "cred_store \<Rightarrow> bool" where
  "cred_synced s \<longleftrightarrow>
     (case crDb s of
        None \<Rightarrow> True
      | Some g \<Rightarrow> distinct (map fst (crRows s)) \<and> (\<forall>(t, r) \<in> set (crRows s). entry_of g r \<noteq> None)
          \<and> (\<forall>t. map_option timeless (map_of (crPerTool s) t)
                = map_option timeless (Option.bind (map_of (crRows s) t) (entry_of g))))"

lemma upserted_row:
  assumes "gcm_ok g" and "length nonce = nonceSize" and "parseHeader raw = Some (n, v)"
  shows "entry_of g \<lparr>cwEnc = seal g nonce raw, cwUpdatedAt = dbNow, cwOwner = owner,
      cwExpiresAt = (if is_zero expiresAt then None else Some expiresAt)\<rparr>
    = Some \<lparr>ceName = n, ceValue = v, ceRotatedAt = dbNow, ceOwner = owner, ceExpiresAt = expiresAt\<rparr>"
  using assms by (simp add: entry_of_def open_row_def unseal_seal cred_entry_of_def is_zero_def)

lemma update_rows_sub: "set (AList.update k v xs) \<subseteq> insert (k, v) (set xs)"
  by (induction xs) auto

lemma synced_SetMeta:
  assumes "cred_synced s" and "\<forall>g. crDb s = Some g \<longrightarrow> gcm_ok g" and "length (cvNonce env) = nonceSize"
  shows "cred_synced (snd (SetMeta env tool raw owner expiresAt s))"
proof (cases "parseHeader raw")
  case (Some nv)
  obtain n v where nv: "nv = (n, v)" by (cases nv)
  show ?thesis
  proof (cases "crDb s")
    case (Some g)
    show ?thesis
    proof (cases "cvFault env")
      case None
      have u: "entry_of g \<lparr>cwEnc = seal g (cvNonce env) raw, cwUpdatedAt = cvDbNow env, cwOwner = trim_space owner,
          cwExpiresAt = (if is_zero expiresAt then None else Some expiresAt)\<rparr>
        = Some \<lparr>ceName = n, ceValue = v, ceRotatedAt = cvDbNow env, ceOwner = trim_space owner, ceExpiresAt = expiresAt\<rparr>"
        using assms(2,3) Some \<open>parseHeader raw = Some nv\<close> nv by (intro upserted_row) simp_all
      show ?thesis using assms(1) Some None \<open>parseHeader raw = Some nv\<close> nv u
          update_rows_sub [of "trim_space tool" _ "crRows s"]
        by (fastforce simp: SetMeta_def Let_def cred_synced_def upsertMeta_def distinct_update update_conv' timeless_def)
    qed (use assms Some \<open>parseHeader raw = Some nv\<close> nv in \<open>simp add: SetMeta_def Let_def\<close>)
  qed (use assms \<open>parseHeader raw = Some nv\<close> nv in \<open>simp add: SetMeta_def Let_def cred_synced_def\<close>)
qed (use assms in \<open>simp add: SetMeta_def\<close>)

lemma synced_Remove:
  assumes "cred_synced s"
  shows "cred_synced (snd (cred_Remove env tool s))"
proof (cases "crDb s")
  case (Some g)
  show ?thesis
  proof (cases "cvFault env")
    case None
    have "set (AList.delete (trim_space tool) (crRows s)) \<subseteq> set (crRows s)" by (auto simp: AList.delete_eq)
    with assms Some None show ?thesis
      by (auto simp: cred_Remove_def Let_def cred_synced_def removeRow_def distinct_delete delete_conv' dest: subsetD)
  qed (use assms Some in \<open>simp add: cred_Remove_def Let_def\<close>)
qed (use assms in \<open>simp add: cred_Remove_def Let_def cred_synced_def\<close>)

lemma synced_Reload:
  assumes "cred_synced s" and "cvFault env = None"
  shows "fst (cred_Reload env s) = None \<and> cred_synced (snd (cred_Reload env s))
    \<and> (\<forall>t. map_option timeless (map_of (crPerTool (snd (cred_Reload env s))) t) = map_option timeless (map_of (crPerTool s) t))"
proof (cases "crDb s")
  case (Some g)
  with assms have c: "distinct (map fst (crRows s))" "\<forall>(t, r) \<in> set (crRows s). entry_of g r \<noteq> None"
    "\<And>t. map_option timeless (map_of (crPerTool s) t) = map_option timeless (Option.bind (map_of (crRows s) t) (entry_of g))"
    by (simp_all add: cred_synced_def)
  obtain m es where m: "loadAllMeta g (crRows s) = Inr m" "parse_persisted m = Inr es" using reload_succeeds [OF c(2)] by blast
  have es: "map_of es t = Option.bind (map_of (crRows s) t) (entry_of g)" for t
    using load_map_of [OF m(1)] parse_map_of [OF m(2)] by (cases "map_of (crRows s) t") (simp_all add: entry_of_def)
  show ?thesis using Some assms(2) m c es by (simp add: cred_Reload_def cred_synced_def)
qed (use assms in \<open>simp add: cred_Reload_def\<close>)

text \<open>Hence a reload, on whatever replica, presents the same header for every tool.\<close>

theorem reload_same_headers:
  assumes "cred_synced s" and "cvFault env = None"
  shows "HeaderFor (crPerTool (snd (cred_Reload env s))) tool = HeaderFor (crPerTool s) tool"
proof -
  have h: "HeaderFor m tool = map_option (\<lambda>e. (ceName e, ceValue e)) (map_option timeless (map_of m tool))" for m
    by (simp add: HeaderFor_def option.map_comp comp_def timeless_def)
  show ?thesis using synced_Reload [OF assms] by (simp add: h)
qed

lemma set_then_presented:
  assumes "SetMeta env tool raw owner expiresAt s = (None, s')"
  shows "HeaderFor (crPerTool s') (trim_space tool) = parseHeader raw"
    "t \<noteq> trim_space tool \<Longrightarrow> HeaderFor (crPerTool s') t = HeaderFor (crPerTool s) t"
  using assms by (auto simp: SetMeta_def HeaderFor_def Let_def update_conv' split: option.splits prod.splits)

subsection \<open>The endpoints (handlers/admin_credentials.go)\<close>

record credentialBody =
  cbTool :: string
  cbCredential :: string
  cbOwner :: string
  cbExpiresAt :: string

definition NewAdminCredentialsListHandler :: "AdminConfig \<Rightarrow> (gotime \<Rightarrow> string) \<Rightarrow> admin_request \<Rightarrow> cred_store option
    \<Rightarrow> cred_info list admin_reply" where
  "NewAdminCredentialsListHandler cfg fmt r store =
     (if \<not> aaOk (resolveAdminAuth r cfg) then unauthorized
      else case store of
        None \<Rightarrow> AdminError 503 ''per-tool credentials not configured''
      | Some s \<Rightarrow> AdminOk 200 (cred_List fmt (crPerTool s)))"

definition NewAdminCredentialsSetHandler :: "AdminConfig \<Rightarrow> cred_env \<Rightarrow> (string \<Rightarrow> string + gotime) \<Rightarrow> admin_request
    \<Rightarrow> string + credentialBody \<Rightarrow> cred_store option \<Rightarrow> unit admin_reply \<times> cred_store option" where
  "NewAdminCredentialsSetHandler cfg env parse r decoded store =
     (if \<not> aaOk (resolveAdminAuth r cfg) then (unauthorized, store)
      else case store of
        None \<Rightarrow> (AdminError 503 ''per-tool credentials not configured'', store)
      | Some s \<Rightarrow>
          (case decoded of
             Inl e \<Rightarrow> (AdminError 400 (''invalid JSON: '' @ e), store)
           | Inr body \<Rightarrow>
               if trim_space (cbTool body) = [] then (AdminError 400 ''tool is required'', store)
               else
                 (case (if trim_space (cbExpiresAt body) = [] then Inr 0 else parse (trim_space (cbExpiresAt body))) of
                    Inl e \<Rightarrow> (AdminError 400 (''expires_at must be RFC3339: '' @ e), store)
                  | Inr expiresAt \<Rightarrow>
                      (case SetMeta env (cbTool body) (cbCredential body) (cbOwner body) expiresAt s of
                         (Some e, s') \<Rightarrow> (AdminError 400 e, Some s')
                       | (None, s') \<Rightarrow> (AdminOk 200 (), Some s')))))"

definition NewAdminCredentialsDeleteHandler :: "AdminConfig \<Rightarrow> cred_env \<Rightarrow> admin_request \<Rightarrow> cred_store option
    \<Rightarrow> unit admin_reply \<times> cred_store option" where
  "NewAdminCredentialsDeleteHandler cfg env r store =
     (if \<not> aaOk (resolveAdminAuth r cfg) then (unauthorized, store)
      else case store of
        None \<Rightarrow> (AdminError 503 ''per-tool credentials not configured'', store)
      | Some s \<Rightarrow>
          if trim_space (aqPathID r) = [] then (AdminError 400 ''tool is required'', store)
          else
            (case cred_Remove env (trim_space (aqPathID r)) s of
               (Some e, s') \<Rightarrow> (AdminError 503 (''store error: '' @ e), Some s')
             | (None, s') \<Rightarrow> (AdminOk 200 (), Some s')))"

datatype cred_call =
    ListCall admin_request
  | SetCall admin_request "string + credentialBody" cred_env
  | DeleteCall admin_request cred_env

datatype cred_reply = Listed "cred_info list admin_reply" | Done "unit admin_reply"

definition cred_serve :: "AdminConfig \<Rightarrow> (gotime \<Rightarrow> string) \<Rightarrow> (string \<Rightarrow> string + gotime) \<Rightarrow> cred_call \<Rightarrow> cred_store option
    \<Rightarrow> cred_reply \<times> cred_store option" where
  "cred_serve cfg fmt parse c store =
     (case c of
        ListCall r \<Rightarrow> (Listed (NewAdminCredentialsListHandler cfg fmt r store), store)
      | SetCall r body env \<Rightarrow> map_prod Done id (NewAdminCredentialsSetHandler cfg env parse r body store)
      | DeleteCall r env \<Rightarrow> map_prod Done id (NewAdminCredentialsDeleteHandler cfg env r store))"

fun replies :: "('c \<Rightarrow> 's \<Rightarrow> 'o \<times> 's) \<Rightarrow> 'c list \<Rightarrow> 's \<Rightarrow> 'o list" where
  "replies serve [] s = []"
| "replies serve (c # cs) s = (case serve c s of (out, s') \<Rightarrow> out # replies serve cs s')"

definition cred_session :: "AdminConfig \<Rightarrow> (gotime \<Rightarrow> string) \<Rightarrow> (string \<Rightarrow> string + gotime) \<Rightarrow> cred_call list \<Rightarrow> cred_store option
    \<Rightarrow> cred_reply list" where
  "cred_session cfg fmt parse calls store = replies (cred_serve cfg fmt parse) calls store"

subsection \<open>Unwinding\<close>

text \<open>A service whose replies agree on states that cannot be told apart, and that keeps them so, hides the difference.\<close>

locale unwinding =
  fixes serve :: "'c \<Rightarrow> 's \<Rightarrow> 'o \<times> 's"
    and same :: "'s \<Rightarrow> 's \<Rightarrow> bool"
  assumes same_reply: "same x y \<Longrightarrow> fst (serve c x) = fst (serve c y)"
    and same_after: "same x y \<Longrightarrow> same (snd (serve c x)) (snd (serve c y))"
begin

lemma replies_same: "same x y \<Longrightarrow> replies serve calls x = replies serve calls y"
proof (induction calls arbitrary: x y)
  case (Cons c calls)
  have "replies serve calls (snd (serve c x)) = replies serve calls (snd (serve c y))"
    by (rule Cons.IH) (rule same_after [OF Cons.prems])
  then show ?case using same_reply [OF Cons.prems, of c] by (simp add: split_def)
qed simp

end

subsection \<open>Secrets are write-only\<close>

text \<open>Two stores that hold the same entries with the same metadata, whatever the secrets are.\<close>

definition hidden :: "(string \<times> cred_entry) list \<Rightarrow> (string \<times> cred_entry) list" where
  "hidden m = map (\<lambda>(t, e). (t, e\<lparr>ceValue := []\<rparr>)) m"

definition alike :: "cred_store option \<Rightarrow> cred_store option \<Rightarrow> bool" where
  "alike x y \<longleftrightarrow>
     (case (x, y) of
        (None, None) \<Rightarrow> True
      | (Some s, Some s') \<Rightarrow> hidden (crPerTool s) = hidden (crPerTool s') \<and> (crDb s = None \<longleftrightarrow> crDb s' = None)
      | _ \<Rightarrow> False)"

lemma hidden_update: "hidden m = hidden m' \<Longrightarrow> hidden (AList.update t e m) = hidden (AList.update t e m')"
proof (induction m arbitrary: m')
  case Nil
  then show ?case by (simp add: hidden_def)
next
  case (Cons x m)
  then obtain y m2 where m': "m' = y # m2" by (cases m') (auto simp: hidden_def)
  with Cons show ?case by (cases x; cases y) (auto simp: hidden_def)
qed

lemma hidden_delete: "hidden m = hidden m' \<Longrightarrow> hidden (AList.delete t m) = hidden (AList.delete t m')"
proof (induction m arbitrary: m')
  case Nil
  then show ?case by (simp add: hidden_def)
next
  case (Cons x m)
  then obtain y m2 where m': "m' = y # m2" by (cases m') (auto simp: hidden_def)
  with Cons show ?case by (cases x; cases y) (auto simp: hidden_def AList.delete_eq)
qed

lemma hidden_list: "hidden m = hidden m' \<Longrightarrow> cred_List fmt m = cred_List fmt m'"
proof -
  have "cred_List fmt m = cred_List fmt (hidden m)" for m by (simp add: cred_List_def hidden_def comp_def split_def)
  then show "hidden m = hidden m' \<Longrightarrow> cred_List fmt m = cred_List fmt m'" by metis
qed

lemma alike_SetMeta:
  assumes "alike (Some s) (Some s')"
  shows "fst (SetMeta env t raw o' x s) = fst (SetMeta env t raw o' x s')
    \<and> alike (Some (snd (SetMeta env t raw o' x s))) (Some (snd (SetMeta env t raw o' x s')))"
  using assms hidden_update [of "crPerTool s" "crPerTool s'"]
  by (auto simp: SetMeta_def alike_def Let_def split: option.splits prod.splits)

lemma alike_Remove:
  assumes "alike (Some s) (Some s')"
  shows "fst (cred_Remove env t s) = fst (cred_Remove env t s')
    \<and> alike (Some (snd (cred_Remove env t s))) (Some (snd (cred_Remove env t s')))"
  using assms hidden_delete [of "crPerTool s" "crPerTool s'"]
  by (auto simp: cred_Remove_def alike_def Let_def split: option.splits)

lemma alike_cases:
  assumes "alike x y"
  obtains "x = None" "y = None" | s s' where "x = Some s" "y = Some s'"
  using assms by (auto simp: alike_def split: option.splits)

lemma alike_set:
  assumes "alike x y"
  shows "fst (NewAdminCredentialsSetHandler cfg env parse r body x) = fst (NewAdminCredentialsSetHandler cfg env parse r body y)
    \<and> alike (snd (NewAdminCredentialsSetHandler cfg env parse r body x)) (snd (NewAdminCredentialsSetHandler cfg env parse r body y))"
  using assms
proof (cases rule: alike_cases)
  case (2 s s')
  have step: "fst (case SetMeta env t raw o' e s of (Some m, z) \<Rightarrow> (AdminError 400 m, Some z) | (None, z) \<Rightarrow> (AdminOk 200 (), Some z))
        = fst (case SetMeta env t raw o' e s' of (Some m, z) \<Rightarrow> (AdminError 400 m, Some z) | (None, z) \<Rightarrow> (AdminOk 200 (), Some z))
      \<and> alike (snd (case SetMeta env t raw o' e s of (Some m, z) \<Rightarrow> (AdminError 400 m, Some z) | (None, z) \<Rightarrow> (AdminOk 200 (), Some z)))
          (snd (case SetMeta env t raw o' e s' of (Some m, z) \<Rightarrow> (AdminError 400 m, Some z) | (None, z) \<Rightarrow> (AdminOk 200 (), Some z)))"
    for t raw o' e
    using alike_SetMeta [of s s' env t raw o' e] assms 2
    by (cases "SetMeta env t raw o' e s"; cases "SetMeta env t raw o' e s'") (auto split: option.splits)
  show ?thesis using assms step unfolding NewAdminCredentialsSetHandler_def 2 option.case by (auto split: sum.splits)
qed (simp add: NewAdminCredentialsSetHandler_def alike_def)

lemma alike_delete:
  assumes "alike x y"
  shows "fst (NewAdminCredentialsDeleteHandler cfg env r x) = fst (NewAdminCredentialsDeleteHandler cfg env r y)
    \<and> alike (snd (NewAdminCredentialsDeleteHandler cfg env r x)) (snd (NewAdminCredentialsDeleteHandler cfg env r y))"
  using assms
proof (cases rule: alike_cases)
  case (2 s s')
  let ?t = "trim_space (aqPathID r)"
  obtain e z e' z' where q: "cred_Remove env ?t s = (e, z)" "cred_Remove env ?t s' = (e', z')" by (meson surj_pair)
  with alike_Remove [of s s' env ?t] assms 2 have "e = e'" "alike (Some z) (Some z')" by auto
  with assms show ?thesis unfolding NewAdminCredentialsDeleteHandler_def 2 option.case q by (auto split: option.splits)
qed (simp add: NewAdminCredentialsDeleteHandler_def alike_def)

lemma alike_list:
  assumes "alike x y"
  shows "NewAdminCredentialsListHandler cfg fmt r x = NewAdminCredentialsListHandler cfg fmt r y"
  using assms
proof (cases rule: alike_cases)
  case (2 s s')
  with assms have "hidden (crPerTool s) = hidden (crPerTool s')" by (simp add: alike_def)
  from hidden_list [OF this, of fmt] show ?thesis by (simp add: NewAdminCredentialsListHandler_def 2)
qed simp

lemma alike_serve:
  assumes "alike x y"
  shows "fst (cred_serve cfg fmt parse c x) = fst (cred_serve cfg fmt parse c y)
    \<and> alike (snd (cred_serve cfg fmt parse c x)) (snd (cred_serve cfg fmt parse c y))"
  using assms alike_set [OF assms] alike_delete [OF assms] alike_list [OF assms] by (cases c) (simp_all add: cred_serve_def)

interpretation creds: unwinding "cred_serve cfg fmt parse" alike for cfg fmt parse
  by unfold_locales (use alike_serve in blast)+

text \<open>
  C20. Secrets are write-only: whatever calls are made to the credential endpoints, with whatever token, the replies are
  the same for any two stores that differ only in the secrets they hold.
\<close>

theorem secrets_write_only:
  assumes "alike x y"
  shows "cred_session cfg fmt parse calls x = cred_session cfg fmt parse calls y"
  unfolding cred_session_def using assms by (rule creds.replies_same)

definition one_secret :: "string \<Rightarrow> cred_store option" where
  "one_secret v = Some \<lparr>crPerTool = [(''pay'', \<lparr>ceName = ''X-Key'', ceValue = v, ceRotatedAt = 0, ceOwner = [], ceExpiresAt = 0\<rparr>)],
     crDb = None, crRows = []\<rparr>"

definition tenant_cfg :: AdminConfig where
  "tenant_cfg = sample_admin\<lparr>acTenantAdmins := [(''acme'', ''acme-token'')]\<rparr>"

definition tenant_request :: admin_request where
  "tenant_request = sample_admin_request ''Bearer acme-token''"

theorem secrets_write_only_witness:
  "cred_session tenant_cfg (\<lambda>_. []) (\<lambda>_. Inr 0) [ListCall tenant_request] (one_secret ''s1'')
     = cred_session tenant_cfg (\<lambda>_. []) (\<lambda>_. Inr 0) [ListCall tenant_request] (one_secret ''s2'')
   \<and> one_secret ''s1'' \<noteq> one_secret ''s2''"
proof -
  have "alike (one_secret ''s1'') (one_secret ''s2'')" by (simp add: alike_def one_secret_def hidden_def)
  moreover have "one_secret ''s1'' \<noteq> one_secret ''s2''" by (simp add: one_secret_def)
  ultimately show ?thesis using secrets_write_only by blast
qed

text \<open>
  The endpoints accept every admin token and the store has no tenants: the token of one tenant replaces the secret that
  all tenants' calls to a tool are forwarded with.
\<close>

lemma tenant_replaces_shared_secret:
  "aaTenant (resolveAdminAuth tenant_request tenant_cfg) = ''acme''"
  "map_option (\<lambda>s. HeaderFor (crPerTool s) ''pay'') (snd (NewAdminCredentialsSetHandler tenant_cfg
      \<lparr>cvNow = 1, cvDbNow = 1, cvNonce = [], cvFault = None\<rparr> (\<lambda>_. Inr 0) tenant_request
      (Inr \<lparr>cbTool = ''pay'', cbCredential = ''X-Key: mine'', cbOwner = [], cbExpiresAt = []\<rparr>) (one_secret ''s1'')))
    = Some (Some (''X-Key'', ''mine''))"
  by code_simp+

end
