(* ===== verification/FlowMap.thy ===== *)
theory FlowMap
  imports EastWest AuditEvent "HOL-Library.AList" "HOL-Library.Char_ord" "HOL-Library.List_Lexorder"
    "HOL-Library.Product_Lexorder" "HOL-Library.Multiset"
begin

text \<open>
  Packages \<open>internal/flowmap\<close> and \<open>internal/segrec\<close>: the graph of observed calls and the segmentation policy proposed
  from it, with the wiring of \<open>NewAdminFlowRecommendHandler\<close> in \<open>internal/handlers/admin.go\<close>. Go maps are association
  lists, visited in the order of insertion; everything the packages return is sorted. The map of tenants seen on an
  edge always agrees with the list the edge keeps, so only the list is modelled.

  The lemmas show that an edge counts exactly the calls it stands for, that the stage an edge is attributed to does not
  depend on the order a map is visited in, and that the guard of theory \<open>EastWest\<close> run on the proposal allows exactly
  the calls that were observed and allowed; three examples show where names make the proposal differ from the traffic.
\<close>

subsection \<open>The graph of calls (flowmap.go)\<close>

record Call =
  fcAgent :: string
  fcTool :: string
  fcTenant :: string
  fcDecision :: string
  fcCheck :: string

datatype NodeKind = NodeAgent | NodeTool
datatype EdgeKind = EdgeNorthSouth | EdgeEastWest

record Edge =
  edFrom :: string
  edTo :: string
  edKind :: EdgeKind
  edAllow :: nat
  edBlock :: nat
  edEscalate :: nat
  edTotal :: nat
  edTenants :: "string list"
  edDecidedAt :: string

record Graph =
  gNodes :: "(string \<times> NodeKind) list"
  gEdges :: "Edge list"

definition dominant_step :: "string \<times> nat \<Rightarrow> string \<times> int \<Rightarrow> string \<times> int" where
  "dominant_step x b = (case x of (k, n) \<Rightarrow> case b of (best, bestN) \<Rightarrow>
     if bestN < int n \<or> (int n = bestN \<and> k < best) then (k, int n) else (best, bestN))"

definition dominant :: "(string \<times> nat) list \<Rightarrow> string" where
  "dominant m = (let best = fst (fold dominant_step m ([], - 1)) in if best = [] then ''policy'' else best)"

definition agentTarget :: "string \<Rightarrow> string \<Rightarrow> string option" where
  "agentTarget p tool = (if p = [] \<or> \<not> has_prefix tool p then None else Some (drop (length p) tool))"

definition adminToolPrefix :: string where "adminToolPrefix = ''admin/''"

text \<open>The edge a call belongs to; \<^const>\<open>None\<close> when it is skipped.\<close>

definition call_edge :: "string \<Rightarrow> Call \<Rightarrow> (string \<times> string \<times> EdgeKind) option" where
  "call_edge p c =
     (if fcAgent c = [] \<or> fcTool c = [] then None
      else if has_prefix (fcTool c) adminToolPrefix then None
      else case agentTarget p (fcTool c) of
             Some callee \<Rightarrow> if callee = [] then None else Some (fcAgent c, callee, EdgeEastWest)
           | None \<Rightarrow> Some (fcAgent c, fcTool c, EdgeNorthSouth))"

record flow_acc =
  faKinds :: "(string \<times> NodeKind) list"
  faEdges :: "((string \<times> string) \<times> Edge) list"
  faBlockChk :: "((string \<times> string) \<times> (string \<times> nat) list) list"
  faEscChk :: "((string \<times> string) \<times> (string \<times> nat) list) list"

definition setAgent :: "string \<Rightarrow> (string \<times> NodeKind) list \<Rightarrow> (string \<times> NodeKind) list" where
  "setAgent n ks = AList.update n NodeAgent ks"

definition setTool :: "string \<Rightarrow> (string \<times> NodeKind) list \<Rightarrow> (string \<times> NodeKind) list" where
  "setTool n ks = (if map_of ks n = None then AList.update n NodeTool ks else ks)"

definition bump :: "string \<Rightarrow> (string \<times> nat) list \<Rightarrow> (string \<times> nat) list" where
  "bump k m = AList.update k (Suc (case map_of m k of None \<Rightarrow> 0 | Some n \<Rightarrow> n)) m"

definition bump_at :: "string \<times> string \<Rightarrow> string \<Rightarrow> ((string \<times> string) \<times> (string \<times> nat) list) list
    \<Rightarrow> ((string \<times> string) \<times> (string \<times> nat) list) list" where
  "bump_at k chk m = AList.update k (bump chk (case map_of m k of None \<Rightarrow> [] | Some x \<Rightarrow> x)) m"

definition new_edge :: "string \<times> string \<Rightarrow> EdgeKind \<Rightarrow> Edge" where
  "new_edge k kind = \<lparr>edFrom = fst k, edTo = snd k, edKind = kind, edAllow = 0, edBlock = 0, edEscalate = 0, edTotal = 0,
     edTenants = [], edDecidedAt = []\<rparr>"

definition count_call :: "Call \<Rightarrow> Edge \<Rightarrow> Edge" where
  "count_call c e =
     e\<lparr>edAllow := edAllow e + (if fcDecision c = ''allow'' then 1 else 0),
       edBlock := edBlock e + (if fcDecision c = ''block'' then 1 else 0),
       edEscalate := edEscalate e + (if fcDecision c = ''escalate'' then 1 else 0),
       edTotal := edTotal e + 1,
       edTenants := (if fcTenant c \<noteq> [] \<and> fcTenant c \<notin> set (edTenants e) then edTenants e @ [fcTenant c] else edTenants e)\<rparr>"

definition flow_step :: "string \<Rightarrow> Call \<Rightarrow> flow_acc \<Rightarrow> flow_acc" where
  "flow_step p c a =
     (case call_edge p c of
        None \<Rightarrow> a
      | Some (from, to, kind) \<Rightarrow>
          (let k = (from, to);
               ks = setAgent from (faKinds a);
               e = (case map_of (faEdges a) k of None \<Rightarrow> new_edge k kind | Some e \<Rightarrow> e);
               chk = (if fcCheck c = [] then ''policy'' else fcCheck c)
           in \<lparr>faKinds = (if kind = EdgeEastWest then setAgent to ks else setTool to ks),
               faEdges = AList.update k (count_call c e) (faEdges a),
               faBlockChk = (if fcDecision c = ''block'' then bump_at k chk (faBlockChk a) else faBlockChk a),
               faEscChk = (if fcDecision c = ''escalate'' then bump_at k chk (faEscChk a) else faEscChk a)\<rparr>))"

definition counts_at :: "((string \<times> string) \<times> (string \<times> nat) list) list \<Rightarrow> string \<times> string \<Rightarrow> (string \<times> nat) list" where
  "counts_at m k = (case map_of m k of None \<Rightarrow> [] | Some x \<Rightarrow> x)"

definition finish_edge :: "flow_acc \<Rightarrow> (string \<times> string) \<times> Edge \<Rightarrow> Edge" where
  "finish_edge a x =
     (case x of (k, e) \<Rightarrow>
        e\<lparr>edTenants := sort (edTenants e),
          edDecidedAt := (if 0 < edBlock e then dominant (counts_at (faBlockChk a) k)
            else if 0 < edEscalate e then dominant (counts_at (faEscChk a) k) else ''policy'')\<rparr>)"

definition flow_run :: "string \<Rightarrow> Call list \<Rightarrow> flow_acc" where
  "flow_run p calls = fold (flow_step p) calls \<lparr>faKinds = [], faEdges = [], faBlockChk = [], faEscChk = []\<rparr>"

definition ExtractFlow :: "string \<Rightarrow> Call list \<Rightarrow> Graph" where
  "ExtractFlow p calls =
     (let a = flow_run p calls in
      \<lparr>gNodes = sort_key fst (faKinds a),
       gEdges = sort_key (\<lambda>e. (edFrom e, edTo e)) (map (finish_edge a) (faEdges a))\<rparr>)"

definition eventsToCalls :: "Event list \<Rightarrow> Call list" where
  "eventsToCalls es =
     map (\<lambda>e. \<lparr>fcAgent = evAgentID e, fcTool = evTool e, fcTenant = evTenant e, fcDecision = evDecision e, fcCheck = evCheck e\<rparr>) es"

subsection \<open>The proposal (segrec.go)\<close>

record Recommendation =
  rcAllowedPairs :: "(string \<times> string) list"
  rcAllowedEdges :: "(string \<times> string) list"
  rcZoneTools :: "(string \<times> string list) list"
  rcIntraZoneObserved :: bool
  rcUnzonedAgents :: "string list"

record rec_acc =
  raEdges :: "(string \<times> string) list"
  raPairs :: "(string \<times> string) list"
  raTools :: "(string \<times> string list) list"
  raUnzoned :: "string list"
  raIntra :: bool

definition note_zone :: "(string \<Rightarrow> string) \<Rightarrow> string \<Rightarrow> rec_acc \<Rightarrow> rec_acc" where
  "note_zone zoneOf agent a = (if zoneOf agent = [] then a\<lparr>raUnzoned := List.insert agent (raUnzoned a)\<rparr> else a)"

definition rec_step :: "(string \<Rightarrow> string) \<Rightarrow> Edge \<Rightarrow> rec_acc \<Rightarrow> rec_acc" where
  "rec_step zoneOf e a =
     (if edAllow e = 0 then a
      else case edKind e of
        EdgeEastWest \<Rightarrow>
          (let a1 = a\<lparr>raPairs := List.insert (edFrom e, edTo e) (raPairs a)\<rparr>;
               a2 = note_zone zoneOf (edTo e) (note_zone zoneOf (edFrom e) a1);
               cz = zoneOf (edFrom e); tz = zoneOf (edTo e)
           in if cz = [] \<or> tz = [] then a2
              else if cz = tz then a2\<lparr>raIntra := True\<rparr>
              else a2\<lparr>raEdges := List.insert (cz, tz) (raEdges a2)\<rparr>)
      | EdgeNorthSouth \<Rightarrow>
          (let a2 = note_zone zoneOf (edFrom e) a; cz = zoneOf (edFrom e) in
           if cz = [] then a2
           else a2\<lparr>raTools := AList.update cz
                  (List.insert (edTo e) (case map_of (raTools a2) cz of None \<Rightarrow> [] | Some ts \<Rightarrow> ts)) (raTools a2)\<rparr>))"

definition Recommend :: "Graph \<Rightarrow> (string \<Rightarrow> string) \<Rightarrow> Recommendation" where
  "Recommend graph zoneOf =
     (let a = fold (rec_step zoneOf) (gEdges graph) \<lparr>raEdges = [], raPairs = [], raTools = [], raUnzoned = [], raIntra = False\<rparr> in
      \<lparr>rcAllowedPairs = sort (raPairs a), rcAllowedEdges = sort (raEdges a), rcZoneTools = map (\<lambda>(z, ts). (z, sort ts)) (raTools a),
       rcIntraZoneObserved = raIntra a, rcUnzonedAgents = sort (raUnzoned a)\<rparr>)"

text \<open>
  The handler of \<open>/v1/admin/flow-map/recommend\<close> after the query: the proposal, and the two configurations offered for
  adoption. The guard, when there is one, resolves the zones and keeps its own prefix.
\<close>

definition flow_prefix :: "string \<Rightarrow> string" where
  "flow_prefix configured = (if configured = [] then ''agent:'' else configured)"

definition recommend_zone :: "ew_state option \<Rightarrow> string \<Rightarrow> string" where
  "recommend_zone guard agent = (case guard of None \<Rightarrow> [] | Some st \<Rightarrow> ew_zone st agent)"

definition recommended :: "string \<Rightarrow> ew_state option \<Rightarrow> Event list \<Rightarrow> Recommendation" where
  "recommended configured guard events =
     Recommend (ExtractFlow (flow_prefix configured) (eventsToCalls events)) (recommend_zone guard)"

definition eastwest_config :: "string \<Rightarrow> ew_state option \<Rightarrow> Recommendation \<Rightarrow> EwConfig" where
  "eastwest_config configured guard r =
     \<lparr>ecAgentToolPrefix = (case guard of
          Some st \<Rightarrow> if ecAgentToolPrefix (ew_Snapshot st) \<noteq> [] then ecAgentToolPrefix (ew_Snapshot st) else flow_prefix configured
        | None \<Rightarrow> flow_prefix configured),
      ecAllowedPairs = rcAllowedPairs r, ecRules = [],
      ecZones = (case guard of Some st \<Rightarrow> ecZones (ew_Snapshot st) | None \<Rightarrow> Map.empty),
      ecAllowedEdges = [], ecObserveOnly = False, ecAllowIntraZone = False\<rparr>"

definition zone_scope_config :: "Recommendation \<Rightarrow> ZoneConfig" where
  "zone_scope_config r zone = map_option (\<lambda>tools. \<lparr>scTools = tools, scTenants = []\<rparr>) (map_of (rcZoneTools r) zone)"

subsection \<open>What an edge stands for\<close>

definition on_edge :: "string \<Rightarrow> string \<times> string \<Rightarrow> Call \<Rightarrow> bool" where
  "on_edge p k c = (case call_edge p c of None \<Rightarrow> False | Some (from, to, kind) \<Rightarrow> (from, to) = k)"

definition call_kind :: "string \<Rightarrow> Call \<Rightarrow> EdgeKind" where
  "call_kind p c = (case call_edge p c of Some (from, to, kind) \<Rightarrow> kind | None \<Rightarrow> EdgeNorthSouth)"

definition edge_summary :: "string \<Rightarrow> string \<times> string \<Rightarrow> Call list \<Rightarrow> Edge option" where
  "edge_summary p k calls =
     (case filter (on_edge p k) calls of
        [] \<Rightarrow> None
      | c # cs \<Rightarrow> Some (fold count_call (c # cs) (new_edge k (call_kind p c))))"

lemma edge_summary_snoc:
  "edge_summary p k (calls @ [c]) =
     (if on_edge p k c then Some (count_call c (case edge_summary p k calls of None \<Rightarrow> new_edge k (call_kind p c) | Some e \<Rightarrow> e))
      else edge_summary p k calls)"
  by (cases "filter (on_edge p k) calls") (simp_all add: edge_summary_def)

lemma flow_run_snoc: "flow_run p (calls @ [c]) = flow_step p c (flow_run p calls)"
  by (simp add: flow_run_def)

lemma flow_edges: "map_of (faEdges (flow_run p calls)) k = edge_summary p k calls"
proof (induction calls arbitrary: k rule: rev_induct)
  case Nil
  show ?case by (simp add: flow_run_def edge_summary_def)
next
  case (snoc c calls)
  show ?case
  proof (cases "call_edge p c")
    case None
    then show ?thesis using snoc by (simp add: flow_run_snoc flow_step_def edge_summary_snoc on_edge_def)
  next
    case (Some x)
    obtain src dst kind where x: "x = (src, dst, kind)" by (cases x)
    have "on_edge p k c \<longleftrightarrow> k = (src, dst)" "call_kind p c = kind" by (auto simp: on_edge_def call_kind_def Some x)
    then show ?thesis using snoc
      by (auto simp: flow_run_snoc flow_step_def edge_summary_snoc Some x Let_def update_conv')
  qed
qed

lemma flow_keys_distinct: "distinct (map fst (faEdges (flow_run p calls)))"
  by (induction calls rule: rev_induct)
    (auto simp: flow_run_def flow_step_def Let_def distinct_update split: option.splits)

lemma flow_edge_iff: "(k, e) \<in> set (faEdges (flow_run p calls)) \<longleftrightarrow> edge_summary p k calls = Some e"
  using flow_edges [of p calls k] flow_keys_distinct [of p calls] by (metis map_of_eq_Some_iff)

lemma count_call_fields:
  "edFrom (fold count_call cs e) = edFrom e" "edTo (fold count_call cs e) = edTo e" "edKind (fold count_call cs e) = edKind e"
  "edAllow (fold count_call cs e) = edAllow e + length (filter (\<lambda>c. fcDecision c = ''allow'') cs)"
  "edBlock (fold count_call cs e) = edBlock e + length (filter (\<lambda>c. fcDecision c = ''block'') cs)"
  "edEscalate (fold count_call cs e) = edEscalate e + length (filter (\<lambda>c. fcDecision c = ''escalate'') cs)"
  "edTotal (fold count_call cs e) = edTotal e + length cs"
  "set (edTenants (fold count_call cs e)) = set (edTenants e) \<union> ((fcTenant ` set cs) - {[]})"
  by (induction cs arbitrary: e) (auto simp: count_call_def)

text \<open>An edge of the graph counts, decision by decision, the calls between its ends, and has the kind of the first of them.\<close>

definition edge_counts :: "string \<Rightarrow> Call list \<Rightarrow> Edge \<Rightarrow> bool" where
  "edge_counts p calls e \<longleftrightarrow>
     (let cs = filter (on_edge p (edFrom e, edTo e)) calls; n = (\<lambda>d. length (filter (\<lambda>c. fcDecision c = d) cs)) in
      cs \<noteq> [] \<and> edKind e = call_kind p (hd cs) \<and> edTotal e = length cs \<and> edAllow e = n ''allow'' \<and> edBlock e = n ''block''
      \<and> edEscalate e = n ''escalate'' \<and> set (edTenants e) = (fcTenant ` set cs) - {[]})"

lemma summary_counts:
  assumes "edge_summary p k calls = Some e"
  shows "edge_counts p calls e \<and> (edFrom e, edTo e) = k"
proof -
  obtain cs where f: "filter (on_edge p k) calls = cs" "cs \<noteq> []" and e: "e = fold count_call cs (new_edge k (call_kind p (hd cs)))"
    using assms by (auto simp: edge_summary_def split: list.splits)
  have k: "(edFrom e, edTo e) = k" unfolding e count_call_fields by (simp add: new_edge_def)
  show ?thesis unfolding edge_counts_def k f(1) Let_def using k f(2) by (simp add: e count_call_fields new_edge_def)
qed

lemma finish_edge_fields [simp]:
  "edFrom (finish_edge a (k, e)) = edFrom e" "edTo (finish_edge a (k, e)) = edTo e" "edKind (finish_edge a (k, e)) = edKind e"
  "edAllow (finish_edge a (k, e)) = edAllow e" "edBlock (finish_edge a (k, e)) = edBlock e"
  "edEscalate (finish_edge a (k, e)) = edEscalate e" "edTotal (finish_edge a (k, e)) = edTotal e"
  "set (edTenants (finish_edge a (k, e))) = set (edTenants e)"
  by (simp_all add: finish_edge_def)

lemma extract_edges:
  "e \<in> set (gEdges (ExtractFlow p calls)) \<longleftrightarrow> (\<exists>k e0. edge_summary p k calls = Some e0 \<and> e = finish_edge (flow_run p calls) (k, e0))"
  unfolding ExtractFlow_def Let_def by (force simp: flow_edge_iff)

lemma extract_counts:
  assumes "e \<in> set (gEdges (ExtractFlow p calls))"
  shows "edge_counts p calls e"
proof -
  obtain k e0 where "edge_summary p k calls = Some e0" and e: "e = finish_edge (flow_run p calls) (k, e0)"
    using assms extract_edges by blast
  then have "edge_counts p calls e0" using summary_counts by blast
  then show ?thesis unfolding e edge_counts_def by simp
qed

lemma extract_covers:
  assumes "c \<in> set calls" and "call_edge p c = Some (from, to, kind)"
  shows "\<exists>e \<in> set (gEdges (ExtractFlow p calls)). edFrom e = from \<and> edTo e = to"
proof -
  have "c \<in> set (filter (on_edge p (from, to)) calls)" using assms by (simp add: on_edge_def)
  then obtain e0 where e0: "edge_summary p (from, to) calls = Some e0"
    by (cases "filter (on_edge p (from, to)) calls") (auto simp: edge_summary_def)
  have f: "edFrom e0 = from" "edTo e0 = to" using summary_counts [OF e0] by simp_all
  have "finish_edge (flow_run p calls) ((from, to), e0) \<in> set (gEdges (ExtractFlow p calls))" using e0 extract_edges by blast
  then show ?thesis by (rule bexI [rotated]) (simp add: f)
qed

text \<open>The graph is a function of the calls between each two nodes: one edge per pair, in ascending order.\<close>

lemma extract_sorted:
  "sorted (map (\<lambda>e. (edFrom e, edTo e)) (gEdges (ExtractFlow p calls)))" "distinct (map (\<lambda>e. (edFrom e, edTo e)) (gEdges (ExtractFlow p calls)))"
proof -
  let ?a = "flow_run p calls"
  have same: "map (\<lambda>e. (edFrom e, edTo e)) (map (finish_edge ?a) (faEdges ?a)) = map fst (faEdges ?a)"
  proof (simp, intro ballI)
    fix x assume x: "x \<in> set (faEdges ?a)"
    obtain k e where ke: "x = (k, e)" by (cases x)
    with x have "(edFrom e, edTo e) = k" using flow_edge_iff summary_counts by blast
    then show "(edFrom (finish_edge ?a x), edTo (finish_edge ?a x)) = fst x" by (simp add: ke)
  qed
  show "sorted (map (\<lambda>e. (edFrom e, edTo e)) (gEdges (ExtractFlow p calls)))" by (simp add: ExtractFlow_def Let_def)
  have "distinct (map (\<lambda>e. (edFrom e, edTo e)) (map (finish_edge ?a) (faEdges ?a)))"
    unfolding same by (rule flow_keys_distinct)
  moreover have "mset (map (\<lambda>e. (edFrom e, edTo e)) (gEdges (ExtractFlow p calls)))
      = mset (map (\<lambda>e. (edFrom e, edTo e)) (map (finish_edge ?a) (faEdges ?a)))" by (simp add: ExtractFlow_def Let_def multiset.map_comp comp_def)
  ultimately show "distinct (map (\<lambda>e. (edFrom e, edTo e)) (gEdges (ExtractFlow p calls)))" by (metis mset_eq_imp_distinct_iff)
qed

text \<open>Go visits a map in no particular order; the stage an edge is attributed to does not depend on it.\<close>

definition beats :: "string \<times> int \<Rightarrow> string \<times> int \<Rightarrow> bool" where
  "beats x y \<longleftrightarrow> snd y < snd x \<or> (snd x = snd y \<and> fst x < fst y)"

lemma dominant_step_beats: "dominant_step x b = (if beats (fst x, int (snd x)) b then (fst x, int (snd x)) else b)"
  by (simp add: dominant_step_def beats_def split: prod.split)

lemma beats_asym: "beats x y \<Longrightarrow> \<not> beats y x"
  by (auto simp: beats_def)

lemma beats_trans: "beats x y \<Longrightarrow> beats y z \<Longrightarrow> beats x z"
  by (auto simp: beats_def)

lemma beats_total: "x = y \<or> beats x y \<or> beats y x"
  by (auto simp: beats_def prod_eq_iff)

lemma dominant_step_commute: "dominant_step x \<circ> dominant_step y = dominant_step y \<circ> dominant_step x"
proof (rule ext)
  fix b
  have "(if beats u (if beats v b then v else b) then u else (if beats v b then v else b)) =
      (if beats v (if beats u b then u else b) then v else (if beats u b then u else b))" for u v
    using beats_total [of u v] beats_total [of u b] beats_total [of v b] beats_asym [of u v] beats_asym [of u b] beats_asym [of v b]
      beats_trans [of u v b] beats_trans [of v u b] beats_trans [of u b v] beats_trans [of v b u]
    by (cases "u = v"; cases "beats u v"; cases "beats u b"; cases "beats v b") simp_all
  then show "(dominant_step x \<circ> dominant_step y) b = (dominant_step y \<circ> dominant_step x) b"
    unfolding comp_apply dominant_step_beats by blast
qed

lemma dominant_order_free:
  assumes "mset m = mset m'"
  shows "dominant m = dominant m'"
proof -
  have "fold dominant_step m = fold dominant_step m'"
    by (rule fold_multiset_equiv [OF _ assms]) (rule dominant_step_commute)
  then show ?thesis unfolding dominant_def by (simp only:)
qed

subsection \<open>What the proposal holds\<close>

lemma note_zone_fields [simp]:
  "raPairs (note_zone z x a) = raPairs a" "raTools (note_zone z x a) = raTools a" "raEdges (note_zone z x a) = raEdges a"
  by (simp_all add: note_zone_def)

lemma rec_pairs:
  "set (raPairs (fold (rec_step zoneOf) es a)) =
     set (raPairs a) \<union> {(edFrom e, edTo e) | e. e \<in> set es \<and> 0 < edAllow e \<and> edKind e = EdgeEastWest}"
proof (induction es arbitrary: a)
  case (Cons e es)
  have "set (raPairs (rec_step zoneOf e a)) =
      set (raPairs a) \<union> (if 0 < edAllow e \<and> edKind e = EdgeEastWest then {(edFrom e, edTo e)} else {})"
    by (cases "edKind e") (auto simp: rec_step_def Let_def)
  with Cons show ?case by auto
qed simp

definition tools_of :: "rec_acc \<Rightarrow> string \<Rightarrow> string set" where
  "tools_of a z = (case map_of (raTools a) z of None \<Rightarrow> {} | Some ts \<Rightarrow> set ts)"

lemma rec_tools:
  "z \<noteq> [] \<Longrightarrow> tools_of (fold (rec_step zoneOf) es a) z =
     tools_of a z \<union> {edTo e | e. e \<in> set es \<and> 0 < edAllow e \<and> edKind e = EdgeNorthSouth \<and> zoneOf (edFrom e) = z}"
proof (induction es arbitrary: a)
  case (Cons e es)
  have "tools_of (rec_step zoneOf e a) z =
      tools_of a z \<union> (if 0 < edAllow e \<and> edKind e = EdgeNorthSouth \<and> zoneOf (edFrom e) = z then {edTo e} else {})"
    using Cons.prems
    by (cases "edKind e") (auto simp: rec_step_def Let_def tools_of_def update_conv' split: option.splits)
  with Cons show ?case by auto
qed simp

text \<open>
  A pair of nodes is ambiguous when the same caller reached the same name both as an agent and as a tool: there is one
  edge for both.
\<close>

definition unambiguous :: "string \<Rightarrow> Call list \<Rightarrow> bool" where
  "unambiguous p calls \<longleftrightarrow> list_all (\<lambda>c. list_all (\<lambda>c'.
     case (call_edge p c, call_edge p c') of
       (Some (f, t, k), Some (f', t', k')) \<Rightarrow> (f, t) = (f', t') \<longrightarrow> k = k' | _ \<Rightarrow> True) calls) calls"

definition observed :: "string \<Rightarrow> EdgeKind \<Rightarrow> string \<Rightarrow> string \<Rightarrow> Call list \<Rightarrow> bool" where
  "observed p kind a b calls \<longleftrightarrow> list_ex (\<lambda>c. call_edge p c = Some (a, b, kind) \<and> fcDecision c = ''allow'') calls"

lemma on_edge_kind:
  assumes "unambiguous p calls" and "c \<in> set calls" and "c' \<in> set calls" and "on_edge p k c" and "on_edge p k c'"
  shows "call_kind p c = call_kind p c'"
proof -
  obtain f t k1 f' t' k2 where e: "call_edge p c = Some (f, t, k1)" "call_edge p c' = Some (f', t', k2)"
    using assms(4,5) by (auto simp: on_edge_def split: option.splits)
  with assms(4,5) have "(f, t) = (f', t')" by (simp add: on_edge_def)
  moreover have "(f, t) = (f', t') \<longrightarrow> k1 = k2" using assms(1,2,3) e unfolding unambiguous_def list_all_iff by force
  ultimately show ?thesis by (simp add: call_kind_def e)
qed

lemma allowed_edge_iff:
  assumes "unambiguous p calls"
  shows "(\<exists>e \<in> set (gEdges (ExtractFlow p calls)). (edFrom e, edTo e) = (a, b) \<and> 0 < edAllow e \<and> edKind e = kind) \<longleftrightarrow> observed p kind a b calls"
    (is "?lhs \<longleftrightarrow> _")
proof
  assume ?lhs
  then obtain e where e: "e \<in> set (gEdges (ExtractFlow p calls))" "(edFrom e, edTo e) = (a, b)" "0 < edAllow e" "edKind e = kind" by blast
  note ec = extract_counts [OF e(1), unfolded edge_counts_def e(2) Let_def]
  let ?cs = "filter (on_edge p (a, b)) calls"
  have "filter (\<lambda>c. fcDecision c = ''allow'') ?cs \<noteq> []" using ec e(3) by force
  then obtain c where "c \<in> set (filter (\<lambda>c. fcDecision c = ''allow'') ?cs)" by (meson list.set_sel(1))
  then have c: "c \<in> set calls" "on_edge p (a, b) c" "fcDecision c = ''allow''" by simp_all
  have h: "hd ?cs \<in> set ?cs" using ec by (meson list.set_sel(1))
  then have h: "hd ?cs \<in> set calls" "on_edge p (a, b) (hd ?cs)" by simp_all
  have "call_kind p c = kind" using on_edge_kind [OF assms c(1) h(1) c(2) h(2)] ec e(4) by simp
  with c show "observed p kind a b calls"
    by (auto simp: observed_def list_ex_iff on_edge_def call_kind_def split: option.splits)
next
  assume "observed p kind a b calls"
  then obtain c where c: "c \<in> set calls" "call_edge p c = Some (a, b, kind)" "fcDecision c = ''allow''"
    by (auto simp: observed_def list_ex_iff)
  obtain e where e: "e \<in> set (gEdges (ExtractFlow p calls))" "(edFrom e, edTo e) = (a, b)"
    using extract_covers [OF c(1,2)] by auto
  note ec = extract_counts [OF e(1), unfolded edge_counts_def e(2) Let_def]
  let ?cs = "filter (on_edge p (a, b)) calls"
  have oc: "on_edge p (a, b) c" using c(2) by (simp add: on_edge_def)
  then have "c \<in> set (filter (\<lambda>c. fcDecision c = ''allow'') ?cs)" using c by simp
  then have "0 < edAllow e" using ec length_pos_if_in_set by metis
  have "hd ?cs \<in> set ?cs" using ec by (meson list.set_sel(1))
  then have "call_kind p (hd ?cs) = call_kind p c" using on_edge_kind [OF assms _ c(1) _ oc] by simp
  then have "edKind e = kind" using ec by (simp add: call_kind_def c(2))
  with \<open>0 < edAllow e\<close> e show ?lhs by blast
qed

lemma proposed_pairs:
  assumes "unambiguous p calls"
  shows "(a, b) \<in> set (rcAllowedPairs (Recommend (ExtractFlow p calls) zoneOf)) \<longleftrightarrow> observed p EdgeEastWest a b calls"
proof -
  have "(a, b) \<in> set (rcAllowedPairs (Recommend (ExtractFlow p calls) zoneOf)) \<longleftrightarrow>
      (\<exists>e \<in> set (gEdges (ExtractFlow p calls)). (edFrom e, edTo e) = (a, b) \<and> 0 < edAllow e \<and> edKind e = EdgeEastWest)"
    by (auto simp: Recommend_def Let_def rec_pairs)
  also have "\<dots> \<longleftrightarrow> observed p EdgeEastWest a b calls" by (rule allowed_edge_iff [OF assms])
  finally show ?thesis .
qed

subsection \<open>The guard on the proposal\<close>

definition plain_name :: "string \<Rightarrow> bool" where
  "plain_name s \<longleftrightarrow> nul_free s \<and> \<not> isPattern s"

definition plain_names :: "string \<Rightarrow> Call list \<Rightarrow> bool" where
  "plain_names p calls \<longleftrightarrow> list_all (\<lambda>c. case call_edge p c of None \<Rightarrow> True | Some (a, b, k) \<Rightarrow> plain_name a \<and> plain_name b) calls"

lemma observed_plain:
  assumes "plain_names p calls" and "observed p kind a b calls"
  shows "plain_name a \<and> plain_name b"
  using assms by (force simp: plain_names_def observed_def list_all_iff list_ex_iff)

text \<open>A guard whose only rules are exact pairs of plain names allows exactly those pairs.\<close>

lemma pairs_only_guard:
  assumes "ecRules cfg = []" and "ecAllowedEdges cfg = []" and "\<not> ecAllowIntraZone cfg" and "\<not> ecObserveOnly cfg"
    and plain: "\<forall>(x, y) \<in> set (ecAllowedPairs cfg). plain_name x \<and> plain_name y"
    and "nul_free a" and callee: "calleeAgent (ew_New cfg) tool = Some b"
  shows "erVerdict (ew_Check (ew_New cfg) now a zone tool) = VerdictAllow \<longleftrightarrow> (a, b) \<in> set (ecAllowedPairs cfg)"
proof -
  have rules: "all_rules cfg = map bare_rule (ecAllowedPairs cfg)" using assms(1) by (simp add: all_rules_def)
  have np: "\<not> pattern_rule r" if "r \<in> set (all_rules cfg)" for r
    using that plain by (auto simp: rules bare_rule_def pattern_rule_def plain_name_def)
  have clean: "ew_clean cfg" using plain assms(2) by (auto simp: ew_clean_def rules list_all_iff bare_rule_def plain_name_def)
  have noglob: "\<not> list_ex (\<lambda>r. pattern_rule r \<and> rule_names r a b \<and> \<not> rule_Expired r now) (all_rules cfg)"
    using np by (auto simp: list_ex_iff)
  have fresh: "\<not> rule_Expired r now" if "exact_rule cfg a b = Some r" for r
    using that by (auto simp: exact_rule_def rules find_Some_iff bare_rule_def rule_Expired_def is_zero_def rev_nth)
  have "exact_rule cfg a b \<noteq> None \<longleftrightarrow> (\<exists>r \<in> set (all_rules cfg). ruFrom r = a \<and> ruTo r = b)"
    using np unfolding exact_rule_def find_None_list_ex by (auto simp: list_ex_iff)
  also have "\<dots> \<longleftrightarrow> (a, b) \<in> set (ecAllowedPairs cfg)" by (force simp: rules bare_rule_def)
  finally have "pairAllowed (ew_compile cfg) now a b \<noteq> None \<longleftrightarrow> (a, b) \<in> set (ecAllowedPairs cfg)"
    using pairAllowed_permits [OF clean assms(6)] noglob fresh by (auto split: option.splits)
  then show ?thesis using assms(2,3,4) callee unfolding ew_Check_def ew_New_def Let_def
    by (auto simp: ew_compile_def split: option.splits)
qed

lemma eventsToCalls_observed:
  assumes "a \<noteq> []" and "b \<noteq> []" and "p \<noteq> []" and "\<not> has_prefix (p @ b) adminToolPrefix"
  shows "observed p EdgeEastWest a b (eventsToCalls events) \<longleftrightarrow>
    (\<exists>e \<in> set events. evAgentID e = a \<and> evTool e = p @ b \<and> evDecision e = DecisionAllow)"
proof -
  have "call_edge p c = Some (a, b, EdgeEastWest) \<longleftrightarrow> fcAgent c = a \<and> fcTool c = p @ b" for c
    using assms by (auto simp: call_edge_def agentTarget_def has_prefix_iff dest: sym split: option.splits if_splits)
  then show ?thesis by (auto simp: observed_def eventsToCalls_def list_ex_iff DecisionAllow_def)
qed

text \<open>
  C27. The proposal is least privilege: with the proposed configuration in force, an agent-to-agent call is allowed
  exactly if the audit window it was derived from records the same call as allowed. The names in the window contain no
  NUL byte and do not end in an asterisk, no caller reached one name both as an agent and as a tool, and the guard
  uses the prefix the window was read with.
\<close>

theorem proposal_exact:
  assumes "unambiguous (flow_prefix configured) (eventsToCalls events)"
    and "plain_names (flow_prefix configured) (eventsToCalls events)"
    and "ecAgentToolPrefix (eastwest_config configured guard (recommended configured guard events)) = flow_prefix configured"
    and "nul_free a" and "a \<noteq> []" and "b \<noteq> []" and "trim_space b = b"
    and "\<not> has_prefix (flow_prefix configured @ b) adminToolPrefix"
  shows "erVerdict (ew_Check (ew_New (eastwest_config configured guard (recommended configured guard events))) now a zone
      (flow_prefix configured @ b)) = VerdictAllow
    \<longleftrightarrow> (\<exists>e \<in> set events. evAgentID e = a \<and> evTool e = flow_prefix configured @ b \<and> evDecision e = DecisionAllow)"
proof -
  let ?p = "flow_prefix configured" and ?cfg = "eastwest_config configured guard (recommended configured guard events)"
  have p: "?p \<noteq> []" by (simp add: flow_prefix_def)
  have pairs: "(x, y) \<in> set (ecAllowedPairs ?cfg) \<longleftrightarrow> observed ?p EdgeEastWest x y (eventsToCalls events)" for x y
    unfolding eastwest_config_def recommended_def by (simp add: proposed_pairs [OF assms(1)])
  have "\<forall>(x, y) \<in> set (ecAllowedPairs ?cfg). plain_name x \<and> plain_name y"
    using pairs observed_plain [OF assms(2)] by blast
  moreover have "calleeAgent (ew_New ?cfg) (?p @ b) = Some b"
    using assms(3,6,7) p by (simp add: calleeAgent_def ew_New_def ew_compile_def)
  ultimately have "erVerdict (ew_Check (ew_New ?cfg) now a zone (?p @ b)) = VerdictAllow \<longleftrightarrow> (a, b) \<in> set (ecAllowedPairs ?cfg)"
    by (intro pairs_only_guard assms(4)) (simp_all add: eastwest_config_def)
  then show ?thesis unfolding pairs eventsToCalls_observed [OF assms(5,6) p assms(8)] .
qed

definition seen :: "string \<Rightarrow> string \<Rightarrow> string \<Rightarrow> Event" where
  "seen agent tool decision = (NewEvent [] decision tool)\<lparr>evAgentID := agent\<rparr>"

definition two_calls :: "Event list" where
  "two_calls = [seen ''buyer'' ''agent:bank'' DecisionAllow, seen ''buyer'' ''agent:hr'' DecisionBlock]"

theorem proposal_exact_witness:
  "erVerdict (ew_Check (ew_New (eastwest_config [] None (recommended [] None two_calls))) 0 ''buyer'' [] ''agent:bank'') = VerdictAllow
   \<and> erVerdict (ew_Check (ew_New (eastwest_config [] None (recommended [] None two_calls))) 0 ''buyer'' [] ''agent:hr'') = VerdictDeny"
proof -
  have p: "flow_prefix [] = ''agent:''" by (simp add: flow_prefix_def)
  have c: "unambiguous ''agent:'' (eventsToCalls two_calls)" "plain_names ''agent:'' (eventsToCalls two_calls)"
    "ecAgentToolPrefix (eastwest_config [] None (recommended [] None two_calls)) = ''agent:''"
    "nul_free ''buyer''" "trim_space ''bank'' = ''bank''" "trim_space ''hr'' = ''hr''"
    "\<not> has_prefix ''agent:bank'' adminToolPrefix" "\<not> has_prefix ''agent:hr'' adminToolPrefix"
    "list_ex (\<lambda>e. evAgentID e = ''buyer'' \<and> evTool e = ''agent:bank'' \<and> evDecision e = DecisionAllow) two_calls"
    "\<not> list_ex (\<lambda>e. evAgentID e = ''buyer'' \<and> evTool e = ''agent:hr'' \<and> evDecision e = DecisionAllow) two_calls"
    by code_simp+
  note T = proposal_exact [of "[]" two_calls None "''buyer''" _ 0 "[]", unfolded p, OF c(1-4)]
  have app: "''agent:'' @ ''bank'' = ''agent:bank''" "''agent:'' @ ''hr'' = ''agent:hr''" by simp_all
  have ne: "''buyer'' \<noteq> []" "''bank'' \<noteq> []" "''hr'' \<noteq> []" by simp_all
  note bank = T [OF ne(1,2) c(5), unfolded app, OF c(7)] and hr = T [OF ne(1,3) c(6), unfolded app, OF c(8)]
  have "v = VerdictDeny" if "v \<noteq> VerdictAllow" for v using that by (cases v) simp_all
  then show ?thesis
    using iffD2 [OF bank c(9) [unfolded list_ex_iff]] notI [OF notE [OF c(10) [unfolded list_ex_iff] iffD1 [OF hr]]] by blast
qed

text \<open>
  An edge is keyed by the two names only. A tool that was only ever refused is proposed for the caller's zone when the
  caller also reached an agent of the same name.
\<close>

definition zoned_guard :: ew_state where
  "zoned_guard = ew_New \<lparr>ecAgentToolPrefix = ''agent:'', ecAllowedPairs = [], ecRules = [], ecZones = [''buyer'' \<mapsto> ''z''],
     ecAllowedEdges = [], ecObserveOnly = True, ecAllowIntraZone = False\<rparr>"

definition mixed_calls :: "Event list" where
  "mixed_calls = [seen ''buyer'' ''bank'' DecisionBlock, seen ''buyer'' ''agent:bank'' DecisionAllow]"

lemma refused_tool_proposed:
  "\<not> list_ex (\<lambda>e. evTool e = ''bank'' \<and> evDecision e = DecisionAllow) mixed_calls"
  "map_of (rcZoneTools (recommended [] (Some zoned_guard) mixed_calls)) ''z'' = Some [''bank'']"
  "rcAllowedPairs (recommended [] (Some zoned_guard) mixed_calls) = []"
  by code_simp+

text \<open>The map keeps the spaces around a callee that the guard trims, so adopting the proposal refuses the observed call.\<close>

lemma padded_callee_refused:
  "rcAllowedPairs (recommended [] None [seen ''buyer'' ''agent: bank'' DecisionAllow]) = [(''buyer'', '' bank'')]"
  "erVerdict (ew_Check (ew_New (eastwest_config [] None (recommended [] None [seen ''buyer'' ''agent: bank'' DecisionAllow])))
      0 ''buyer'' [] ''agent: bank'') = VerdictDeny"
  by code_simp+

text \<open>The name of an agent that ends in an asterisk becomes a pattern in the proposal and covers agents that never called.\<close>

lemma starred_agent_widens:
  "erVerdict (ew_Check (ew_New (eastwest_config [] None (recommended [] None [seen ''ops*'' ''agent:bank'' DecisionAllow])))
      0 ''ops-new'' [] ''agent:bank'') = VerdictAllow"
  by code_simp

end
