(* ===== verification/Reports.thy ===== *)
theory Reports
  imports FlowMap AdminOps
begin

text \<open>
  The reports of the admin API over the audit log: the inventory of agents (\<open>internal/discovery\<close> and
  \<open>internal/handlers/admin_agents.go\<close>) and the flow map with its recommendation (\<open>flowMapEvents\<close>,
  \<open>NewAdminFlowMapHandler\<close> and \<open>NewAdminFlowRecommendHandler\<close> in \<open>internal/handlers/admin.go\<close>), in the style of theory
  \<open>Admin\<close>. A report reads the store once; maps are association lists as in theory \<open>FlowMap\<close>.

  The lemmas show that the paging reads the newest events without a gap, that the inventory accounts for every event
  read, and that a tenant's report is a function of the tenant's own events.
\<close>

subsection \<open>The inventory (discovery.go)\<close>

record ObservedAgent =
  oaAgentID :: string
  oaTenant :: string
  oaTools :: "string list"
  oaRiskSignals :: "string list"
  oaCalls :: nat
  oaBlocked :: nat
  oaFirstSeen :: string
  oaLastSeen :: string
  oaSessionCount :: nat

definition signalKeywords :: "(string \<times> string list) list" where
  "signalKeywords =
     [(''payment'', [''payment'', ''billing'', ''invoice'', ''refund'', ''charge'', ''stripe'', ''paypal'']),
      (''production-data'', [''prod'', ''production'', ''prod-db'', ''prod_db'']),
      (''outbound'', [''email'', ''mail'', ''smtp'', ''sms'', ''slack'', ''teams'', ''webhook'', ''outbound'', ''send'']),
      (''regulated-data'', [''pii'', ''personal'', ''health'', ''medical'', ''hr'', ''payroll'', ''ssn'', ''gdpr'', ''financial''])]"

definition deriveRiskSignals :: "string \<Rightarrow> string list \<Rightarrow> string list" where
  "deriveRiskSignals agentID tools =
     (let hay = to_lower (str_join '' '' tools); i = trim_space (to_lower agentID) in
      sort (map fst (filter (\<lambda>sk. list_ex (contains_str hay) (snd sk)) signalKeywords)
        @ (if i = [] \<or> contains_str i ''unknown'' \<or> contains_str i ''unidentified'' then [''unknown-identity''] else [])))"

record agent_acc =
  gaTenant :: string
  gaTools :: "string list"
  gaSessions :: "string list"
  gaCalls :: nat
  gaBlocked :: nat
  gaFirstSeen :: string
  gaLastSeen :: string

definition no_agent :: agent_acc where
  "no_agent = \<lparr>gaTenant = [], gaTools = [], gaSessions = [], gaCalls = 0, gaBlocked = 0, gaFirstSeen = [], gaLastSeen = []\<rparr>"

definition agent_bucket :: "Event \<Rightarrow> string" where
  "agent_bucket e = (if trim_space (evAgentID e) = [] then ''unknown'' else evAgentID e)"

definition count_event :: "Event \<Rightarrow> agent_acc \<Rightarrow> agent_acc" where
  "count_event e a =
     a\<lparr>gaTenant := (if gaTenant a = [] then evTenant e else gaTenant a),
       gaTools := (if evTool e \<noteq> [] then List.insert (evTool e) (gaTools a) else gaTools a),
       gaSessions := (if evSessionID e \<noteq> [] then List.insert (evSessionID e) (gaSessions a) else gaSessions a),
       gaCalls := gaCalls a + 1,
       gaBlocked := gaBlocked a + (if evDecision e \<noteq> [] \<and> evDecision e \<noteq> DecisionAllow then 1 else 0),
       gaFirstSeen := (if gaFirstSeen a = [] \<or> evTimestamp e < gaFirstSeen a then evTimestamp e else gaFirstSeen a),
       gaLastSeen := (if gaLastSeen a < evTimestamp e then evTimestamp e else gaLastSeen a)\<rparr>"

definition agent_step :: "Event \<Rightarrow> (string \<times> agent_acc) list \<Rightarrow> (string \<times> agent_acc) list" where
  "agent_step e m =
     (let i = agent_bucket e in AList.update i (count_event e (case map_of m i of None \<Rightarrow> no_agent | Some a \<Rightarrow> a)) m)"

definition observed_agent :: "string \<times> agent_acc \<Rightarrow> ObservedAgent" where
  "observed_agent x =
     (case x of (i, a) \<Rightarrow>
        (let tools = sort (gaTools a); realID = (if i = ''unknown'' then [] else i) in
         \<lparr>oaAgentID = realID, oaTenant = gaTenant a, oaTools = tools, oaRiskSignals = deriveRiskSignals realID tools,
          oaCalls = gaCalls a, oaBlocked = gaBlocked a, oaFirstSeen = gaFirstSeen a, oaLastSeen = gaLastSeen a,
          oaSessionCount = length (gaSessions a)\<rparr>))"

text \<open>Sorted by the last appearance, the latest first, and then by name: a stable sort after one by name.\<close>

definition Aggregate :: "Event list \<Rightarrow> ObservedAgent list" where
  "Aggregate events =
     rev (sort_key oaLastSeen (rev (sort_key oaAgentID (map observed_agent (fold agent_step events [])))))"

subsection \<open>The endpoints\<close>

text \<open>The read all three reports start with: token, store, tenant and window.\<close>

definition report_window :: "AdminConfig \<Rightarrow> admin_env \<Rightarrow> admin_request \<Rightarrow> (int \<times> string) + string \<times> gotime \<times> gotime" where
  "report_window cfg env r =
     (let auth = resolveAdminAuth r cfg in
      if \<not> aaOk auth then Inl (401, ''invalid or missing admin token'')
      else if \<not> acAuditStore cfg then Inl (503, ''audit store not configured'')
      else case pinTenant auth (aqQuery r ''tenant'') of
        None \<Rightarrow> Inl (403, ''tenant in query does not match admin token's tenant'')
      | Some tenant \<Rightarrow>
          (case time_bound env (aqQuery r ''from'') of
             Inl e \<Rightarrow> Inl (400, ''invalid 'from' timestamp: '' @ e)
           | Inr since \<Rightarrow>
               (case time_bound env (aqQuery r ''to'') of
                  Inl e \<Rightarrow> Inl (400, ''invalid 'to' timestamp: '' @ e)
                | Inr till \<Rightarrow> Inr (tenant, since, till))))"

definition report_filter :: "string \<times> gotime \<times> gotime \<Rightarrow> int \<Rightarrow> int \<Rightarrow> QueryFilter" where
  "report_filter win limit offset =
     (case win of (tenant, since, till) \<Rightarrow>
        \<lparr>qfFrom = since, qfTo = till, qfAgentID = [], qfTool = [], qfDecision = [], qfCheck = [], qfCapabilityTokenID = [],
         qfTenant = tenant, qfElevationID = [], qfLimit = limit, qfOffset = offset\<rparr>)"

definition flowMapEvents :: "AdminConfig \<Rightarrow> admin_env \<Rightarrow> (string \<Rightarrow> gotime option) \<Rightarrow> admin_request \<Rightarrow> AuditStore
    \<Rightarrow> (int \<times> string) + Event list \<times> int" where
  "flowMapEvents cfg env parse r store =
     (case report_window cfg env r of
        Inl x \<Rightarrow> Inl x
      | Inr win \<Rightarrow>
          (let limit = parseIntParam r ''limit'' 1000 1 1000 in Inr (as_Query parse (report_filter win limit 0) store, limit)))"

record flowMapEdge =
  feEdge :: Edge
  fePolicy :: string
  feCallerZone :: string
  feCalleeZone :: string

definition verdict_text :: "Verdict \<Rightarrow> string" where
  "verdict_text v = (case v of VerdictAllow \<Rightarrow> ''allow'' | VerdictDeny \<Rightarrow> ''deny'')"

text \<open>The policy overlay of an edge: what the guards would decide now, without a token.\<close>

definition annotate :: "string \<Rightarrow> ew_state option \<Rightarrow> (string \<rightharpoonup> compiledScope) option \<Rightarrow> gotime \<Rightarrow> Edge \<Rightarrow> flowMapEdge" where
  "annotate p guard scopes now e =
     (let blank = \<lparr>feEdge = e, fePolicy = [], feCallerZone = [], feCalleeZone = []\<rparr> in
      case edKind e of
        EdgeEastWest \<Rightarrow>
          (case guard of
             None \<Rightarrow> blank
           | Some st \<Rightarrow>
               (let v = ew_Check st now (edFrom e) [] (p @ edTo e) in
                blank\<lparr>fePolicy := verdict_text (erVerdict v), feCallerZone := erCallerZone v, feCalleeZone := erCalleeZone v\<rparr>))
      | EdgeNorthSouth \<Rightarrow>
          (case scopes of
             None \<Rightarrow> blank
           | Some g \<Rightarrow>
               (let zone = recommend_zone guard (edFrom e);
                    tenant = (case edTenants e of [] \<Rightarrow> [] | t # ts \<Rightarrow> t);
                    v = zs_Check g zone tenant (edTo e) in
                blank\<lparr>fePolicy := (if zrEnforced v then verdict_text (zrVerdict v) else ''unscoped''), feCallerZone := zone\<rparr>)))"

definition NewAdminFlowMapHandler :: "AdminConfig \<Rightarrow> admin_env \<Rightarrow> (string \<Rightarrow> gotime option) \<Rightarrow> string \<Rightarrow> ew_state option
    \<Rightarrow> (string \<rightharpoonup> compiledScope) option \<Rightarrow> admin_request \<Rightarrow> AuditStore
    \<Rightarrow> ((string \<times> NodeKind) list \<times> flowMapEdge list \<times> nat \<times> int) admin_reply" where
  "NewAdminFlowMapHandler cfg env parse configured guard scopes r store =
     (case flowMapEvents cfg env parse r store of
        Inl (status, msg) \<Rightarrow> AdminError status msg
      | Inr (events, limit) \<Rightarrow>
          (let g = ExtractFlow (flow_prefix configured) (eventsToCalls events) in
           AdminOk 200 (gNodes g, map (annotate (flow_prefix configured) guard scopes (anNow env)) (gEdges g), length events, limit)))"

definition NewAdminFlowRecommendHandler :: "AdminConfig \<Rightarrow> admin_env \<Rightarrow> (string \<Rightarrow> gotime option) \<Rightarrow> string \<Rightarrow> ew_state option
    \<Rightarrow> admin_request \<Rightarrow> AuditStore \<Rightarrow> (Recommendation \<times> EwConfig \<times> ZoneConfig \<times> nat) admin_reply" where
  "NewAdminFlowRecommendHandler cfg env parse configured guard r store =
     (case flowMapEvents cfg env parse r store of
        Inl (status, msg) \<Rightarrow> AdminError status msg
      | Inr (events, limit) \<Rightarrow>
          (let rec = recommended configured guard events in
           AdminOk 200 (rec, eastwest_config configured guard rec, zone_scope_config rec, length events)))"

text \<open>The loop that pages the store: until a short page or the bound of events.\<close>

definition pageSize :: nat where "pageSize = 1000"
definition maxEvents :: nat where "maxEvents = 10000"

function scan_pages :: "(nat \<Rightarrow> Event list) \<Rightarrow> Event list \<Rightarrow> nat \<Rightarrow> Event list" where
  "scan_pages query all offset =
     (if maxEvents \<le> length all then all
      else (let events = query offset in
        if length events < pageSize then all @ events else scan_pages query (all @ events) (offset + pageSize)))"
  by pat_completeness auto
termination
  by (relation "measure (\<lambda>(query, all, offset). maxEvents - length all)") (auto simp: pageSize_def maxEvents_def)

declare scan_pages.simps [simp del]

definition NewAdminAgentsHandler :: "AdminConfig \<Rightarrow> admin_env \<Rightarrow> (string \<Rightarrow> gotime option) \<Rightarrow> admin_request \<Rightarrow> AuditStore
    \<Rightarrow> (ObservedAgent list \<times> nat) admin_reply" where
  "NewAdminAgentsHandler cfg env parse r store =
     (case report_window cfg env r of
        Inl (status, msg) \<Rightarrow> AdminError status msg
      | Inr win \<Rightarrow>
          (let all = scan_pages (\<lambda>offset. as_Query parse (report_filter win (int pageSize) (int offset)) store) [] 0 in
           AdminOk 200 (Aggregate all, length all)))"

subsection \<open>What is read\<close>

definition report_rows :: "(string \<Rightarrow> gotime option) \<Rightarrow> string \<times> gotime \<times> gotime \<Rightarrow> AuditStore \<Rightarrow> Event list" where
  "report_rows parse win store =
     rev (sort_key (\<lambda>e. map of_char (evTimestamp e) :: nat list)
       (rev (map enEvent (filter (\<lambda>x. matchesFilter parse (enEvent x) (report_filter win 1 0)) (snapshotEntries store)))))"

lemma report_matches: "matchesFilter parse e (report_filter win l off) = matchesFilter parse e (report_filter win 1 0)"
  by (cases win) (simp add: matchesFilter_def report_filter_def)

lemma report_query:
  assumes "0 < l" and "l \<le> 1000"
  shows "as_Query parse (report_filter win l (int off)) store = take (nat l) (drop off (report_rows parse win store))"
proof -
  have f: "qfLimit (report_filter win l (int off)) = l" "qfOffset (report_filter win l (int off)) = int off"
    by (cases win, simp add: report_filter_def)+
  show ?thesis using assms unfolding as_Query_def Let_def f report_matches [of parse _ win l "int off"] report_rows_def page_def
    by auto
qed

text \<open>Paging reads the newest ten thousand events of the window, without a gap or a repetition.\<close>

lemma scan_exact_from:
  "n \<le> length L \<Longrightarrow> n \<le> maxEvents \<Longrightarrow> n mod pageSize = 0 \<Longrightarrow>
    scan_pages (\<lambda>off. take pageSize (drop off L)) (take n L) n = take maxEvents L"
proof (induction "maxEvents - n" arbitrary: n rule: less_induct)
  case less
  have len: "length (take n L) = n" using less.prems(1) by simp
  show ?case
  proof (cases "maxEvents \<le> n")
    case True
    then show ?thesis using less.prems len by (subst scan_pages.simps) simp
  next
    case False
    have room: "n + pageSize \<le> maxEvents" using False less.prems(3) by (auto simp: pageSize_def maxEvents_def)
    show ?thesis
    proof (cases "length L - n < pageSize")
      case True
      then have "length L \<le> maxEvents" using room less.prems(1) by linarith
      then show ?thesis using True False len by (subst scan_pages.simps) (simp add: min_def)
    next
      case page: False
      have "take n L @ take pageSize (drop n L) = take (n + pageSize) L" by (simp add: take_add)
      moreover have "scan_pages (\<lambda>off. take pageSize (drop off L)) (take (n + pageSize) L) (n + pageSize) = take maxEvents L"
        using page room less.prems(1,3) by (intro less.hyps) (auto simp: pageSize_def)
      ultimately show ?thesis using page False len by (subst scan_pages.simps) (simp add: Let_def)
    qed
  qed
qed

theorem agents_scan_exact:
  "scan_pages (\<lambda>offset. as_Query parse (report_filter win (int pageSize) (int offset)) store) [] 0
     = take maxEvents (report_rows parse win store)"
proof -
  have "(\<lambda>offset. as_Query parse (report_filter win (int pageSize) (int offset)) store)
      = (\<lambda>off. take pageSize (drop off (report_rows parse win store)))"
    using report_query [of "int pageSize" parse win _ store] by (simp add: pageSize_def fun_eq_iff)
  then show ?thesis using scan_exact_from [of 0 "report_rows parse win store"] by simp
qed

subsection \<open>The inventory accounts for the events\<close>

lemma agent_fold: "map_of (fold agent_step events []) i =
    (case filter (\<lambda>e. agent_bucket e = i) events of [] \<Rightarrow> None | es \<Rightarrow> Some (fold count_event es no_agent))"
proof (induction events arbitrary: i rule: rev_induct)
  case (snoc e events)
  show ?case using snoc [of "agent_bucket e"] snoc [of i]
    by (cases "filter (\<lambda>e. agent_bucket e = i) events") (auto simp: agent_step_def Let_def update_conv')
qed simp

lemma agent_fold_distinct: "distinct (map fst (fold agent_step events []))"
  by (induction events rule: rev_induct) (simp_all add: agent_step_def Let_def distinct_update)

lemma count_event_fields:
  "gaCalls (fold count_event es a) = gaCalls a + length es"
  "gaBlocked (fold count_event es a) = gaBlocked a + length (filter (\<lambda>e. evDecision e \<noteq> [] \<and> evDecision e \<noteq> DecisionAllow) es)"
  "set (gaTools (fold count_event es a)) = set (gaTools a) \<union> (evTool ` set es - {[]})"
  "set (gaSessions (fold count_event es a)) = set (gaSessions a) \<union> (evSessionID ` set es - {[]})"
  by (induction es arbitrary: a) (auto simp: count_event_def)

definition agent_accounts :: "Event list \<Rightarrow> string \<Rightarrow> agent_acc \<Rightarrow> bool" where
  "agent_accounts events i a \<longleftrightarrow>
     (let es = filter (\<lambda>e. agent_bucket e = i) events in
      gaCalls a = length es \<and> 0 < gaCalls a
      \<and> gaBlocked a = length (filter (\<lambda>e. evDecision e \<noteq> [] \<and> evDecision e \<noteq> DecisionAllow) es)
      \<and> set (gaTools a) = evTool ` set es - {[]} \<and> set (gaSessions a) = evSessionID ` set es - {[]})"

theorem inventory_accounts:
  "(i, a) \<in> set (fold agent_step events []) \<Longrightarrow> agent_accounts events i a"
  "e \<in> set events \<Longrightarrow> agent_bucket e \<in> fst ` set (fold agent_step events [])"
proof -
  assume "(i, a) \<in> set (fold agent_step events [])"
  then have m: "map_of (fold agent_step events []) i = Some a" using agent_fold_distinct by (rule map_of_is_SomeI [rotated])
  then obtain es where es: "filter (\<lambda>e. agent_bucket e = i) events = es" "es \<noteq> []" "a = fold count_event es no_agent"
    unfolding agent_fold by (auto split: list.splits)
  show "agent_accounts events i a" unfolding agent_accounts_def es(1) Let_def using es(2)
    by (simp add: es(3) count_event_fields no_agent_def)
next
  assume "e \<in> set events"
  then have "filter (\<lambda>e'. agent_bucket e' = agent_bucket e) events \<noteq> []" by (auto simp: filter_empty_conv)
  then have "map_of (fold agent_step events []) (agent_bucket e) \<noteq> None" unfolding agent_fold by (simp split: list.splits)
  then show "agent_bucket e \<in> fst ` set (fold agent_step events [])" by (simp add: map_of_eq_None_iff)
qed

subsection \<open>Reports of a tenant\<close>

definition own_rows :: "string \<Rightarrow> AuditStore \<Rightarrow> memoryEntry list" where
  "own_rows tenant store = filter (\<lambda>x. evTenant (enEvent x) = tenant) (snapshotEntries store)"

lemma report_rows_own:
  assumes "tenant \<noteq> []" and "own_rows tenant store = own_rows tenant store'"
  shows "report_rows parse (tenant, since, till) store = report_rows parse (tenant, since, till) store'"
proof -
  let ?m = "\<lambda>x. matchesFilter parse (enEvent x) (report_filter (tenant, since, till) 1 0)"
  have "filter ?m (snapshotEntries s) = filter ?m (own_rows tenant s)" for s
    using assms(1) unfolding own_rows_def filter_filter
    by (intro filter_cong) (auto simp: matchesFilter_def report_filter_def split: if_splits)
  with assms(2) show ?thesis unfolding report_rows_def by metis
qed

lemma report_tenant:
  assumes "aaTenant (resolveAdminAuth r cfg) = tenant" and "tenant \<noteq> []" and "report_window cfg env r = Inr win"
  shows "fst win = tenant"
  using assms by (auto simp: report_window_def pinTenant_def Let_def split: if_splits option.splits sum.splits)

text \<open>Another tenant's traffic has no influence on what a tenant's token is shown.\<close>

theorem reports_tenant_isolated:
  assumes "aaTenant (resolveAdminAuth r cfg) = tenant" and "tenant \<noteq> []" and "own_rows tenant store = own_rows tenant store'"
  shows "NewAdminAgentsHandler cfg env parse r store = NewAdminAgentsHandler cfg env parse r store'"
    "NewAdminFlowMapHandler cfg env parse configured guard scopes r store
       = NewAdminFlowMapHandler cfg env parse configured guard scopes r store'"
    "NewAdminFlowRecommendHandler cfg env parse configured guard r store
       = NewAdminFlowRecommendHandler cfg env parse configured guard r store'"
proof -
  have rows: "report_rows parse win store = report_rows parse win store'" if "report_window cfg env r = Inr win" for win
    using report_rows_own [OF assms(2,3)] report_tenant [OF assms(1,2) that] by (cases win) simp
  show "NewAdminAgentsHandler cfg env parse r store = NewAdminAgentsHandler cfg env parse r store'"
    using rows by (simp add: NewAdminAgentsHandler_def agents_scan_exact split: sum.split prod.split)
  have limit: "0 < parseIntParam r ''limit'' 1000 1 1000 \<and> parseIntParam r ''limit'' 1000 1 1000 \<le> 1000"
    by (simp add: parseIntParam_def Let_def split: option.split)
  have flow: "flowMapEvents cfg env parse r store = flowMapEvents cfg env parse r store'"
    using rows report_query [of "parseIntParam r ''limit'' 1000 1 1000" parse _ 0] limit
    by (simp add: flowMapEvents_def Let_def split: sum.split)
  show "NewAdminFlowMapHandler cfg env parse configured guard scopes r store
       = NewAdminFlowMapHandler cfg env parse configured guard scopes r store'"
    "NewAdminFlowRecommendHandler cfg env parse configured guard r store
       = NewAdminFlowRecommendHandler cfg env parse configured guard r store'"
    unfolding NewAdminFlowMapHandler_def NewAdminFlowRecommendHandler_def flow by simp_all
qed

text \<open>
  Two examples of the inventory: an agent whose id is \<open>unknown\<close> is reported as unidentified, together with the callers
  that have no id; and time stamps are compared as texts, in which a fraction of a second sorts before the whole second.
\<close>

lemma unknown_agent_merged:
  "map (\<lambda>a. (oaAgentID a, oaCalls a)) (Aggregate [seen ''unknown'' ''pay'' DecisionAllow, seen [] ''pay'' DecisionAllow]) = [([], 2)]"
  by code_simp

lemma last_seen_not_latest:
  "map oaLastSeen (Aggregate [(seen ''a'' ''pay'' DecisionAllow)\<lparr>evTimestamp := ''00:00:05Z''\<rparr>,
     (seen ''a'' ''pay'' DecisionAllow)\<lparr>evTimestamp := ''00:00:05.5Z''\<rparr>]) = [''00:00:05Z'']"
  by code_simp

end
