(* ===== verification/ProofOfIntent.thy ===== *)
theory ProofOfIntent
  imports Reports
begin

text \<open>
  Package \<open>internal/proofofintent\<close>: a signed bundle of audit events as evidence for one decision or session, and the
  endpoint that issues it (\<open>internal/handlers/admin_proofofintent.go\<close>). The keyed hash is an argument; the text that is
  signed is the JSON encoding of the bundle without its signature.

  The lemmas show that a signed bundle verifies, that a signature stands for one bundle only (relative to a
  collision-free hash), and what the issued bundles do and do not establish.
\<close>

subsection \<open>Bundles (proofofintent.go)\<close>

definition BundleVersion :: string where "BundleVersion = ''poi-1''"

record PoiEntry =
  peEventID :: string
  peTs :: string
  peAgent :: string
  peTool :: string
  peDecision :: string
  peCheck :: string
  peReason :: string
  peIntentSummary :: string
  peResultSHA256 :: string
  pePrevHash :: string
  peHash :: string

record PoiBundle =
  pbVersion :: string
  pbTenant :: string
  pbSubject :: string
  pbGeneratedAt :: string
  pbEntries :: "PoiEntry list"
  pbKeyID :: string
  pbSignature :: string

definition poi_Build :: "string \<Rightarrow> string \<Rightarrow> PoiEntry list \<Rightarrow> string \<Rightarrow> PoiBundle" where
  "poi_Build tenant subject entries generatedAt =
     \<lparr>pbVersion = BundleVersion, pbTenant = tenant, pbSubject = subject, pbGeneratedAt = generatedAt, pbEntries = entries,
      pbKeyID = [], pbSignature = []\<rparr>"

definition entry_members :: "PoiEntry \<Rightarrow> (string \<times> jval) list" where
  "entry_members e =
     [(''event_id'', JS (peEventID e)), (''ts'', JS (peTs e)), (''agent'', JS (peAgent e)), (''tool'', JS (peTool e)),
      (''decision'', JS (peDecision e)), (''check'', JS (peCheck e)), (''reason'', JS (peReason e)),
      (''intent_summary'', JS (peIntentSummary e)), (''result_sha256'', JS (peResultSHA256 e)), (''prev_hash'', JS (pePrevHash e)),
      (''hash'', JS (peHash e))]"

definition enc_entries :: "PoiEntry list \<Rightarrow> string" where
  "enc_entries es = ''['' @ commas (map (\<lambda>e. enc_object (entry_members e)) es) @ '']''"

text \<open>\<open>canonicalBytes\<close>; the handlers never sign a bundle without entries, whose list Go would write as \<open>null\<close>.\<close>

definition poi_canonical :: "PoiBundle \<Rightarrow> string" where
  "poi_canonical b =
     CHR ''{'' # enc_member (''version'', JS (pbVersion b)) @ '','' @ enc_member (''tenant'', JS (pbTenant b)) @ '',''
     @ enc_member (''subject'', JS (pbSubject b)) @ '','' @ enc_member (''generated_at'', JS (pbGeneratedAt b)) @ '',''
     @ json_string ''entries'' @ '':'' @ (if pbEntries b = [] then ''null'' else enc_entries (pbEntries b)) @ '',''
     @ enc_member (''key_id'', JS (pbKeyID b)) @ ''}''"

definition poi_Sign :: "(bytes \<Rightarrow> bytes \<Rightarrow> bytes) \<Rightarrow> string \<Rightarrow> bytes \<Rightarrow> PoiBundle \<Rightarrow> PoiBundle" where
  "poi_Sign H keyID key b =
     (let b1 = b\<lparr>pbKeyID := keyID\<rparr> in b1\<lparr>pbSignature := hex_encode (H key (poi_canonical b1))\<rparr>)"

definition hex_DecodeString :: "string \<Rightarrow> bytes option" where
  "hex_DecodeString s = (if even (length s) \<and> list_all hex_char s then Some (hex_decode s) else None)"

text \<open>Consecutive entries that both carry hashes must be adjacent in the audit chain.\<close>

fun poi_linked :: "PoiEntry list \<Rightarrow> bool" where
  "poi_linked (a # b # es) = ((peHash a = [] \<or> pePrevHash b = [] \<or> peHash a = pePrevHash b) \<and> poi_linked (b # es))"
| "poi_linked _ = True"

definition poi_Verify :: "(bytes \<Rightarrow> bytes \<Rightarrow> bytes) \<Rightarrow> PoiBundle \<Rightarrow> bytes \<Rightarrow> bool \<times> string" where
  "poi_Verify H b key =
     (if pbSignature b = [] then (False, ''unsigned'')
      else case hex_DecodeString (pbSignature b) of
        None \<Rightarrow> (False, ''malformed_signature'')
      | Some want \<Rightarrow>
          if H key (poi_canonical b) \<noteq> want then (False, ''signature_mismatch'')
          else if \<not> poi_linked (pbEntries b) then (False, ''chain_break'') else (True, ''verified''))"

subsection \<open>The endpoint (handlers/admin_proofofintent.go)\<close>

record proofBody =
  pfSessionID :: string
  pfEventID :: string
  pfTenant :: string

definition poi_entry :: "Event \<Rightarrow> PoiEntry" where
  "poi_entry e =
     \<lparr>peEventID = evEventID e, peTs = evTimestamp e, peAgent = evAgentID e, peTool = evTool e, peDecision = evDecision e,
      peCheck = evCheck e, peReason = evReason e, peIntentSummary = evIntentSummary e, peResultSHA256 = evResultSHA256 e,
      pePrevHash = [], peHash = []\<rparr>"

definition poi_selected :: "proofBody \<Rightarrow> Event \<Rightarrow> bool" where
  "poi_selected body e \<longleftrightarrow> \<not> (pfSessionID body \<noteq> [] \<and> evSessionID e \<noteq> pfSessionID body) \<and> \<not> (pfEventID body \<noteq> [] \<and> evEventID e \<noteq> pfEventID body)"

definition NewAdminProofOfIntentHandler :: "AdminConfig \<Rightarrow> admin_env \<Rightarrow> (string \<Rightarrow> gotime option) \<Rightarrow> admin_request
    \<Rightarrow> string + proofBody \<Rightarrow> AuditStore \<Rightarrow> PoiBundle admin_reply" where
  "NewAdminProofOfIntentHandler cfg env parse r decoded store =
     (let auth = resolveAdminAuth r cfg in
      if \<not> aaOk auth then unauthorized
      else if \<not> acAuditStore cfg then AdminError 503 ''audit store not configured''
      else if acMasterKey cfg = [] then AdminError 503 ''master key not configured''
      else case decoded of
        Inl e \<Rightarrow> AdminError 400 (''invalid JSON: '' @ e)
      | Inr body \<Rightarrow>
          if pfSessionID body = [] \<and> pfEventID body = [] then AdminError 400 ''session_id or event_id is required''
          else case pinTenant auth (pfTenant body) of
            None \<Rightarrow> AdminError 403 ''tenant does not match admin token's tenant''
          | Some tenant \<Rightarrow>
              (let events = as_Query parse (report_filter (tenant, 0, 0) 1000 0) store;
                   subject = (if pfSessionID body = [] then pfEventID body else pfSessionID body);
                   matched = map poi_entry (filter (poi_selected body) events) in
               if matched = [] then AdminError 404 ''no audit events found for that subject''
               else AdminOk 200 (poi_Sign (anHMAC env) ''master-hmac-v1'' (acMasterKey cfg)
                      (poi_Build tenant subject (sort_key peTs matched) (anFormatTime env (anNow env))))))"

subsection \<open>Signing and verifying\<close>

lemma hex_digit_chars: "n < 16 \<Longrightarrow> hex_char (hex_digit n) \<and> hex_val (lower_char (hex_digit n)) = n"
proof -
  have "list_all (\<lambda>n. hex_char (hex_digit n) \<and> hex_val (lower_char (hex_digit n)) = n) [0..<16]" by code_simp
  then show "n < 16 \<Longrightarrow> hex_char (hex_digit n) \<and> hex_val (lower_char (hex_digit n)) = n" by (simp add: list_all_iff)
qed

lemma hex_roundtrip [simp]: "hex_DecodeString (hex_encode b) = Some b"
proof (induction b)
  case Nil
  show ?case by (simp add: hex_DecodeString_def hex_encode_def)
next
  case (Cons c b)
  have n: "(of_char c :: nat) div 16 < 16" "(of_char c :: nat) mod 16 < 16"
    using nat_of_char_less_256 [of c] by (simp_all add: less_mult_imp_div_less)
  have "char_of ((of_char c :: nat) div 16 * 16 + of_char c mod 16) = c" by (simp only: div_mult_mod_eq) simp
  with Cons hex_digit_chars [OF n(1)] hex_digit_chars [OF n(2)] show ?case
    by (auto simp: hex_DecodeString_def hex_encode_Cons split: if_splits)
qed

theorem signed_verifies:
  assumes "\<And>m. H key m \<noteq> []"
  shows "poi_Verify H (poi_Sign H keyID key b) key = (if poi_linked (pbEntries b) then (True, ''verified'') else (False, ''chain_break''))"
proof -
  have ne: "hex_encode (H key m) \<noteq> []" for m using assms [of m] by (cases "H key m") (simp_all add: hex_encode_Cons)
  have canon: "poi_canonical (b\<lparr>pbKeyID := keyID, pbSignature := s\<rparr>) = poi_canonical (b\<lparr>pbKeyID := keyID\<rparr>)" for s
    by (simp add: poi_canonical_def)
  show ?thesis by (simp add: poi_Verify_def poi_Sign_def Let_def canon ne)
qed

text \<open>A signature stands for one bundle: the fields are texts without bytes outside ASCII.\<close>

definition entry_ascii :: "PoiEntry \<Rightarrow> bool" where
  "entry_ascii e \<longleftrightarrow> list_all member_ascii (entry_members e)"

definition poi_ascii :: "PoiBundle \<Rightarrow> bool" where
  "poi_ascii b \<longleftrightarrow> list_all ascii [pbVersion b, pbTenant b, pbSubject b, pbGeneratedAt b, pbKeyID b] \<and> list_all entry_ascii (pbEntries b)"

lemma entry_text_inj:
  assumes "entry_ascii a" and "entry_ascii b" and "enc_object (entry_members a) @ x = enc_object (entry_members b) @ y"
  shows "a = b \<and> x = y"
  using assms enc_object_inj [of "entry_members a" "entry_members b" x y]
  by (auto simp: entry_ascii_def list_all_iff entry_members_def)

lemma enc_entries_inj:
  assumes "list_all entry_ascii es" and "list_all entry_ascii fs" and "enc_entries es @ x = enc_entries fs @ y"
  shows "es = fs \<and> x = y"
proof (rule commas_inj [where P = entry_ascii and f = "\<lambda>e. enc_object (entry_members e)" and cl = "CHR '']''"])
  fix a b d e x y
  assume "entry_ascii a" "entry_ascii b" "enc_object (entry_members a) @ d # x = enc_object (entry_members b) @ e # y"
  from entry_text_inj [OF this] show "a = b \<and> d = e \<and> x = y" by simp
qed (use assms in \<open>simp_all add: enc_object_def enc_entries_def list_all_iff\<close>)

lemma enc_entries_start: "enc_entries es @ x \<noteq> ''null'' @ y"
  by (simp add: enc_entries_def)

lemma poi_entries_inj:
  assumes "list_all entry_ascii es" and "list_all entry_ascii fs"
    and "(if es = [] then ''null'' else enc_entries es) @ x = (if fs = [] then ''null'' else enc_entries fs) @ y"
  shows "es = fs \<and> x = y"
  using assms enc_entries_inj [of es fs x y] enc_entries_start [of es x y] enc_entries_start [of fs y x]
  by (auto split: if_splits)

lemma poi_canonical_inj:
  assumes "poi_ascii b" and "poi_ascii c" and "poi_canonical b = poi_canonical c"
  shows "c\<lparr>pbSignature := pbSignature b\<rparr> = b"
proof -
  let ?tail = "\<lambda>b. '','' @ enc_member (''key_id'', JS (pbKeyID b)) @ ''}''"
  have f: "pbVersion b = pbVersion c \<and> pbTenant b = pbTenant c \<and> pbSubject b = pbSubject c \<and> pbGeneratedAt b = pbGeneratedAt c
      \<and> (if pbEntries b = [] then ''null'' else enc_entries (pbEntries b)) @ ?tail b
        = (if pbEntries c = [] then ''null'' else enc_entries (pbEntries c)) @ ?tail c"
    using assms unfolding poi_canonical_def enc_member_def poi_ascii_def
    by (simp add: json_string_inj)
  then have e: "pbEntries b = pbEntries c \<and> ?tail b = ?tail c" using assms(1,2) by (intro poi_entries_inj) (auto simp: poi_ascii_def)
  then have "pbKeyID b = pbKeyID c" using assms(1,2) json_string_inj [of "pbKeyID b" "pbKeyID c" "[]" "[]"]
    by (simp add: enc_member_def poi_ascii_def)
  with f e show ?thesis by (cases b; cases c) simp
qed

theorem signature_binds_bundle:
  assumes "inj (H key)" and "poi_ascii b" and "poi_ascii c" and "fst (poi_Verify H b key)" and "fst (poi_Verify H c key)"
    and "pbSignature b = pbSignature c"
  shows "b = c"
proof -
  have "poi_canonical b = poi_canonical c"
    using assms(1,4,5,6) by (auto simp: poi_Verify_def inj_def split: if_splits option.splits)
  from poi_canonical_inj [OF assms(2,3) this] assms(6) show ?thesis by simp
qed

subsection \<open>What an issued bundle establishes\<close>

lemma issued_entries:
  assumes "NewAdminProofOfIntentHandler cfg env parse r (Inr body) store = AdminOk 200 b"
  shows "\<exists>tenant. pbTenant b = tenant \<and> pbEntries b = sort_key peTs (map poi_entry (filter (poi_selected body)
    (take 1000 (report_rows parse (tenant, 0, 0) store))))"
proof -
  have q: "as_Query parse (report_filter (tenant, 0, 0) 1000 0) store = take 1000 (report_rows parse (tenant, 0, 0) store)" for tenant
    using report_query [of 1000 parse "(tenant, 0, 0)" 0 store] by simp
  show ?thesis using assms
    by (auto simp: NewAdminProofOfIntentHandler_def Let_def poi_Sign_def poi_Build_def q split: if_splits option.splits)
qed

text \<open>An issued bundle verifies under the master key.\<close>

lemma linked_without_hashes: "list_all (\<lambda>e. peHash e = []) es \<Longrightarrow> poi_linked es"
  by (induction es rule: poi_linked.induct) simp_all

theorem issued_verifies:
  assumes "NewAdminProofOfIntentHandler cfg env parse r (Inr body) store = AdminOk 200 b" and "\<And>m. anHMAC env (acMasterKey cfg) m \<noteq> []"
  shows "poi_Verify (anHMAC env) b (acMasterKey cfg) = (True, ''verified'')"
proof -
  obtain u where b: "b = poi_Sign (anHMAC env) ''master-hmac-v1'' (acMasterKey cfg) u"
    using assms(1) by (auto simp: NewAdminProofOfIntentHandler_def Let_def split: if_splits option.splits)
  have "list_all (\<lambda>e. peHash e = []) (pbEntries b)"
    using issued_entries [OF assms(1)] by (auto simp: list_all_iff poi_entry_def)
  then have "poi_linked (pbEntries u)" using linked_without_hashes by (simp add: b poi_Sign_def Let_def)
  with signed_verifies [of "anHMAC env" "acMasterKey cfg" "''master-hmac-v1''" u, OF assms(2)] show ?thesis by (simp add: b)
qed

text \<open>
  The linkage test says nothing about issued bundles: their entries carry no hashes, so every selection and order of
  them passes it. And only the newest thousand events of the tenant are looked at.
\<close>

lemma issued_links_vacuous:
  assumes "NewAdminProofOfIntentHandler cfg env parse r (Inr body) store = AdminOk 200 b" and "set es \<subseteq> set (pbEntries b)"
  shows "poi_linked es"
  using issued_entries [OF assms(1)] assms(2) by (intro linked_without_hashes) (auto simp: list_all_iff poi_entry_def)

lemma issued_truncated:
  assumes "NewAdminProofOfIntentHandler cfg env parse r (Inr body) store = AdminOk 200 b"
    and "e \<in> set (pbEntries b)"
  shows "\<exists>i < 1000. i < length (report_rows parse (pbTenant b, 0, 0) store) \<and> e = poi_entry (report_rows parse (pbTenant b, 0, 0) store ! i)"
proof -
  have "\<exists>x \<in> set (take 1000 (report_rows parse (pbTenant b, 0, 0) store)). e = poi_entry x"
    using issued_entries [OF assms(1)] assms(2) by auto
  then show ?thesis by (fastforce simp: in_set_conv_nth)
qed

end
