(* ===== verification/Spec2Isabelle.thy ===== *)
theory Spec2Isabelle
  imports Velocity AuditStore Backends OutputSchema AdminIsolation PiiFilter ReplyGateway Shipping StreamHub GovernedPath Credentials ProofOfIntent
begin

text \<open>
  A verification of the IntentGate gateway, the Go program under \<open>src/\<close>.

  \<^bold>\<open>The program.\<close> The gateway stands between agents and the tool servers they call. An agent sends a JSON-RPC
  \<open>tools/call\<close> to \<open>/v1/mcp\<close> with a capability token; \<open>internal/handlers/mcp.go\<close> runs the call through a fixed sequence
  of checks, records an audit event for what it decided, and forwards the call to the upstream only when every check
  let it pass; the answer goes through the response filters on its way back. Around this pipeline are the stores the
  checks read (budget, revocation, kill switch, tasks, approvals, payloads, audit, policies), the tokens and signed
  artefacts they verify, and an admin API through which operators and tenants change that state.

  \<^bold>\<open>Conventions.\<close> Every definition is translated from the source and keeps its name, with a prefix where two packages
  share one. Operations are total functions on explicit state: a Go struct is a record, an error is \<open>Inl\<close> or
  \<^const>\<open>Some\<close> of a value of the package's error type, a panic is \<^const>\<open>None\<close> or a constructor of its own. Clock
  readings, random bytes, keyed hashes, formatted texts, \<open>encoding/json\<close> decoding, Rego evaluation and the HTTP client
  are arguments (the record \<open>env\<close> in the pipeline). Integers are unbounded where the code cannot reach the end of
  \<open>int64\<close>, and \<open>wrap64\<close> marks the places where it can. A mutex section is one step; what a client may observe
  between two sections is an explicit interleaving of steps.

  \<^bold>\<open>Foundations.\<close>
  \<^item> \<open>GoBase\<close>, \<open>Json\<close>, \<open>Encoding\<close>, \<open>Sha256\<close>, \<open>Glob\<close>, \<open>Regex\<close>: the parts of Go's standard library the packages use:
    strings, instants, \<open>Atoi\<close>, decoded JSON, base64 and JSON text, SHA-256 and HMAC, \<open>path.Match\<close>, and the matcher of
    package \<open>regexp\<close>. Shown: base64 and JSON strings decode to what was encoded, encoding is injective, the spans a
    search reports lie in the text, ascend and do not overlap.

  \<^bold>\<open>Tokens and signed artefacts.\<close>
  \<^item> \<open>Capability\<close>, \<open>Delegation\<close> (\<open>internal/capability\<close>): minting, signing, attenuation, verification and the caveats.
    Shown: attenuation only narrows, a token derived by anyone verifies, the signature binds every claim and caveat
    (relative to a collision-free keyed hash), \<open>Check\<close> is the conjunction of the window and the caveats.
  \<^item> \<open>Obo\<close> (\<open>internal/obo\<close>), \<open>Provenance\<close> (\<open>internal/provenance\<close>), \<open>Bundle\<close> (\<open>internal/bundle\<close>,
    \<open>internal/bundleadapter\<close>): on-behalf-of tokens, signed memory chains, compiled authority bundles with their
    registry and decision procedure.

  \<^bold>\<open>Stores.\<close>
  \<^item> \<open>Budget\<close>, \<open>Revocation\<close>, \<open>KillSwitch\<close>, \<open>TaskBinder\<close>, \<open>Approvals\<close>, \<open>Payloads\<close>, \<open>AuditStore\<close>, \<open>PolicyStore\<close>: the
    in-memory stores, operation by operation, each with the invariant every operation keeps. Shown among others: calls
    under a budget never exceed it, however the token was delegated; a revocation holds for its tenant and a global
    one for all; an engaged kill switch halts exactly what it covers until it is released; an approval row is decided
    at most once and only by a decision, and describes the call that was enqueued up to its arguments, which the row
    shares with the parked call and which that call may rewrite (\<open>rewriteArgs\<close>); the audit chain verifies as written and
    shows every edit of the window that leaves no row without a hash.
  \<^item> \<open>AuditEvent\<close> (\<open>internal/audit\<close>): events, redaction, canonical text and hash.

  \<^bold>\<open>Guards.\<close>
  \<^item> \<open>ActionIr\<close>, \<open>ActionGuard\<close>, \<open>RefVerify\<close>, \<open>TenantScope\<close>, \<open>EastWest\<close>, \<open>Velocity\<close>, \<open>Deception\<close>, \<open>FaultIsolation\<close>,
    \<open>Extractor\<close>: the decision procedures of the checks, each with the statement that its verdict is the documented
    one, and the bounds of the breaker, the bulkhead and the rate window. \<open>Velocity\<close> counts and records in two critical
    sections, so its bound is for any interleaving of concurrent calls and grows with their number.
  \<^item> \<open>OutputSchema\<close>: validation and stripping of results; validation ends and decides conformance.
  \<^item> \<open>PiiDetect\<close>, \<open>PiiFilter\<close> (\<open>internal/pii\<close>): patterns, checksums, detection, redaction and the filter. Shown: every
    validated hit lies inside a reported match, redaction of disjoint matches is exact, the checksums decide their
    reference definitions and catch every single-digit error, the most restrictive action wins.

  \<^bold>\<open>The pipeline\<close> (\<open>internal/handlers/mcp*.go\<close>, \<open>internal/mcp\<close>).
  \<^item> \<open>Mcp\<close>, \<open>Gateway\<close>, \<open>Checks\<close>, \<open>Stages\<close>, \<open>Pipeline\<close>: the envelopes, the configuration and the state of a request
    (record \<open>world\<close>), the checks, one function per stage and their composition \<open>authorize\<close>, the forward, the response
    stages, the passthrough and \<open>ServeHTTP\<close>. A stage returns the reply that ends the request or a value to go on with.
  \<^item> \<open>Mediation\<close>, \<open>Trail\<close>, \<open>Backends\<close>: what a forwarded call has passed, each verdict on the backends its predecessor
    left; that each answered call ends with an event whose decision is what the caller was told; and the handler over
    the in-memory stores. The locales \<open>frame\<close>, \<open>guard_frame\<close> and \<open>containment\<close> hold the arguments
    that are the same for every stage; they are interpreted on the stages and stores of the model.
  \<^item> This theory: complete mediation, the token a forward needs, the audit of every call, containment after a decoy,
    and what is forwarded.

  \<^bold>\<open>Beside the pipeline.\<close>
  \<^item> \<open>ReplyGateway\<close> (\<open>internal/handlers/reply.go\<close>): the inspection of an agent's answer to its user. Shown: what has
    been established when a reply is passed on, and the event every blocked or redacted reply leaves.
  \<^item> \<open>Shipping\<close> (\<open>internal/siem\<close>, \<open>internal/webhook\<close>, \<open>internal/auditstore/emitter.go\<close>): the queue and worker behind the
    asynchronous emitters as interleaved atomic actions, and the selection of events. Shown: order, bounds and
    accounting of what was accepted, and that stopping drains it.
  \<^item> \<open>StreamHub\<close> (\<open>internal/audit/stream.go\<close>): the hub of the live view with its replay ring.
  \<^item> \<open>GovernedPath\<close> (\<open>internal/handlers/mcp_intentgrant.go\<close> with its clients): the path on which the control plane
    decides. Shown: a tool call is forwarded only on its ALLOW for this agent and tool, every failure refuses, and a
    decision leaves one outcome.
  \<^item> \<open>FlowMap\<close> (\<open>internal/flowmap\<close>, \<open>internal/segrec\<close>): the graph of observed calls and the proposed segmentation.
    Shown: an edge counts exactly its calls, and the guard of \<open>EastWest\<close> on the proposal allows exactly the observed
    traffic.
  \<^item> \<open>Reports\<close> (\<open>internal/discovery\<close>, \<open>admin_agents.go\<close>, the flow-map endpoints): the inventory of agents and the reports
    over the audit log. Shown: paging has no gap, the inventory accounts for every event, and a tenant's report depends
    on the tenant's own events only.
  \<^item> \<open>ProofOfIntent\<close> (\<open>internal/proofofintent\<close>, \<open>admin_proofofintent.go\<close>): signed evidence bundles. Shown: an issued
    bundle verifies, a signature stands for one bundle, and what the linkage test of issued bundles is worth.
  \<^item> \<open>Credentials\<close> (\<open>internal/credentials\<close>, \<open>admin_credentials.go\<close>): the upstream secrets, sealed at rest. Shown: the
    store and its table agree after every operation, and the endpoints are write-only for secrets; the secrets belong
    to no tenant, and every admin token may replace them.

  \<^bold>\<open>The admin API\<close> (\<open>internal/handlers/admin*.go\<close>, \<open>internal/policystore\<close>, \<open>internal/policy/reloader.go\<close>).
  \<^item> \<open>PolicyReload\<close>, \<open>Admin\<close>, \<open>AdminOps\<close>, \<open>PolicyAdmin\<close>, \<open>PolicyLife\<close>, \<open>AdminIsolation\<close>: authentication, minting and
    exceptions, revocations, kill switch, tasks, approvals, audit queries, the twelve policy endpoints, and sessions
    of such calls. Shown: four eyes on every policy that goes live, the running engine is the one of the active draft,
    a tenant's token changes nothing of another tenant, and is shown, at these endpoints, its own rows, the kills that
    halt it and the policies that decide its calls; exceptions are bounded.

  \<^bold>\<open>Interfaces.\<close> A locale states what a client relies on and is interpreted on the model's own definitions: the
  counters and stores (\<open>Budget\<close>, \<open>Revocation\<close>, \<open>KillSwitch\<close>, \<open>TaskBinder\<close>, \<open>Velocity\<close>), the rules of default denial
  (\<open>EastWest\<close>), the engine slots of the reloader, the frame rules of the pipeline and of the admin API, containment,
  the exchange sorts of the detector, and unwinding for the credential endpoints.

  \<^bold>\<open>Bounds and termination.\<close> No definition uses fuel. Recursions that are not structural end by a measure on the text
  or the value they consume; a repetition without an upper bound in an expression is unrolled at most as often as
  bytes remain, which suffices because an iteration that takes nothing cannot help a match. Examples use a keyed hash
  that is a constant; the theorems are about an arbitrary one, with the collision-freeness they need as a hypothesis.

  \<^bold>\<open>Not modelled.\<close> The PostgreSQL and Redis backends, the sinks that format and post events, and the metrics are I/O
  around contracts proved on the in-memory stores and queues; \<open>cmd/\<close> and \<open>internal/server\<close> parse configuration and
  register routes. One goroutine of \<open>cmd/gateway\<close> has logic of its own: \<open>watchAndReloadPolicy\<close> repeats the swaps of the
  policy endpoints on the notifications of the store, for the other replicas; the statements on the running engine are
  about the swaps the endpoints make themselves. Rego evaluation is the OPA library. The remaining endpoints of the admin API (integrations, dry run,
  export) and the advisory packages (authoring, effect preview, federation, risk register) are read-only or remote; the
  tool-schema sanitizer and the session rewind are not called by the gateway. \<open>PROJECT.json\<close> lists every part with its
  status and reason.
\<close>

section \<open>The pipeline as a whole\<close>

text \<open>
  C1. Complete mediation: a call reaches the upstream only after every check the configuration switches on has let it
  pass, in this run and in this order: the capability check and the decoys; the declared intent; the task binding; the
  memory provenance; the compiled authority; the effect guard; the payee reference; segmentation by agent and zone; the
  policy; the budget; the request filter; the tenant scope; and a permit of the fault isolator. The checks that consult
  the backends are chained: each found the backends \<open>st\<close> its predecessor left, starting with those of the request.
  Where the compiled authority, the effect guard, the payee reference or the policy asked for a human, the approval row
  of this very call was read or awaited at that point of the chain and was approved. Tenant scope speaks of the
  arguments \<open>m\<close> the request filter left, and exempts tools in its telemetry mode; a configured check may exempt a call
  by its own rules, which the clauses spell out (an agent-to-agent call has no declared intent, a call without a task
  header binds none).
\<close>

theorem complete_mediation:
  assumes "handleToolsCall cfg env r req w = (rep, w')" and "wForwards w' \<noteq> wForwards w"
  shows "\<exists>params i p m s st1 st2 st3 st4 st5 st6 st7. eParams env (rqParams req) = Inr params \<and>
    (let c0 = received cfg env r req params (wStore w); c = c0\<lparr>clInt := i\<rparr> in
     crErr (clCap c) = None
     \<and> de_Check (eLib env) (cfDeception cfg) (decoyInput env c) = None
     \<and> intent_ok cfg env c0 i w st1
     \<and> task_passed cfg env c st1 st2
     \<and> (\<exists>pv. runProvenanceCheck cfg env (hProvenance r) (cap_jti (clCap c)) = Inr pv)
     \<and> bundle_passed cfg env c st2 st3
     \<and> guard_passed cfg env c (wGuard w) st3 st4
     \<and> payee_passed cfg env c st4 st5
     \<and> segment_passed cfg env c
     \<and> policy_passed cfg env c p st5 st6
     \<and> runBudgetCheck cfg (clCap c) st6 = (Inr s, st7)
     \<and> request_filtered cfg p (tpArguments params) m
     \<and> tenant_passed cfg c m
     \<and> isolator_passed cfg env (tpName params) (wIsolator w))"
proof -
  obtain params c' p u body where e: "eParams env (rqParams req) = Inr params"
    and a: "authorize cfg env (received cfg env r req params (wStore w)) w = (Inr (c', p), u)"
    and perm: "isolator_passed cfg env (tpName params) (wIsolator w)"
    by (rule forwarded_call [OF assms]) (rule that)
  show ?thesis
  proof (rule authorize_passed [OF a], goal_cases)
    case (1 i st1 st2 st3 st4 st5 st6 st7 s m)
    have t: "tenant_passed cfg ((received cfg env r req params (wStore w))\<lparr>clInt := i\<rparr>) m"
      by (rule tenant_passed_kept [THEN iffD2, OF _ 1(13)]) (simp add: call_kept_def)
    show ?case
      by (rule exI [of _ params], rule exI [of _ i], rule exI [of _ p], rule exI [of _ m], rule exI [of _ s],
          rule exI [of _ st1], rule exI [of _ st2], rule exI [of _ st3], rule exI [of _ st4], rule exI [of _ st5],
          rule exI [of _ st6], rule exI [of _ st7])
        (use 1(1-12) t e perm in \<open>simp add: Let_def\<close>)
  qed
qed

theorem complete_mediation_witness:
  "\<exists>params i p m s st1 st2 st3 st4 st5 st6 st7. eParams demo_env (rqParams (demo_request ''read'')) = Inr params \<and>
    (let c0 = received demo_cfg demo_env demo_http (demo_request ''read'') params (wStore demo_world); c = c0\<lparr>clInt := i\<rparr> in
     crErr (clCap c) = None
     \<and> de_Check (eLib demo_env) (cfDeception demo_cfg) (decoyInput demo_env c) = None
     \<and> intent_ok demo_cfg demo_env c0 i demo_world st1
     \<and> task_passed demo_cfg demo_env c st1 st2
     \<and> (\<exists>pv. runProvenanceCheck demo_cfg demo_env (hProvenance demo_http) (cap_jti (clCap c)) = Inr pv)
     \<and> bundle_passed demo_cfg demo_env c st2 st3
     \<and> guard_passed demo_cfg demo_env c (wGuard demo_world) st3 st4
     \<and> payee_passed demo_cfg demo_env c st4 st5
     \<and> segment_passed demo_cfg demo_env c
     \<and> policy_passed demo_cfg demo_env c p st5 st6
     \<and> runBudgetCheck demo_cfg (clCap c) st6 = (Inr s, st7)
     \<and> request_filtered demo_cfg p (tpArguments params) m
     \<and> tenant_passed demo_cfg c m
     \<and> isolator_passed demo_cfg demo_env (tpName params) (wIsolator demo_world))"
proof -
  obtain resp w' where "handleToolsCall demo_cfg demo_env demo_http (demo_request ''read'') demo_world = (Reply resp, w')"
    and "wForwards w' \<noteq> wForwards demo_world"
    using demo_forwards by (auto simp: demo_world_def)
  from complete_mediation [OF this] show ?thesis .
qed

text \<open>
  C2. With capabilities required, a call reaches the upstream only with a token that decodes, verifies under
  the master key, is neither halted by the kill switch nor revoked at the moment of the check, and whose
  caveats allow this tool.
\<close>

theorem forward_needs_token:
  assumes "handleToolsCall cfg env r req w = (rep, w')" and "wForwards w' \<noteq> wForwards w" and "cfRequireCapability cfg"
  shows "\<exists>params text tok. eParams env (rqParams req) = Inr params
    \<and> FromAuthorizationHeader (hAuthorization r) = Inr text \<and> Decode (eToken env) text = Inr tok
    \<and> Verify (eHmac env) tok (cfMasterKey cfg) = None
    \<and> kill_check (cfKillSwitch cfg) tok (wStore w) = None
    \<and> revocation_check (cfRevocation cfg) tok (wStore w) = None
    \<and> cap_Check tok (call_context tok (tpName params) (isEastWest cfg (tpName params))) (eClock env AtCaveats) = None"
proof -
  obtain params c' p u body where e: "eParams env (rqParams req) = Inr params"
    and a: "authorize cfg env (received cfg env r req params (wStore w)) w = (Inr (c', p), u)"
    by (rule forwarded_call [OF assms(1,2)]) (rule that)
  have "crErr (runCapabilityCheck cfg env r (tpName params) (isEastWest cfg (tpName params)) (wStore w)) = None"
    by (rule authorize_passed [OF a]) (simp add: received_def)
  from capability_ok [OF this] assms(3) e show ?thesis by auto
qed

theorem forward_needs_token_witness:
  "\<exists>text tok. FromAuthorizationHeader (hAuthorization demo_http) = Inr text \<and> Decode (eToken demo_env) text = Inr tok
    \<and> Verify (eHmac demo_env) tok (cfMasterKey demo_cfg) = None
    \<and> revocation_check (cfRevocation demo_cfg) tok (wStore demo_world) = None"
proof -
  obtain resp w' where "handleToolsCall demo_cfg demo_env demo_http (demo_request ''read'') demo_world = (Reply resp, w')"
    and "wForwards w' \<noteq> wForwards demo_world"
    using demo_forwards by (auto simp: demo_world_def)
  from forward_needs_token [OF this] show ?thesis by (auto simp: demo_cfg_def)
qed

text \<open>
  C19. One request is forwarded at most once, and what is forwarded is the request as it was received, with the
  credential of its tool: the rewriting of arguments by the request filter and by the tenant scope does not
  reach the upstream.
\<close>

theorem forward_is_original:
  "wForwards (snd (handleToolsCall cfg env r req w)) = wForwards w
   \<or> (\<exists>params body. eParams env (rqParams req) = Inr params \<and> eMarshalRequest env req = Inr body
        \<and> wForwards (snd (handleToolsCall cfg env r req w)) = wForwards w @ [(body, cfCredentials cfg (tpName params))])"
proof (cases "wForwards (snd (handleToolsCall cfg env r req w)) = wForwards w")
  case False
  obtain rep w' where "handleToolsCall cfg env r req w = (rep, w')" by fastforce
  with False forwarded_call [OF this] show ?thesis by fastforce
qed simp

text \<open>
  C9. Every answered tool call is on the audit trail. If the parameters do not decode or name no tool, the call is refused
  as invalid and nothing changes: these two refusals leave no event. Otherwise the last event the call leaves names its
  tool, agent, token and tenant, and its decision is what the caller was told: a block goes with an error and no result;
  an escalation with the synthetic result of a decoy, or with the answer that the call is parked under the id the event
  carries; an allow with the stub's result if no upstream is configured, and otherwise with the upstream's answer to the
  one forward of this call (its id, its error if any, a result if it had one, and its status on the event). One kind of
  answer may come without an event: that the parked call this request asks about is still pending, in which case nothing
  is forwarded. The events that were there before stay as they were.
\<close>

theorem every_call_audited:
  assumes "handleToolsCall cfg env r req w = (Reply resp, w')"
  shows "case eParams env (rqParams req) of
      Inl e \<Rightarrow> resp = NewErrorResponse (rqID req) CodeInvalidParams ''invalid tools/call params'' (Some (JStr e)) \<and> w' = w
    | Inr params \<Rightarrow>
        if tpName params = [] then
          resp = NewErrorResponse (rqID req) CodeInvalidParams ''params.name is required'' None \<and> w' = w
        else accounted cfg env (received cfg env r req params (wStore w)) resp w w'"
proof (cases "eParams env (rqParams req)")
  case (Inl e)
  with assms show ?thesis by (simp add: handleToolsCall_def)
next
  case (Inr params)
  let ?c = "received cfg env r req params (wStore w)"
  let ?k = "\<lambda>(c', p). case cfUpstream cfg of None \<Rightarrow> stubAllow cfg env c' p | Some up \<Rightarrow> forwardToUpstream cfg env up c' p"
  have q: "kept w u" if "authorize cfg env ?c w = (x, u)" for x u
    using trail.quiet_authorize [of cfg env ?c] that unfolding quiet_def by (metis snd_conv)
  have passed: "accounted cfg env ?c resp w w''"
    if a: "authorize cfg env ?c w = (Inr y, u)" and k: "?k y u = (Reply resp, w'')" for y u resp w''
  proof -
    obtain c' p where y: "y = (c', p)" by fastforce
    have c': "call_kept ?c c'" by (rule authorize_passed [OF a [unfolded y]])
    have "accounted cfg env c' resp u w''"
    proof (cases "cfUpstream cfg")
      case None
      with k y show ?thesis by (auto simp: stubAllow_def Let_def intro: stub_accounted)
    qed (use k y forward_accounted in auto)
    from accounted_later [OF accounted_kept [OF c' this] q [OF a]] show ?thesis .
  qed
  have "accounted cfg env ?c resp w w'" if "tpName params \<noteq> []"
  proof (rule finish_accounted [OF _ recorded_authorize])
    show "finish (authorize cfg env ?c w) ?k = (Reply resp, w')"
      using assms Inr that by (simp add: handleToolsCall_def received_def Let_def)
  qed (use q passed in blast)+
  with assms Inr show ?thesis by (auto simp: handleToolsCall_def)
qed

theorem every_call_audited_witness:
  "\<exists>resp w'. handleToolsCall demo_cfg demo_env demo_http (demo_request ''read'') demo_world = (Reply resp, w')
     \<and> accounted demo_cfg demo_env demo_call resp demo_world w'"
proof -
  obtain resp w' where h: "handleToolsCall demo_cfg demo_env demo_http (demo_request ''read'') demo_world = (Reply resp, w')"
    using demo_forwards by blast
  have "eParams demo_env (rqParams (demo_request ''read'')) = Inr (demo_params ''read'')" "tpName (demo_params ''read'') \<noteq> []"
    by (simp_all add: demo_env_def demo_request_def demo_params_def)
  with every_call_audited [OF h] h show ?thesis by (auto simp: demo_received)
qed

text \<open>
  C11. Touching a containing decoy ends the agent's session at once: the call is not forwarded, and from then
  on, with the in-memory kill switch and revocation store, every request that presents the token, or any
  token derived from it by attenuation, or any other token of the same agent and tenant, fails the
  capability check.
\<close>

theorem decoy_touch_contains:
  assumes "handleToolsCall cfg env r req w = (rep, w')" and "eParams env (rqParams req) = Inr params"
    and "tpName params \<noteq> []"
    and "de_Check (eLib env) (cfDeception cfg) (decoyInput env (received cfg env r req params (wStore w))) = Some d"
    and "drContain d" and "cfKillSwitch cfg = Some mem_kill" and "cfRevocation cfg = Some mem_revocation"
    and "crToken (clCap (received cfg env r req params (wStore w))) = Some tok"
    and "FromAuthorizationHeader (hAuthorization r') = Inr text" and "text \<noteq> []" and "Decode (eToken env') text = Inr tok'"
    and "tkTenant tok' = tkTenant tok"
    and "tkID tok' = tkID tok \<and> tkID tok \<noteq> []
      \<or> tkSubject tok' = tkSubject tok \<and> trim_space (tkSubject tok) \<noteq> [] \<and> trim_space (tkTenant tok) \<noteq> []"
  shows "wForwards w' = wForwards w \<and> crErr (runCapabilityCheck cfg env' r' tool ew (wStore w')) \<noteq> None"
proof -
  let ?c = "received cfg env r req params (wStore w)"
  have fwd: "wForwards w' = wForwards w" and st: "wStore w' = contain cfg env ?c d (wStore w)"
    using decoy_contained [OF assms(1-5)] by simp_all
  have agent: "crAgentID (clCap ?c) = tkSubject tok"
    using assms(8) by (auto simp: received_def runCapabilityCheck_def cap_fail_def
        split: sum.splits if_splits option.splits)
  from assms(13) have "kill_check (cfKillSwitch cfg) tok' (wStore w') \<noteq> None
      \<or> revocation_check (cfRevocation cfg) tok' (wStore w') \<noteq> None"
  proof
    assume "tkID tok' = tkID tok \<and> tkID tok \<noteq> []"
    then show ?thesis unfolding st
      using memory.contained_token_refused [OF assms(7,5,8), of tok' env "wStore w"] assms(12) by simp
  next
    assume "tkSubject tok' = tkSubject tok \<and> trim_space (tkSubject tok) \<noteq> [] \<and> trim_space (tkTenant tok) \<noteq> []"
    then show ?thesis unfolding st
      using memory.contained_agent_halted [OF assms(6,7,5,8) agent, of tok' env "wStore w"] assms(12) by blast
  qed
  from revoked_refused [OF assms(9,11,10) this] fwd show ?thesis by simp
qed

theorem decoy_touch_contains_witness:
  "\<exists>rep w'. handleToolsCall demo_cfg demo_env demo_http (demo_request ''vault'') demo_world = (rep, w')
     \<and> wForwards w' = wForwards demo_world
     \<and> crErr (runCapabilityCheck demo_cfg demo_env demo_http ''read'' False (wStore w')) \<noteq> None"
proof -
  obtain rep w' where h: "handleToolsCall demo_cfg demo_env demo_http (demo_request ''vault'') demo_world = (rep, w')"
    by fastforce
  have p: "eParams demo_env (rqParams (demo_request ''vault'')) = Inr (demo_params ''vault'')" "tpName (demo_params ''vault'') \<noteq> []"
    by (simp_all add: demo_env_def demo_request_def demo_params_def)
  have t: "FromAuthorizationHeader (hAuthorization demo_http) = Inr ''dG9r''" "Decode (eToken demo_env) ''dG9r'' = Inr demo_token"
    by code_simp+
  have c: "cfKillSwitch demo_cfg = Some mem_kill" "cfRevocation demo_cfg = Some mem_revocation" by (simp_all add: demo_cfg_def)
  have i: "tkID demo_token \<noteq> []" by (simp add: demo_token_def)
  from decoy_touch_contains [OF h p demo_touch(1) _ c demo_touch(2) t(1) _ t(2), of "''read''" False] i h
  show ?thesis by auto
qed

end
